(* ===== verification/Prelude.thy ===== *)
theory Prelude
  imports Main "HOL-Library.Sublist" "HOL-Library.Code_Target_Nat"
begin

text \<open>
  Shared vocabulary of the development: results of fallible code, the JavaScript string
  and number operations that the Workers call, and a generic invariant principle for
  state machines.

  A JavaScript string is modelled as a \<open>string\<close> whose characters are its UTF-16 code
  units; only code units below 256 can be written this way, which is enough for every
  character the modelled code tests for. A thrown error is the left injection of a sum.
\<close>

named_theorems js_string "equations that evaluate the string helpers"

section \<open>Results: a thrown error is Inl, a returned value is Inr\<close>

definition bindE :: "'e + 'a \<Rightarrow> ('a \<Rightarrow> 'e + 'b) \<Rightarrow> 'e + 'b" where
  "bindE r f = (case r of Inl e \<Rightarrow> Inl e | Inr a \<Rightarrow> f a)"

definition checkE :: "bool \<Rightarrow> 'e \<Rightarrow> 'e + unit" where
  "checkE b e = (if b then Inr () else Inl e)"

fun mapE :: "('a \<Rightarrow> 'e + 'b) \<Rightarrow> 'a list \<Rightarrow> 'e + 'b list" where
  "mapE f [] = Inr []"
| "mapE f (x # xs) = bindE (f x) (\<lambda>y. bindE (mapE f xs) (\<lambda>ys. Inr (y # ys)))"

lemma bindE_simps [simp]:
  "bindE (Inl e) f = Inl e"
  "bindE (Inr a) f = f a"
  by (simp_all add: bindE_def)

lemma bindE_Inr_iff: "bindE r f = Inr b \<longleftrightarrow> (\<exists>a. r = Inr a \<and> f a = Inr b)"
  by (cases r) auto

lemma bindE_Inl_iff: "bindE r f = Inl e \<longleftrightarrow> r = Inl e \<or> (\<exists>a. r = Inr a \<and> f a = Inl e)"
  by (cases r) auto

lemma bindE_InrE [elim!]:
  assumes "bindE r f = Inr b"
  obtains a where "r = Inr a" and "f a = Inr b"
  using assms by (auto simp: bindE_Inr_iff)

lemma checkE_Inr [simp]: "checkE b e = Inr u \<longleftrightarrow> b"
  by (simp add: checkE_def)

lemma checkE_Inl [simp]: "checkE b e = Inl e' \<longleftrightarrow> \<not> b \<and> e' = e"
  by (auto simp: checkE_def)

lemma checkE_True [simp]: "checkE True e = Inr ()"
  by simp

lemma mapE_length: "mapE f xs = Inr ys \<Longrightarrow> length ys = length xs"
  by (induction xs arbitrary: ys) auto

lemma mapE_Inr_all2: "mapE f xs = Inr ys \<Longrightarrow> list_all2 (\<lambda>x y. f x = Inr y) xs ys"
  by (induction xs arbitrary: ys) auto

lemma mapE_cong [fundef_cong]:
  assumes "xs = ys" and "\<And>x. x \<in> set ys \<Longrightarrow> f x = g x"
  shows "mapE f xs = mapE g ys"
proof -
  have "\<forall>x \<in> set zs. f x = g x \<Longrightarrow> mapE f zs = mapE g zs" for zs
    by (induction zs) auto
  with assms show ?thesis by blast
qed

text \<open>\<open>Array.prototype.map\<close> with a callback that may throw and that updates a variable of
  the enclosing function, here the second component.\<close>

fun mapS :: "('a \<Rightarrow> 's \<Rightarrow> 'e + ('b \<times> 's)) \<Rightarrow> 'a list \<Rightarrow> 's \<Rightarrow> 'e + ('b list \<times> 's)" where
  "mapS f [] s = Inr ([], s)"
| "mapS f (x # xs) s =
     bindE (f x s) (\<lambda>(y, s'). bindE (mapS f xs s') (\<lambda>(ys, s''). Inr (y # ys, s'')))"

lemma mapS_length: "mapS f xs s = Inr (ys, t) \<Longrightarrow> length ys = length xs"
  by (induction xs arbitrary: ys s) auto

text \<open>A callback that only appends to the variable.\<close>

lemma mapS_append:
  assumes "\<And>x s y t. x \<in> set xs \<Longrightarrow> f x s = Inr (y, t) \<Longrightarrow> \<exists>u. t = s @ u \<and> P x (length s) y u"
    and "mapS f xs s = Inr (ys, t)"
  shows "\<exists>us. t = s @ concat us \<and> length us = length xs \<and> length ys = length xs \<and>
    (\<forall>i < length xs. P (xs ! i) (length s + length (concat (take i us))) (ys ! i) (us ! i))"
  using assms
proof (induction xs arbitrary: s ys)
  case Nil
  then show ?case by (intro exI [of _ "[]"]) auto
next
  case (Cons x xs)
  from Cons.prems(2) obtain y s1 zs where step: "f x s = Inr (y, s1)"
    and rest: "mapS f xs s1 = Inr (zs, t)" and ys: "ys = y # zs"
    by auto
  from Cons.prems(1) [OF _ step] obtain u where s1: "s1 = s @ u" and P: "P x (length s) y u"
    by auto
  from Cons.IH [OF Cons.prems(1) rest] obtain us where t: "t = s1 @ concat us"
    and len: "length us = length xs" "length zs = length xs"
    and Ps: "\<forall>i < length xs. P (xs ! i) (length s1 + length (concat (take i us))) (zs ! i) (us ! i)"
    by auto
  show ?case
  proof (intro exI [of _ "u # us"] conjI allI impI)
    show "t = s @ concat (u # us)" using s1 t by simp
    show "length (u # us) = length (x # xs)" "length ys = length (x # xs)" using len ys by simp_all
    fix i assume "i < length (x # xs)"
    then show "P ((x # xs) ! i) (length s + length (concat (take i (u # us)))) (ys ! i) ((u # us) ! i)"
      using P Ps ys s1 by (cases i) (simp_all add: add.assoc)
  qed
qed

section \<open>Characters\<close>

definition code :: "char \<Rightarrow> nat" where
  "code c = of_char c"

definition is_digit :: "char \<Rightarrow> bool" where
  "is_digit c \<longleftrightarrow> 48 \<le> code c \<and> code c \<le> 57"

definition is_upper :: "char \<Rightarrow> bool" where
  "is_upper c \<longleftrightarrow> 65 \<le> code c \<and> code c \<le> 90"

definition is_lower :: "char \<Rightarrow> bool" where
  "is_lower c \<longleftrightarrow> 97 \<le> code c \<and> code c \<le> 122"

text \<open>The characters that the regular expression class for white space (and \<open>trim\<close>)
  matches among code units below 256.\<close>

definition is_ws :: "char \<Rightarrow> bool" where
  "is_ws c \<longleftrightarrow> code c \<in> {9, 10, 11, 12, 13, 32, 160}"

text \<open>\<open>toUpperCase\<close> and \<open>toLowerCase\<close>, on ASCII letters.\<close>

definition to_upper :: "char \<Rightarrow> char" where
  "to_upper c = (if is_lower c then char_of (code c - 32) else c)"

definition to_lower :: "char \<Rightarrow> char" where
  "to_lower c = (if is_upper c then char_of (code c + 32) else c)"

lemmas char_class_defs =
  code_def is_digit_def is_upper_def is_lower_def is_ws_def to_upper_def to_lower_def

declare char_class_defs [js_string]

lemma not_ws_semicolon [simp]: "\<not> is_ws (CHR '';'')"
  by (simp add: char_class_defs)

section \<open>Strings\<close>

definition hd_is :: "char \<Rightarrow> string \<Rightarrow> bool" where
  "hd_is c s = (case s of [] \<Rightarrow> False | x # _ \<Rightarrow> x = c)"

lemma hd_is_simps [simp]:
  "hd_is c [] = False"
  "hd_is c (x # xs) \<longleftrightarrow> x = c"
  by (simp_all add: hd_is_def)

lemma hd_isE [elim]:
  assumes "hd_is c s"
  obtains t where "s = c # t"
  using assms by (cases s) auto

definition js_trim :: "string \<Rightarrow> string" where
  "js_trim s = rev (dropWhile is_ws (rev (dropWhile is_ws s)))"

lemma js_trim_split:
  obtains pre post where "s = pre @ js_trim s @ post"
    and "\<forall>c \<in> set pre. is_ws c" and "\<forall>c \<in> set post. is_ws c"
proof
  let ?d = "dropWhile is_ws s"
  have d: "?d = js_trim s @ rev (takeWhile is_ws (rev ?d))"
    unfolding js_trim_def
    by (metis rev_append rev_rev_ident takeWhile_dropWhile_id)
  show "s = takeWhile is_ws s @ js_trim s @ rev (takeWhile is_ws (rev ?d))"
    using d by (metis takeWhile_dropWhile_id)
  show "\<forall>c \<in> set (takeWhile is_ws s). is_ws c"
    by (auto dest: set_takeWhileD)
  show "\<forall>c \<in> set (rev (takeWhile is_ws (rev ?d))). is_ws c"
    by (auto dest: set_takeWhileD)
qed

lemma js_trim_length: "length (js_trim s) \<le> length s"
proof -
  obtain pre post where "s = pre @ js_trim s @ post"
    by (rule js_trim_split)
  then have "length s = length pre + length (js_trim s) + length post"
    by (metis add.assoc length_append)
  then show ?thesis by linarith
qed

lemma js_trim_id:
  assumes "s \<noteq> []" "\<not> is_ws (hd s)" "\<not> is_ws (last s)"
  shows "js_trim s = s"
proof -
  from assms(1,2) have "dropWhile is_ws s = s"
    by (cases s) auto
  moreover from assms(1,3) have "dropWhile is_ws (rev s) = rev s"
    by (cases "rev s") (auto simp: last_rev hd_rev [symmetric])
  ultimately show ?thesis by (simp add: js_trim_def)
qed

lemma js_trim_ends:
  assumes "js_trim s \<noteq> []"
  shows "\<not> is_ws (hd (js_trim s))" "\<not> is_ws (last (js_trim s))"
proof -
  let ?d = "dropWhile is_ws s"
  let ?e = "dropWhile is_ws (rev ?d)"
  from assms have e: "?e \<noteq> []"
    by (simp add: js_trim_def)
  then have "\<not> is_ws (hd ?e)"
    by (rule hd_dropWhile)
  with e show "\<not> is_ws (last (js_trim s))"
    by (simp add: js_trim_def last_rev)
  have d: "?d \<noteq> []"
    using e by (metis dropWhile.simps(1) rev.simps(1))
  have "\<exists>t. ?d = js_trim s @ t"
    unfolding js_trim_def
    by (metis rev_append rev_rev_ident takeWhile_dropWhile_id)
  then have "hd (js_trim s) = hd ?d"
    using assms by (metis hd_append2)
  with d show "\<not> is_ws (hd (js_trim s))"
    by (simp add: hd_dropWhile)
qed

lemma js_trim_idem [simp]: "js_trim (js_trim s) = js_trim s"
proof (cases "js_trim s = []")
  case True
  have "js_trim [] = []" by (simp add: js_trim_def)
  with True show ?thesis by simp
next
  case False
  then show ?thesis by (metis js_trim_ends js_trim_id)
qed

text \<open>\<open>Array.prototype.join\<close> and the decimal rendering of a natural number.\<close>

fun join :: "string \<Rightarrow> string list \<Rightarrow> string" where
  "join sep [] = []"
| "join sep [x] = x"
| "join sep (x # y # xs) = x @ sep @ join sep (y # xs)"

definition digit_char :: "nat \<Rightarrow> char" where
  "digit_char d = char_of (48 + d)"

fun nat_str :: "nat \<Rightarrow> string" where
  "nat_str n = (if n < 10 then [digit_char n] else nat_str (n div 10) @ [digit_char (n mod 10)])"

declare nat_str.simps [simp del]

definition int_str :: "int \<Rightarrow> string" where
  "int_str i = (if i < 0 then ''-'' @ nat_str (nat (- i)) else nat_str (nat i))"

lemma code_digit_char: "d < 10 \<Longrightarrow> code (digit_char d) = 48 + d"
  by (simp add: digit_char_def code_def)

lemma digit_char_is_digit: "d < 10 \<Longrightarrow> is_digit (digit_char d)"
  by (simp add: is_digit_def code_digit_char)

lemma digit_char_inj: "d < 10 \<Longrightarrow> e < 10 \<Longrightarrow> digit_char d = digit_char e \<Longrightarrow> d = e"
  by (metis add_left_cancel code_digit_char)

lemma nat_str_digits: "c \<in> set (nat_str n) \<Longrightarrow> is_digit c"
proof (induction n rule: nat_str.induct)
  case (1 n)
  show ?case
  proof (cases "n < 10")
    case True
    with "1.prems" show ?thesis
      by (subst (asm) nat_str.simps) (simp add: digit_char_is_digit)
  next
    case False
    with "1.prems" have "c \<in> set (nat_str (n div 10)) \<or> c = digit_char (n mod 10)"
      by (subst (asm) nat_str.simps) auto
    with False "1.IH" show ?thesis
      by (auto intro: digit_char_is_digit)
  qed
qed

lemma nat_str_nonempty [simp]: "nat_str n \<noteq> []"
  by (subst nat_str.simps) simp

lemma code_zero_char: "code c = 48 \<longleftrightarrow> c = CHR ''0''"
proof -
  have "(48 :: nat) = of_char (CHR ''0'')" by simp
  then show ?thesis unfolding code_def by (metis of_char_eq_iff)
qed

text \<open>\<open>Number\<close> of a string of digits reads the number back.\<close>

definition digits_val :: "string \<Rightarrow> nat" where
  "digits_val s = foldl (\<lambda>a c. 10 * a + (code c - 48)) 0 s"

lemma digits_val_snoc: "digits_val (s @ [c]) = 10 * digits_val s + (code c - 48)"
  by (simp add: digits_val_def)

lemma digits_val_nat_str [simp]: "digits_val (nat_str n) = n"
proof (induction n rule: nat_str.induct)
  case (1 n)
  show ?case
  proof (cases "n < 10")
    case True
    then show ?thesis
      by (subst nat_str.simps) (simp add: digits_val_def code_digit_char)
  next
    case False
    have "digits_val (nat_str n) = digits_val (nat_str (n div 10) @ [digit_char (n mod 10)])"
      using False by (subst nat_str.simps) simp
    also have "\<dots> = 10 * (n div 10) + n mod 10"
      using "1.IH" [OF False] by (simp add: digits_val_snoc code_digit_char)
    finally show ?thesis by simp
  qed
qed

lemma digits_val_pos:
  assumes "s \<noteq> []" "is_digit (hd s)" "hd s \<noteq> CHR ''0''"
  shows "0 < digits_val s"
proof -
  have le: "a \<le> foldl (\<lambda>a c. 10 * a + (code c - 48)) a cs" for a cs
  proof (induction cs arbitrary: a)
    case Nil
    show ?case by simp
  next
    case (Cons c cs)
    have "a \<le> 10 * a + (code c - 48)" by simp
    with Cons [of "10 * a + (code c - 48)"] show ?case by simp
  qed
  have "code (hd s) \<noteq> 48"
    using assms(3) by (simp add: code_zero_char)
  with assms le [of "code (hd s) - 48" "tl s"] show ?thesis
    by (cases s) (auto simp: digits_val_def is_digit_def)
qed

lemma nat_str_inj: "nat_str m = nat_str n \<longleftrightarrow> m = n"
  by (metis digits_val_nat_str)

text \<open>The number of occurrences of a character, and doubling one in a string
  (\<open>replaceAll(q, qq)\<close>), with its inverse.\<close>

fun double_char :: "char \<Rightarrow> string \<Rightarrow> string" where
  "double_char q [] = []"
| "double_char q (c # cs) = (if c = q then q # q # double_char q cs else c # double_char q cs)"

fun halve_char :: "char \<Rightarrow> string \<Rightarrow> string" where
  "halve_char q [] = []"
| "halve_char q (c # cs) = (if c = q \<and> hd_is q cs then q # halve_char q (tl cs) else c # halve_char q cs)"

lemma halve_double [simp]: "halve_char q (double_char q s) = s"
  by (induction s) auto

lemma double_char_inj: "double_char q s = double_char q t \<longleftrightarrow> s = t"
  by (metis halve_double)

text \<open>\<open>split\<close> at a character, and at runs of white space.\<close>

fun split_char :: "char \<Rightarrow> string \<Rightarrow> string list" where
  "split_char sep [] = [[]]"
| "split_char sep (c # cs) =
     (if c = sep then [] # split_char sep cs
      else case split_char sep cs of p # ps \<Rightarrow> (c # p) # ps | [] \<Rightarrow> [[c]])"

lemma split_char_nonempty [simp]: "split_char sep s \<noteq> []"
  by (cases s) (auto split: list.splits)

function split_ws :: "string \<Rightarrow> string list" where
  "split_ws s =
    (let rest = dropWhile (\<lambda>c. \<not> is_ws c) s in
     takeWhile (\<lambda>c. \<not> is_ws c) s # (if rest = [] then [] else split_ws (dropWhile is_ws rest)))"
  by pat_completeness auto
termination
proof (relation "measure length")
  fix s rest :: string
  assume rest: "rest = dropWhile (\<lambda>c. \<not> is_ws c) s" and ne: "rest \<noteq> []"
  have "is_ws (hd rest)"
    using hd_dropWhile [of "\<lambda>c. \<not> is_ws c" s] rest ne by simp
  then have "length (dropWhile is_ws rest) < length rest"
    using ne by (cases rest) (auto intro: le_imp_less_Suc length_dropWhile_le)
  then show "(dropWhile is_ws rest, s) \<in> measure length"
    using length_dropWhile_le [of "\<lambda>c. \<not> is_ws c" s] rest by simp
qed simp

declare split_ws.simps [simp del]

section \<open>Searching a list\<close>

lemma find_Some_in: "List.find P xs = Some x \<Longrightarrow> x \<in> set xs \<and> P x"
  by (induction xs) (auto split: if_splits)

section \<open>Runs of a state machine\<close>

text \<open>
  A component whose operations are functions on its state: what every operation keeps, every
  sequence of operations keeps.
\<close>

locale machine =
  fixes step :: "'op \<Rightarrow> 's \<Rightarrow> 's" and inv :: "'s \<Rightarrow> bool"
  assumes step_inv: "inv s \<Longrightarrow> inv (step op s)"
begin

lemma run_inv: "inv s \<Longrightarrow> inv (fold step ops s)"
  by (induction ops arbitrary: s) (auto intro: step_inv)

end

text \<open>
  A machine with a relation between the states before and after a step (what may change in one
  step): the states of a run are related one to the next. When the relation is reflexive and
  transitive, the last state is related to the first.
\<close>

locale walking_machine = machine step inv
  for step :: "'op \<Rightarrow> 's \<Rightarrow> 's" and inv :: "'s \<Rightarrow> bool" +
  fixes rel :: "'s \<Rightarrow> 's \<Rightarrow> bool"
  assumes step_rel: "inv s \<Longrightarrow> rel s (step op s)"
begin

lemma run_walk:
  assumes "inv s" "n < length ops"
  shows "rel (fold step (take n ops) s) (fold step (take (Suc n) ops) s)"
  using step_rel [OF run_inv [OF assms(1)], of "take n ops" "ops ! n"] assms(2)
  by (simp add: take_Suc_conv_app_nth)

end

locale evolving_machine = walking_machine step inv rel
  for step :: "'op \<Rightarrow> 's \<Rightarrow> 's" and inv :: "'s \<Rightarrow> bool" and rel :: "'s \<Rightarrow> 's \<Rightarrow> bool" +
  assumes rel_refl: "rel s s"
    and rel_trans: "rel s t \<Longrightarrow> rel t u \<Longrightarrow> rel s u"
begin

lemma run_rel: "inv s \<Longrightarrow> rel s (fold step ops s)"
proof (induction ops arbitrary: s)
  case Nil
  show ?case by (simp add: rel_refl)
next
  case (Cons op ops)
  from Cons.IH [OF step_inv [OF Cons.prems]] step_rel [OF Cons.prems]
  show ?case by (auto intro: rel_trans)
qed

lemma run_split_rel: "inv s \<Longrightarrow> rel (fold step ops s) (fold step (ops @ ops') s)"
  using run_rel [OF run_inv] by simp

end

end
