(* ===== verification/DbTypes.thy ===== *)
theory DbTypes
  imports Prelude
begin

text \<open>
  The public errors and dialects of \<open>apps/database-mcp-worker/src/errors.ts\<close> and
  \<open>types.ts\<close>: an operation of the database Worker throws a \<open>PublicError\<close>, which is its
  code with a message.
\<close>

datatype public_error_code =
    AUTH_REQUIRED
  | AUTH_INVALID
  | ACCESS_DENIED
  | CONNECTION_NOT_FOUND
  | CONNECTION_DISABLED
  | CONNECTION_UNAVAILABLE
  | TLS_VERIFICATION_FAILED
  | CONFIGURATION_UNAVAILABLE
  | ENCRYPTION_KEY_UNAVAILABLE
  | REVISION_CONFLICT
  | INVALID_INPUT
  | MULTI_STATEMENT_REJECTED
  | READ_ONLY_VIOLATION
  | QUERY_TIMEOUT
  | RESULT_LIMIT_EXCEEDED
  | WRITE_NOT_CONFIGURED
  | WRITE_LIMIT_EXCEEDED
  | ADMIN_NOT_CONFIGURED
  | ADMIN_OPERATION_NOT_SUPPORTED
  | ADMIN_CONFIRMATION_REQUIRED
  | BODY_TOO_LARGE
  | RATE_LIMITED
  | DATABASE_ERROR
  | INTERNAL_ERROR

datatype public_error = PublicError (error_code: public_error_code) (error_message: string)

datatype dialect = Postgres | Mysql

end
