(* ===== verification/SqlLex.thy ===== *)
theory SqlLex
  imports DbTypes
begin

text \<open>
  The SQL scanner of \<open>apps/database-mcp-worker/src/sql/guard.ts\<close>. The code keeps an
  index into the string; here the state is the rest of the string, and the position of a
  statement terminator is counted from the start. One iteration of the scanner's loop is
  \<open>scan_step\<close>; \<open>scan_from\<close> is the loop.
\<close>

named_theorems sql_lex "equations of the scanner's loops"

section \<open>Character classes\<close>

definition isWordStart :: "char \<Rightarrow> bool" where
  "isWordStart c \<longleftrightarrow> is_upper c \<or> is_lower c \<or> c = CHR ''_''"

definition isWordPart :: "char \<Rightarrow> bool" where
  "isWordPart c \<longleftrightarrow> is_upper c \<or> is_lower c \<or> is_digit c \<or> c = CHR ''_'' \<or> c = CHR ''$''"

definition isTagChar :: "char \<Rightarrow> bool" where
  "isTagChar c \<longleftrightarrow> is_upper c \<or> is_lower c \<or> is_digit c \<or> c = CHR ''_''"

definition is_eol :: "char \<Rightarrow> bool" where
  "is_eol c \<longleftrightarrow> c = CHR 0x0A \<or> c = CHR 0x0D"

section \<open>The loops that skip a comment, a literal or a quoted identifier\<close>

text \<open>Up to, and not including, the end of the line.\<close>

fun skip_line :: "string \<Rightarrow> string" where
  "skip_line [] = []"
| "skip_line (c # cs) = (if is_eol c then c # cs else skip_line cs)"

text \<open>After the opening of a block comment: past the first closing one, None if there
  is none.\<close>

fun skip_block :: "string \<Rightarrow> string option" where
  "skip_block [] = None"
| "skip_block (c # cs) =
     (if c = CHR ''*'' \<and> hd_is (CHR ''/'') cs then Some (tl cs) else skip_block cs)"

text \<open>After an opening single quote: a backslash skips a character, a doubled quote is a
  quote, a single one ends the literal.\<close>

fun skip_single :: "string \<Rightarrow> string option" where
  "skip_single [] = None"
| "skip_single (c # cs) =
     (if c = CHR 0x5C then skip_single (tl cs)
      else if c = CHR 0x27 then
        (if hd_is (CHR 0x27) cs then skip_single (tl cs) else Some cs)
      else skip_single cs)"

text \<open>After an opening double quote or backtick.\<close>

fun skip_quoted :: "char \<Rightarrow> string \<Rightarrow> string option" where
  "skip_quoted q [] = None"
| "skip_quoted q (c # cs) =
     (if c = q then (if hd_is q cs then skip_quoted q (tl cs) else Some cs)
      else skip_quoted q cs)"

text \<open>The \<open>indexOf\<close> search for the closing dollar tag: what follows its first
  occurrence.\<close>

fun after_first :: "string \<Rightarrow> string \<Rightarrow> string option" where
  "after_first pat [] = (if pat = [] then Some [] else None)"
| "after_first pat (c # cs) =
     (if take (length pat) (c # cs) = pat then Some (drop (length pat) (c # cs))
      else after_first pat cs)"

text \<open>The three comment openings that the scanner refuses, tested on what follows the
  opening of the comment.\<close>

definition executable_comment :: "string \<Rightarrow> bool" where
  "executable_comment r \<longleftrightarrow>
     hd_is (CHR ''!'') r \<or> hd_is (CHR ''+'') r \<or>
     ((hd_is (CHR ''m'') r \<or> hd_is (CHR ''M'') r) \<and> hd_is (CHR ''!'') (tl r))"

section \<open>One iteration of the loop of scan\<close>

datatype lexeme = Skipped | Word string | Terminator

definition skipped_or :: "public_error \<Rightarrow> string option \<Rightarrow> public_error + lexeme \<times> string" where
  "skipped_or e r = (case r of None \<Rightarrow> Inl e | Some t \<Rightarrow> Inr (Skipped, t))"

definition dollar_tag :: "string \<Rightarrow> string option" where
  \<comment> \<open>the tag, without its dollars, when what follows a dollar is a tag and a dollar\<close>
  "dollar_tag cs =
     (if hd_is (CHR ''$'') (dropWhile isTagChar cs) then Some (takeWhile isTagChar cs) else None)"

definition dollar_body :: "string \<Rightarrow> string" where
  "dollar_body cs = tl (dropWhile isTagChar cs)"

fun scan_step :: "string \<Rightarrow> public_error + lexeme \<times> string" where
  "scan_step [] = Inr (Skipped, [])"
| "scan_step (c # cs) =
    (if is_ws c then Inr (Skipped, cs)
     else if c = CHR ''-'' \<and> hd_is (CHR ''-'') cs then Inr (Skipped, skip_line (tl cs))
     else if c = CHR ''#'' then Inr (Skipped, skip_line cs)
     else if c = CHR ''/'' \<and> hd_is (CHR ''*'') cs then
       (if executable_comment (tl cs)
        then Inl (PublicError READ_ONLY_VIOLATION
          ''Executable or optimizer block comments are not allowed in user SQL.'')
        else skipped_or (PublicError INVALID_INPUT
          ''SQL contains an unterminated block comment.'') (skip_block (tl cs)))
     else if c = CHR 0x27 then
       skipped_or (PublicError INVALID_INPUT
         ''SQL contains an unterminated string literal.'') (skip_single cs)
     else if c = CHR 0x22 \<or> c = CHR 0x60 then
       skipped_or (PublicError INVALID_INPUT
         ''SQL contains an unterminated quoted identifier.'') (skip_quoted c cs)
     else if c = CHR ''$'' \<and> dollar_tag cs \<noteq> None then
       skipped_or (PublicError INVALID_INPUT
         ''SQL contains an unterminated dollar-quoted string.'')
         (after_first (c # the (dollar_tag cs) @ ''$'') (dollar_body cs))
     else if c = CHR '';'' then Inr (Terminator, cs)
     else if isWordStart c then
       Inr (Word (map to_upper (c # takeWhile isWordPart cs)), dropWhile isWordPart cs)
     else Inr (Skipped, cs))"

section \<open>What the skipping loops have in common\<close>

text \<open>
  A skipper returns a proper rest of its input, and what it does on a string is what it
  does on any extension of it, unless it stopped at the very end (where the extension can
  change a look-ahead).
\<close>

locale skipper =
  fixes skip :: "string \<Rightarrow> string option"
  assumes skip_suffix: "skip s = Some r \<Longrightarrow> suffix r s"
    and skip_extend: "skip s = Some r \<Longrightarrow> skip (s @ t) = Some (r @ t) \<or> r = []"
begin

lemma skip_length: "skip s = Some r \<Longrightarrow> length r \<le> length s"
  by (metis skip_suffix suffix_length_le)

lemma skip_set: "skip s = Some r \<Longrightarrow> set r \<subseteq> set s"
  by (metis skip_suffix set_mono_suffix)

end

lemma suffix_tl_ConsI: "suffix r (tl cs) \<Longrightarrow> suffix r (c # cs)"
  by (metis suffix_ConsI suffix_tl suffix_order.trans)

lemma skip_line_suffix: "suffix (skip_line s) s"
  by (induction s) (auto simp: suffix_ConsI)

lemma skip_line_extend: "skip_line (s @ t) = skip_line s @ t \<or> skip_line s = []"
  by (induction s) auto

interpretation line: skipper "\<lambda>s. Some (skip_line s)"
  by unfold_locales (use skip_line_suffix skip_line_extend in auto)

lemma skip_block_suffix: "skip_block s = Some r \<Longrightarrow> suffix r s"
  by (induction s) (auto simp: suffix_ConsI suffix_tl suffix_tl_ConsI split: if_splits)

lemma skip_block_extend: "skip_block s = Some r \<Longrightarrow> skip_block (s @ t) = Some (r @ t)"
proof (induction s)
  case Nil
  then show ?case by simp
next
  case (Cons c cs)
  then show ?case by (cases cs) (auto split: if_splits)
qed

interpretation block: skipper skip_block
  by unfold_locales (use skip_block_suffix skip_block_extend in auto)

lemma skip_single_suffix: "skip_single s = Some r \<Longrightarrow> suffix r s"
  by (induction s rule: skip_single.induct)
    (auto simp: suffix_ConsI suffix_tl_ConsI split: if_splits)

lemma skip_single_extend:
  "skip_single s = Some r \<Longrightarrow> skip_single (s @ t) = Some (r @ t) \<or> r = []"
proof (induction s rule: skip_single.induct)
  case 1
  then show ?case by simp
next
  case (2 c cs)
  then show ?case by (cases cs) (auto split: if_splits)
qed

interpretation single: skipper skip_single
  by unfold_locales (use skip_single_suffix skip_single_extend in auto)

lemma skip_quoted_suffix: "skip_quoted q s = Some r \<Longrightarrow> suffix r s"
  by (induction q s rule: skip_quoted.induct)
    (auto simp: suffix_ConsI suffix_tl_ConsI split: if_splits)

lemma skip_quoted_extend:
  "skip_quoted q s = Some r \<Longrightarrow> skip_quoted q (s @ t) = Some (r @ t) \<or> r = []"
proof (induction q s rule: skip_quoted.induct)
  case (1 q)
  then show ?case by simp
next
  case (2 q c cs)
  then show ?case by (cases cs) (auto split: if_splits)
qed

interpretation quoted: skipper "skip_quoted q"
  by unfold_locales (use skip_quoted_suffix skip_quoted_extend in auto)

lemma after_first_suffix: "after_first pat s = Some r \<Longrightarrow> suffix r s"
proof (induction pat s rule: after_first.induct)
  case (1 pat)
  then show ?case by (auto split: if_splits)
next
  case (2 pat c cs)
  then show ?case by (auto simp: suffix_ConsI suffix_drop split: if_splits simp del: drop_Cons)
qed

lemma after_first_length: "after_first pat s = Some r \<Longrightarrow> length pat \<le> length s"
proof (induction pat s rule: after_first.induct)
  case (1 pat)
  then show ?case by (auto split: if_splits)
next
  case (2 pat c cs)
  show ?case
  proof (cases "take (length pat) (c # cs) = pat")
    case True
    then show ?thesis by (metis length_take min.cobounded1)
  next
    case False
    with 2 show ?thesis by simp
  qed
qed

lemma after_first_extend: "after_first pat s = Some r \<Longrightarrow> after_first pat (s @ t) = Some (r @ t)"
proof (induction pat s rule: after_first.induct)
  case (1 pat)
  then show ?case by (cases t) (auto split: if_splits)
next
  case (2 pat c cs)
  have le: "length pat \<le> length (c # cs)"
    by (rule after_first_length [OF "2.prems"])
  then have tk: "take (length pat) (c # cs @ t) = take (length pat) (c # cs)"
    and dr: "drop (length pat) (c # cs @ t) = drop (length pat) (c # cs) @ t"
    using take_append [of "length pat" "c # cs" t] drop_append [of "length pat" "c # cs" t]
    by simp_all
  show ?case
  proof (cases "take (length pat) (c # cs) = pat")
    case True
    with tk dr "2.prems" show ?thesis by simp
  next
    case False
    with tk "2.prems" "2.IH" show ?thesis by simp
  qed
qed

interpretation dollar: skipper "after_first pat"
  by unfold_locales (use after_first_suffix after_first_extend in auto)

lemmas skip_lengths =
  line.skip_length block.skip_length single.skip_length quoted.skip_length dollar.skip_length

lemmas skip_sets =
  line.skip_set block.skip_set single.skip_set quoted.skip_set dollar.skip_set

section \<open>The loop\<close>

lemma dollar_body_suffix: "suffix (dollar_body cs) cs"
  unfolding dollar_body_def by (metis suffix_dropWhile suffix_order.trans suffix_tl)

lemma scan_step_suffix: "scan_step (c # cs) = Inr (lx, r) \<Longrightarrow> suffix r cs"
  by (auto simp: skipped_or_def suffix_dropWhile split: if_splits option.splits
      dest: block.skip_suffix single.skip_suffix quoted.skip_suffix dollar.skip_suffix
      intro: skip_line_suffix suffix_order.trans [OF _ suffix_tl]
        suffix_order.trans [OF _ dollar_body_suffix])

lemma scan_step_shorter: "scan_step (c # cs) = Inr (lx, r) \<Longrightarrow> length r < length (c # cs)"
  using scan_step_suffix by (fastforce dest: suffix_length_le)

fun scan_add :: "nat \<Rightarrow> lexeme \<Rightarrow> string list \<times> nat list \<Rightarrow> string list \<times> nat list" where
  "scan_add p Skipped (ws, ts) = (ws, ts)"
| "scan_add p (Word w) (ws, ts) = (w # ws, ts)"
| "scan_add p Terminator (ws, ts) = (ws, p # ts)"

function scan_from :: "nat \<Rightarrow> string \<Rightarrow> public_error + string list \<times> nat list" where
  "scan_from p [] = Inr ([], [])"
| "scan_from p (c # cs) =
     (case scan_step (c # cs) of
        Inl e \<Rightarrow> Inl e
      | Inr (lx, r) \<Rightarrow>
          bindE (scan_from (p + (length (c # cs) - length r)) r) (\<lambda>res. Inr (scan_add p lx res)))"
  by pat_completeness auto
termination
  by (relation "measure (\<lambda>(p, s). length s)")
    (auto dest: scan_step_shorter [THEN le_less_trans [OF order_refl]] simp del: scan_step.simps)

text \<open>\<open>scan\<close>: the words of the statement, in upper case, and the positions of its
  terminators.\<close>

definition scan :: "string \<Rightarrow> public_error + string list \<times> nat list" where
  "scan s = scan_from 0 s"

section \<open>Terminators of a prefix\<close>

text \<open>
  Scanning a prefix of a string runs in step with scanning the string, until a construct
  reaches the end of the prefix; from there on the prefix holds no semicolon outside it.
\<close>

lemma scan_step_Terminator: "scan_step (c # cs) = Inr (Terminator, r) \<Longrightarrow> c = CHR '';'' \<and> r = cs"
  by (auto simp: skipped_or_def split: if_splits option.splits)

lemma tag_char_not_semicolon: "\<forall>x \<in> set a. isTagChar x \<Longrightarrow> CHR '';'' \<notin> set a"
  by (auto simp: isTagChar_def char_class_defs)

lemma dollar_tag_extend:
  assumes "\<not> (\<forall>x \<in> set a. isTagChar x)"
  shows "dollar_tag (a @ b) = dollar_tag a" and "dollar_body (a @ b) = dollar_body a @ b"
proof -
  from assms have d: "dropWhile isTagChar (a @ b) = dropWhile isTagChar a @ b"
    and t: "takeWhile isTagChar (a @ b) = takeWhile isTagChar a"
    by (metis dropWhile_append1, metis takeWhile_append1)
  have ne: "dropWhile isTagChar a \<noteq> []"
    using assms by (simp add: dropWhile_eq_Nil_conv)
  show "dollar_tag (a @ b) = dollar_tag a"
    using ne by (cases "dropWhile isTagChar a") (simp_all add: dollar_tag_def d t)
  show "dollar_body (a @ b) = dollar_body a @ b"
    using ne by (simp add: dollar_body_def d)
qed

lemma dollar_tag_all_tags: "\<forall>x \<in> set a. isTagChar x \<Longrightarrow> dollar_tag a = None"
  unfolding dollar_tag_def by (metis dropWhile_eq_Nil_conv hd_is_simps(1))

definition in_step :: "lexeme \<Rightarrow> string \<Rightarrow> string \<Rightarrow> lexeme \<Rightarrow> string \<Rightarrow> bool" where
  "in_step lx r b lx' r' \<longleftrightarrow>
     lx' = lx \<and> r' = r @ b \<or> CHR '';'' \<notin> set r \<and> lx \<noteq> Terminator"

context skipper begin

lemma skip_sync:
  assumes "skipped_or e (skip a) = Inr (lx, r)" and "skipped_or e' (skip (a @ b)) = Inr (lx', r')"
  shows "in_step lx r b lx' r'"
  using assms skip_extend [of a _ b]
  by (auto simp: skipped_or_def in_step_def split: option.splits)

end

lemma scan_step_sync:
  assumes a: "scan_step (c # a) = Inr (lx, r)" and ab: "scan_step (c # a @ b) = Inr (lx', r')"
  shows "in_step lx r b lx' r'"
proof (cases "is_ws c \<or> a = [] \<or> c = CHR ''-'' \<or> c = CHR ''#'' \<or> c = CHR ''/''")
  case True
  then consider (ws) "is_ws c" | (nil) "a = []" "\<not> is_ws c"
    | (dash) d a' where "c = CHR ''-''" "a = d # a'" "\<not> is_ws c"
    | (hash) "c = CHR ''#''" "\<not> is_ws c"
    | (slash) d a' where "c = CHR ''/''" "a = d # a'" "\<not> is_ws c"
    by (cases a) auto
  then show ?thesis
  proof cases
    case ws
    with a ab show ?thesis by (simp add: in_step_def)
  next
    case nil
    with a have "r = [] \<and> (lx = Terminator \<longrightarrow> c = CHR '';'')"
      by (auto simp: skipped_or_def dollar_tag_all_tags split: if_splits option.splits)
    with nil ab show ?thesis
      by (auto simp: in_step_def)
  next
    case dash
    with a ab show ?thesis
      using skip_line_extend [of a' b] by (auto simp: in_step_def isWordStart_def char_class_defs split: if_splits)
  next
    case hash
    with a ab show ?thesis
      using skip_line_extend [of a b] by (auto simp: in_step_def)
  next
    case slash
    show ?thesis
    proof (cases "d = CHR ''*''")
      case True
      with slash a ab show ?thesis
        by (simp split: if_splits) (rule block.skip_sync)
    next
      case False
      with slash a ab show ?thesis
        by (auto simp: in_step_def isWordStart_def char_class_defs)
    qed
  qed
next
  case False
  then have c: "\<not> is_ws c" "c \<noteq> CHR ''-''" "c \<noteq> CHR ''#''" "c \<noteq> CHR ''/''"
    by auto
  show ?thesis
  proof (cases "c = CHR 0x27 \<or> c = CHR 0x22 \<or> c = CHR 0x60")
    case quote: True
    show ?thesis
    proof (cases "c = CHR 0x27")
      case True
      with c a ab show ?thesis
        by simp (rule single.skip_sync)
    next
      case False
      with c a ab quote show ?thesis
        by simp (rule quoted.skip_sync)
    qed
  next
    case False
    show ?thesis
    proof (cases "c = CHR ''$''")
      case True
      show ?thesis
      proof (cases "\<forall>x \<in> set a. isTagChar x")
        case True
        with \<open>c = _\<close> c a show ?thesis
          by (auto simp: in_step_def dollar_tag_all_tags isWordStart_def char_class_defs
              dest: tag_char_not_semicolon)
      next
        case False
        note ext = dollar_tag_extend [OF False, of b]
        show ?thesis
        proof (cases "dollar_tag a")
          case None
          with \<open>c = _\<close> c a ab ext show ?thesis
            by (auto simp: in_step_def isWordStart_def char_class_defs)
        next
          case (Some tag)
          with \<open>c = _\<close> c a ab ext show ?thesis
            by simp (rule dollar.skip_sync)
        qed
      qed
    next
      case nd: False
      show ?thesis
      proof (cases "\<forall>x \<in> set a. isWordPart x")
        case True
        then have "dropWhile isWordPart a = []"
          by (simp only: dropWhile_eq_Nil_conv)
        then show ?thesis
          using nd False c a ab by (auto simp only: in_step_def scan_step.simps split: if_splits) auto
      next
        case False
        then have "dropWhile isWordPart (a @ b) = dropWhile isWordPart a @ b"
          and "takeWhile isWordPart (a @ b) = takeWhile isWordPart a"
          by (metis dropWhile_append1, metis takeWhile_append1)
        with nd c a ab \<open>\<not> (c = CHR 0x27 \<or> c = CHR 0x22 \<or> c = CHR 0x60)\<close> show ?thesis
          by (auto simp: in_step_def split: if_splits)
      qed
    qed
  qed
qed

lemma scan_from_ConsE:
  assumes "scan_from p (c # cs) = Inr (ws, ts)"
  obtains lx r ws' ts' where "scan_step (c # cs) = Inr (lx, r)"
    and "scan_from (p + (length (c # cs) - length r)) r = Inr (ws', ts')"
    and "scan_add p lx (ws', ts') = (ws, ts)"
proof (cases "scan_step (c # cs)")
  case (Inl e)
  with assms show ?thesis by (simp del: scan_step.simps)
next
  case (Inr x)
  obtain lx r where x: "x = (lx, r)" by (cases x)
  have "bindE (scan_from (p + (length (c # cs) - length r)) r) (\<lambda>res. Inr (scan_add p lx res))
      = (Inr (ws, ts) :: public_error + string list \<times> nat list)"
    using assms Inr x by (simp del: scan_step.simps)
  then obtain res where "scan_from (p + (length (c # cs) - length r)) r = Inr res"
    and "scan_add p lx res = (ws, ts)"
    by auto
  with that Inr x show ?thesis by (cases res) blast
qed

declare scan_from.simps(2) [simp del] scan_step.simps(2) [simp del]

lemma scan_no_semicolon:
  "CHR '';'' \<notin> set s \<Longrightarrow> scan_from p s = Inr (ws, ts) \<Longrightarrow> ts = []"
proof (induction p s arbitrary: ws ts rule: scan_from.induct)
  case (1 p)
  then show ?case by simp
next
  case (2 p c cs)
  from "2.prems"(2) obtain lx r ws' ts' where st: "scan_step (c # cs) = Inr (lx, r)"
    and rest: "scan_from (p + (length (c # cs) - length r)) r = Inr (ws', ts')"
    and res: "scan_add p lx (ws', ts') = (ws, ts)"
    by (rule scan_from_ConsE)
  have "CHR '';'' \<notin> set r"
    using "2.prems"(1) scan_step_suffix [OF st] by (auto dest: set_mono_suffix)
  with "2.IH" [OF st refl] rest have "ts' = []" by blast
  moreover have "lx \<noteq> Terminator"
    using "2.prems"(1) scan_step_Terminator [of c cs r] st by auto
  ultimately show ?case using res by (cases lx) auto
qed

theorem scan_prefix_terminators:
  assumes "scan_from p (a @ b) = Inr (ws, ts)" and "\<forall>t \<in> set ts. p + length a \<le> t"
    and "scan_from p a = Inr (ws', ts')"
  shows "ts' = []"
  using assms
proof (induction "length a" arbitrary: p a ws ts ws' ts' rule: less_induct)
  case less
  show ?case
  proof (cases a)
    case Nil
    with less.prems(3) show ?thesis by simp
  next
    case (Cons c cs)
    note short_scan = less.prems(3) [unfolded Cons] and long_scan = less.prems(1) [unfolded Cons append_Cons]
    obtain lx r w1 t1 where st: "scan_step (c # cs) = Inr (lx, r)"
      and rest: "scan_from (p + (length (c # cs) - length r)) r = Inr (w1, t1)"
      and res: "scan_add p lx (w1, t1) = (ws', ts')"
      by (rule scan_from_ConsE [OF short_scan])
    obtain lx2 r2 w2 t2 where st2: "scan_step (c # cs @ b) = Inr (lx2, r2)"
      and rest2: "scan_from (p + (length (c # cs @ b) - length r2)) r2 = Inr (w2, t2)"
      and res2: "scan_add p lx2 (w2, t2) = (ws, ts)"
      by (rule scan_from_ConsE [OF long_scan])
    have sub: "set t2 \<subseteq> set ts" and nt: "lx2 \<noteq> Terminator"
      using res2 less.prems(2) Cons by (cases lx2; auto)+
    have short: "length r < length a"
      using scan_step_shorter [OF st] Cons by simp
    have "t1 = [] \<and> lx \<noteq> Terminator"
      using scan_step_sync [OF st st2] unfolding in_step_def
    proof
      assume eq: "lx2 = lx \<and> r2 = r @ b"
      have pos: "p + (length (c # cs @ b) - length r2) = p + (length (c # cs) - length r)"
        using eq by simp
      have "\<forall>t \<in> set t2. p + (length (c # cs) - length r) + length r \<le> t"
        using less.prems(2) sub short Cons by auto
      moreover have "scan_from (p + (length (c # cs) - length r)) (r @ b) = Inr (w2, t2)"
        using rest2 pos eq by metis
      ultimately have "t1 = []"
        using less.hyps [OF short _ _ rest] by blast
      with eq nt show ?thesis by simp
    next
      assume "CHR '';'' \<notin> set r \<and> lx \<noteq> Terminator"
      with scan_no_semicolon rest show ?thesis by blast
    qed
    with res show ?thesis by (cases lx) auto
  qed
qed

lemma scan_from_ws:
  "\<forall>c \<in> set pre. is_ws c \<Longrightarrow> scan_from p (pre @ s) = scan_from (p + length pre) s"
proof (induction pre arbitrary: p)
  case Nil
  then show ?case by simp
next
  case (Cons c cs)
  then have "scan_from p (c # cs @ s) = scan_from (Suc p) (cs @ s)"
    by (cases "scan_from (Suc p) (cs @ s)") (auto simp: scan_from.simps(2) scan_step.simps(2) Suc_diff_le)
  with Cons show ?case by simp
qed

lemma scan_from_words_pos:
  "scan_from p s = Inr (ws, ts) \<Longrightarrow> scan_from q s = Inr (ws, map (\<lambda>t. t - p + q) ts) \<and> (\<forall>t \<in> set ts. p \<le> t)"
proof (induction p s arbitrary: q ws ts rule: scan_from.induct)
  case (1 p)
  then show ?case by simp
next
  case (2 p c cs)
  from "2.prems" obtain lx r w1 t1 where st: "scan_step (c # cs) = Inr (lx, r)"
    and rest: "scan_from (p + (length (c # cs) - length r)) r = Inr (w1, t1)"
    and res: "scan_add p lx (w1, t1) = (ws, ts)"
    by (rule scan_from_ConsE)
  let ?k = "length (c # cs) - length r"
  from "2.IH" [OF st refl rest, of "q + ?k"]
  have IH: "scan_from (q + ?k) r = Inr (w1, map (\<lambda>t. t - (p + ?k) + (q + ?k)) t1)"
    and le: "\<forall>t \<in> set t1. p + ?k \<le> t"
    by auto
  have eq: "map (\<lambda>t. t - (p + ?k) + (q + ?k)) t1 = map (\<lambda>t. t - p + q) t1"
    using le by auto
  have "\<forall>t \<in> set t1. p \<le> t"
    using le by auto
  moreover have "scan_from q (c # cs) = Inr (scan_add q lx (w1, map (\<lambda>t. t - p + q) t1))"
    using IH st unfolding eq by (simp add: scan_from.simps(2) del: scan_step.simps)
  ultimately show ?case
    using res by (cases lx) auto
qed

end
