(* ===== verification/SqlGuard.thy ===== *)
theory SqlGuard
  imports SqlLex
begin

text \<open>
  The read-only guard of \<open>apps/database-mcp-worker/src/sql/guard.ts\<close>:
  \<open>guardReadQuery\<close> with its keyword tables, the stripping of a trailing terminator, and
  the three rewriting functions beside it (execution timeout, row limit, sanitized
  preview). The row limit and the timeout are whole numbers.
\<close>

section \<open>Tables\<close>

fun READ_START :: "dialect \<Rightarrow> string list" where
  "READ_START Postgres = [''SELECT'', ''WITH'', ''VALUES'']"
| "READ_START Mysql = [''SELECT'', ''WITH'']"

definition FORBIDDEN_KEYWORDS :: "string list" where
  "FORBIDDEN_KEYWORDS =
    [''INSERT'', ''UPDATE'', ''DELETE'', ''MERGE'', ''REPLACE'', ''CREATE'', ''ALTER'', ''DROP'',
     ''TRUNCATE'', ''GRANT'', ''REVOKE'', ''CALL'', ''DO'', ''COPY'', ''VACUUM'', ''ANALYZE'', ''SET'',
     ''RESET'', ''SHOW'', ''USE'', ''LOCK'', ''UNLOCK'', ''PREPARE'', ''EXECUTE'', ''DEALLOCATE'',
     ''HANDLER'', ''OPTIMIZE'', ''REPAIR'', ''LOAD'', ''OUTFILE'', ''DUMPFILE'', ''INTO'']"

definition FORBIDDEN_MYSQL_FUNCTIONS :: "string list" where
  "FORBIDDEN_MYSQL_FUNCTIONS =
    [''GET_LOCK'', ''RELEASE_LOCK'', ''RELEASE_ALL_LOCKS'', ''SLEEP'', ''BENCHMARK'', ''LOAD_FILE'',
     ''SYS_EVAL'', ''SYS_EXEC'']"

definition FORBIDDEN_POSTGRES_FUNCTIONS :: "string list" where
  "FORBIDDEN_POSTGRES_FUNCTIONS =
    [''PG_ADVISORY_LOCK'', ''PG_ADVISORY_LOCK_SHARED'', ''PG_TRY_ADVISORY_LOCK'',
     ''PG_TRY_ADVISORY_LOCK_SHARED'', ''PG_ADVISORY_UNLOCK'', ''PG_ADVISORY_UNLOCK_SHARED'',
     ''PG_ADVISORY_UNLOCK_ALL'', ''PG_ADVISORY_XACT_LOCK'', ''PG_ADVISORY_XACT_LOCK_SHARED'',
     ''PG_TRY_ADVISORY_XACT_LOCK'', ''PG_TRY_ADVISORY_XACT_LOCK_SHARED'', ''NEXTVAL'', ''SETVAL'',
     ''SET_CONFIG'', ''PG_SLEEP'', ''PG_SLEEP_FOR'', ''PG_SLEEP_UNTIL'', ''PG_CANCEL_BACKEND'',
     ''PG_TERMINATE_BACKEND'', ''LO_EXPORT'', ''DBLINK_EXEC'', ''PG_LOGICAL_EMIT_MESSAGE'',
     ''PG_READ_FILE'', ''PG_LS_DIR'']"

definition FORBIDDEN_LOCK_SEQUENCES :: "string list list" where
  "FORBIDDEN_LOCK_SEQUENCES =
    [[''FOR'', ''UPDATE''], [''FOR'', ''SHARE''], [''FOR'', ''NO'', ''KEY'', ''UPDATE''],
     [''FOR'', ''KEY'', ''SHARE''], [''LOCK'', ''IN'', ''SHARE'', ''MODE'']]"

section \<open>The trailing terminator\<close>

text \<open>The three regular expression replacements applied to what follows the terminator.\<close>

function del_dash_comments :: "string \<Rightarrow> string" where
  "del_dash_comments [] = []"
| "del_dash_comments (c # cs) =
     (if c = CHR ''-'' \<and> hd_is (CHR ''-'') cs then del_dash_comments (skip_line (tl cs))
      else c # del_dash_comments cs)"
  by pat_completeness auto
termination
  by (relation "measure length")
    (auto intro!: le_imp_less_Suc order_trans [OF line.skip_length [OF refl]])

function del_hash_comments :: "string \<Rightarrow> string" where
  "del_hash_comments [] = []"
| "del_hash_comments (c # cs) =
     (if c = CHR ''#'' then del_hash_comments (skip_line cs) else c # del_hash_comments cs)"
  by pat_completeness auto
termination
  by (relation "measure length") (auto intro!: le_imp_less_Suc line.skip_length)

function del_block_comments :: "string \<Rightarrow> string" where
  "del_block_comments [] = []"
| "del_block_comments (c # cs) =
     (if c = CHR ''/'' \<and> hd_is (CHR ''*'') cs then
        (case skip_block (tl cs) of
           Some r \<Rightarrow> del_block_comments r
         | None \<Rightarrow> c # del_block_comments cs)
      else c # del_block_comments cs)"
  by pat_completeness auto
termination
  by (relation "measure length") (auto dest!: block.skip_length)

definition normalizedTail :: "string \<Rightarrow> string" where
  "normalizedTail s = js_trim (del_block_comments (del_hash_comments (del_dash_comments s)))"

definition multi_statement :: public_error where
  "multi_statement = PublicError MULTI_STATEMENT_REJECTED
     ''Only one SQL statement is allowed per invocation.''"

definition stripTrailingTerminator ::
  "string \<Rightarrow> string list \<times> nat list \<Rightarrow> public_error + string" where
  "stripTrailingTerminator sql scanResult =
     (case snd scanResult of
        [] \<Rightarrow> Inr (js_trim sql)
      | [terminator] \<Rightarrow>
          (let after = drop (Suc terminator) sql
           in bindE (scan after) (\<lambda>trailing.
                if fst trailing \<noteq> [] \<or> snd trailing \<noteq> [] then Inl multi_statement
                else if normalizedTail after \<noteq> [] then Inl multi_statement
                else Inr (js_trim (take terminator sql))))
      | _ \<Rightarrow> Inl multi_statement)"

section \<open>guardReadQuery\<close>

text \<open>\<open>containsSequence\<close>: the two loops look for the sequence at every position.\<close>

fun starts_at :: "string list \<Rightarrow> string list \<Rightarrow> bool" where
  "starts_at ws [] \<longleftrightarrow> True"
| "starts_at [] (x # xs) \<longleftrightarrow> False"
| "starts_at (w # ws) (x # xs) \<longleftrightarrow> w = x \<and> starts_at ws xs"

definition containsSequence :: "string list \<Rightarrow> string list \<Rightarrow> bool" where
  "containsSequence ws sequence =
     (if sequence = [] \<or> length sequence > length ws then False
      else list_ex (\<lambda>i. starts_at (drop i ws) sequence) [0..<Suc (length ws - length sequence)])"

record guarded_sql =
  gs_sql :: string
  gs_firstKeyword :: string

definition forbiddenFunctions :: "dialect \<Rightarrow> string list" where
  "forbiddenFunctions d =
     (if d = Mysql then FORBIDDEN_MYSQL_FUNCTIONS else FORBIDDEN_POSTGRES_FUNCTIONS)"

definition check_words :: "string list \<Rightarrow> dialect \<Rightarrow> public_error + string" where
  \<comment> \<open>the checks on the words of the statement; the first keyword is returned\<close>
  "check_words ws d =
    (if ws = [] \<or> hd ws \<notin> set (READ_START d)
     then Inl (PublicError READ_ONLY_VIOLATION ''query_read accepts only read queries.'')
     else case List.find (\<lambda>w. w \<in> set FORBIDDEN_KEYWORDS) ws of
       Some keyword \<Rightarrow> Inl (PublicError READ_ONLY_VIOLATION
         (''Read query contains forbidden operation '' @ [CHR 0x27] @ keyword @ [CHR 0x27] @ ''.''))
     | None \<Rightarrow>
         if list_ex (containsSequence ws) FORBIDDEN_LOCK_SEQUENCES
         then Inl (PublicError READ_ONLY_VIOLATION ''Locking reads are not allowed.'')
         else case List.find (\<lambda>w. w \<in> set (forbiddenFunctions d)) ws of
           Some word \<Rightarrow> Inl (PublicError READ_ONLY_VIOLATION
             ((if d = Mysql then ''MySQL'' else ''PostgreSQL'') @ '' function '' @ [CHR 0x27] @ word @
              [CHR 0x27] @ '' is not allowed.''))
         | None \<Rightarrow> Inr (hd ws))"

definition guardReadQuery :: "string \<Rightarrow> dialect \<Rightarrow> public_error + guarded_sql" where
  "guardReadQuery sql d =
    (if js_trim sql = [] then Inl (PublicError INVALID_INPUT ''SQL must be a non-empty string.'')
     else if length sql > 100000
     then Inl (PublicError INVALID_INPUT ''SQL exceeds the maximum supported length.'')
     else bindE (scan sql) (\<lambda>scanned.
       bindE (stripTrailingTerminator sql scanned) (\<lambda>normalized.
       bindE (if normalized = sql then Inr scanned else scan normalized) (\<lambda>rescanned.
       bindE (check_words (fst rescanned) d) (\<lambda>firstKeyword.
         Inr \<lparr>gs_sql = normalized, gs_firstKeyword = firstKeyword\<rparr>)))))"

section \<open>What an accepted query is\<close>

lemma starts_at_take: "starts_at ws xs \<longleftrightarrow> take (length xs) ws = xs"
  by (induction ws xs rule: starts_at.induct) auto

lemma containsSequence_iff:
  "containsSequence ws xs \<longleftrightarrow> xs \<noteq> [] \<and> (\<exists>pre post. ws = pre @ xs @ post)"
proof
  assume "containsSequence ws xs"
  then obtain i where "xs \<noteq> []" and "take (length xs) (drop i ws) = xs"
    by (auto simp: containsSequence_def list_ex_iff starts_at_take simp del: upt_Suc split: if_splits)
  then show "xs \<noteq> [] \<and> (\<exists>pre post. ws = pre @ xs @ post)"
    by (metis append_take_drop_id)
next
  assume "xs \<noteq> [] \<and> (\<exists>pre post. ws = pre @ xs @ post)"
  then obtain pre post where "xs \<noteq> []" "ws = pre @ xs @ post" by blast
  then show "containsSequence ws xs"
    by (auto simp: containsSequence_def list_ex_iff starts_at_take simp del: upt_Suc
        intro!: bexI [of _ "length pre"])
qed

lemma check_words_Inr:
  "check_words ws d = Inr k \<longleftrightarrow>
     ws \<noteq> [] \<and> k = hd ws \<and> hd ws \<in> set (READ_START d) \<and>
     (\<forall>w \<in> set ws. w \<notin> set FORBIDDEN_KEYWORDS) \<and>
     (\<forall>xs \<in> set FORBIDDEN_LOCK_SEQUENCES. \<not> containsSequence ws xs) \<and>
     (\<forall>w \<in> set ws. w \<notin> set (forbiddenFunctions d))"
proof -
  let ?k = "List.find (\<lambda>w. w \<in> set FORBIDDEN_KEYWORDS) ws"
  let ?f = "List.find (\<lambda>w. w \<in> set (forbiddenFunctions d)) ws"
  have k: "?k = None \<longleftrightarrow> (\<forall>w \<in> set ws. w \<notin> set FORBIDDEN_KEYWORDS)"
    and f: "?f = None \<longleftrightarrow> (\<forall>w \<in> set ws. w \<notin> set (forbiddenFunctions d))"
    and l: "list_ex (containsSequence ws) FORBIDDEN_LOCK_SEQUENCES \<longleftrightarrow>
      \<not> (\<forall>xs \<in> set FORBIDDEN_LOCK_SEQUENCES. \<not> containsSequence ws xs)"
    by (auto simp only: find_None_iff list_ex_iff)
  show ?thesis
    unfolding check_words_def l k [symmetric] f [symmetric]
    by (cases ?k; cases ?f) (simp_all, metis+)
qed

lemma scan_take_no_terminator:
  assumes "scan sql = Inr (ws, ts)" and "\<forall>t \<in> set ts. n \<le> t" and "n \<le> length sql"
    and "scan (js_trim (take n sql)) = Inr (ws', ts')"
  shows "ts' = []"
proof -
  obtain pre post where split: "take n sql = pre @ js_trim (take n sql) @ post"
    and pre: "\<forall>c \<in> set pre. is_ws c"
    by (rule js_trim_split)
  let ?a = "js_trim (take n sql)" and ?b = "post @ drop n sql"
  have sql: "sql = pre @ ?a @ ?b"
    by (metis append.assoc append_take_drop_id split)
  have len: "length pre + length ?a \<le> n"
    using split assms(3) by (metis length_append length_take min.absorb2 add.assoc le_add1)
  have "scan_from (length pre) (?a @ ?b) = Inr (ws, ts)"
    using assms(1) scan_from_ws [OF pre, of 0 "?a @ ?b"] sql by (simp add: scan_def)
  moreover have "\<forall>t \<in> set ts. length pre + length ?a \<le> t"
    using assms(2) len by auto
  moreover have "scan_from (length pre) ?a = Inr (ws', map (\<lambda>t. t - 0 + length pre) ts')"
    using scan_from_words_pos [OF assms(4) [unfolded scan_def]] by blast
  ultimately have "map (\<lambda>t. t - 0 + length pre) ts' = []"
    by (rule scan_prefix_terminators)
  then show ?thesis by simp
qed

lemma strip_normalized:
  assumes "scan sql = Inr res" and "stripTrailingTerminator sql res = Inr normalized"
    and "scan normalized = Inr (ws, ts)"
  shows "ts = []" and "js_trim normalized = normalized" and "length normalized \<le> length sql"
proof -
  obtain w1 t1 where res: "res = (w1, t1)" by (cases res)
  have cases: "t1 = [] \<and> normalized = js_trim sql \<or>
    (\<exists>t. t1 = [t] \<and> normalized = js_trim (take t sql))"
    using assms(2) res
    by (auto simp: stripTrailingTerminator_def Let_def split: list.splits if_splits)
  then show "js_trim normalized = normalized"
    by auto
  show "length normalized \<le> length sql"
    using cases js_trim_length [of sql] js_trim_length [of "take (hd t1) sql"] by auto
  show "ts = []"
    using cases
  proof
    assume "t1 = [] \<and> normalized = js_trim sql"
    with assms(1,3) res show ?thesis
      using scan_take_no_terminator [of sql w1 t1 "length sql"] by simp
  next
    assume "\<exists>t. t1 = [t] \<and> normalized = js_trim (take t sql)"
    then obtain t where t: "t1 = [t]" "normalized = js_trim (take t sql)" by blast
    show ?thesis
    proof (cases "t \<le> length sql")
      case True
      with t assms(1,3) res show ?thesis
        using scan_take_no_terminator [of sql w1 t1 t] by simp
    next
      case False
      with t assms(1,3) res show ?thesis
        using scan_take_no_terminator [of sql w1 t1 "length sql"] by simp
    qed
  qed
qed

lemma guardReadQuery_Inr:
  assumes "guardReadQuery sql d = Inr g"
  obtains ws where "scan (gs_sql g) = Inr (ws, [])" and "check_words ws d = Inr (gs_firstKeyword g)"
    and "js_trim (gs_sql g) = gs_sql g" and "length (gs_sql g) \<le> 100000"
proof -
  from assms obtain scanned normalized rescanned firstKeyword where
    len: "length sql \<le> 100000" and sc: "scan sql = Inr scanned"
    and st: "stripTrailingTerminator sql scanned = Inr normalized"
    and re: "(if normalized = sql then Inr scanned else scan normalized) = Inr rescanned"
    and ck: "check_words (fst rescanned) d = Inr firstKeyword"
    and g: "g = \<lparr>gs_sql = normalized, gs_firstKeyword = firstKeyword\<rparr>"
    by (auto simp: guardReadQuery_def split: if_splits)
  have scn: "scan normalized = Inr rescanned"
    using re sc by (auto split: if_splits)
  obtain ws ts where rw: "rescanned = (ws, ts)" by (cases rescanned)
  with scn have scn': "scan normalized = Inr (ws, ts)" by simp
  from strip_normalized [OF sc st scn'] len g rw ck scn' show ?thesis
    by (intro that [of ws]) auto
qed

section \<open>injectMySqlExecutionTimeout and toReadLimitedSql\<close>

text \<open>Skipping a literal or quoted identifier here honours backslashes for all three
  quotes, and an unclosed one runs to the end of the string.\<close>

fun skip_escaped :: "char \<Rightarrow> string \<Rightarrow> string" where
  "skip_escaped q [] = []"
| "skip_escaped q (c # cs) =
     (if c = CHR 0x5C then skip_escaped q (tl cs)
      else if c = q then (if hd_is q cs then skip_escaped q (tl cs) else cs)
      else skip_escaped q cs)"

lemma skip_escaped_suffix: "suffix (skip_escaped q s) s"
  by (induction q s rule: skip_escaped.induct) (auto simp: suffix_ConsI suffix_tl_ConsI)

text \<open>One iteration of the loop: the rest after a SELECT, or the rest to go on with.\<close>

datatype select_result = Found string | Continue string

definition select_step :: "char \<Rightarrow> string \<Rightarrow> public_error + select_result" where
  "select_step c cs =
    (if is_ws c then Inr (Continue cs)
     else if c = CHR ''-'' \<and> hd_is (CHR ''-'') cs then Inr (Continue (skip_line (tl cs)))
     else if c = CHR ''#'' then Inr (Continue (skip_line cs))
     else if c = CHR ''/'' \<and> hd_is (CHR ''*'') cs then
       (if executable_comment (tl cs)
        then Inl (PublicError READ_ONLY_VIOLATION
          ''Executable or optimizer block comments are not allowed in user SQL.'')
        else case skip_block (tl cs) of
            None \<Rightarrow> Inl (PublicError INVALID_INPUT ''SQL contains an unterminated block comment.'')
          | Some r \<Rightarrow> Inr (Continue r))
     else if c = CHR 0x27 \<or> c = CHR 0x22 \<or> c = CHR 0x60 then Inr (Continue (skip_escaped c cs))
     else if isWordStart c then
       (if map to_upper (c # takeWhile isWordPart cs) = ''SELECT''
        then Inr (Found (dropWhile isWordPart cs))
        else Inr (Continue (dropWhile isWordPart cs)))
     else Inr (Continue cs))"

lemma select_step_Continue: "select_step c cs = Inr (Continue r) \<Longrightarrow> suffix r cs"
  by (auto simp: select_step_def suffix_dropWhile skip_escaped_suffix skip_line_suffix
      intro: suffix_order.trans [OF _ suffix_tl] split: if_splits option.splits
      dest: block.skip_suffix)

lemma select_step_Found:
  assumes "select_step c cs = Inr (Found r)"
  shows "c # cs = (c # takeWhile isWordPart cs) @ r"
    and "map to_upper (c # takeWhile isWordPart cs) = ''SELECT''"
proof -
  have "r = dropWhile isWordPart cs \<and> map to_upper (c # takeWhile isWordPart cs) = ''SELECT''"
    using assms unfolding select_step_def
    by (auto simp only: sum.inject sum.distinct select_result.inject select_result.distinct
        split: if_splits option.splits)
  then show "c # cs = (c # takeWhile isWordPart cs) @ r"
    and "map to_upper (c # takeWhile isWordPart cs) = ''SELECT''"
    by (simp_all only: append_Cons takeWhile_dropWhile_id)
qed

text \<open>What follows the first SELECT outside comments and quotes, None if there is none.\<close>

function select_rest :: "string \<Rightarrow> public_error + string option" where
  "select_rest [] = Inr None"
| "select_rest (c # cs) =
    (case select_step c cs of
       Inl e \<Rightarrow> Inl e
     | Inr (Found r) \<Rightarrow> Inr (Some r)
     | Inr (Continue r) \<Rightarrow> select_rest r)"
  by pat_completeness auto
termination
  by (relation "measure length")
    (auto intro!: le_imp_less_Suc suffix_length_le dest!: select_step_Continue)

definition timeout_hint :: "int \<Rightarrow> string" where
  "timeout_hint timeoutMs =
     '' /*+ MAX_EXECUTION_TIME('' @ int_str (max 1 (min timeoutMs 60000)) @ '') */''"

definition injectMySqlExecutionTimeout :: "string \<Rightarrow> int \<Rightarrow> public_error + string" where
  "injectMySqlExecutionTimeout sql timeoutMs =
     bindE (select_rest sql) (\<lambda>r. case r of
         None \<Rightarrow> Inr sql
       | Some rest \<Rightarrow>
           Inr (take (length sql - length rest) sql @ timeout_hint timeoutMs @
                drop (length sql - length rest) sql))"

definition toReadLimitedSql :: "string \<Rightarrow> dialect \<Rightarrow> int \<Rightarrow> string" where
  "toReadLimitedSql sql d rowLimit =
     ''SELECT * FROM ('' @ sql @ '') AS __mcp_query LIMIT '' @ int_str (max 1 rowLimit)"

lemma select_rest_split:
  "select_rest s = Inr (Some r) \<Longrightarrow> \<exists>a w. s = a @ w @ r \<and> map to_upper w = ''SELECT''"
proof (induction s arbitrary: r rule: select_rest.induct)
  case 1
  then show ?case by simp
next
  case (2 c cs)
  then consider (found) "select_step c cs = Inr (Found r)"
    | (continue) t where "select_step c cs = Inr (Continue t)" "select_rest t = Inr (Some r)"
    by (auto split: sum.splits select_result.splits)
  then show ?case
  proof cases
    case found
    have "c # cs = [] @ (c # takeWhile isWordPart cs) @ r \<and>
        map to_upper (c # takeWhile isWordPart cs) = ''SELECT''"
      unfolding append_Nil by (intro conjI select_step_Found [OF found])
    then show ?thesis by (intro exI)
  next
    case continue
    from "2.IH" [OF continue(1) refl continue(2)]
    obtain a w where aw: "t = a @ w @ r \<and> map to_upper w = ''SELECT''" by (elim exE)
    obtain u where u: "cs = u @ t"
      using select_step_Continue [OF continue(1)] by (auto simp: suffix_def)
    have "c # cs = (c # u @ a) @ w @ r \<and> map to_upper w = ''SELECT''"
      by (intro conjI, unfold u conjunct1 [OF aw] append.simps append.assoc) (rule refl, rule conjunct2 [OF aw])
    then show ?thesis by (intro exI)
  qed
qed

section \<open>sanitizedSqlPreview\<close>

definition is_numpart :: "char \<Rightarrow> bool" where
  "is_numpart c \<longleftrightarrow> is_digit c \<or> c \<in> set ''ABCDEFabcdefxX+_.-''"

definition block_rest :: "string \<Rightarrow> string" where
  "block_rest s = (case skip_block s of Some r \<Rightarrow> r | None \<Rightarrow> [])"

definition single_rest :: "string \<Rightarrow> string" where
  "single_rest s = (case skip_single s of Some r \<Rightarrow> r | None \<Rightarrow> [])"

lemma block_rest_length: "length (block_rest s) \<le> length s"
  by (auto simp: block_rest_def split: option.splits dest: block.skip_length)

lemma single_rest_length: "length (single_rest s) \<le> length s"
  by (auto simp: single_rest_def split: option.splits dest: single.skip_length)

text \<open>One iteration: what is added to the result, and the rest to go on with (None is the
  break).\<close>

definition preview_step :: "string \<Rightarrow> char \<Rightarrow> string \<Rightarrow> string \<times> string option" where
  "preview_step result c cs =
    (if c = CHR ''-'' \<and> hd_is (CHR ''-'') cs then ('' '', Some (skip_line (tl cs)))
     else if c = CHR ''#'' then ('' '', Some (skip_line cs))
     else if c = CHR ''/'' \<and> hd_is (CHR ''*'') cs then ('' '', Some (block_rest (tl cs)))
     else if c = CHR 0x27 then ([CHR 0x27, CHR ''?'', CHR 0x27], Some (single_rest cs))
     else if c = CHR ''$'' \<and> dollar_tag cs \<noteq> None then
       (''$?$'', after_first (c # the (dollar_tag cs) @ ''$'') (dollar_body cs))
     else if is_digit c then (''?'', Some (dropWhile is_numpart cs))
     else if is_ws c then
       (if result \<noteq> [] \<and> last result = CHR '' '' then [] else '' '', Some cs)
     else ([c], Some cs))"

lemma preview_step_length: "preview_step result c cs = (piece, Some r) \<Longrightarrow> length r \<le> length cs"
proof -
  have "length (skip_line (tl cs)) \<le> length cs" "length (block_rest (tl cs)) \<le> length cs"
    by (metis line.skip_length length_tl diff_le_self order_trans)
      (metis block_rest_length length_tl diff_le_self order_trans)
  moreover have "length (dollar_body cs) \<le> length cs"
    by (rule suffix_length_le [OF dollar_body_suffix])
  ultimately show "preview_step result c cs = (piece, Some r) \<Longrightarrow> length r \<le> length cs"
    by (auto simp: preview_step_def length_dropWhile_le single_rest_length line.skip_length
        split: if_splits dest: dollar.skip_length)
qed

function preview_from :: "nat \<Rightarrow> string \<Rightarrow> string \<Rightarrow> string" where
  "preview_from maxLength result [] = result"
| "preview_from maxLength result (c # cs) =
    (if length result < maxLength then
       (case preview_step result c cs of
          (piece, None) \<Rightarrow> result @ piece
        | (piece, Some r) \<Rightarrow> preview_from maxLength (result @ piece) r)
     else result)"
  by pat_completeness auto
termination
  by (relation "measure (\<lambda>(m, res, s). length s)")
    (auto intro!: le_imp_less_Suc dest!: preview_step_length [OF sym])

definition sanitizedSqlPreview :: "string \<Rightarrow> nat \<Rightarrow> string" where
  "sanitizedSqlPreview sql maxLength = take maxLength (js_trim (preview_from maxLength [] sql))"

lemma preview_step_no_digit:
  "preview_step result c cs = (piece, r) \<Longrightarrow> d \<in> set piece \<Longrightarrow> \<not> is_digit d"
  by (auto simp: preview_step_def char_class_defs split: if_splits)

lemma preview_no_digit:
  "\<forall>c \<in> set result. \<not> is_digit c \<Longrightarrow> \<forall>c \<in> set (preview_from m result s). \<not> is_digit c"
proof (induction m result s rule: preview_from.induct)
  case (1 m result)
  then show ?case by simp
next
  case (2 m result c cs)
  obtain piece r where st: "preview_step result c cs = (piece, r)" by fastforce
  have "\<forall>d \<in> set (result @ piece). \<not> is_digit d"
    using "2.prems" preview_step_no_digit [OF st] by auto
  with 2 st show ?case by (cases r) auto
qed

definition plain_char :: "char \<Rightarrow> bool" where
  "plain_char c \<longleftrightarrow> \<not> is_digit c \<and> c \<notin> {CHR ''-'', CHR ''#'', CHR ''/'', CHR 0x27, CHR ''$''}"

lemma preview_plain_prefix:
  assumes "\<forall>c \<in> set pre. plain_char c"
    and "\<And>result. preview_from m result s = preview_from m result t"
  shows "preview_from m result (pre @ s) = preview_from m result (pre @ t)"
  using assms(1)
proof (induction pre arbitrary: result)
  case Nil
  then show ?case by (simp add: assms(2))
next
  case (Cons c cs)
  then have "c \<noteq> CHR ''-''" "c \<noteq> CHR ''#''" "c \<noteq> CHR ''/''" "c \<noteq> CHR 0x27" "c \<noteq> CHR ''$''" "\<not> is_digit c"
    by (auto simp: plain_char_def)
  then have "preview_step result c u =
      (if is_ws c then if result \<noteq> [] \<and> last result = CHR '' '' then [] else '' '' else [c], Some u)" for u
    by (simp add: preview_step_def)
  with Cons show ?case by simp
qed

lemma skip_single_literal:
  "CHR 0x27 \<notin> set b \<Longrightarrow> CHR 0x5C \<notin> set b \<Longrightarrow> \<not> hd_is (CHR 0x27) rest \<Longrightarrow>
   skip_single (b @ CHR 0x27 # rest) = Some rest"
  by (induction b) auto

section \<open>Properties\<close>

text \<open>C2: a query that the guard accepts is, after normalization, one statement: scanning it
  finds no statement terminator, its first word opens a read, and none of its words outside
  comments, literals and quoted identifiers is a writing keyword or a locking or
  side-effecting function, nor do they contain a locking clause.
\<close>

theorem guardReadQuery_safe:
  assumes "guardReadQuery sql d = Inr g"
  shows "\<exists>ws. scan (gs_sql g) = Inr (ws, []) \<and> ws \<noteq> [] \<and> hd ws = gs_firstKeyword g \<and>
    gs_firstKeyword g \<in> set (READ_START d) \<and>
    set ws \<inter> set FORBIDDEN_KEYWORDS = {} \<and> set ws \<inter> set (forbiddenFunctions d) = {} \<and>
    \<not> (\<exists>pre xs post. xs \<in> set FORBIDDEN_LOCK_SEQUENCES \<and> ws = pre @ xs @ post)"
proof -
  obtain ws where sc: "scan (gs_sql g) = Inr (ws, [])"
    and ck: "check_words ws d = Inr (gs_firstKeyword g)"
    by (rule guardReadQuery_Inr [OF assms])
  have ne: "xs \<noteq> []" if "xs \<in> set FORBIDDEN_LOCK_SEQUENCES" for xs
    using that by (auto simp: FORBIDDEN_LOCK_SEQUENCES_def)
  note words = ck [unfolded check_words_Inr]
  have "\<not> (\<exists>pre xs post. xs \<in> set FORBIDDEN_LOCK_SEQUENCES \<and> ws = pre @ xs @ post)"
  proof (intro notI, elim exE conjE)
    fix pre xs post
    assume "xs \<in> set FORBIDDEN_LOCK_SEQUENCES" and "ws = pre @ xs @ post"
    with ne words show False by (simp only: containsSequence_iff) metis
  qed
  moreover have "set ws \<inter> set FORBIDDEN_KEYWORDS = {}" "set ws \<inter> set (forbiddenFunctions d) = {}"
    using words by blast+
  ultimately show ?thesis
    using words sc by (intro exI [of _ ws]) (simp only: simp_thms)
qed

lemma guardReadQuery_safe_witness:
  "guardReadQuery ''SELECT a FROM t;'' Postgres = Inr \<lparr>gs_sql = ''SELECT a FROM t'', gs_firstKeyword = ''SELECT''\<rparr> \<and>
   (\<exists>ws. scan ''SELECT a FROM t'' = Inr (ws, []) \<and> ws \<noteq> [])"
proof -
  have "guardReadQuery ''SELECT a FROM t;'' Postgres =
      Inr \<lparr>gs_sql = ''SELECT a FROM t'', gs_firstKeyword = ''SELECT''\<rparr>"
    by code_simp
  from guardReadQuery_safe [OF this] this show ?thesis by auto
qed

text \<open>the guard is idempotent: what it returns it accepts again, unchanged.\<close>

theorem guardReadQuery_idem:
  assumes "guardReadQuery sql d = Inr g"
  shows "guardReadQuery (gs_sql g) d = Inr g"
proof -
  obtain ws where sc: "scan (gs_sql g) = Inr (ws, [])"
    and ck: "check_words ws d = Inr (gs_firstKeyword g)"
    and tr: "js_trim (gs_sql g) = gs_sql g" and le: "length (gs_sql g) \<le> 100000"
    by (rule guardReadQuery_Inr [OF assms])
  have "gs_sql g \<noteq> []"
  proof
    assume "gs_sql g = []"
    with sc have "ws = []" by (simp add: scan_def)
    with ck show False by (simp add: check_words_Inr)
  qed
  with sc ck tr le show ?thesis
    by (simp add: guardReadQuery_def stripTrailingTerminator_def)
qed

lemma guardReadQuery_idem_witness:
  "guardReadQuery ''VALUES (1)'' Postgres = Inr \<lparr>gs_sql = ''VALUES (1)'', gs_firstKeyword = ''VALUES''\<rparr>"
proof -
  have "guardReadQuery ''  VALUES (1) ; '' Postgres =
      Inr \<lparr>gs_sql = ''VALUES (1)'', gs_firstKeyword = ''VALUES''\<rparr>"
    by code_simp
  from guardReadQuery_idem [OF this] show ?thesis by simp
qed

text \<open>adding the MySQL execution timeout leaves the statement as it is, or inserts one
  optimizer hint directly after a SELECT word; the limit in the hint is the requested one
  clamped to 1 to 60000 milliseconds.
\<close>

theorem injectMySqlExecutionTimeout_inserts:
  assumes "injectMySqlExecutionTimeout sql timeoutMs = Inr out"
  shows "out = sql \<or>
    (\<exists>a w b n. sql = a @ w @ b \<and> map to_upper w = ''SELECT'' \<and> 1 \<le> n \<and> n \<le> 60000 \<and>
       (1 \<le> timeoutMs \<and> timeoutMs \<le> 60000 \<longrightarrow> int n = timeoutMs) \<and>
       out = a @ w @ '' /*+ MAX_EXECUTION_TIME('' @ nat_str n @ '') */'' @ b)"
proof -
  from assms obtain r where r: "select_rest sql = Inr r"
    and out: "(case r of None \<Rightarrow> Inr sql
      | Some rest \<Rightarrow> Inr (take (length sql - length rest) sql @ timeout_hint timeoutMs @
          drop (length sql - length rest) sql)) = (Inr out :: public_error + string)"
    unfolding injectMySqlExecutionTimeout_def by (rule bindE_InrE)
  show ?thesis
  proof (cases r)
    case None
    with out show ?thesis by simp
  next
    case (Some rest)
    obtain a w where aw: "sql = a @ w @ rest \<and> map to_upper w = ''SELECT''"
      using select_rest_split [OF r [unfolded Some]] by (elim exE)
    define n where "n = nat (max 1 (min timeoutMs 60000))"
    have n: "1 \<le> n" "n \<le> 60000" "1 \<le> timeoutMs \<and> timeoutMs \<le> 60000 \<longrightarrow> int n = timeoutMs"
      unfolding n_def by auto
    have hint: "timeout_hint timeoutMs = '' /*+ MAX_EXECUTION_TIME('' @ nat_str n @ '') */''"
      by (simp only: timeout_hint_def int_str_def n_def) simp
    have sql: "sql = (a @ w) @ rest" using aw by simp
    have "out = take (length sql - length rest) sql @ timeout_hint timeoutMs @
        drop (length sql - length rest) sql"
      using out Some by (simp only: option.case sum.inject)
    also have "\<dots> = (a @ w) @ timeout_hint timeoutMs @ rest"
      unfolding sql by (simp only: length_append add_diff_cancel_right' append_eq_conv_conj
          take_append drop_append diff_self_eq_0 take_all drop_all order_refl take0 drop0 append_Nil append_Nil2)
    finally have "out = a @ w @ '' /*+ MAX_EXECUTION_TIME('' @ nat_str n @ '') */'' @ rest"
      by (simp only: hint append.assoc)
    with aw n show ?thesis
      by (intro disjI2 exI [of _ a] exI [of _ w] exI [of _ rest] exI [of _ n]) (simp only: simp_thms)
  qed
qed

lemma injectMySqlExecutionTimeout_inserts_witness:
  "injectMySqlExecutionTimeout ''select 1'' 90000 = Inr ''select /*+ MAX_EXECUTION_TIME(60000) */ 1'' \<and>
   (\<exists>a w b. ''select 1'' = a @ w @ b \<and> map to_upper w = ''SELECT'')"
proof -
  have eq: "injectMySqlExecutionTimeout ''select 1'' 90000 = Inr ''select /*+ MAX_EXECUTION_TIME(60000) */ 1''"
    by code_simp
  have "''select /*+ MAX_EXECUTION_TIME(60000) */ 1'' \<noteq> ''select 1''" by simp
  with injectMySqlExecutionTimeout_inserts [OF eq] eq show ?thesis by metis
qed

text \<open>a sanitized preview never exceeds its length limit and holds no digit of the
  query, whatever the query.\<close>

theorem sanitizedSqlPreview_no_digits:
  "length (sanitizedSqlPreview sql maxLength) \<le> maxLength \<and>
   (\<forall>c \<in> set (sanitizedSqlPreview sql maxLength). \<not> is_digit c)"
proof -
  have sub: "set (js_trim s) \<subseteq> set s" for s
    by (rule js_trim_split [of s]) (metis Un_iff set_append subsetI)
  have "\<forall>c \<in> set (preview_from maxLength [] sql). \<not> is_digit c"
    by (rule preview_no_digit) simp
  with sub show ?thesis
    unfolding sanitizedSqlPreview_def by (auto dest: in_set_takeD)
qed

lemma sanitizedSqlPreview_no_digits_witness:
  "sanitizedSqlPreview ''SELECT a1 FROM t WHERE id = 42'' 500 = ''SELECT a? FROM t WHERE id = ?'' \<and>
   list_all (\<lambda>c. \<not> is_digit c) ''SELECT a? FROM t WHERE id = ?''"
proof -
  have eq: "sanitizedSqlPreview ''SELECT a1 FROM t WHERE id = 42'' 500 = ''SELECT a? FROM t WHERE id = ?''"
    by code_simp
  show ?thesis
    using sanitizedSqlPreview_no_digits [of "''SELECT a1 FROM t WHERE id = 42''" 500, unfolded eq] eq
    unfolding list_all_iff by (elim conjE) (rule conjI)
qed

text \<open>the preview does not depend on what a string literal says: two queries that differ
  only in the text of their first literal have the same preview.
\<close>

theorem sanitizedSqlPreview_hides_literal:
  assumes "\<forall>c \<in> set pre. plain_char c"
    and "\<forall>c \<in> set a \<union> set b. c \<noteq> CHR 0x27 \<and> c \<noteq> CHR 0x5C" and "\<not> hd_is (CHR 0x27) rest"
  shows "sanitizedSqlPreview (pre @ CHR 0x27 # a @ CHR 0x27 # rest) m =
    sanitizedSqlPreview (pre @ CHR 0x27 # b @ CHR 0x27 # rest) m"
proof -
  have lit: "preview_step result (CHR 0x27) (u @ CHR 0x27 # rest) = ([CHR 0x27, CHR ''?'', CHR 0x27], Some rest)"
    if "\<forall>c \<in> set u. c \<noteq> CHR 0x27 \<and> c \<noteq> CHR 0x5C" for u result
  proof -
    have "CHR 0x27 \<notin> set u" "CHR 0x5C \<notin> set u"
      using that by blast+
    then have "skip_single (u @ CHR 0x27 # rest) = Some rest"
      by (rule skip_single_literal [OF _ _ assms(3)])
    then show ?thesis by (simp add: preview_step_def single_rest_def)
  qed
  have "preview_from m result (CHR 0x27 # a @ CHR 0x27 # rest) =
      preview_from m result (CHR 0x27 # b @ CHR 0x27 # rest)" for result
    using assms(2) by (simp add: lit)
  from preview_plain_prefix [OF assms(1), of m, OF this] show ?thesis
    by (simp add: sanitizedSqlPreview_def)
qed

lemma sanitizedSqlPreview_hides_literal_witness:
  "sanitizedSqlPreview (''a = '' @ CHR 0x27 # ''secret'' @ CHR 0x27 # '' x'') 160 =
   sanitizedSqlPreview (''a = '' @ CHR 0x27 # ''other'' @ CHR 0x27 # '' x'') 160"
  by (rule sanitizedSqlPreview_hides_literal) (auto simp: plain_char_def char_class_defs)

section \<open>What the scanner takes for a comment\<close>

lemma skip_line_all: "\<forall>c \<in> set s. \<not> is_eol c \<Longrightarrow> skip_line s = []"
  by (induction s) auto

lemma scan_hash_tail:
  assumes "\<forall>c \<in> set tail. \<not> is_eol c"
  shows "scan (''SELECT 1 #'' @ tail) = Inr ([''SELECT''], [])"
proof -
  have hash: "scan_from p (CHR ''#'' # tail) = Inr ([], [])" for p
    using skip_line_all [OF assms] by (simp add: scan_from.simps(2) scan_step.simps(2) char_class_defs)
  have one: "scan_from p (CHR ''1'' # CHR '' '' # CHR ''#'' # tail) = Inr ([], [])" for p
    by (simp add: scan_from.simps(2) [of _ "CHR ''1''"] scan_from.simps(2) [of _ "CHR '' ''"]
        scan_step.simps(2) char_class_defs isWordStart_def hash)
  show ?thesis
    by (simp add: scan_def scan_from.simps(2) [of _ "CHR ''S''"] scan_from.simps(2) [of _ "CHR '' ''"]
        scan_step.simps(2) char_class_defs isWordStart_def isWordPart_def one)
qed

text \<open>for PostgreSQL, where the character # is an operator, the guard still takes
  everything from it to the end of the line for a comment: any text may follow it, calls of
  the forbidden functions and further statements included.
\<close>

theorem guardReadQuery_hash_unchecked:
  assumes "tail \<noteq> []" and "\<not> is_ws (last tail)" and "\<forall>c \<in> set tail. \<not> is_eol c"
    and "length tail \<le> 99990"
  shows "guardReadQuery (''SELECT 1 #'' @ tail) Postgres =
    Inr \<lparr>gs_sql = ''SELECT 1 #'' @ tail, gs_firstKeyword = ''SELECT''\<rparr>"
proof -
  let ?sql = "''SELECT 1 #'' @ tail"
  have trim: "js_trim ?sql = ?sql"
    by (rule js_trim_id) (use assms(1,2) in \<open>simp_all add: char_class_defs\<close>)
  have words: "check_words [''SELECT''] Postgres = Inr ''SELECT''"
    by code_simp
  have "length ?sql \<le> 100000" using assms(4) by simp
  with trim words show ?thesis
    unfolding guardReadQuery_def scan_hash_tail [OF assms(3)]
    by (simp only: bindE_simps stripTrailingTerminator_def snd_conv fst_conv list.case trim if_True)
      (simp del: append.simps add: append_eq_Cons_conv)
qed

lemma guardReadQuery_hash_unchecked_witness:
  "guardReadQuery ''SELECT 1 # pg_sleep(60); DROP TABLE t'' Postgres =
    Inr \<lparr>gs_sql = ''SELECT 1 # pg_sleep(60); DROP TABLE t'', gs_firstKeyword = ''SELECT''\<rparr>"
  using guardReadQuery_hash_unchecked [of "'' pg_sleep(60); DROP TABLE t''"]
  by (simp add: char_class_defs is_eol_def)

end
