(* ===== verification/Json.thy ===== *)
theory Json
  imports Prelude
begin

text \<open>
  The JSON values that the tools receive and answer with, and the two standard operations
  the code measures them with: \<open>JSON.stringify\<close> and the UTF-8 length of a string.

  An object is the list of its own properties in enumeration order. A finite number is kept
  as the text \<open>String(n)\<close> gives for it; the modelled code only tests finiteness and prints
  it. A cyclic value, on which \<open>JSON.stringify\<close> throws, cannot arrive as a tool argument
  and has no counterpart here.
\<close>

datatype js_number = Finite string | NonFinite

datatype json =
    JNull
  | JBool bool
  | JNum js_number
  | JStr string
  | JArr "json list"
  | JObj "(string \<times> json) list"

definition hex_digit :: "nat \<Rightarrow> char" where
  "hex_digit d = (if d < 10 then digit_char d else char_of (87 + d))"

definition json_escape :: "char \<Rightarrow> string" where
  "json_escape c =
    (let n = code c in
     if c = CHR 0x22 \<or> c = CHR 0x5C then [CHR 0x5C, c]
     else if n = 8 then [CHR 0x5C, CHR ''b'']
     else if n = 9 then [CHR 0x5C, CHR ''t'']
     else if n = 10 then [CHR 0x5C, CHR ''n'']
     else if n = 12 then [CHR 0x5C, CHR ''f'']
     else if n = 13 then [CHR 0x5C, CHR ''r'']
     else if n < 32 then [CHR 0x5C, CHR ''u'', CHR ''0'', CHR ''0'', hex_digit (n div 16), hex_digit (n mod 16)]
     else [c])"

definition json_quote :: "string \<Rightarrow> string" where
  "json_quote s = [CHR 0x22] @ concat (map json_escape s) @ [CHR 0x22]"

fun stringify :: "json \<Rightarrow> string"
  and stringify_items :: "json list \<Rightarrow> string list"
  and stringify_members :: "(string \<times> json) list \<Rightarrow> string list" where
  "stringify JNull = ''null''"
| "stringify (JBool b) = (if b then ''true'' else ''false'')"
| "stringify (JNum (Finite s)) = s"
| "stringify (JNum NonFinite) = ''null''"
| "stringify (JStr s) = json_quote s"
| "stringify (JArr xs) = ''['' @ join '','' (stringify_items xs) @ '']''"
| "stringify (JObj kvs) = ''{'' @ join '','' (stringify_members kvs) @ ''}''"
| "stringify_items [] = []"
| "stringify_items (x # xs) = stringify x # stringify_items xs"
| "stringify_members [] = []"
| "stringify_members ((k, v) # kvs) = (json_quote k @ '':'' @ stringify v) # stringify_members kvs"

definition utf8_length :: "string \<Rightarrow> nat" where
  "utf8_length s = sum_list (map (\<lambda>c. if code c < 128 then 1 else 2) s)"

definition json_bytes :: "json \<Rightarrow> nat" where
  "json_bytes v = utf8_length (stringify v)"

lemma utf8_length_append [simp]: "utf8_length (s @ t) = utf8_length s + utf8_length t"
  by (simp add: utf8_length_def)

lemma utf8_length_Nil [simp]: "utf8_length [] = 0"
  by (simp add: utf8_length_def)

lemma utf8_length_Cons [simp]:
  "utf8_length (c # s) = (if code c < 128 then 1 else 2) + utf8_length s"
  by (simp add: utf8_length_def)

lemma stringify_items_map: "stringify_items xs = map stringify xs"
  by (induction xs) auto

text \<open>A comma joined list has one separator less than it has items.\<close>

lemma utf8_length_join:
  "utf8_length (join sep xs) =
     sum_list (map utf8_length xs) + (length xs - 1) * utf8_length sep"
  by (induction sep xs rule: join.induct) (auto simp: algebra_simps)

lemma bytes_JArr:
  "json_bytes (JArr xs) = sum_list (map json_bytes xs) + (length xs - 1) + 2"
  by (simp add: json_bytes_def [abs_def] utf8_length_join stringify_items_map code_def comp_def)

text \<open>\<open>Object.keys\<close>, and a property of an object (None is \<open>undefined\<close>).\<close>

definition obj_keys :: "(string \<times> json) list \<Rightarrow> string list" where
  "obj_keys kvs = map fst kvs"

definition obj_get :: "(string \<times> json) list \<Rightarrow> string \<Rightarrow> json option" where
  "obj_get kvs k = map_of kvs k"

lemma obj_get_None: "obj_get kvs k = None \<longleftrightarrow> k \<notin> set (obj_keys kvs)"
  by (simp add: obj_get_def obj_keys_def map_of_eq_None_iff)

text \<open>An object has each of its keys once.\<close>

fun json_wf :: "json \<Rightarrow> bool"
  and json_wf_items :: "json list \<Rightarrow> bool"
  and json_wf_members :: "(string \<times> json) list \<Rightarrow> bool" where
  "json_wf (JArr xs) \<longleftrightarrow> json_wf_items xs"
| "json_wf (JObj kvs) \<longleftrightarrow> distinct (map fst kvs) \<and> json_wf_members kvs"
| "json_wf _ \<longleftrightarrow> True"
| "json_wf_items [] \<longleftrightarrow> True"
| "json_wf_items (x # xs) \<longleftrightarrow> json_wf x \<and> json_wf_items xs"
| "json_wf_members [] \<longleftrightarrow> True"
| "json_wf_members ((k, v) # kvs) \<longleftrightarrow> json_wf v \<and> json_wf_members kvs"

text \<open>An argument that may be missing.\<close>

fun arg_wf :: "json option \<Rightarrow> bool" where
  "arg_wf None \<longleftrightarrow> True"
| "arg_wf (Some v) \<longleftrightarrow> json_wf v"

end
