(* ===== verification/SqlWrite.thy ===== *)
theory SqlWrite
  imports SqlLex Json "HOL-Library.Char_ord" "HOL-Library.List_Lexorder"
begin

text \<open>
  The statement builders of \<open>apps/database-mcp-worker/src/sql/write.ts\<close>. The array
  \<open>params\<close> that the builders push to is passed and returned; a parameter is None where
  the code would push \<open>undefined\<close>.
\<close>

section \<open>Limits and identifiers\<close>

definition MAX_WRITE_PAYLOAD_BYTES :: nat where "MAX_WRITE_PAYLOAD_BYTES = 256 * 1024"
definition MAX_COLUMNS :: nat where "MAX_COLUMNS = 100"
definition MAX_PREDICATE_COLUMNS :: nat where "MAX_PREDICATE_COLUMNS = 20"
definition MAX_IN_VALUES :: nat where "MAX_IN_VALUES = 100"

record built_statement =
  bs_sql :: string
  bs_params :: "json option list"

definition invalid :: "string \<Rightarrow> public_error" where
  "invalid message = PublicError INVALID_INPUT message"

definition hasControlCharacter :: "string \<Rightarrow> bool" where
  "hasControlCharacter s \<longleftrightarrow> list_ex (\<lambda>c. code c \<le> 31 \<or> code c = 127) s"

fun quote_char :: "dialect \<Rightarrow> char" where
  "quote_char Postgres = CHR 0x22"
| "quote_char Mysql = CHR 0x60"

definition quote_with :: "char \<Rightarrow> string \<Rightarrow> string" where
  "quote_with q s = q # double_char q s @ [q]"

definition quoteIdentifier :: "string \<Rightarrow> dialect \<Rightarrow> public_error + string" where
  "quoteIdentifier identifier d =
    (if identifier = [] \<or> length identifier > 128 \<or> hasControlCharacter identifier
     then Inl (invalid ''SQL identifiers must contain 1 to 128 non-control characters.'')
     else Inr (quote_with (quote_char d) identifier))"

definition qualifiedTable :: "dialect \<Rightarrow> string option \<Rightarrow> string \<Rightarrow> public_error + string" where
  "qualifiedTable d schema table =
    bindE (quoteIdentifier table d) (\<lambda>quotedTable.
      case schema of
        None \<Rightarrow> Inr quotedTable
      | Some s \<Rightarrow> bindE (quoteIdentifier s d) (\<lambda>quotedSchema. Inr (quotedSchema @ ''.'' @ quotedTable)))"

definition placeholder :: "dialect \<Rightarrow> nat \<Rightarrow> string" where
  "placeholder d index = (if d = Postgres then ''$'' @ nat_str index else ''?'')"

section \<open>Records and predicates\<close>

definition plainRecord :: "json option \<Rightarrow> string \<Rightarrow> public_error + (string \<times> json) list" where
  "plainRecord v label =
    (case v of Some (JObj kvs) \<Rightarrow> Inr kvs | _ \<Rightarrow> Inl (invalid (label @ '' must be an object.'')))"

definition objectKeysWithinLimit ::
  "(string \<times> json) list \<Rightarrow> string \<Rightarrow> nat \<Rightarrow> public_error + string list" where
  "objectKeysWithinLimit v label max_keys =
    (let keys = obj_keys v in
     if keys = [] \<or> length keys > max_keys
     then Inl (invalid (label @ '' must contain 1 to '' @ nat_str max_keys @ '' columns.''))
     else bindE (mapE (\<lambda>key. quoteIdentifier key Postgres) keys) (\<lambda>_. Inr keys))"

fun isPredicateScalar :: "json \<Rightarrow> bool" where
  "isPredicateScalar (JStr _) \<longleftrightarrow> True"
| "isPredicateScalar (JBool _) \<longleftrightarrow> True"
| "isPredicateScalar (JNum n) \<longleftrightarrow> n \<noteq> NonFinite"
| "isPredicateScalar _ \<longleftrightarrow> False"

definition push_scalar ::
  "string \<Rightarrow> dialect \<Rightarrow> json \<Rightarrow> json option list \<Rightarrow> public_error + (string \<times> json option list)" where
  \<comment> \<open>push a scalar, return its placeholder\<close>
  "push_scalar message d v params =
    (if isPredicateScalar v
     then Inr (placeholder d (Suc (length params)), params @ [Some v])
     else Inl (invalid message))"

definition pushEquality ::
  "dialect \<Rightarrow> string \<Rightarrow> json \<Rightarrow> json option list \<Rightarrow> public_error + (string \<times> json option list)" where
  "pushEquality d quotedColumn v params =
    bindE (push_scalar ''Equality predicates require a non-null scalar value; use isNull for null checks.''
       d v params)
     (\<lambda>(slot, params'). Inr (quotedColumn @ '' = '' @ slot, params'))"

definition operator_predicate ::
  "dialect \<Rightarrow> string \<Rightarrow> string \<Rightarrow> json \<Rightarrow> json option list \<Rightarrow>
     public_error + (string \<times> json option list)" where
  \<comment> \<open>the branches of \<open>buildPredicate\<close> on the single operator\<close>
  "operator_predicate d quotedColumn operator operand params =
    (if operator = ''eq'' then pushEquality d quotedColumn operand params
     else if operator = ''in'' then
       (case operand of
          JArr vs \<Rightarrow>
            if vs = [] \<or> length vs > MAX_IN_VALUES
            then Inl (invalid (''Membership predicates must contain 1 to '' @ nat_str MAX_IN_VALUES @ '' values.''))
            else bindE (mapS (push_scalar ''Membership predicates accept only non-null scalar values.'' d) vs params)
              (\<lambda>(slots, params'). Inr (quotedColumn @ '' IN ('' @ join '', '' slots @ '')'', params'))
        | _ \<Rightarrow> Inl (invalid (''Membership predicates must contain 1 to '' @ nat_str MAX_IN_VALUES @ '' values.'')))
     else if operator = ''isNull'' then
       (case operand of
          JBool b \<Rightarrow> Inr (quotedColumn @ '' IS '' @ (if b then [] else ''NOT '') @ ''NULL'', params)
        | _ \<Rightarrow> Inl (invalid ''isNull predicates require a boolean value.''))
     else Inl (invalid (''Unsupported predicate operator '' @ [CHR 0x27] @ operator @ [CHR 0x27] @ ''.'')))"

definition buildPredicate ::
  "dialect \<Rightarrow> string \<Rightarrow> json option \<Rightarrow> json option list \<Rightarrow> public_error + (string \<times> json option list)" where
  "buildPredicate d column predicate params =
    bindE (quoteIdentifier column d) (\<lambda>quotedColumn.
      case predicate of
        Some (JObj kvs) \<Rightarrow>
          (case kvs of
             [(operator, operand)] \<Rightarrow> operator_predicate d quotedColumn operator operand params
           | _ \<Rightarrow> Inl (invalid ''Each predicate column must use exactly one operator.''))
      | Some v \<Rightarrow>
          if isPredicateScalar v then pushEquality d quotedColumn v params
          else Inl (invalid ''Predicates must be scalar equality or exactly one supported operator object.'')
      | None \<Rightarrow>
          Inl (invalid ''Predicates must be scalar equality or exactly one supported operator object.''))"

definition buildWhere ::
  "dialect \<Rightarrow> json option \<Rightarrow> json option list \<Rightarrow> public_error + (string \<times> json option list)" where
  "buildWhere d whereValue params =
    bindE (plainRecord whereValue ''where'') (\<lambda>wher.
    bindE (objectKeysWithinLimit wher ''where'' MAX_PREDICATE_COLUMNS) (\<lambda>columns.
    bindE (mapS (\<lambda>column. buildPredicate d column (obj_get wher column)) columns params)
      (\<lambda>(predicates, params'). Inr (join '' AND '' predicates, params'))))"

definition assertWritePayloadWithinLimit :: "json \<Rightarrow> public_error + unit" where
  "assertWritePayloadWithinLimit v =
    (if json_bytes v > MAX_WRITE_PAYLOAD_BYTES
     then Inl (invalid (''Write payload exceeds the '' @ nat_str MAX_WRITE_PAYLOAD_BYTES @ ''-byte limit.''))
     else Inr ())"

section \<open>Statements\<close>

definition push_column ::
  "dialect \<Rightarrow> (string \<times> json) list \<Rightarrow> string \<Rightarrow> json option list \<Rightarrow>
     public_error + (string \<times> json option list)" where
  "push_column d row column params =
     Inr (placeholder d (Suc (length params)), params @ [obj_get row column])"

definition insert_row ::
  "dialect \<Rightarrow> string list \<Rightarrow> json \<Rightarrow> json option list \<Rightarrow> public_error + (string \<times> json option list)" where
  \<comment> \<open>the body of the loop over the rows\<close>
  "insert_row d columns rawRow params =
    bindE (plainRecord (Some rawRow) ''Each insert row'') (\<lambda>row.
    bindE (objectKeysWithinLimit row ''Each insert row'' MAX_COLUMNS) (\<lambda>keys.
      if sort keys \<noteq> sort columns
      then Inl (invalid ''All insert rows must have exactly the same column set.'')
      else bindE (mapS (push_column d row) columns params)
        (\<lambda>(tuple, params'). Inr (''('' @ join '', '' tuple @ '')'', params'))))"

definition buildInsertStatement ::
  "dialect \<Rightarrow> string option \<Rightarrow> string \<Rightarrow> json \<Rightarrow> public_error + built_statement" where
  "buildInsertStatement d schema table rowsValue =
    (case rowsValue of
       JArr rows \<Rightarrow>
         if rows = [] \<or> length rows > 100 then Inl (invalid ''rows must contain 1 to 100 objects.'')
         else
           bindE (plainRecord (Some (hd rows)) ''Each insert row'') (\<lambda>first.
           bindE (objectKeysWithinLimit first ''Each insert row'' MAX_COLUMNS) (\<lambda>columns.
           bindE (mapS (insert_row d columns) rows []) (\<lambda>(tuples, params).
           bindE (qualifiedTable d schema table) (\<lambda>target.
           bindE (mapE (\<lambda>column. quoteIdentifier column d) columns) (\<lambda>quoted.
             Inr \<lparr>bs_sql = ''INSERT INTO '' @ target @ '' ('' @ join '', '' quoted @ '') VALUES '' @
                    join '', '' tuples,
                  bs_params = params\<rparr>)))))
     | _ \<Rightarrow> Inl (invalid ''rows must contain 1 to 100 objects.''))"

definition assignment ::
  "dialect \<Rightarrow> (string \<times> json) list \<Rightarrow> string \<Rightarrow> json option list \<Rightarrow>
     public_error + (string \<times> json option list)" where
  \<comment> \<open>the callback that renders one assignment of an UPDATE\<close>
  "assignment d set_values column params =
    bindE (quoteIdentifier column d) (\<lambda>quoted.
      Inr (quoted @ '' = '' @ placeholder d (Suc (length params)), params @ [obj_get set_values column]))"

definition buildUpdateStatement ::
  "dialect \<Rightarrow> string option \<Rightarrow> string \<Rightarrow> json option \<Rightarrow> json option \<Rightarrow> public_error + built_statement" where
  "buildUpdateStatement d schema table setValue whereValue =
    bindE (plainRecord setValue ''set'') (\<lambda>set_values.
    bindE (objectKeysWithinLimit set_values ''set'' MAX_COLUMNS) (\<lambda>columns.
    bindE (mapS (assignment d set_values) columns []) (\<lambda>(assignments, params).
    bindE (buildWhere d whereValue params) (\<lambda>(wher, params').
    bindE (qualifiedTable d schema table) (\<lambda>target.
      Inr \<lparr>bs_sql = ''UPDATE '' @ target @ '' SET '' @ join '', '' assignments @ '' WHERE '' @ wher,
           bs_params = params'\<rparr>)))))"

definition buildDeleteStatement ::
  "dialect \<Rightarrow> string option \<Rightarrow> string \<Rightarrow> json option \<Rightarrow> public_error + built_statement" where
  "buildDeleteStatement d schema table whereValue =
    bindE (buildWhere d whereValue []) (\<lambda>(wher, params).
    bindE (qualifiedTable d schema table) (\<lambda>target.
      Inr \<lparr>bs_sql = ''DELETE FROM '' @ target @ '' WHERE '' @ wher, bs_params = params\<rparr>))"

section \<open>Quoted identifiers\<close>

lemma skip_quoted_double:
  "\<not> hd_is q rest \<Longrightarrow> skip_quoted q (double_char q s @ q # rest) = Some rest"
  by (induction s) auto

lemma quoteIdentifier_Inr:
  "quoteIdentifier s d = Inr q \<longleftrightarrow> s \<noteq> [] \<and> length s \<le> 128 \<and> \<not> hasControlCharacter s \<and>
     q = quote_with (quote_char d) s"
  by (auto simp: quoteIdentifier_def)

text \<open>C24: a quoted identifier, whatever the identifier, is one lexical token for the scanner
  of the read guard: it is skipped as a whole, nothing of it is seen as a word or as a
  terminator, and undoubling the quotes inside gives the identifier back.
\<close>

theorem quoteIdentifier_one_token:
  assumes "quoteIdentifier s d = Inr q" and "\<not> hd_is (quote_char d) rest"
  shows "scan_step (q @ rest) = Inr (Skipped, rest) \<and>
    halve_char (quote_char d) (butlast (tl q)) = s"
proof -
  from assms(1) have q: "q = quote_char d # double_char (quote_char d) s @ [quote_char d]"
    by (simp add: quoteIdentifier_Inr quote_with_def)
  have "skip_quoted (quote_char d) (double_char (quote_char d) s @ quote_char d # rest) = Some rest"
    by (rule skip_quoted_double [OF assms(2)])
  then have "scan_step (q @ rest) = Inr (Skipped, rest)"
    by (cases d) (simp_all add: q scan_step.simps(2) skipped_or_def is_ws_def code_def)
  with q show ?thesis by simp
qed

lemma quoteIdentifier_one_token_witness:
  "scan_step ([CHR 0x60] @ ''a'' @ [CHR 0x60, CHR 0x60] @ ''; drop'' @ [CHR 0x60] @ '' = 1'') =
    Inr (Skipped, '' = 1'')"
proof -
  have "quoteIdentifier (''a'' @ [CHR 0x60] @ ''; drop'') Mysql =
      Inr ([CHR 0x60] @ ''a'' @ [CHR 0x60, CHR 0x60] @ ''; drop'' @ [CHR 0x60])"
    by code_simp
  from quoteIdentifier_one_token [OF this, of "'' = 1''"] show ?thesis by simp
qed

section \<open>Pushing parameters\<close>

lemma plainRecord_Inr [simp]: "plainRecord v l = Inr kvs \<longleftrightarrow> v = Some (JObj kvs)"
  by (auto simp: plainRecord_def split: option.splits json.splits)

lemma objectKeysWithinLimit_Inr:
  "objectKeysWithinLimit v l n = Inr ks \<longleftrightarrow> ks = obj_keys v \<and> ks \<noteq> [] \<and> length ks \<le> n \<and>
     (\<exists>qs. mapE (\<lambda>key. quoteIdentifier key Postgres) (obj_keys v) = Inr qs)"
  by (auto simp: objectKeysWithinLimit_def Let_def bindE_Inr_iff)

lemma push_columns:
  "mapS (push_column d row) columns params =
     Inr (map (placeholder d) [Suc (length params) ..< Suc (length params) + length columns],
          params @ map (obj_get row) columns)"
proof (induction columns arbitrary: params)
  case Nil
  show ?case by simp
next
  case (Cons c cs)
  have step: "push_column d row c params =
      Inr (placeholder d (Suc (length params)), params @ [obj_get row c])"
    by (simp add: push_column_def)
  show ?case
    by (simp add: step Cons.IH upt_conv_Cons del: upt_Suc)
qed

lemma insert_row_Inr:
  assumes "insert_row d columns rawRow params = Inr (tuple, params')"
  obtains row where "rawRow = JObj row" and "set (obj_keys row) = set columns"
    and "length (obj_keys row) = length columns" and "params' = params @ map (obj_get row) columns"
    and "tuple = ''('' @ join '', '' (map (placeholder d)
      [Suc (length params) ..< Suc (length params) + length columns]) @ '')''"
proof -
  from assms obtain row where row: "rawRow = JObj row" and "sort (obj_keys row) = sort columns"
    and "(tuple, params') = (''('' @ join '', '' (map (placeholder d)
      [Suc (length params) ..< Suc (length params) + length columns]) @ '')'', params @ map (obj_get row) columns)"
    unfolding insert_row_def push_columns
    by (auto simp only: bindE_simps bindE_Inr_iff plainRecord_Inr objectKeysWithinLimit_Inr option.inject
        prod.case sum.inject split: if_splits)
  then show ?thesis
    using that [of row] by (metis Pair_inject length_sort set_sort)
qed

lemma insert_rows_Inr:
  assumes "mapS (insert_row d columns) rows params = Inr (tuples, params')"
  shows "\<exists>records. rows = map JObj records \<and>
    (\<forall>r \<in> set records. set (obj_keys r) = set columns \<and> length (obj_keys r) = length columns) \<and>
    params' = params @ concat (map (\<lambda>r. map (obj_get r) columns) records) \<and>
    tuples = map (\<lambda>i. ''('' @ join '', '' (map (placeholder d)
      [Suc (length params + i * length columns) ..< Suc (length params + i * length columns) + length columns]) @ '')'')
      [0 ..< length rows]"
  using assms
proof (induction rows arbitrary: params tuples)
  case Nil
  then show ?case by simp
next
  case (Cons x xs)
  let ?n = "length columns"
  let ?tuple = "\<lambda>k. ''('' @ join '', '' (map (placeholder d) [Suc k ..< Suc k + ?n]) @ '')''"
  from Cons.prems obtain t p1 ts where step: "insert_row d columns x params = Inr (t, p1)"
    and rest: "mapS (insert_row d columns) xs p1 = Inr (ts, params')" and tuples: "tuples = t # ts"
    by (simp only: mapS.simps) (auto simp: bindE_Inr_iff)
  obtain row where row: "x = JObj row" "set (obj_keys row) = set columns" "length (obj_keys row) = ?n"
    and p1: "p1 = params @ map (obj_get row) columns" and t: "t = ?tuple (length params)"
    by (rule insert_row_Inr [OF step])
  from Cons.IH [OF rest] obtain records where recs: "xs = map JObj records"
    "\<forall>r \<in> set records. set (obj_keys r) = set columns \<and> length (obj_keys r) = ?n"
    "params' = p1 @ concat (map (\<lambda>r. map (obj_get r) columns) records)"
    "ts = map (\<lambda>i. ?tuple (length p1 + i * ?n)) [0 ..< length xs]"
    by (elim exE conjE)
  have "tuples = map (\<lambda>i. ?tuple (length params + i * ?n)) [0 ..< length (x # xs)]"
    unfolding tuples t recs(4)
    by (simp add: map_upt_Suc p1 add.assoc del: upt_Suc)
  with row recs p1 show ?case
    by (intro exI [of _ "row # records"]) simp
qed

text \<open>an accepted INSERT is the multi-row statement with one tuple for each row and one
  placeholder for each column, numbered from 1 in row order; its parameters are the rows'
  values in the same order, all present. The text depends on the column names and the
  number of rows only, never on a value.
\<close>

theorem buildInsertStatement_layout:
  assumes "buildInsertStatement d schema table rowsValue = Inr st"
  shows "\<exists>records columns target quoted.
    rowsValue = JArr (map JObj records) \<and> 1 \<le> length records \<and> length records \<le> 100 \<and>
    columns = obj_keys (hd records) \<and> 1 \<le> length columns \<and> length columns \<le> 100 \<and>
    (\<forall>r \<in> set records. set (obj_keys r) = set columns) \<and>
    qualifiedTable d schema table = Inr target \<and>
    mapE (\<lambda>column. quoteIdentifier column d) columns = Inr quoted \<and>
    bs_params st = concat (map (\<lambda>r. map (obj_get r) columns) records) \<and> None \<notin> set (bs_params st) \<and>
    bs_sql st = ''INSERT INTO '' @ target @ '' ('' @ join '', '' quoted @ '') VALUES '' @
      join '', '' (map (\<lambda>i. ''('' @ join '', '' (map (placeholder d)
        [i * length columns + 1 ..< i * length columns + length columns + 1]) @ '')'')
        [0 ..< length records])"
proof -
  from assms obtain rows first columns tuples params target quoted where
    rows: "rowsValue = JArr rows" and ne: "rows \<noteq> []" "length rows \<le> 100"
    and first: "hd rows = JObj first"
    and cols: "objectKeysWithinLimit first ''Each insert row'' MAX_COLUMNS = Inr columns"
    and loop: "mapS (insert_row d columns) rows [] = Inr (tuples, params)"
    and target: "qualifiedTable d schema table = Inr target"
    and quoted: "mapE (\<lambda>column. quoteIdentifier column d) columns = Inr quoted"
    and st: "st = \<lparr>bs_sql = ''INSERT INTO '' @ target @ '' ('' @ join '', '' quoted @ '') VALUES '' @
       join '', '' tuples, bs_params = params\<rparr>"
    by (auto simp only: buildInsertStatement_def plainRecord_Inr bindE_simps bindE_Inr_iff option.inject
        prod.case sum.inject sum.distinct de_Morgan_disj not_less split: json.splits if_splits) blast
  from insert_rows_Inr [OF loop] obtain records where recs: "rows = map JObj records"
    "\<forall>r \<in> set records. set (obj_keys r) = set columns \<and> length (obj_keys r) = length columns"
    and params: "params = concat (map (\<lambda>r. map (obj_get r) columns) records)"
    and tuples: "tuples = map (\<lambda>i. ''('' @ join '', '' (map (placeholder d)
      [Suc (length ([] :: json option list) + i * length columns) ..<
       Suc (length ([] :: json option list) + i * length columns) + length columns]) @ '')'')
      [0 ..< length rows]"
    unfolding append_Nil by (elim exE conjE)
  have first': "first = hd records"
    using first recs(1) ne by (cases records) auto
  have none: "None \<notin> set params"
  proof
    assume "None \<in> set params"
    then obtain r c where "r \<in> set records" "c \<in> set columns" "obj_get r c = None"
      unfolding params by auto
    with recs(2) show False by (simp add: obj_get_None)
  qed
  have cols': "columns = obj_keys (hd records)" "columns \<noteq> []" "length columns \<le> 100"
    using cols first' by (auto simp: objectKeysWithinLimit_Inr MAX_COLUMNS_def)
  have tuples': "tuples = map (\<lambda>i. ''('' @ join '', '' (map (placeholder d)
      [i * length columns + 1 ..< i * length columns + length columns + 1]) @ '')'') [0 ..< length records]"
    unfolding tuples recs(1) by (simp del: upt_Suc)
  show ?thesis
  proof (intro exI conjI)
    show "rowsValue = JArr (map JObj records)" using rows recs(1) by simp
    show "1 \<le> length records" "length records \<le> 100" using ne recs(1) by (simp_all add: Suc_le_eq)
    show "columns = obj_keys (hd records)" by (rule cols'(1))
    show "1 \<le> length columns" "length columns \<le> 100" using cols' by (simp_all add: Suc_le_eq)
    show "\<forall>r \<in> set records. set (obj_keys r) = set columns" using recs(2) by blast
    show "qualifiedTable d schema table = Inr target" by (rule target)
    show "mapE (\<lambda>column. quoteIdentifier column d) columns = Inr quoted" by (rule quoted)
    show "bs_params st = concat (map (\<lambda>r. map (obj_get r) columns) records)" "None \<notin> set (bs_params st)"
      using params none st by simp_all
    show "bs_sql st = ''INSERT INTO '' @ target @ '' ('' @ join '', '' quoted @ '') VALUES '' @
      join '', '' (map (\<lambda>i. ''('' @ join '', '' (map (placeholder d)
        [i * length columns + 1 ..< i * length columns + length columns + 1]) @ '')'')
        [0 ..< length records])"
      by (simp only: st tuples' built_statement.select_convs)
  qed
qed

lemma buildInsertStatement_layout_witness:
  "buildInsertStatement Postgres None ''t''
     (JArr [JObj [(''a'', JNull), (''b'', JBool True)], JObj [(''b'', JNull), (''a'', JStr ''x'')]]) =
   Inr \<lparr>bs_sql = ''INSERT INTO '' @ [CHR 0x22] @ ''t'' @ [CHR 0x22] @ '' ('' @ [CHR 0x22] @ ''a'' @ [CHR 0x22] @
          '', '' @ [CHR 0x22] @ ''b'' @ [CHR 0x22] @ '') VALUES ($1, $2), ($3, $4)'',
        bs_params = [Some JNull, Some (JBool True), Some (JStr ''x''), Some JNull]\<rparr> \<and>
   (\<exists>target. qualifiedTable Postgres None ''t'' = Inr target)"
  (is "?b = Inr ?st \<and> _")
proof -
  have eq: "?b = Inr ?st"
    by code_simp
  from buildInsertStatement_layout [OF eq] have "\<exists>target. qualifiedTable Postgres None ''t'' = Inr target"
    by (elim exE conjE) (rule exI)
  with eq show ?thesis by (rule conjI)
qed

section \<open>The WHERE clause\<close>

text \<open>
  What a predicate contributes, stated apart from the way it is built: its shape (operator
  and number of operands) determines its text, and its values are bound in order.
\<close>

datatype pred_shape = EqShape | InShape nat | NullShape bool | NoShape

fun operator_shape :: "string \<Rightarrow> json \<Rightarrow> pred_shape" where
  "operator_shape operator (JArr vs) =
     (if operator = ''eq'' then EqShape else if operator = ''in'' then InShape (length vs) else NoShape)"
| "operator_shape operator (JBool b) =
     (if operator = ''eq'' then EqShape else if operator = ''isNull'' then NullShape b else NoShape)"
| "operator_shape operator v = (if operator = ''eq'' then EqShape else NoShape)"

fun predicate_shape :: "json \<Rightarrow> pred_shape" where
  "predicate_shape (JObj kvs) = (case kvs of [(operator, v)] \<Rightarrow> operator_shape operator v | _ \<Rightarrow> NoShape)"
| "predicate_shape v = EqShape"

fun shape_arity :: "pred_shape \<Rightarrow> nat" where
  "shape_arity EqShape = 1"
| "shape_arity (InShape n) = n"
| "shape_arity _ = 0"

fun shape_text :: "dialect \<Rightarrow> string \<Rightarrow> pred_shape \<Rightarrow> nat \<Rightarrow> string" where
  "shape_text d quoted EqShape k = quoted @ '' = '' @ placeholder d (Suc k)"
| "shape_text d quoted (InShape n) k =
     quoted @ '' IN ('' @ join '', '' (map (placeholder d) [Suc k ..< Suc k + n]) @ '')''"
| "shape_text d quoted (NullShape b) k = quoted @ '' IS '' @ (if b then [] else ''NOT '') @ ''NULL''"
| "shape_text d quoted NoShape k = []"

fun predicate_values :: "json \<Rightarrow> json list" where
  "predicate_values (JObj kvs) =
     (case kvs of
        [(operator, v)] \<Rightarrow>
          if operator = ''eq'' then [v]
          else if operator = ''in'' then (case v of JArr vs \<Rightarrow> vs | _ \<Rightarrow> [])
          else []
      | _ \<Rightarrow> [])"
| "predicate_values v = [v]"

fun where_text :: "dialect \<Rightarrow> (string \<times> pred_shape) list \<Rightarrow> nat \<Rightarrow> string list" where
  "where_text d [] k = []"
| "where_text d ((column, shape) # rest) k =
     shape_text d (quote_with (quote_char d) column) shape k # where_text d rest (k + shape_arity shape)"

definition predicate_ok :: "dialect \<Rightarrow> string \<Rightarrow> json \<Rightarrow> nat \<Rightarrow> string \<Rightarrow> json option list \<Rightarrow> bool" where
  "predicate_ok d quoted p k text pushed \<longleftrightarrow>
     text = shape_text d quoted (predicate_shape p) k \<and> predicate_shape p \<noteq> NoShape \<and>
     pushed = map Some (predicate_values p) \<and> length pushed = shape_arity (predicate_shape p) \<and>
     (\<forall>v \<in> set (predicate_values p). isPredicateScalar v)"

lemma push_scalar_Inr:
  "push_scalar m d v params = Inr (slot, params') \<longleftrightarrow>
     isPredicateScalar v \<and> slot = placeholder d (Suc (length params)) \<and> params' = params @ [Some v]"
  by (auto simp: push_scalar_def)

lemma push_scalars:
  "mapS (push_scalar m d) vs params = Inr (slots, params') \<Longrightarrow>
     slots = map (placeholder d) [Suc (length params) ..< Suc (length params) + length vs] \<and>
     params' = params @ map Some vs \<and> (\<forall>v \<in> set vs. isPredicateScalar v)"
proof (induction vs arbitrary: params slots)
  case Nil
  then show ?case by simp
next
  case (Cons v vs)
  then obtain slots' where v: "isPredicateScalar v"
    and rest: "mapS (push_scalar m d) vs (params @ [Some v]) = Inr (slots', params')"
    and slots: "slots = placeholder d (Suc (length params)) # slots'"
    by (auto simp: push_scalar_Inr bindE_Inr_iff)
  from Cons.IH [OF rest] v slots show ?case
    by (simp add: upt_conv_Cons del: upt_Suc)
qed

lemma pushEquality_Inr:
  "pushEquality d quoted v params = Inr (text, params') \<longleftrightarrow>
     isPredicateScalar v \<and> text = quoted @ '' = '' @ placeholder d (Suc (length params)) \<and>
     params' = params @ [Some v]"
  by (auto simp: pushEquality_def push_scalar_Inr bindE_Inr_iff)

lemma operator_predicate_Inr:
  assumes "operator_predicate d quoted operator operand params = Inr (text, params')"
  shows "\<exists>u. params' = params @ u \<and> predicate_ok d quoted (JObj [(operator, operand)]) (length params) text u"
proof (cases "operator = ''eq''")
  case True
  then have "pushEquality d quoted operand params = Inr (text, params')"
    using assms by (simp add: operator_predicate_def)
  moreover have "operator_shape operator operand = EqShape"
    using True by (cases operand) simp_all
  ultimately show ?thesis
    using True by (intro exI [of _ "[Some operand]"]) (simp add: predicate_ok_def pushEquality_Inr)
next
  case ne: False
  show ?thesis
  proof (cases "operator = ''in''")
    case True
    with assms obtain vs slots where operand: "operand = JArr vs"
      and slots: "mapS (push_scalar ''Membership predicates accept only non-null scalar values.'' d) vs params =
        Inr (slots, params')"
      and in_text: "text = quoted @ '' IN ('' @ join '', '' slots @ '')''"
      by (auto simp: operator_predicate_def bindE_Inr_iff split: json.splits if_splits)
    from push_scalars [OF slots] show ?thesis
      using True operand in_text
      by (intro exI [of _ "map Some vs"]) (simp add: predicate_ok_def del: upt_Suc)
  next
    case False
    with assms ne obtain b where "operator = ''isNull''" "operand = JBool b" "params' = params"
      "text = quoted @ '' IS '' @ (if b then [] else ''NOT '') @ ''NULL''"
      by (auto simp: operator_predicate_def split: json.splits if_splits)
    then show ?thesis
      by (intro exI [of _ "[]"]) (simp add: predicate_ok_def)
  qed
qed

lemma buildPredicate_Inr:
  assumes "buildPredicate d column p params = Inr (text, params')"
  shows "\<exists>v u. p = Some v \<and> params' = params @ u \<and>
    predicate_ok d (quote_with (quote_char d) column) v (length params) text u"
proof -
  let ?q = "quote_with (quote_char d) column"
  from assms obtain v where v: "p = Some v"
    by (auto simp: buildPredicate_def bindE_Inr_iff split: option.splits)
  show ?thesis
  proof (cases "\<exists>kvs. v = JObj kvs")
    case True
    with assms v obtain operator operand where "v = JObj [(operator, operand)]"
      and "operator_predicate d ?q operator operand params = Inr (text, params')"
      by (auto simp: buildPredicate_def bindE_Inr_iff quoteIdentifier_Inr split: list.splits)
    with operator_predicate_Inr v show ?thesis by blast
  next
    case False
    with assms v have push: "pushEquality d ?q v params = Inr (text, params')"
      by (auto simp: buildPredicate_def bindE_Inr_iff quoteIdentifier_Inr split: json.splits if_splits)
    with False v show ?thesis
      by (cases v; intro exI [of _ v] exI [of _ "[Some v]"])
        (simp_all add: predicate_ok_def pushEquality_Inr)
  qed
qed

fun shapes :: "(string \<times> json) list \<Rightarrow> (string \<times> pred_shape) list" where
  "shapes [] = []"
| "shapes ((column, p) # rest) = (column, predicate_shape p) # shapes rest"

fun bound_values :: "(string \<times> json) list \<Rightarrow> json list" where
  "bound_values [] = []"
| "bound_values ((column, p) # rest) = predicate_values p @ bound_values rest"

lemma buildWhere_loop:
  assumes "mapS (\<lambda>column. buildPredicate d column (obj_get kvs column)) columns params = Inr (texts, params')"
    and "\<And>column. column \<in> set columns \<Longrightarrow> obj_get kvs column = map_of ps column"
    and "map fst ps = columns" and "distinct columns"
  shows "texts = where_text d (shapes ps) (length params) \<and>
    params' = params @ map Some (bound_values ps) \<and>
    (\<forall>v \<in> set (bound_values ps). isPredicateScalar v)"
  using assms
proof (induction columns arbitrary: params texts ps)
  case Nil
  then show ?case by simp
next
  case (Cons c cs)
  from Cons.prems(3) obtain v qs where ps: "ps = (c, v) # qs" "map fst qs = cs"
    by auto
  from Cons.prems(1) obtain t p1 ts where step: "buildPredicate d c (obj_get kvs c) params = Inr (t, p1)"
    and rest: "mapS (\<lambda>column. buildPredicate d column (obj_get kvs column)) cs p1 = Inr (ts, params')"
    and texts: "texts = t # ts"
    by (auto simp: bindE_Inr_iff)
  from buildPredicate_Inr [OF step] Cons.prems(2) [of c] ps obtain u
    where p1: "p1 = params @ u" and ok: "predicate_ok d (quote_with (quote_char d) c) v (length params) t u"
    by auto
  have "\<And>column. column \<in> set cs \<Longrightarrow> obj_get kvs column = map_of qs column"
    using Cons.prems(2,4) ps by auto
  from Cons.IH [OF rest this ps(2)] Cons.prems(4)
  have "ts = where_text d (shapes qs) (length p1) \<and>
    params' = p1 @ map Some (bound_values qs) \<and>
    (\<forall>v \<in> set (bound_values qs). isPredicateScalar v)"
    by simp
  with ok p1 texts ps show ?case by (auto simp: predicate_ok_def)
qed

definition where_spec ::
  "dialect \<Rightarrow> json option \<Rightarrow> nat \<Rightarrow> string \<Rightarrow> json option list \<Rightarrow> bool" where
  \<comment> \<open>what a WHERE clause built with k parameters before it says and binds\<close>
  "where_spec d whereValue k clause pushed \<longleftrightarrow>
     (\<exists>kvs. whereValue = Some (JObj kvs) \<and> 1 \<le> length kvs \<and> length kvs \<le> 20 \<and>
        clause = join '' AND '' (where_text d (shapes kvs) k) \<and>
        pushed = map Some (bound_values kvs) \<and>
        (\<forall>v \<in> set (bound_values kvs). isPredicateScalar v))"

lemma buildWhere_Inr:
  assumes "buildWhere d whereValue params = Inr (clause, params')" and "arg_wf whereValue"
  shows "\<exists>u. params' = params @ u \<and> where_spec d whereValue (length params) clause u"
proof -
  from assms(1) obtain kvs texts where w: "whereValue = Some (JObj kvs)"
    and lim: "objectKeysWithinLimit kvs ''where'' MAX_PREDICATE_COLUMNS = Inr (obj_keys kvs)"
    and loop: "mapS (\<lambda>column. buildPredicate d column (obj_get kvs column)) (obj_keys kvs) params =
      Inr (texts, params')"
    and clause: "clause = join '' AND '' texts"
    by (auto simp: buildWhere_def bindE_Inr_iff objectKeysWithinLimit_Inr simp del: join.simps)
  have "distinct (obj_keys kvs)"
    using assms(2) w by (simp add: obj_keys_def)
  note result = buildWhere_loop [OF loop obj_get_def obj_keys_def [symmetric] this]
  note texts = result [THEN conjunct1] and params' = result [THEN conjunct2, THEN conjunct1]
    and scalars = result [THEN conjunct2, THEN conjunct2]
  have len: "1 \<le> length kvs" "length kvs \<le> 20"
    using lim by (auto simp: objectKeysWithinLimit_Inr obj_keys_def MAX_PREDICATE_COLUMNS_def Suc_le_eq)
  have "where_spec d whereValue (length params) clause (map Some (bound_values kvs))"
    unfolding where_spec_def
    by (rule exI [of _ kvs], intro conjI w len scalars refl clause [unfolded texts])
  with params' show ?thesis by (intro exI conjI)
qed

lemma assignment_Inr:
  "assignment d kvs c ps = Inr (t, ps') \<Longrightarrow>
     t = quote_with (quote_char d) c @ '' = '' @ placeholder d (Suc (length ps)) \<and> ps' = ps @ [obj_get kvs c]"
  by (auto simp: assignment_def quoteIdentifier_Inr bindE_Inr_iff)

text \<open>a DELETE always carries a WHERE clause with 1 to 20 predicates; the clause is
  determined by the column names and the shapes of the predicates, and the parameters are
  exactly the predicates' values, all non-null scalars, in the order of their
  placeholders.
\<close>

theorem buildDeleteStatement_where:
  assumes "buildDeleteStatement d schema table whereValue = Inr st" and "arg_wf whereValue"
  shows "\<exists>target clause. qualifiedTable d schema table = Inr target \<and>
    bs_sql st = ''DELETE FROM '' @ target @ '' WHERE '' @ clause \<and>
    where_spec d whereValue 0 clause (bs_params st)"
proof -
  from assms(1) obtain clause params target where w: "buildWhere d whereValue [] = Inr (clause, params)"
    and target: "qualifiedTable d schema table = Inr target"
    and st: "st = \<lparr>bs_sql = ''DELETE FROM '' @ target @ '' WHERE '' @ clause, bs_params = params\<rparr>"
    by (auto simp: buildDeleteStatement_def bindE_Inr_iff)
  from buildWhere_Inr [OF w assms(2)] have "where_spec d whereValue 0 clause params"
    by simp
  with target st show ?thesis
    by (intro exI [of _ target] exI [of _ clause]) simp
qed

lemma buildDeleteStatement_where_witness:
  "\<exists>st target clause. buildDeleteStatement Mysql (Some ''s'') ''t''
       (Some (JObj [(''a'', JStr ''x''), (''b'', JObj [(''in'', JArr [JBool True, JBool False])])])) = Inr st \<and>
     bs_params st = [Some (JStr ''x''), Some (JBool True), Some (JBool False)] \<and>
     bs_sql st = ''DELETE FROM '' @ target @ '' WHERE '' @ clause"
proof -
  let ?w = "Some (JObj [(''a'', JStr ''x''), (''b'', JObj [(''in'', JArr [JBool True, JBool False])])])"
  let ?q = "\<lambda>s. [CHR 0x60] @ s @ [CHR 0x60]"
  have eq: "buildDeleteStatement Mysql (Some ''s'') ''t'' ?w =
      Inr \<lparr>bs_sql = ''DELETE FROM '' @ ?q ''s'' @ ''.'' @ ?q ''t'' @ '' WHERE '' @ ?q ''a'' @ '' = ? AND '' @
             ?q ''b'' @ '' IN (?, ?)'',
           bs_params = [Some (JStr ''x''), Some (JBool True), Some (JBool False)]\<rparr>" (is "_ = Inr ?st")
    by code_simp
  have wf: "arg_wf ?w" by code_simp
  have ps: "bs_params ?st = [Some (JStr ''x''), Some (JBool True), Some (JBool False)]" by simp
  show ?thesis
    using buildDeleteStatement_where [OF eq wf] eq ps
    by (elim exE conjE) (rule exI, rule exI, rule exI, intro conjI)
qed

text \<open>an UPDATE sets 1 to 100 columns, each to its own parameter, and always carries a
  WHERE clause; the parameters are the new values in column order, all present, followed
  by the values of the predicates, whose placeholders continue the numbering.\<close>

theorem buildUpdateStatement_where:
  assumes "buildUpdateStatement d schema table setValue whereValue = Inr st" and "arg_wf whereValue"
  shows "\<exists>target clause kvs u. qualifiedTable d schema table = Inr target \<and>
    setValue = Some (JObj kvs) \<and> 1 \<le> length kvs \<and> length kvs \<le> 100 \<and>
    bs_sql st = ''UPDATE '' @ target @ '' SET '' @
      join '', '' (map (\<lambda>i. quote_with (quote_char d) (obj_keys kvs ! i) @ '' = '' @ placeholder d (Suc i))
        [0 ..< length kvs]) @ '' WHERE '' @ clause \<and>
    bs_params st = map (obj_get kvs) (obj_keys kvs) @ u \<and> None \<notin> set (map (obj_get kvs) (obj_keys kvs)) \<and>
    where_spec d whereValue (length kvs) clause u"
proof -
  from assms(1) obtain kvs columns assignments params clause params' target where
    set_v: "setValue = Some (JObj kvs)"
    and cols: "objectKeysWithinLimit kvs ''set'' MAX_COLUMNS = Inr columns"
    and loop: "mapS (assignment d kvs) columns [] = Inr (assignments, params)"
    and w: "buildWhere d whereValue params = Inr (clause, params')"
    and target: "qualifiedTable d schema table = Inr target"
    and st: "st = \<lparr>bs_sql = ''UPDATE '' @ target @ '' SET '' @ join '', '' assignments @ '' WHERE '' @ clause,
       bs_params = params'\<rparr>"
    by (auto simp only: buildUpdateStatement_def plainRecord_Inr bindE_Inr_iff prod.case sum.inject)
  have "assignments = map (\<lambda>i. quote_with (quote_char d) (cs ! i) @ '' = '' @ placeholder d (Suc (length ps + i)))
        [0 ..< length cs] \<and> params'' = ps @ map (obj_get kvs) cs"
    if "mapS (assignment d kvs) cs ps = Inr (assignments, params'')" for cs ps params'' assignments
    using that
  proof (induction cs arbitrary: ps assignments)
    case Nil
    then show ?case by simp
  next
    case (Cons c cs)
    from Cons.prems obtain as where as: "assignments =
        (quote_with (quote_char d) c @ '' = '' @ placeholder d (Suc (length ps))) # as"
      and rest: "mapS (assignment d kvs) cs (ps @ [obj_get kvs c]) = Inr (as, params'')"
      by (auto simp: bindE_Inr_iff simp del: append.simps dest!: assignment_Inr)
    from Cons.IH [OF rest] as show ?case
      by (simp add: map_upt_Suc del: upt_Suc)
  qed
  from this [OF loop] have assigns: "assignments =
      map (\<lambda>i. quote_with (quote_char d) (columns ! i) @ '' = '' @ placeholder d (Suc i)) [0 ..< length columns]"
    and params: "params = map (obj_get kvs) columns"
    by simp_all
  have columns: "columns = obj_keys kvs" "1 \<le> length kvs" "length kvs \<le> 100"
    using cols by (auto simp: objectKeysWithinLimit_Inr obj_keys_def MAX_COLUMNS_def Suc_le_eq)
  from buildWhere_Inr [OF w assms(2)] obtain u where "params' = params @ u"
    and "where_spec d whereValue (length params) clause u" by blast
  moreover have "length params = length kvs"
    by (simp add: params columns obj_keys_def)
  moreover have "None \<notin> set (map (obj_get kvs) (obj_keys kvs))"
    using obj_get_None by (metis (no_types, lifting) imageE list.set_map)
  ultimately show ?thesis
    using set_v columns(2,3) target unfolding st assigns params columns(1)
    by (intro exI [of _ target] exI [of _ clause] exI [of _ kvs] exI [of _ u])
      (simp only: built_statement.select_convs obj_keys_def length_map simp_thms)
qed

lemma buildUpdateStatement_where_witness:
  "\<exists>st target clause. buildUpdateStatement Postgres None ''t'' (Some (JObj [(''a'', JNull)]))
       (Some (JObj [(''id'', JNum (Finite ''7''))])) = Inr st \<and>
     bs_params st = [Some JNull, Some (JNum (Finite ''7''))] \<and> qualifiedTable Postgres None ''t'' = Inr target"
proof -
  let ?q = "\<lambda>s. [CHR 0x22] @ s @ [CHR 0x22]"
  let ?w = "Some (JObj [(''id'', JNum (Finite ''7''))])"
  have eq: "buildUpdateStatement Postgres None ''t'' (Some (JObj [(''a'', JNull)])) ?w =
      Inr \<lparr>bs_sql = ''UPDATE '' @ ?q ''t'' @ '' SET '' @ ?q ''a'' @ '' = $1 WHERE '' @ ?q ''id'' @ '' = $2'',
           bs_params = [Some JNull, Some (JNum (Finite ''7''))]\<rparr>" (is "_ = Inr ?st")
    by code_simp
  have wf: "arg_wf ?w" by code_simp
  have ps: "bs_params ?st = [Some JNull, Some (JNum (Finite ''7''))]" by simp
  show ?thesis
    using buildUpdateStatement_where [OF eq wf] eq ps
    by (elim exE conjE) (rule exI, rule exI, intro exI conjI)
qed

end
