(* ===== verification/SqlAdmin.thy ===== *)
theory SqlAdmin
  imports SqlWrite
begin

text \<open>
  The DDL builders of \<open>apps/database-mcp-worker/src/sql/admin.ts\<close>. A numeric argument is
  an integer or some other number; a column default is the JSON value passed for it.
\<close>

record built_admin_statement =
  bas_operation :: string
  bas_sql :: string

datatype admin_column_type =
  Integer | Bigint | Numeric | Decimal | Varchar | Text | Boolean | Date | Timestamp | Datetime | Json

datatype admin_number = IntegerNumber int | OtherNumber

record admin_column =
  ac_name :: string
  ac_type :: admin_column_type
  ac_length :: "admin_number option"
  ac_precision :: "admin_number option"
  ac_scale :: "admin_number option"
  ac_nullable :: "bool option"
  ac_default :: "json option"
  ac_primaryKey :: "bool option"
  ac_unique :: "bool option"

section \<open>Identifiers and bounded numbers\<close>

definition admin_identifier :: "string \<Rightarrow> string \<Rightarrow> public_error + string" where
  "admin_identifier v field =
    (if length v < 1 \<or> length v > 128 \<or> CHR 0x00 \<in> set v
     then Inl (invalid (''Invalid '' @ field @ ''.'')) else Inr v)"

definition adminQuoteIdentifier :: "dialect \<Rightarrow> string \<Rightarrow> public_error + string" where
  "adminQuoteIdentifier d v =
    bindE (admin_identifier v ''database identifier'') (\<lambda>checked. Inr (quote_with (quote_char d) checked))"

definition qualified_name :: "dialect \<Rightarrow> string \<Rightarrow> string \<Rightarrow> public_error + string" where
  "qualified_name d schema table =
    bindE (adminQuoteIdentifier d schema) (\<lambda>s.
    bindE (adminQuoteIdentifier d table) (\<lambda>t. Inr (s @ ''.'' @ t)))"

definition bounded_number ::
  "admin_number option \<Rightarrow> string \<Rightarrow> int \<Rightarrow> int \<Rightarrow> public_error + int option" where
  \<comment> \<open>what \<open>positiveBoundedInteger\<close> and \<open>boundedScale\<close> share\<close>
  "bounded_number v message low high =
    (case v of
       None \<Rightarrow> Inr None
     | Some OtherNumber \<Rightarrow> Inl (invalid message)
     | Some (IntegerNumber n) \<Rightarrow> if n < low \<or> n > high then Inl (invalid message) else Inr (Some n))"

definition positiveBoundedInteger ::
  "admin_number option \<Rightarrow> string \<Rightarrow> int \<Rightarrow> public_error + int option" where
  "positiveBoundedInteger v field max_value =
     bounded_number v (''Invalid '' @ field @ ''.'') 1 max_value"

definition boundedScale :: "admin_number option \<Rightarrow> public_error + int option" where
  "boundedScale v = bounded_number v ''Invalid numeric scale.'' 0 30"

section \<open>Columns\<close>

definition render_numeric :: "string \<Rightarrow> admin_column \<Rightarrow> public_error + string" where
  \<comment> \<open>the branch of \<open>renderType\<close> for numeric and decimal\<close>
  "render_numeric name column =
    bindE (positiveBoundedInteger (ac_precision column) ''numeric precision'' 65) (\<lambda>precision.
    bindE (boundedScale (ac_scale column)) (\<lambda>scale.
      case precision of
        None \<Rightarrow> if scale \<noteq> None then Inl (invalid ''numeric scale requires precision.'') else Inr name
      | Some p \<Rightarrow>
          (case scale of
             None \<Rightarrow> Inr (name @ ''('' @ int_str p @ '')'')
           | Some s \<Rightarrow>
               if s > p then Inl (invalid ''numeric scale cannot exceed precision.'')
               else Inr (name @ ''('' @ int_str p @ '','' @ int_str s @ '')''))))"

definition renderType :: "dialect \<Rightarrow> admin_column \<Rightarrow> public_error + string" where
  "renderType d column =
    (case ac_type column of
       Integer \<Rightarrow> Inr ''INTEGER''
     | Bigint \<Rightarrow> Inr ''BIGINT''
     | Text \<Rightarrow> Inr ''TEXT''
     | Boolean \<Rightarrow> Inr ''BOOLEAN''
     | Date \<Rightarrow> Inr ''DATE''
     | Timestamp \<Rightarrow> Inr ''TIMESTAMP''
     | Datetime \<Rightarrow> Inr (if d = Postgres then ''TIMESTAMP'' else ''DATETIME'')
     | Json \<Rightarrow> Inr (if d = Postgres then ''JSONB'' else ''JSON'')
     | Varchar \<Rightarrow>
         bindE (positiveBoundedInteger (ac_length column) ''varchar length'' 65535) (\<lambda>len.
           case len of
             None \<Rightarrow> Inl (invalid ''varchar requires length.'')
           | Some n \<Rightarrow> Inr (''VARCHAR('' @ int_str n @ '')''))
     | Numeric \<Rightarrow> render_numeric ''NUMERIC'' column
     | Decimal \<Rightarrow> render_numeric ''DECIMAL'' column)"

definition quoteString :: "string \<Rightarrow> string" where
  "quoteString v = quote_with (CHR 0x27) v"

fun renderDefault :: "dialect \<Rightarrow> json \<Rightarrow> public_error + string" where
  "renderDefault d JNull = Inr ''NULL''"
| "renderDefault d (JStr v) =
     (if d = Mysql \<and> CHR 0x5C \<in> set v
      then Inl (invalid ''MySQL DDL string defaults cannot contain backslashes.'')
      else Inr (quoteString v))"
| "renderDefault d (JNum NonFinite) = Inl (invalid ''Column default number must be finite.'')"
| "renderDefault d (JNum (Finite s)) = Inr s"
| "renderDefault d (JBool b) = Inr (if b then ''TRUE'' else ''FALSE'')"
| "renderDefault d _ = Inl (invalid ''Unsupported column default value.'')"

definition renderColumn :: "dialect \<Rightarrow> admin_column \<Rightarrow> public_error + string" where
  "renderColumn d column =
    bindE (admin_identifier (ac_name column) ''column name'') (\<lambda>_.
    if ac_length column \<noteq> None \<and> ac_type column \<noteq> Varchar
    then Inl (invalid ''length is only supported for varchar columns.'')
    else if (ac_precision column \<noteq> None \<or> ac_scale column \<noteq> None) \<and>
            ac_type column \<noteq> Numeric \<and> ac_type column \<noteq> Decimal
    then Inl (invalid ''precision/scale are only supported for numeric/decimal columns.'')
    else
      bindE (adminQuoteIdentifier d (ac_name column)) (\<lambda>name.
      bindE (renderType d column) (\<lambda>type.
      bindE (case ac_default column of
               None \<Rightarrow> Inr []
             | Some v \<Rightarrow> bindE (renderDefault d v) (\<lambda>r. Inr [''DEFAULT '' @ r])) (\<lambda>default_part.
        Inr (join '' '' ([name, type] @
          (if ac_nullable column = Some False \<or> ac_primaryKey column = Some True then [''NOT NULL''] else []) @
          default_part @
          (if ac_primaryKey column = Some True then [''PRIMARY KEY''] else []) @
          (if ac_unique column = Some True then [''UNIQUE''] else [])))))))"

fun require_names :: "string list \<Rightarrow> admin_column list \<Rightarrow> public_error + unit" where
  \<comment> \<open>the loop of \<open>requireColumns\<close> with the set of names seen\<close>
  "require_names names [] = Inr ()"
| "require_names names (column # columns) =
     bindE (admin_identifier (ac_name column) ''column name'') (\<lambda>_.
       if ac_name column \<in> set names then Inl (invalid ''Duplicate column name.'')
       else require_names (ac_name column # names) columns)"

definition requireColumns :: "admin_column list \<Rightarrow> public_error + unit" where
  "requireColumns columns =
    (if length columns < 1 \<or> length columns > 100
     then Inl (invalid ''columns must contain 1 to 100 column definitions.'')
     else require_names [] columns)"

section \<open>Statements\<close>

definition buildCreateTableStatement ::
  "dialect \<Rightarrow> string \<Rightarrow> string \<Rightarrow> admin_column list \<Rightarrow> public_error + built_admin_statement" where
  "buildCreateTableStatement d schema table columns =
    bindE (requireColumns columns) (\<lambda>_.
    bindE (qualified_name d schema table) (\<lambda>target.
    bindE (mapE (renderColumn d) columns) (\<lambda>rendered.
      Inr \<lparr>bas_operation = ''create_table'',
           bas_sql = ''CREATE TABLE '' @ target @ '' ('' @ join '', '' rendered @ '')''\<rparr>)))"

datatype alter_table_operation =
    AddColumn admin_column
  | DropColumn string
  | RenameColumn string string
  | RenameTable string

fun buildAlterTableStatement ::
  "dialect \<Rightarrow> string \<Rightarrow> string \<Rightarrow> alter_table_operation \<Rightarrow> public_error + built_admin_statement" where
  "buildAlterTableStatement d schema table (AddColumn column) =
     bindE (qualified_name d schema table) (\<lambda>target.
     bindE (renderColumn d column) (\<lambda>rendered.
       Inr \<lparr>bas_operation = ''alter_table_add_column'',
            bas_sql = ''ALTER TABLE '' @ target @ '' ADD COLUMN '' @ rendered\<rparr>))"
| "buildAlterTableStatement d schema table (DropColumn column) =
     bindE (qualified_name d schema table) (\<lambda>target.
     bindE (adminQuoteIdentifier d column) (\<lambda>q.
       Inr \<lparr>bas_operation = ''alter_table_drop_column'',
            bas_sql = ''ALTER TABLE '' @ target @ '' DROP COLUMN '' @ q\<rparr>))"
| "buildAlterTableStatement d schema table (RenameColumn column newName) =
     bindE (qualified_name d schema table) (\<lambda>target.
     bindE (adminQuoteIdentifier d column) (\<lambda>q.
     bindE (adminQuoteIdentifier d newName) (\<lambda>n.
       Inr \<lparr>bas_operation = ''alter_table_rename_column'',
            bas_sql = ''ALTER TABLE '' @ target @ '' RENAME COLUMN '' @ q @ '' TO '' @ n\<rparr>)))"
| "buildAlterTableStatement d schema table (RenameTable newName) =
     bindE (qualified_name d schema table) (\<lambda>target.
       if d = Postgres then
         bindE (adminQuoteIdentifier d newName) (\<lambda>n.
           Inr \<lparr>bas_operation = ''alter_table_rename_table'',
                bas_sql = ''ALTER TABLE '' @ target @ '' RENAME TO '' @ n\<rparr>)
       else
         bindE (qualified_name d schema newName) (\<lambda>n.
           Inr \<lparr>bas_operation = ''alter_table_rename_table'',
                bas_sql = ''RENAME TABLE '' @ target @ '' TO '' @ n\<rparr>))"

definition index_char :: "char \<Rightarrow> char" where
  "index_char c = (if is_upper c \<or> is_lower c \<or> is_digit c \<or> c = CHR ''_'' then c else CHR ''_'')"

definition generatedIndexName :: "string \<Rightarrow> string list \<Rightarrow> bool \<Rightarrow> string" where
  "generatedIndexName table columns unique =
    (let raw = map index_char
       (table @ ''_'' @ join ''_'' columns @ ''_'' @ (if unique then ''uniq'' else ''idx''))
     in if take 60 raw = [] then ''mcp_index'' else take 60 raw)"

definition buildCreateIndexStatement ::
  "dialect \<Rightarrow> string \<Rightarrow> string \<Rightarrow> string list \<Rightarrow> bool \<Rightarrow> string option \<Rightarrow>
     public_error + built_admin_statement" where
  "buildCreateIndexStatement d schema table columns unique name =
    (if length columns < 1 \<or> length columns > 16
     then Inl (invalid ''index columns must contain 1 to 16 columns.'')
     else
       bindE (mapE (adminQuoteIdentifier d) columns) (\<lambda>checkedColumns.
       let indexName = (case name of Some n \<Rightarrow> n | None \<Rightarrow> generatedIndexName table columns unique) in
       bindE (admin_identifier indexName ''index name'') (\<lambda>_.
       bindE (adminQuoteIdentifier d indexName) (\<lambda>q.
       bindE (qualified_name d schema table) (\<lambda>target.
         Inr \<lparr>bas_operation = ''create_index'',
              bas_sql = ''CREATE '' @ (if unique then ''UNIQUE '' else []) @ ''INDEX '' @ q @ '' ON '' @ target @
                '' ('' @ join '', '' checkedColumns @ '')''\<rparr>)))))"

definition buildDropIndexStatement ::
  "dialect \<Rightarrow> string \<Rightarrow> string \<Rightarrow> string \<Rightarrow> public_error + built_admin_statement" where
  "buildDropIndexStatement d schema table name =
    bindE (admin_identifier name ''index name'') (\<lambda>_.
      if d = Postgres then
        bindE (adminQuoteIdentifier d schema) (\<lambda>s.
        bindE (adminQuoteIdentifier d name) (\<lambda>n.
          Inr \<lparr>bas_operation = ''drop_index'', bas_sql = ''DROP INDEX '' @ s @ ''.'' @ n\<rparr>))
      else
        bindE (adminQuoteIdentifier d name) (\<lambda>n.
        bindE (qualified_name d schema table) (\<lambda>target.
          Inr \<lparr>bas_operation = ''drop_index'', bas_sql = ''DROP INDEX '' @ n @ '' ON '' @ target\<rparr>)))"

definition buildDropTableStatement ::
  "dialect \<Rightarrow> string \<Rightarrow> string \<Rightarrow> public_error + built_admin_statement" where
  "buildDropTableStatement d schema table =
    bindE (qualified_name d schema table) (\<lambda>target.
      Inr \<lparr>bas_operation = ''drop_table'', bas_sql = ''DROP TABLE '' @ target\<rparr>)"

section \<open>Properties\<close>

lemma skip_single_double:
  "CHR 0x5C \<notin> set s \<Longrightarrow> \<not> hd_is (CHR 0x27) rest \<Longrightarrow>
   skip_single (double_char (CHR 0x27) s @ CHR 0x27 # rest) = Some rest"
  by (induction s) auto

text \<open>a MySQL string default is rendered as a literal that ends at the same place
  whether the session treats the backslash as an escape character or not, and that
  denotes the given string.
\<close>

theorem renderDefault_mode_independent:
  assumes "renderDefault Mysql (JStr s) = Inr lit" and "\<not> hd_is (CHR 0x27) rest"
  shows "hd lit = CHR 0x27 \<and> skip_single (tl lit @ rest) = Some rest \<and>
    skip_quoted (CHR 0x27) (tl lit @ rest) = Some rest \<and> halve_char (CHR 0x27) (butlast (tl lit)) = s"
  using assms skip_single_double skip_quoted_double
  by (auto simp: quoteString_def quote_with_def split: if_splits)

lemma renderDefault_mode_independent_witness:
  "skip_single (double_char (CHR 0x27) (''it'' @ [CHR 0x27] @ ''s'') @ [CHR 0x27] @ '', b'') = Some '', b''"
proof -
  have "renderDefault Mysql (JStr (''it'' @ [CHR 0x27] @ ''s'')) =
      Inr (CHR 0x27 # double_char (CHR 0x27) (''it'' @ [CHR 0x27] @ ''s'') @ [CHR 0x27])"
    by code_simp
  from renderDefault_mode_independent [OF this, of "'', b''"] show ?thesis by simp
qed

lemma require_names_Inr:
  "require_names names columns = Inr () \<longleftrightarrow>
     distinct (map ac_name columns) \<and> set (map ac_name columns) \<inter> set names = {} \<and>
     (\<forall>c \<in> set columns. admin_identifier (ac_name c) ''column name'' = Inr (ac_name c))"
proof (induction columns arbitrary: names)
  case Nil
  then show ?case by simp
next
  case (Cons c cs)
  show ?case
  proof (cases "admin_identifier (ac_name c) ''column name'' = Inr (ac_name c)")
    case True
    with Cons.IH show ?thesis by simp blast
  next
    case False
    then have "\<exists>e. admin_identifier (ac_name c) ''column name'' = Inl e"
      unfolding admin_identifier_def by metis
    with False show ?thesis by auto
  qed
qed

text \<open>CREATE TABLE renders 1 to 100 columns in the given order, no two with the same
  name.\<close>

theorem buildCreateTableStatement_columns:
  assumes "buildCreateTableStatement d schema table columns = Inr st"
  shows "\<exists>target rendered. qualified_name d schema table = Inr target \<and>
    bas_sql st = ''CREATE TABLE '' @ target @ '' ('' @ join '', '' rendered @ '')'' \<and>
    list_all2 (\<lambda>c r. renderColumn d c = Inr r) columns rendered \<and>
    1 \<le> length columns \<and> length columns \<le> 100 \<and> distinct (map ac_name columns)"
proof -
  from assms obtain target rendered where rq: "requireColumns columns = Inr ()"
    and target: "qualified_name d schema table = Inr target"
    and rendered: "mapE (renderColumn d) columns = Inr rendered"
    and st: "bas_sql st = ''CREATE TABLE '' @ target @ '' ('' @ join '', '' rendered @ '')''"
    by (auto simp: buildCreateTableStatement_def bindE_Inr_iff)
  from rq have "1 \<le> length columns" "length columns \<le> 100" "distinct (map ac_name columns)"
    by (auto simp: requireColumns_def require_names_Inr Suc_le_eq split: if_splits)
  with target st mapE_Inr_all2 [OF rendered] show ?thesis
    by (intro exI conjI)
qed

lemma buildCreateTableStatement_columns_witness:
  "\<exists>st target rendered. buildCreateTableStatement Postgres ''s'' ''t''
      [\<lparr>ac_name = ''id'', ac_type = Bigint, ac_length = None, ac_precision = None, ac_scale = None,
        ac_nullable = None, ac_default = None, ac_primaryKey = Some True, ac_unique = None\<rparr>] = Inr st \<and>
     bas_sql st = ''CREATE TABLE '' @ target @ '' ('' @ join '', '' rendered @ '')''"
proof -
  let ?q = "\<lambda>s. [CHR 0x22] @ s @ [CHR 0x22]"
  have eq: "buildCreateTableStatement Postgres ''s'' ''t''
      [\<lparr>ac_name = ''id'', ac_type = Bigint, ac_length = None, ac_precision = None, ac_scale = None,
        ac_nullable = None, ac_default = None, ac_primaryKey = Some True, ac_unique = None\<rparr>] =
      Inr \<lparr>bas_operation = ''create_table'', bas_sql = ''CREATE TABLE '' @ ?q ''s'' @ ''.'' @ ?q ''t'' @ '' ('' @
        ?q ''id'' @ '' BIGINT NOT NULL PRIMARY KEY)''\<rparr>"
    by code_simp
  show ?thesis
    using buildCreateTableStatement_columns [OF eq] eq
    by (elim exE conjE) (rule exI, rule exI, rule exI, intro conjI)
qed

end
