(* ===== verification/QueryResult.thy ===== *)
theory QueryResult
  imports DbTypes Json
begin

text \<open>
  The result bounds of \<open>apps/database-mcp-worker/src/result.ts\<close>: \<open>jsonSafe\<close>, which
  turns a driver's value into JSON, and \<open>boundQueryResult\<close>, which cuts a result to a
  number of rows and of bytes.
\<close>

section \<open>Values of the database drivers\<close>

text \<open>
  A date is given by the text \<open>toISOString\<close> gives for it, any other object that is
  neither a byte array nor an array by its own properties, and a value of any other kind by
  what \<open>String\<close> gives for it.
\<close>

datatype db_value =
    DUndefined
  | DNull
  | DBigint int
  | DNum js_number
  | DStr string
  | DBool bool
  | DDate string
  | DBytes "nat list"
  | DArr "db_value list"
  | DObj "(string \<times> db_value) list"
  | DOther string

definition base64_char :: "nat \<Rightarrow> char" where
  "base64_char n =
     (if n < 26 then char_of (65 + n) else if n < 52 then char_of (71 + n)
      else if n < 62 then char_of (n - 4) else if n = 62 then CHR ''+'' else CHR ''/'')"

fun base64Bytes :: "nat list \<Rightarrow> string" where
  "base64Bytes [] = []"
| "base64Bytes [a] = [base64_char (a div 4), base64_char (a mod 4 * 16), CHR ''='', CHR ''='']"
| "base64Bytes [a, b] =
     [base64_char (a div 4), base64_char (a mod 4 * 16 + b div 16), base64_char (b mod 16 * 4), CHR ''='']"
| "base64Bytes (a # b # c # rest) =
     [base64_char (a div 4), base64_char (a mod 4 * 16 + b div 16),
      base64_char (b mod 16 * 4 + c div 64), base64_char (c mod 64)] @ base64Bytes rest"

definition max_depth :: json where
  "max_depth = JStr ''[max-depth]''"

fun jsonSafe :: "db_value \<Rightarrow> nat \<Rightarrow> json"
  and jsonSafe_items :: "db_value list \<Rightarrow> nat \<Rightarrow> json list"
  and jsonSafe_members :: "(string \<times> db_value) list \<Rightarrow> nat \<Rightarrow> (string \<times> json) list" where
  "jsonSafe DUndefined depth = (if depth > 20 then max_depth else JNull)"
| "jsonSafe DNull depth = (if depth > 20 then max_depth else JNull)"
| "jsonSafe (DBigint i) depth = (if depth > 20 then max_depth else JStr (int_str i))"
| "jsonSafe (DNum n) depth = (if depth > 20 then max_depth else JNum n)"
| "jsonSafe (DStr s) depth = (if depth > 20 then max_depth else JStr s)"
| "jsonSafe (DBool b) depth = (if depth > 20 then max_depth else JBool b)"
| "jsonSafe (DDate isoText) depth = (if depth > 20 then max_depth else JStr isoText)"
| "jsonSafe (DBytes bs) depth = (if depth > 20 then max_depth else JObj [(''encoding'', JStr ''base64''), (''data'', JStr (base64Bytes bs))])"
| "jsonSafe (DArr vs) depth = (if depth > 20 then max_depth else JArr (jsonSafe_items vs (Suc depth)))"
| "jsonSafe (DObj kvs) depth = (if depth > 20 then max_depth else JObj (jsonSafe_members kvs (Suc depth)))"
| "jsonSafe (DOther s) depth = (if depth > 20 then max_depth else JStr s)"
| "jsonSafe_items [] depth = []"
| "jsonSafe_items (v # vs) depth = jsonSafe v depth # jsonSafe_items vs depth"
| "jsonSafe_members [] depth = []"
| "jsonSafe_members ((k, v) # kvs) depth = (k, jsonSafe v depth) # jsonSafe_members kvs depth"

section \<open>boundQueryResult\<close>

datatype truncation_reason = RowLimit | ResultSize

record query_result =
  qr_columns :: json
  qr_rows :: "json list"
  qr_rowCount :: nat
  qr_truncated :: bool
  qr_truncationReason :: "truncation_reason option"

definition result_json :: "json \<Rightarrow> json list \<Rightarrow> json" where
  "result_json columns rows = JObj [(''columns'', columns), (''rows'', JArr rows)]"

definition safe_row :: "db_value list \<Rightarrow> json" where
  "safe_row row = JArr (map (\<lambda>v. jsonSafe v 0) row)"

fun bound_rows :: "nat \<Rightarrow> nat \<Rightarrow> db_value list list \<Rightarrow> json list \<times> bool" where
  \<comment> \<open>the loop: the rows put out, and whether the byte limit stopped it\<close>
  "bound_rows maxBytes bytes [] = ([], False)"
| "bound_rows maxBytes bytes (row # rows) =
    (let encoded = json_bytes (safe_row row) + 1 in
     if bytes + encoded > maxBytes then ([], True)
     else let (out, stopped) = bound_rows maxBytes (bytes + encoded) rows in (safe_row row # out, stopped))"

definition boundQueryResult :: "json \<Rightarrow> db_value list list \<Rightarrow> int \<Rightarrow> nat \<Rightarrow> query_result" where
  \<comment> \<open>the requested limit is the truncated number\<close>
  "boundQueryResult columns rows requestedLimit maxBytes =
    (let maxRows = nat (max 1 requestedLimit);
         bytes = json_bytes (result_json columns []);
         row_cut = length rows > maxRows;
         (out, stopped) = bound_rows maxBytes bytes (take maxRows rows)
     in \<lparr>qr_columns = columns, qr_rows = out, qr_rowCount = length out,
         qr_truncated = (if stopped then True else row_cut),
         qr_truncationReason = (if stopped then Some ResultSize else if row_cut then Some RowLimit else None)\<rparr>)"

definition assertJsonWithinBytes :: "db_value \<Rightarrow> nat \<Rightarrow> public_error + unit" where
  "assertJsonWithinBytes v maxBytes =
    (if json_bytes (jsonSafe v 0) > maxBytes
     then Inl (PublicError RESULT_LIMIT_EXCEEDED ''The response exceeds the configured payload limit.'')
     else Inr ())"

definition clampRequestedLimit :: "(int option) option \<Rightarrow> int \<Rightarrow> public_error + int" where
  \<comment> \<open>no limit requested, a number that is not an integer (\<open>Some None\<close>), or an integer\<close>
  "clampRequestedLimit requested maxRows =
    (case requested of
       None \<Rightarrow> Inr maxRows
     | Some None \<Rightarrow> Inl (PublicError INVALID_INPUT ''rowLimit must be a positive integer.'')
     | Some (Some n) \<Rightarrow>
         if n \<le> 0 then Inl (PublicError INVALID_INPUT ''rowLimit must be a positive integer.'')
         else Inr (min n maxRows))"

section \<open>Properties\<close>

lemma bound_rows_prefix:
  "bound_rows maxBytes bytes rows = (out, stopped) \<Longrightarrow>
     out = map safe_row (take (length out) rows) \<and>
     (stopped \<longleftrightarrow> length out < length rows) \<and> length out \<le> length rows \<and>
     (stopped \<longrightarrow> bytes + sum_list (map (\<lambda>r. json_bytes r + 1) out) +
        (json_bytes (safe_row (rows ! length out)) + 1) > maxBytes)"
  by (induction maxBytes bytes rows arbitrary: out stopped rule: bound_rows.induct)
    (auto simp: Let_def add.assoc split: if_splits prod.splits)

lemma bound_rows_bytes:
  "bound_rows maxBytes bytes rows = (out, stopped) \<Longrightarrow>
     out = [] \<or> bytes + sum_list (map (\<lambda>r. json_bytes r + 1) out) \<le> maxBytes"
proof (induction maxBytes bytes rows arbitrary: out stopped rule: bound_rows.induct)
  case (1 maxBytes bytes)
  then show ?case by simp
next
  case (2 maxBytes bytes row rows)
  show ?case
  proof (cases "bytes + (json_bytes (safe_row row) + 1) > maxBytes")
    case True
    with "2.prems" show ?thesis by (simp add: Let_def)
  next
    case False
    then obtain o' where rec: "bound_rows maxBytes (bytes + (json_bytes (safe_row row) + 1)) rows = (o', stopped)"
      and out: "out = safe_row row # o'"
      using "2.prems" by (auto simp: Let_def split: prod.splits)
    from "2.IH" [OF refl False rec] False out show ?thesis
      by (cases o') auto
  qed
qed

lemma result_json_bytes:
  "json_bytes (result_json columns rows) =
     json_bytes (result_json columns []) + sum_list (map json_bytes rows) + (length rows - 1)"
  using bytes_JArr [of rows] bytes_JArr [of "[]"]
  by (simp add: result_json_def json_bytes_def)

text \<open>C25: a bounded result is a prefix of the rows with at most the requested number of
  them; it is marked truncated exactly when rows are missing; when it holds a row at all,
  its JSON text, columns included, fits the byte limit; and when it was cut for size, the
  next row did not fit.
\<close>

theorem boundQueryResult_bounds:
  "let r = boundQueryResult columns rows requestedLimit maxBytes in
     qr_rows r = map safe_row (take (qr_rowCount r) rows) \<and> qr_rowCount r = length (qr_rows r) \<and>
     int (qr_rowCount r) \<le> max 1 requestedLimit \<and>
     (qr_truncated r \<longleftrightarrow> qr_rowCount r < length rows) \<and>
     (qr_truncationReason r = None \<longleftrightarrow> \<not> qr_truncated r) \<and>
     (qr_rows r = [] \<or> json_bytes (result_json columns (qr_rows r)) < maxBytes) \<and>
     (qr_truncationReason r = Some ResultSize \<longrightarrow>
        json_bytes (result_json columns []) + sum_list (map (\<lambda>x. json_bytes x + 1) (qr_rows r)) +
        json_bytes (safe_row (rows ! qr_rowCount r)) \<ge> maxBytes)"
proof -
  define n where "n = nat (max 1 requestedLimit)"
  let ?b = "json_bytes (result_json columns [])"
  obtain out stopped where br: "bound_rows maxBytes ?b (take n rows) = (out, stopped)"
    by fastforce
  note pre = bound_rows_prefix [OF br]
  define row_cut where "row_cut \<longleftrightarrow> length rows > n"
  have r: "boundQueryResult columns rows requestedLimit maxBytes =
      \<lparr>qr_columns = columns, qr_rows = out, qr_rowCount = length out,
        qr_truncated = (if stopped then True else row_cut),
        qr_truncationReason = (if stopped then Some ResultSize else if row_cut then Some RowLimit else None)\<rparr>"
    using br by (simp add: boundQueryResult_def n_def row_cut_def)
  have le: "length out \<le> n" "length out \<le> length rows"
    using pre by auto
  have out: "out = map safe_row (take (length out) rows)"
    using pre le by (metis min.absorb1 take_take)
  have trunc: "(if stopped then True else row_cut) \<longleftrightarrow> length out < length rows"
    using pre le unfolding row_cut_def by auto
  have "(\<Sum>x\<leftarrow>out. json_bytes x + 1) = sum_list (map json_bytes out) + length out"
    by (induction out) auto
  then have bytes: "out = [] \<or> json_bytes (result_json columns out) < maxBytes"
    using bound_rows_bytes [OF br] result_json_bytes [of columns out] by (cases out) auto
  have "rows ! length out = take n rows ! length out" if "stopped"
    using that pre by auto
  then show ?thesis
    using le out trunc bytes pre unfolding r n_def by (auto simp: Let_def)
qed

lemma boundQueryResult_bounds_witness:
  "qr_rowCount (boundQueryResult (JArr []) [[DBool True], [DNull], [DNull]] 2 40) = 2 \<and>
   json_bytes (result_json (JArr []) (qr_rows (boundQueryResult (JArr []) [[DBool True], [DNull], [DNull]] 2 40))) < 40"
proof -
  have "qr_rowCount (boundQueryResult (JArr []) [[DBool True], [DNull], [DNull]] 2 40) = 2"
    and "qr_rows (boundQueryResult (JArr []) [[DBool True], [DNull], [DNull]] 2 40) \<noteq> []"
    by code_simp+
  with boundQueryResult_bounds [of "JArr []" "[[DBool True], [DNull], [DNull]]" 2 40]
  show ?thesis unfolding Let_def by blast
qed

fun json_depth :: "json \<Rightarrow> nat"
  and json_depth_items :: "json list \<Rightarrow> nat"
  and json_depth_members :: "(string \<times> json) list \<Rightarrow> nat" where
  "json_depth (JArr vs) = Suc (json_depth_items vs)"
| "json_depth (JObj kvs) = Suc (json_depth_members kvs)"
| "json_depth _ = 0"
| "json_depth_items [] = 0"
| "json_depth_items (v # vs) = max (json_depth v) (json_depth_items vs)"
| "json_depth_members [] = 0"
| "json_depth_members ((k, v) # kvs) = max (json_depth v) (json_depth_members kvs)"

lemma jsonSafe_depth_aux:
  "json_depth (jsonSafe v depth) \<le> 21 - depth"
  "json_depth_items (jsonSafe_items vs depth) \<le> 21 - depth"
  "json_depth_members (jsonSafe_members kvs depth) \<le> 21 - depth"
  by (induction v depth and vs depth and kvs depth rule: jsonSafe_jsonSafe_items_jsonSafe_members.induct)
    (auto simp: max_depth_def)

text \<open>whatever a driver returns, the JSON made of it nests at most 21 deep.\<close>

theorem jsonSafe_depth: "json_depth (jsonSafe v 0) \<le> 21"
  using jsonSafe_depth_aux(1) [of v 0] by simp

end
