(* ===== verification/WebTypes.thy ===== *)
theory WebTypes
  imports Json
begin

text \<open>
  Values that several Workers read from requests: hexadecimal text, UUIDs, safe integers,
  and the parts of a parsed URL. The URL parser itself belongs to the platform and is a
  parameter wherever it is used.
\<close>

section \<open>Hexadecimal text and UUIDs\<close>

definition hex_val :: "char \<Rightarrow> nat" where
  "hex_val c = (if is_digit c then code c - 48 else code c - 87)"

definition is_hex :: "char \<Rightarrow> bool" where
  "is_hex c \<longleftrightarrow> is_digit c \<or> (97 \<le> code c \<and> code c \<le> 102)"

definition parse_hex :: "string \<Rightarrow> nat" where
  "parse_hex s = foldl (\<lambda>n c. 16 * n + hex_val c) 0 s"

text \<open>A regular expression anchored at both ends that is a sequence of character classes.\<close>

definition matches :: "(char \<Rightarrow> bool) list \<Rightarrow> string \<Rightarrow> bool" where
  "matches classes s \<longleftrightarrow> list_all2 (\<lambda>p c. p c) classes s"

definition hexes :: "nat \<Rightarrow> (char \<Rightarrow> bool) list" where
  "hexes n = replicate n is_hex"

definition lit :: "string \<Rightarrow> (char \<Rightarrow> bool) list" where
  "lit s = map (=) s"

definition uuid_pattern :: "(char \<Rightarrow> bool) list" where
  "uuid_pattern = hexes 8 @ lit ''-'' @ hexes 4 @ lit ''-'' @ hexes 4 @ lit ''-'' @ hexes 4 @ lit ''-'' @ hexes 12"

definition uuid_v7_pattern :: "(char \<Rightarrow> bool) list" where
  "uuid_v7_pattern = hexes 8 @ lit ''-'' @ hexes 4 @ lit ''-7'' @ hexes 3 @ lit ''-'' @
     [\<lambda>c. c \<in> set ''89ab''] @ hexes 3 @ lit ''-'' @ hexes 12"

definition is_uuid :: "string \<Rightarrow> bool" where
  "is_uuid s \<longleftrightarrow> matches uuid_pattern s"

definition is_uuid_v7 :: "string \<Rightarrow> bool" where
  "is_uuid_v7 s \<longleftrightarrow> matches uuid_v7_pattern s"

definition hex64 :: "string \<Rightarrow> bool" where
  "hex64 s \<longleftrightarrow> matches (hexes 64) s"

lemma matches_length: "matches ps s \<Longrightarrow> length s = length ps"
  by (simp add: matches_def list_all2_lengthD)

text \<open>The time of a version 7 UUID: the first twelve hexadecimal digits.\<close>

definition uuid_time :: "string \<Rightarrow> int" where
  "uuid_time key = int (parse_hex (take 8 key @ take 4 (drop 9 key)))"

section \<open>Numbers of a request\<close>

text \<open>The integer that the text of a finite number denotes.\<close>

definition int_of_text :: "string \<Rightarrow> int option" where
  "int_of_text s =
    (let neg = hd_is (CHR ''-'') s; ds = (if neg then tl s else s) in
     if ds \<noteq> [] \<and> list_all is_digit ds
     then Some (if neg then - int (digits_val ds) else int (digits_val ds)) else None)"

definition MAX_SAFE_INTEGER :: int where "MAX_SAFE_INTEGER = 9007199254740991"

definition safe_int :: "json option \<Rightarrow> int option" where
  \<comment> \<open>the number, if \<open>Number.isSafeInteger\<close> holds\<close>
  "safe_int v =
    (case v of
       Some (JNum (Finite s)) \<Rightarrow>
         (case int_of_text s of
            Some i \<Rightarrow> if \<bar>i\<bar> \<le> MAX_SAFE_INTEGER then Some i else None
          | None \<Rightarrow> None)
     | _ \<Rightarrow> None)"

definition as_str :: "json option \<Rightarrow> string option" where
  "as_str v = (case v of Some (JStr s) \<Rightarrow> Some s | _ \<Rightarrow> None)"

section \<open>Parsed URLs\<close>

record url =
  url_protocol :: string
  url_hostname :: string
  url_username :: string
  url_password :: string
  url_pathname :: string
  url_port :: string
  url_hash :: string
  url_params :: nat  \<comment> \<open>number of search parameters\<close>

section \<open>Lists of rows\<close>

text \<open>A table is the list of its rows; an UPDATE changes the rows that its WHERE condition
  selects.\<close>

definition upd_rows :: "('r \<Rightarrow> bool) \<Rightarrow> ('r \<Rightarrow> 'r) \<Rightarrow> 'r list \<Rightarrow> 'r list" where
  "upd_rows guard change rows = map (\<lambda>r. if guard r then change r else r) rows"

lemma upd_rows_simps [simp]:
  "upd_rows g f [] = []"
  "upd_rows g f (r # rs) = (if g r then f r else r) # upd_rows g f rs"
  by (simp_all add: upd_rows_def)

lemma length_upd_rows [simp]: "length (upd_rows g f rs) = length rs"
  by (simp add: upd_rows_def)

lemma map_upd_rows:
  "(\<And>r. g r \<Longrightarrow> k (f r) = k r) \<Longrightarrow> map k (upd_rows g f rs) = map k rs"
  by (induction rs) auto

lemma in_upd_rows:
  "x \<in> set (upd_rows g f rs) \<longleftrightarrow> (\<exists>r \<in> set rs. x = (if g r then f r else r))"
  by (auto simp: upd_rows_def)

lemma upd_rows_none: "\<not> list_ex g rs \<Longrightarrow> upd_rows g f rs = rs"
  by (induction rs) auto

text \<open>A row found by a key of which the table has at most one.\<close>

lemma find_key_iff:
  assumes "distinct (map k rs)"
  shows "List.find (\<lambda>r. k r = x) rs = Some r \<longleftrightarrow> r \<in> set rs \<and> k r = x"
  using assms by (induction rs) (auto simp: image_iff)

lemma find_upd_rows:
  assumes "\<And>r. g r \<Longrightarrow> k (f r) = k r"
  shows "List.find (\<lambda>r. k r = x) (upd_rows g f rs) =
    map_option (\<lambda>r. if g r then f r else r) (List.find (\<lambda>r. k r = x) rs)"
  using assms by (induction rs) auto

lemma find_filter_rows:
  assumes "distinct (map k rs)"
  shows "List.find (\<lambda>r. k r = x) (filter p rs) =
    (case List.find (\<lambda>r. k r = x) rs of None \<Rightarrow> None | Some r \<Rightarrow> if p r then Some r else None)"
  using assms
proof (induction rs)
  case (Cons a rs)
  then show ?case
    by (auto split: option.splits simp: find_None_iff image_iff dest!: find_Some_in)
qed simp

lemma find_snoc_row:
  "List.find p (rs @ [r]) =
    (case List.find p rs of None \<Rightarrow> if p r then Some r else None | Some y \<Rightarrow> Some y)"
  by (induction rs) (auto split: option.splits)

end
