(* ===== verification/PublicEndpoint.thy ===== *)
theory PublicEndpoint
  imports DbTypes WebTypes
begin

text \<open>
  The admission of a direct database endpoint: the URL parsing of
  \<open>apps/database-mcp-worker/src/config.ts\<close> and the public address check of
  \<open>apps/database-mcp-worker/src/public-endpoint.ts\<close>.

  Parameters of the model: the platform's URL parser and percent decoder
  (\<open>parse_url\<close>, \<open>decode\<close>), its IPv6 syntax test and canonical form (\<open>isIPv6\<close>,
  \<open>canonical6\<close>), and the DNS replies (\<open>lookup\<close>).
\<close>

section \<open>IP address syntax\<close>

text \<open>A decimal octet as \<open>isIP\<close> admits it: one to three digits, no leading zero, at most
  255.\<close>

definition is_octet :: "string \<Rightarrow> bool" where
  "is_octet s \<longleftrightarrow> s \<noteq> [] \<and> list_all is_digit s \<and> length s \<le> 3 \<and>
     (length s > 1 \<longrightarrow> hd s \<noteq> CHR ''0'') \<and> digits_val s \<le> 255"

definition isIPv4 :: "string \<Rightarrow> bool" where
  "isIPv4 s \<longleftrightarrow> length (split_char (CHR ''.'') s) = 4 \<and> list_all is_octet (split_char (CHR ''.'') s)"

section \<open>IPv4\<close>

definition blockedOctets :: "nat \<Rightarrow> nat \<Rightarrow> nat \<Rightarrow> bool" where
  \<comment> \<open>the negated disjunction that \<open>publicIPv4\<close> returns\<close>
  "blockedOctets a b c \<longleftrightarrow>
     a = 0 \<or> a = 10 \<or> a = 127 \<or> a \<ge> 224 \<or>
     (a = 100 \<and> b \<ge> 64 \<and> b \<le> 127) \<or>
     (a = 169 \<and> b = 254) \<or>
     (a = 172 \<and> b \<ge> 16 \<and> b \<le> 31) \<or>
     (a = 192 \<and> (b = 168 \<or> b = 0 \<or> (b = 0 \<and> c = 2) \<or> (b = 88 \<and> c = 99))) \<or>
     (a = 198 \<and> (b = 18 \<or> b = 19 \<or> (b = 51 \<and> c = 100))) \<or>
     (a = 203 \<and> b = 0 \<and> c = 113)"

definition publicIPv4 :: "string \<Rightarrow> bool" where
  \<comment> \<open>called on strings that \<open>isIPv4\<close> admits\<close>
  "publicIPv4 ip \<longleftrightarrow>
     (let v = map digits_val (split_char (CHR ''.'') ip) in
      length v = 4 \<and> list_all (\<lambda>n. n \<le> 255) v \<and> \<not> blockedOctets (v ! 0) (v ! 1) (v ! 2))"

section \<open>IPv6\<close>

definition hex_group :: "string list \<Rightarrow> nat \<Rightarrow> nat" where
  \<comment> \<open>\<open>Number.parseInt(parts[i] || '0', 16)\<close>\<close>
  "hex_group parts i = (if i < length parts \<and> parts ! i \<noteq> [] then parse_hex (parts ! i) else 0)"

definition globalUnicastText :: "string \<Rightarrow> bool" where
  \<comment> \<open>the regular expression: a 2 or 3, up to three hexadecimal digits, a colon\<close>
  "globalUnicastText s \<longleftrightarrow>
     (case s of
        [] \<Rightarrow> False
      | x # xs \<Rightarrow> (x = CHR ''2'' \<or> x = CHR ''3'') \<and> length (takeWhile is_hex xs) \<le> 3 \<and>
          hd_is (CHR '':'') (dropWhile is_hex xs))"

definition reservedGroups :: "nat \<Rightarrow> nat \<Rightarrow> nat \<Rightarrow> bool" where
  "reservedGroups first second third \<longleftrightarrow>
     (first = 0x3fff \<and> second < 0x1000) \<or> first = 0x2002 \<or>
     (first = 0x2001 \<and>
       (second = 0 \<or> (second = 2 \<and> third = 0) \<or> (0x10 \<le> second \<and> second \<le> 0x2f) \<or> second = 0xdb8))"

definition publicIPv6 :: "(string \<Rightarrow> string option) \<Rightarrow> string \<Rightarrow> bool" where
  "publicIPv6 canonical6 ip =
    (case canonical6 ip of
       None \<Rightarrow> False
     | Some v \<Rightarrow>
         globalUnicastText v \<and>
         (let parts = split_char (CHR '':'') v
          in \<not> reservedGroups (hex_group parts 0) (hex_group parts 1) (hex_group parts 2)))"

definition publicAddress :: "(string \<Rightarrow> bool) \<Rightarrow> (string \<Rightarrow> string option) \<Rightarrow> string \<Rightarrow> bool" where
  "publicAddress isIPv6 canonical6 ip =
    (if isIPv4 ip then publicIPv4 ip else if isIPv6 ip then publicIPv6 canonical6 ip else False)"

section \<open>Host names\<close>

definition label_char :: "char \<Rightarrow> bool" where
  "label_char c \<longleftrightarrow> is_lower c \<or> is_upper c \<or> is_digit c"

definition is_label :: "string \<Rightarrow> bool" where
  "is_label part \<longleftrightarrow> 1 \<le> length part \<and> length part \<le> 63 \<and> label_char (hd part) \<and> label_char (last part) \<and>
     list_all (\<lambda>c. label_char c \<or> c = CHR ''-'') part"

definition ends_with :: "string \<Rightarrow> string \<Rightarrow> bool" where
  "ends_with s suff \<longleftrightarrow> length suff \<le> length s \<and> drop (length s - length suff) s = suff"

definition RESERVED_SUFFIXES :: "string list" where
  "RESERVED_SUFFIXES =
    [''.localhost'', ''.local'', ''.internal'', ''.test'', ''.invalid'', ''.example'', ''.arpa'']"

definition allowedHostname :: "string \<Rightarrow> bool" where
  "allowedHostname host \<longleftrightarrow>
     \<not> (length host > 253 \<or> CHR ''.'' \<notin> set host \<or> ends_with host ''.'') \<and>
     \<not> (host = ''localhost'' \<or> list_ex (ends_with (map to_lower host)) RESERVED_SUFFIXES) \<and>
     list_all is_label (split_char (CHR ''.'') host)"

section \<open>parseDirectDatabaseUrl\<close>

record parsed_direct_url =
  pd_dialect :: dialect
  pd_connectionString :: string
  pd_host :: string
  pd_user :: string
  pd_password :: string
  pd_database :: string
  pd_port :: nat

definition url_invalid :: "string \<Rightarrow> string \<Rightarrow> public_error" where
  "url_invalid connectionId what = PublicError INVALID_INPUT
     (''Connection '' @ [CHR 0x27] @ connectionId @ [CHR 0x27] @ what)"

definition decodeUrlPart :: "(string \<Rightarrow> string option) \<Rightarrow> string \<Rightarrow> string \<Rightarrow> public_error + string" where
  "decodeUrlPart decode v connectionId =
    (case decode v of
       Some s \<Rightarrow> Inr s
     | None \<Rightarrow> Inl (url_invalid connectionId '' has an invalid direct database URL.''))"

definition strip_brackets :: "string \<Rightarrow> string" where
  "strip_brackets h = (if hd_is (CHR ''['') h \<and> ends_with h '']'' then butlast (tl h) else h)"

definition url_dialect :: "string \<Rightarrow> (dialect \<times> nat) option" where
  "url_dialect protocol =
    (if protocol = ''postgres:'' \<or> protocol = ''postgresql:'' then Some (Postgres, 5432)
     else if protocol = ''mysql:'' then Some (Mysql, 3306) else None)"

definition parseDirectDatabaseUrl ::
  "(string \<Rightarrow> url option) \<Rightarrow> (string \<Rightarrow> string option) \<Rightarrow> string \<Rightarrow> string \<Rightarrow>
     public_error + parsed_direct_url" where
  "parseDirectDatabaseUrl parse_url decode raw connectionId =
    (let bad = url_invalid connectionId '' has an invalid direct database URL.'' in
     if raw = [] \<or> length raw > 8192 then Inl bad
     else case parse_url raw of
       None \<Rightarrow> Inl bad
     | Some u \<Rightarrow>
        (case url_dialect (url_protocol u) of
           None \<Rightarrow> Inl (url_invalid connectionId '' uses an unsupported direct database URL scheme.'')
         | Some (d, defaultPort) \<Rightarrow>
             if url_params u \<noteq> 0
             then Inl (url_invalid connectionId '' has unsupported direct database URL options.'')
             else
               bindE (decodeUrlPart decode (dropWhile (\<lambda>c. c = CHR ''/'') (url_pathname u)) connectionId)
                 (\<lambda>database.
               if url_hostname u = [] \<or> url_username u = [] \<or> url_hash u \<noteq> [] then Inl bad
               else if d = Postgres \<and> database = []
               then Inl (url_invalid connectionId '' PostgreSQL URL must include a database name.'')
               else
                 let port = (if url_port u = [] then defaultPort else digits_val (url_port u)) in
                 if port \<le> 0 \<or> port > 65535
                 then Inl (url_invalid connectionId '' has an invalid direct database port.'')
                 else
                   bindE (decodeUrlPart decode (url_username u) connectionId) (\<lambda>user.
                   bindE (decodeUrlPart decode (url_password u) connectionId) (\<lambda>password.
                     Inr \<lparr>pd_dialect = d, pd_connectionString = raw, pd_host = strip_brackets (url_hostname u),
                          pd_user = user, pd_password = password, pd_database = database, pd_port = port\<rparr>)))))"

section \<open>validatePublicEndpoint\<close>

record dns_record =
  dr_type :: nat
  dr_data :: "string option"

text \<open>What the lookup of one record type gives: a failed or refused request (None), or the
  status and the answer section.\<close>

type_synonym dns_reply = "(nat \<times> dns_record list) option"

definition endpoint_invalid :: "string \<Rightarrow> public_error" where
  "endpoint_invalid m = PublicError INVALID_INPUT m"

definition nonpublic :: public_error where
  "nonpublic = PublicError INVALID_INPUT ''The database endpoint resolves to a nonpublic or reserved address.''"

definition unavailable :: public_error where
  "unavailable = PublicError CONNECTION_UNAVAILABLE ''Database hostname validation is unavailable.''"

fun collect_records :: "(string \<Rightarrow> bool) \<Rightarrow> dns_record list \<Rightarrow> public_error + string list" where
  "collect_records public [] = Inr []"
| "collect_records public (r # rs) =
    (if dr_type r \<noteq> 1 \<and> dr_type r \<noteq> 28 then collect_records public rs
     else case dr_data r of
         None \<Rightarrow> Inl nonpublic
       | Some a \<Rightarrow>
           if public a then bindE (collect_records public rs) (\<lambda>as. Inr (a # as)) else Inl nonpublic)"

fun collect_answers :: "(string \<Rightarrow> bool) \<Rightarrow> (nat \<times> dns_record list) list \<Rightarrow> public_error + string list" where
  "collect_answers public [] = Inr []"
| "collect_answers public ((status, records) # answers) =
    (if status \<noteq> 0 then Inl unavailable
     else bindE (collect_records public records) (\<lambda>as.
          bindE (collect_answers public answers) (\<lambda>bs. Inr (as @ bs))))"

definition validatePublicEndpoint ::
  "(string \<Rightarrow> url option) \<Rightarrow> (string \<Rightarrow> string option) \<Rightarrow> (string \<Rightarrow> bool) \<Rightarrow> (string \<Rightarrow> string option) \<Rightarrow>
   (string \<Rightarrow> string \<Rightarrow> dns_reply) \<Rightarrow> string \<Rightarrow> string \<Rightarrow> public_error + (parsed_direct_url \<times> string)" where
  \<comment> \<open>the parsed URL and the address to dial\<close>
  "validatePublicEndpoint parse_url decode isIPv6 canonical6 lookup raw connectionId =
    bindE (parseDirectDatabaseUrl parse_url decode raw connectionId) (\<lambda>parsed.
    let host = map to_lower (pd_host parsed);
        ip = strip_brackets host;
        public = publicAddress isIPv6 canonical6
    in if isIPv4 ip \<or> isIPv6 ip then (if \<not> public ip then Inl nonpublic else Inr (parsed, ip))
       else if \<not> allowedHostname host
       then Inl (endpoint_invalid ''The database endpoint hostname is not an eligible public DNS name.'')
       else case (lookup host ''A'', lookup host ''AAAA'') of
           (Some a, Some aaaa) \<Rightarrow>
             bindE (collect_answers public [a, aaaa]) (\<lambda>addresses.
               if addresses = [] then Inl unavailable else Inr (parsed, hd addresses))
         | _ \<Rightarrow> Inl unavailable)"

section \<open>Properties\<close>

text \<open>An IPv4 block, and the blocks that an endpoint may not lie in.\<close>

definition ipv4_value :: "nat \<Rightarrow> nat \<Rightarrow> nat \<Rightarrow> nat \<Rightarrow> nat" where
  "ipv4_value a b c d = ((a * 256 + b) * 256 + c) * 256 + d"

definition in_cidr :: "nat \<Rightarrow> nat \<times> nat \<times> nat \<times> nat \<Rightarrow> bool" where
  "in_cidr n block = (case block of (a, b, c, len) \<Rightarrow>
     n div 2 ^ (32 - len) = ipv4_value a b c 0 div 2 ^ (32 - len))"

definition BLOCKED_CIDRS :: "(nat \<times> nat \<times> nat \<times> nat) list" where
  "BLOCKED_CIDRS =
    [(0, 0, 0, 8), (10, 0, 0, 8), (127, 0, 0, 8), (224, 0, 0, 3), (100, 64, 0, 10), (169, 254, 0, 16),
     (172, 16, 0, 12), (192, 168, 0, 16), (192, 0, 0, 16), (192, 88, 99, 24), (198, 18, 0, 15),
     (198, 51, 100, 24), (203, 0, 113, 24)]"

lemma ipv4_div:
  assumes "b < 256" "c < 256" "d < 256"
  shows "ipv4_value a b c d div 2 ^ 24 = a" "ipv4_value a b c d div 2 ^ 16 = a * 256 + b"
    "ipv4_value a b c d div 2 ^ 8 = (a * 256 + b) * 256 + c"
    "ipv4_value a b c d div 2 ^ 29 = a div 32" "ipv4_value a b c d div 2 ^ 22 = a * 4 + b div 64"
    "ipv4_value a b c d div 2 ^ 20 = a * 16 + b div 16" "ipv4_value a b c d div 2 ^ 17 = a * 128 + b div 2"
  using assms unfolding ipv4_value_def by simp_all

lemma two_digits:
  assumes "b < m" "y < (m :: nat)"
  shows "a * m + b = x * m + y \<longleftrightarrow> a = x \<and> b = y"
proof
  assume eq: "a * m + b = x * m + y"
  then have "(a * m + b) div m = (x * m + y) div m" by simp
  then have "a = x" using assms by simp
  with eq show "a = x \<and> b = y" by simp
qed simp

lemma div_is: "m > 0 \<Longrightarrow> b div m = k \<longleftrightarrow> k * m \<le> b \<and> b < k * m + (m :: nat)"
  by (metis add.commute add_diff_cancel_left' div_nat_eqI dividend_less_div_times mult.commute
      mult_Suc_right times_div_less_eq_dividend)

lemma blocked_cidrs:
  assumes "a < 256" "b < 256" "c < 256" "d < 256"
  shows "list_ex (in_cidr (ipv4_value a b c d)) BLOCKED_CIDRS \<longleftrightarrow> blockedOctets a b c"
proof -
  note vals = ipv4_div [OF assms(2-4), of a]
  have 8: "in_cidr (ipv4_value a b c d) (x, 0, 0, 8) \<longleftrightarrow> a = x" for x
    using vals(1) by (simp add: in_cidr_def ipv4_value_def)
  have 16: "in_cidr (ipv4_value a b c d) (x, y, 0, 16) \<longleftrightarrow> a = x \<and> b = y" if "y < 256" for x y
  proof -
    have "a * 256 + b = x * 256 + y \<longleftrightarrow> a = x \<and> b = y"
      by (rule two_digits [OF assms(2) that])
    with vals(2) show ?thesis by (simp add: in_cidr_def ipv4_value_def mult.commute)
  qed
  have 24: "in_cidr (ipv4_value a b c d) (x, y, z, 24) \<longleftrightarrow> a = x \<and> b = y \<and> c = z" if "y < 256" "z < 256" for x y z
  proof -
    have "(a * 256 + b) * 256 + c = (x * 256 + y) * 256 + z \<longleftrightarrow> a = x \<and> b = y \<and> c = z"
      using two_digits [OF assms(3) that(2)] two_digits [OF assms(2) that(1)]
      by (simp only: conj_assoc)
    with vals(3) show ?thesis by (simp add: in_cidr_def ipv4_value_def mult.commute)
  qed
  have 3: "in_cidr (ipv4_value a b c d) (224, 0, 0, 3) \<longleftrightarrow> a \<ge> 224"
    using vals(4) assms(1) by (auto simp: in_cidr_def ipv4_value_def)
  have 10: "in_cidr (ipv4_value a b c d) (100, 64, 0, 10) \<longleftrightarrow> a = 100 \<and> b \<ge> 64 \<and> b \<le> 127"
  proof -
    have "a * 4 + b div 64 = 401 \<longleftrightarrow> a = 100 \<and> b \<ge> 64 \<and> b \<le> 127"
      using two_digits [of "b div 64" 4 1 a 100] div_is [of 64 b 1] assms(2) by auto
    with vals(5) show ?thesis by (simp add: in_cidr_def ipv4_value_def)
  qed
  have 12: "in_cidr (ipv4_value a b c d) (172, 16, 0, 12) \<longleftrightarrow> a = 172 \<and> b \<ge> 16 \<and> b \<le> 31"
  proof -
    have "a * 16 + b div 16 = 2753 \<longleftrightarrow> a = 172 \<and> b \<ge> 16 \<and> b \<le> 31"
      using two_digits [of "b div 16" 16 1 a 172] div_is [of 16 b 1] assms(2) by auto
    with vals(6) show ?thesis by (simp add: in_cidr_def ipv4_value_def)
  qed
  have 15: "in_cidr (ipv4_value a b c d) (198, 18, 0, 15) \<longleftrightarrow> a = 198 \<and> (b = 18 \<or> b = 19)"
  proof -
    have "a * 128 + b div 2 = 25353 \<longleftrightarrow> a = 198 \<and> (b = 18 \<or> b = 19)"
      using two_digits [of "b div 2" 128 9 a 198] div_is [of 2 b 9] assms(2) by auto
    with vals(7) show ?thesis by (simp add: in_cidr_def ipv4_value_def)
  qed
  show ?thesis
    unfolding BLOCKED_CIDRS_def blockedOctets_def by (auto simp: 8 16 24 3 10 12 15)
qed

text \<open>the IPv4 test admits a dotted decimal address exactly when it lies in none of the
  thirteen special-use blocks.
\<close>

theorem publicIPv4_cidr:
  assumes "isIPv4 ip" and "map digits_val (split_char (CHR ''.'') ip) = [a, b, c, d]"
  shows "publicIPv4 ip \<longleftrightarrow> \<not> list_ex (in_cidr (ipv4_value a b c d)) BLOCKED_CIDRS"
proof -
  have "\<forall>p \<in> set (split_char (CHR ''.'') ip). digits_val p \<le> 255"
    using assms(1) by (auto simp: isIPv4_def is_octet_def list_all_iff)
  then have "\<forall>n \<in> set [a, b, c, d]. n \<le> 255"
    unfolding assms(2) [symmetric] by simp
  with blocked_cidrs [of a b c d] assms(2) show ?thesis
    by (simp add: publicIPv4_def Let_def del: list.map)
qed

lemma publicIPv4_cidr_witness:
  "publicIPv4 ''8.8.4.4'' \<longleftrightarrow> \<not> list_ex (in_cidr (ipv4_value 8 8 4 4)) BLOCKED_CIDRS"
  by (rule publicIPv4_cidr) code_simp+

lemma collect_records_Inr:
  "collect_records public rs = Inr as \<Longrightarrow>
     (\<forall>a \<in> set as. public a) \<and>
     (\<forall>r \<in> set rs. dr_type r = 1 \<or> dr_type r = 28 \<longrightarrow> (\<exists>a. dr_data r = Some a \<and> public a))"
  by (induction rs arbitrary: as) (auto split: if_splits option.splits)

lemma collect_answers_Inr:
  "collect_answers public answers = Inr as \<Longrightarrow>
     (\<forall>a \<in> set as. public a) \<and>
     (\<forall>(st, rs) \<in> set answers. st = 0 \<and>
        (\<forall>r \<in> set rs. dr_type r = 1 \<or> dr_type r = 28 \<longrightarrow> (\<exists>a. dr_data r = Some a \<and> public a)))"
  by (induction public answers arbitrary: as rule: collect_answers.induct)
    (fastforce split: if_splits dest: collect_records_Inr)+

text \<open>C26: an endpoint is only admitted with a public address to dial. For a host name, both
  lookups succeeded, and every address record of both replies is public, not only the one
  that is dialled; the host name itself is an eligible public name.
\<close>

theorem validatePublicEndpoint_public:
  assumes "validatePublicEndpoint parse_url decode isIPv6 canonical6 lookup raw connectionId = Inr (parsed, dialHost)"
  shows "publicAddress isIPv6 canonical6 dialHost \<and>
    parseDirectDatabaseUrl parse_url decode raw connectionId = Inr parsed \<and>
    (let host = map to_lower (pd_host parsed) in
     dialHost = strip_brackets host \<or>
     allowedHostname host \<and>
     (\<forall>type \<in> {''A'', ''AAAA''}. \<exists>records. lookup host type = Some (0, records) \<and>
        (\<forall>r \<in> set records. dr_type r = 1 \<or> dr_type r = 28 \<longrightarrow>
           (\<exists>a. dr_data r = Some a \<and> publicAddress isIPv6 canonical6 a))))"
proof -
  let ?public = "publicAddress isIPv6 canonical6"
  from assms have parsed: "parseDirectDatabaseUrl parse_url decode raw connectionId = Inr parsed"
    unfolding validatePublicEndpoint_def bindE_Inr_iff Let_def
    by (auto simp only: bindE_Inr_iff sum.inject sum.distinct prod.inject split: if_splits option.splits prod.splits)
  define host where "host = map to_lower (pd_host parsed)"
  note result = assms [unfolded validatePublicEndpoint_def parsed bindE_simps Let_def, folded host_def]
  show ?thesis
  proof (cases "isIPv4 (strip_brackets host) \<or> isIPv6 (strip_brackets host)")
    case True
    with result parsed show ?thesis by (simp add: host_def Let_def split: if_splits)
  next
    case False
    have allowed: "allowedHostname host"
      using result unfolding if_not_P [OF False] by (simp split: if_splits)
    obtain a aaaa addresses where replies: "lookup host ''A'' = Some a" "lookup host ''AAAA'' = Some aaaa"
      and col: "collect_answers ?public [a, aaaa] = Inr addresses"
      and dial: "addresses \<noteq> []" "dialHost = hd addresses"
      using result unfolding if_not_P [OF False]
      by (auto simp only: bindE_Inr_iff sum.inject sum.distinct prod.inject split: if_splits option.splits) blast
    obtain r1 r2 where "a = (0, r1)" "aaaa = (0, r2)"
      using collect_answers_Inr [OF col] by (cases a; cases aaaa) auto
    with collect_answers_Inr [OF col] dial replies allowed parsed show ?thesis
      by (cases addresses) (auto simp: host_def [symmetric] Let_def)
  qed
qed

lemma validatePublicEndpoint_public_witness:
  "publicAddress (\<lambda>s. False) (\<lambda>s. None) ''8.8.4.4''"
proof -
  let ?url = "\<lparr>url_protocol = ''mysql:'', url_hostname = ''db.example.com'', url_username = ''u'', url_password = ''p'',
    url_pathname = ''/x'', url_port = [], url_hash = [], url_params = 0\<rparr>"
  let ?lookup = "\<lambda>host type. if type = ''A'' then Some (0, [\<lparr>dr_type = 1, dr_data = Some ''8.8.4.4''\<rparr>])
    else Some (0, [])"
  have "validatePublicEndpoint (\<lambda>s. Some ?url) Some (\<lambda>s. False) (\<lambda>s. None) ?lookup ''mysql://h'' ''c'' =
    Inr (\<lparr>pd_dialect = Mysql, pd_connectionString = ''mysql://h'', pd_host = ''db.example.com'', pd_user = ''u'',
      pd_password = ''p'', pd_database = ''x'', pd_port = 3306\<rparr>, ''8.8.4.4'')"
    by code_simp
  from validatePublicEndpoint_public [OF this] show ?thesis by (rule conjunct1)
qed

end
