(* ===== verification/Cron.thy ===== *)
theory Cron
  imports Prelude
begin

text \<open>
  The UTC cron schedules of \<open>apps/workflow-mcp-worker/src/cron.ts\<close>: the field parser,
  the schedule parser and the test of a schedule against a time. A thrown error is its
  message. The calendar fields of a JavaScript date in UTC are written out.
\<close>

section \<open>Parsing\<close>

definition invalid_cron :: string where
  "invalid_cron = ''invalid_cron_schedule''"

definition BOUNDS :: "(nat \<times> nat) list" where
  "BOUNDS = [(0, 59), (0, 23), (1, 31), (1, 12), (0, 7)]"

record cron_field =
  cf_wildcard :: bool
  cf_values :: "nat list"

text \<open>The loop that adds every step-th number of a range.\<close>

function range_values :: "nat \<Rightarrow> nat \<Rightarrow> nat \<Rightarrow> nat list" where
  "range_values number end_value step =
     (if number \<le> end_value \<and> 0 < step then number # range_values (number + step) end_value step else [])"
  by pat_completeness auto
termination by (relation "measure (\<lambda>(n, e, s). Suc e - n)") auto

declare range_values.simps [simp del]

definition all_digits :: "string \<Rightarrow> bool" where
  "all_digits s \<longleftrightarrow> s \<noteq> [] \<and> list_all is_digit s"

definition parse_step :: "string option \<Rightarrow> nat \<Rightarrow> nat \<Rightarrow> string + nat" where
  \<comment> \<open>the step of a part, at most the number of values of the field\<close>
  "parse_step stepSource min_value max_value =
    (case stepSource of
       None \<Rightarrow> Inr 1
     | Some s \<Rightarrow>
         if \<not> all_digits s \<or> hd s = CHR ''0'' \<or> digits_val s > max_value - min_value + 1
         then Inl invalid_cron else Inr (digits_val s))"

definition parse_base :: "string \<Rightarrow> bool \<Rightarrow> nat \<Rightarrow> nat \<Rightarrow> string + (nat \<times> nat)" where
  \<comment> \<open>the first and last value of a part\<close>
  "parse_base base has_step min_value max_value =
    (if base = ''*'' then Inr (min_value, max_value)
     else if all_digits base then
       (if has_step then Inl invalid_cron else Inr (digits_val base, digits_val base))
     else case split_char (CHR ''-'') base of
         [a, b] \<Rightarrow> if all_digits a \<and> all_digits b then Inr (digits_val a, digits_val b) else Inl invalid_cron
       | _ \<Rightarrow> Inl invalid_cron)"

definition parse_part :: "nat \<Rightarrow> nat \<Rightarrow> string \<Rightarrow> string + (nat \<times> nat \<times> nat)" where
  "parse_part min_value max_value part =
    (let fields = split_char (CHR ''/'') part in
     if length fields > 2 \<or> hd fields = [] then Inl invalid_cron
     else
       let stepSource = (if length fields = 2 then Some (fields ! 1) else None) in
       bindE (parse_step stepSource min_value max_value) (\<lambda>step.
       bindE (parse_base (hd fields) (stepSource \<noteq> None) min_value max_value) (\<lambda>(start, end_value).
         if start < min_value \<or> end_value > max_value \<or> start > end_value then Inl invalid_cron
         else Inr (start, end_value, step))))"

definition part_values :: "nat \<times> nat \<times> nat \<Rightarrow> nat list" where
  "part_values p = (case p of (start, end_value, step) \<Rightarrow> range_values start end_value step)"

definition parseField :: "string \<Rightarrow> nat \<Rightarrow> nat \<Rightarrow> string + cron_field" where
  "parseField source min_value max_value =
    (if source = [] \<or> length source > 80 then Inl invalid_cron
     else
       let parts = split_char (CHR '','') source in
       if length parts > 16 then Inl invalid_cron
       else
         bindE (mapE (parse_part min_value max_value) parts) (\<lambda>ranges.
           let vals = concat (map part_values ranges) in
           Inr \<lparr>cf_wildcard = (source = ''*''),
                cf_values = vals @ (if max_value = 7 \<and> 7 \<in> set vals then [0] else [])\<rparr>))"

definition parseUtcCron :: "string \<Rightarrow> string + cron_field list" where
  "parseUtcCron schedule =
    (if length schedule > 160 \<or> js_trim schedule \<noteq> schedule then Inl invalid_cron
     else
       let parts = split_ws schedule in
       if length parts \<noteq> 5 then Inl invalid_cron
       else mapE (\<lambda>(part, bounds). parseField part (fst bounds) (snd bounds)) (zip parts BOUNDS))"

section \<open>Calendar fields of a date in UTC\<close>

definition days_of :: "nat \<Rightarrow> nat" where "days_of ms = ms div 86400000"
definition utcMinutes :: "nat \<Rightarrow> nat" where "utcMinutes ms = ms div 60000 mod 60"
definition utcHours :: "nat \<Rightarrow> nat" where "utcHours ms = ms div 3600000 mod 24"
definition utcDay :: "nat \<Rightarrow> nat" where "utcDay ms = (days_of ms + 4) mod 7"

text \<open>Month and day of the month: the days are counted from 1 March of the year 0, in eras
  of 400 years, and each year starts in March.\<close>

definition day_of_era :: "nat \<Rightarrow> nat" where
  "day_of_era days = (days + 719468) mod 146097"

definition year_of_era :: "nat \<Rightarrow> nat" where
  "year_of_era doe = (doe - doe div 1460 + doe div 36524 - doe div 146096) div 365"

definition day_of_year :: "nat \<Rightarrow> nat" where
  "day_of_year doe =
     (let yoe = year_of_era doe in doe - (365 * yoe + yoe div 4 - yoe div 100))"

definition month_index :: "nat \<Rightarrow> nat" where
  "month_index doy = (5 * doy + 2) div 153"

definition utcMonth :: "nat \<Rightarrow> nat" where
  \<comment> \<open>1 for January: \<open>getUTCMonth() + 1\<close>\<close>
  "utcMonth ms =
    (let mp = month_index (day_of_year (day_of_era (days_of ms))) in if mp < 10 then mp + 3 else mp - 9)"

definition utcDate :: "nat \<Rightarrow> nat" where
  "utcDate ms =
    (let doy = day_of_year (day_of_era (days_of ms)) in doy - (153 * month_index doy + 2) div 5 + 1)"

section \<open>cronMatchesUtc\<close>

definition MAX_SAFE_INTEGER :: int where "MAX_SAFE_INTEGER = 9007199254740991"

definition fields_match :: "cron_field list \<Rightarrow> nat \<Rightarrow> bool" where
  \<comment> \<open>the test of the five fields against a date\<close>
  "fields_match fs date =
    (let has = (\<lambda>i v. v \<in> set (cf_values (fs ! i)));
         dom = has 2 (utcDate date);
         dow = has 4 (utcDay date)
     in if \<not> has 0 (utcMinutes date) \<or> \<not> has 1 (utcHours date) \<or> \<not> has 3 (utcMonth date) then False
        else if cf_wildcard (fs ! 2) then dow
        else if cf_wildcard (fs ! 4) then dom
        else dom \<or> dow)"

definition cronMatchesUtc :: "string \<Rightarrow> int \<Rightarrow> string + bool" where
  "cronMatchesUtc schedule scheduledTime =
    (if scheduledTime < 0 \<or> scheduledTime > MAX_SAFE_INTEGER then Inl ''invalid_scheduled_time''
     else
       bindE (parseUtcCron schedule) (\<lambda>fields.
         let date = nat (scheduledTime div 60000) * 60000 in
         if date > 8640000000000000 then Inl ''invalid_scheduled_time''
         else Inr (fields_match fields date)))"

section \<open>Properties\<close>

lemma range_values_set:
  "0 < step \<Longrightarrow> set (range_values n e step) = {v. n \<le> v \<and> v \<le> e \<and> (v - n) mod step = 0}"
proof (induction n e step rule: range_values.induct)
  case (1 n e step)
  show ?case
  proof (cases "n \<le> e")
    case False
    then show ?thesis by (subst range_values.simps) auto
  next
    case True
    have step: "v = n \<or> n + step \<le> v \<and> (v - (n + step)) mod step = 0 \<longleftrightarrow> n \<le> v \<and> (v - n) mod step = 0" for v
    proof (cases "n + step \<le> v")
      case True
      then have "(v - n) mod step = (v - (n + step)) mod step"
        by (metis Nat.diff_diff_right add.commute diff_diff_left le_add_diff_inverse2 le_mod_geq
            add_le_imp_le_diff diff_add_inverse2)
      with True \<open>0 < step\<close> show ?thesis by auto
    next
      case False
      then have "n \<le> v \<Longrightarrow> step dvd v - n \<Longrightarrow> v = n"
        by (cases "v - n = 0") (auto dest: dvd_imp_le)
      with False show ?thesis by auto
    qed
    have "set (range_values n e step) = insert n {v. n + step \<le> v \<and> v \<le> e \<and> (v - (n + step)) mod step = 0}"
    proof -
      have IH: "set (range_values (n + step) e step) =
          {v. n + step \<le> v \<and> v \<le> e \<and> (v - (n + step)) mod step = 0}"
        by (rule "1.IH") (use True "1.prems" in simp_all)
      show ?thesis
        unfolding range_values.simps [of n] using True "1.prems" by (simp only: IH simp_thms if_True list.set)
    qed
    also have "\<dots> = {v. v \<le> e \<and> (v = n \<or> n + step \<le> v \<and> (v - (n + step)) mod step = 0)}"
      using True by auto
    finally show ?thesis unfolding step by (simp only: conj_ac)
  qed
qed

lemma parse_part_Inr:
  "parse_part lo hi part = Inr (a, b, k) \<Longrightarrow> lo \<le> a \<and> a \<le> b \<and> b \<le> hi \<and> 0 < k"
  unfolding parse_part_def parse_step_def Let_def
  by (auto simp: all_digits_def list_all_iff intro!: digits_val_pos split: if_splits option.splits)

text \<open>an accepted cron field is a nonempty set of values within the bounds of the field:
  a value belongs to it exactly when one of the comma separated parts covers it with a range
  and a step (in the weekday field 7 is also 0).
\<close>

theorem parseField_values:
  assumes "parseField source lo hi = Inr f"
  shows "\<exists>ranges. list_all2 (\<lambda>part (a, b, k). parse_part lo hi part = Inr (a, b, k) \<and>
      lo \<le> a \<and> a \<le> b \<and> b \<le> hi \<and> 0 < k) (split_char (CHR '','') source) ranges \<and> ranges \<noteq> [] \<and>
    (\<forall>v. v \<in> set (cf_values f) \<longleftrightarrow>
       (\<exists>(a, b, k) \<in> set ranges. a \<le> v \<and> v \<le> b \<and> (v - a) mod k = 0) \<or>
       hi = 7 \<and> v = 0 \<and> (\<exists>(a, b, k) \<in> set ranges. a \<le> 7 \<and> 7 \<le> b \<and> (7 - a) mod k = 0))"
proof -
  let ?parts = "split_char (CHR '','') source"
  from assms obtain ranges where ranges: "mapE (parse_part lo hi) ?parts = Inr ranges"
    and f: "f = (let vals = concat (map part_values ranges) in
      \<lparr>cf_wildcard = (source = ''*''), cf_values = vals @ (if hi = 7 \<and> 7 \<in> set vals then [0] else [])\<rparr>)"
    by (auto simp: parseField_def Let_def split: if_splits)
  have parts: "list_all2 (\<lambda>part (a, b, k). parse_part lo hi part = Inr (a, b, k) \<and>
      lo \<le> a \<and> a \<le> b \<and> b \<le> hi \<and> 0 < k) ?parts ranges"
    using mapE_Inr_all2 [OF ranges] by (rule list_all2_mono) (auto dest: parse_part_Inr)
  have "ranges \<noteq> []"
    using mapE_length [OF ranges] by (metis length_0_conv split_char_nonempty)
  have pos: "0 < k" if "(a, b, k) \<in> set ranges" for a b k
    using parts that by (auto simp: list_all2_conv_all_nth in_set_conv_nth)
  have vals: "v \<in> set (concat (map part_values ranges)) \<longleftrightarrow>
      (\<exists>(a, b, k) \<in> set ranges. a \<le> v \<and> v \<le> b \<and> (v - a) mod k = 0)" for v
  proof -
    have "v \<in> set (part_values r) \<longleftrightarrow> (case r of (a, b, k) \<Rightarrow> a \<le> v \<and> v \<le> b \<and> (v - a) mod k = 0)"
      if "r \<in> set ranges" for r
      using that pos by (cases r rule: prod_cases3) (simp add: part_values_def range_values_set)
    then show ?thesis by (simp cong: bex_cong)
  qed
  have in_f: "v \<in> set (cf_values f) \<longleftrightarrow> v \<in> set (concat (map part_values ranges)) \<or>
      hi = 7 \<and> v = 0 \<and> 7 \<in> set (concat (map part_values ranges))" for v
    by (auto simp: f Let_def)
  show ?thesis
    by (rule exI [of _ ranges], intro conjI allI parts \<open>ranges \<noteq> []\<close>) (simp only: in_f vals)
qed

lemma parseField_values_witness:
  "parseField ''1-20/5,40'' 0 59 = Inr \<lparr>cf_wildcard = False, cf_values = [1, 6, 11, 16, 40]\<rparr> \<and>
   (\<exists>ranges. list_all2 (\<lambda>part (a, b, k). parse_part 0 59 part = Inr (a, b, k) \<and>
      0 \<le> a \<and> a \<le> b \<and> b \<le> 59 \<and> 0 < k) (split_char (CHR '','') ''1-20/5,40'') ranges)"
proof -
  have eq: "parseField ''1-20/5,40'' 0 59 = Inr \<lparr>cf_wildcard = False, cf_values = [1, 6, 11, 16, 40]\<rparr>"
    by code_simp
  show ?thesis
    using parseField_values [OF eq] by (elim exE conjE) (intro conjI exI, rule eq)
qed

text \<open>the test of a schedule depends on the minute only, not on the seconds of the time;
  it holds exactly when minute, hour and month belong to their fields and the day does, by
  the weekday if the day of the month is unrestricted, by the day of the month if the
  weekday is unrestricted, and by either of them if both are restricted.
\<close>

theorem cronMatchesUtc_minute:
  assumes "cronMatchesUtc schedule t = Inr fires"
    and "0 \<le> t'" and "t' \<le> MAX_SAFE_INTEGER" and "t' div 60000 = t div 60000"
  shows "cronMatchesUtc schedule t' = Inr fires \<and>
    (\<exists>minute hour day month weekday. parseUtcCron schedule = Inr [minute, hour, day, month, weekday] \<and>
      (let date = nat (t div 60000) * 60000;
           dom = utcDate date \<in> set (cf_values day); dow = utcDay date \<in> set (cf_values weekday)
       in fires \<longleftrightarrow> utcMinutes date \<in> set (cf_values minute) \<and> utcHours date \<in> set (cf_values hour) \<and>
            utcMonth date \<in> set (cf_values month) \<and>
            (if cf_wildcard day then dow else if cf_wildcard weekday then dom else dom \<or> dow)))"
proof -
  from assms(1) obtain fs where fs: "parseUtcCron schedule = Inr fs"
    and fires: "fires = fields_match fs (nat (t div 60000) * 60000)"
    by (auto simp: cronMatchesUtc_def Let_def split: if_splits)
  have "length fs = 5"
    using fs by (auto simp: parseUtcCron_def Let_def BOUNDS_def dest!: mapE_length split: if_splits)
  then obtain minute hour day month weekday where five: "fs = [minute, hour, day, month, weekday]"
    by (auto simp: length_Suc_conv numeral_eq_Suc)
  have "cronMatchesUtc schedule t' = Inr fires"
    using assms fs by (auto simp: cronMatchesUtc_def Let_def split: if_splits)
  moreover have "let date = nat (t div 60000) * 60000;
           dom = utcDate date \<in> set (cf_values day); dow = utcDay date \<in> set (cf_values weekday)
       in fires \<longleftrightarrow> utcMinutes date \<in> set (cf_values minute) \<and> utcHours date \<in> set (cf_values hour) \<and>
            utcMonth date \<in> set (cf_values month) \<and>
            (if cf_wildcard day then dow else if cf_wildcard weekday then dom else dom \<or> dow)"
    unfolding fires five by (simp add: fields_match_def Let_def) blast
  ultimately show ?thesis
    using fs [unfolded five] by (intro conjI exI)
qed

lemma cronMatchesUtc_minute_witness:
  "cronMatchesUtc ''30 9 * * 1-5'' 1767605459999 = Inr True"
proof -
  have "cronMatchesUtc ''30 9 * * 1-5'' 1767605400000 = Inr True"
    by code_simp
  from cronMatchesUtc_minute [OF this, of 1767605459999] show ?thesis
    by (simp add: MAX_SAFE_INTEGER_def)
qed

end
