(* ===== verification/CronAdmission.thy ===== *)
theory CronAdmission
  imports Cron "HOL-Library.Char_ord" "HOL-Library.List_Lexorder"
begin

text \<open>
  The cron ingress of \<open>apps/workflow-mcp-worker/src/scheduled.ts\<close>: one tick pages through
  the active workflows in the order of their ids and starts those whose schedule is due.

  Parameters of the model: the table of active workflows with their parsed plans, which one
  tick reads in pages, and \<open>service.start\<close>, a function on the state of the run store.
\<close>

datatype trigger = CronTrigger string | OtherTrigger

text \<open>A row of the query: the triggers of the parsed plan, None if the plan does not parse.\<close>

record cron_row =
  cr_id :: string
  cr_active_version_id :: string
  cr_triggers :: "trigger list option"

record cron_tick =
  ct_checked :: nat
  ct_due :: nat
  ct_started :: nat
  ct_replayed :: nat
  ct_capacity_skipped :: nat
  ct_version_skipped :: nat
  ct_failed :: nat

definition empty_tick :: cron_tick where
  "empty_tick = \<lparr>ct_checked = 0, ct_due = 0, ct_started = 0, ct_replayed = 0, ct_capacity_skipped = 0,
     ct_version_skipped = 0, ct_failed = 0\<rparr>"

text \<open>What \<open>service.start\<close> does: it returns, with or without replay, or throws a
  \<open>StateError\<close> with a code or any other error.\<close>

datatype start_outcome = StartOk bool | StartStateError string | StartOtherError

definition base36_digit :: "nat \<Rightarrow> char" where
  "base36_digit d = (if d < 10 then digit_char d else char_of (87 + d))"

fun base36 :: "nat \<Rightarrow> string" where
  "base36 n = (if n < 36 then [base36_digit n] else base36 (n div 36) @ [base36_digit (n mod 36)])"

declare base36.simps [simp del]

definition count_start :: "start_outcome \<Rightarrow> cron_tick \<Rightarrow> cron_tick" where
  "count_start r st =
    (case r of
       StartOk replay \<Rightarrow>
         if replay then st\<lparr>ct_replayed := ct_replayed st + 1\<rparr> else st\<lparr>ct_started := ct_started st + 1\<rparr>
     | StartStateError errorCode \<Rightarrow>
         if errorCode = ''run_capacity_exceeded'' then st\<lparr>ct_capacity_skipped := ct_capacity_skipped st + 1\<rparr>
         else if errorCode \<in> {''workflow_not_active'', ''published_version_changed'', ''published_version_missing''}
         then st\<lparr>ct_version_skipped := ct_version_skipped st + 1\<rparr>
         else st\<lparr>ct_failed := ct_failed st + 1\<rparr>
     | StartOtherError \<Rightarrow> st\<lparr>ct_failed := ct_failed st + 1\<rparr>)"

type_synonym 's start_fun = "string \<Rightarrow> string \<Rightarrow> string \<Rightarrow> 's \<Rightarrow> start_outcome \<times> 's"

definition admit_row ::
  "'s start_fun \<Rightarrow> int \<Rightarrow> cron_row \<Rightarrow> cron_tick \<times> 's \<Rightarrow> cron_tick \<times> 's" where
  \<comment> \<open>the body of the loop over the rows of a page\<close>
  "admit_row start scheduledTime row acc =
    (let (st0, s) = acc;
         st = st0\<lparr>ct_checked := ct_checked st0 + 1\<rparr>;
         fail = (st\<lparr>ct_failed := ct_failed st + 1\<rparr>, s)
     in case cr_triggers row of
          None \<Rightarrow> fail
        | Some [] \<Rightarrow> (st, s)
        | Some [OtherTrigger] \<Rightarrow> (st, s)
        | Some [CronTrigger schedule] \<Rightarrow>
            (case cronMatchesUtc schedule scheduledTime of
               Inl e \<Rightarrow> fail
             | Inr False \<Rightarrow> (st, s)
             | Inr True \<Rightarrow>
                 let key = ''cron-'' @ base36 (nat (scheduledTime div 60000));
                     (r, s') = start (cr_id row) key (cr_active_version_id row) s
                 in (count_start r (st\<lparr>ct_due := ct_due st + 1\<rparr>), s'))
        | Some _ \<Rightarrow> fail)"

definition remaining :: "cron_row list \<Rightarrow> string \<Rightarrow> cron_row list" where
  \<comment> \<open>the active workflows with a greater id, in order\<close>
  "remaining active lastId = sort_key cr_id (filter (\<lambda>r. lastId < cr_id r) active)"

fun admit_pages ::
  "nat \<Rightarrow> 's start_fun \<Rightarrow> int \<Rightarrow> cron_row list \<Rightarrow> string \<Rightarrow> cron_tick \<times> 's \<Rightarrow> string + (cron_tick \<times> 's)" where
  \<comment> \<open>the loop over the pages and the check for a further row after it\<close>
  "admit_pages 0 start t active lastId acc =
     (if remaining active lastId = [] then Inr acc else Inl ''cron_scan_budget_exceeded'')"
| "admit_pages (Suc n) start t active lastId acc =
     (let results = take 100 (remaining active lastId) in
      if results = [] then Inr acc
      else
        let acc' = fold (admit_row start t) results acc in
        if length results < 100 then Inr acc'
        else admit_pages n start t active (cr_id (last results)) acc')"

definition admitScheduledCron ::
  "'s start_fun \<Rightarrow> cron_row list \<Rightarrow> int \<Rightarrow> 's \<Rightarrow> string + (cron_tick \<times> 's)" where
  "admitScheduledCron start active scheduledTime s =
    (if scheduledTime < 0 \<or> scheduledTime > MAX_SAFE_INTEGER then Inl ''invalid_scheduled_time''
     else admit_pages 10 start scheduledTime active [] (empty_tick, s))"

section \<open>Properties\<close>

lemma sorted_above:
  assumes "sorted (map f xs)" and "distinct (map f xs)" and "k < length xs"
  shows "filter (\<lambda>x. f (xs ! k) < f x) xs = drop (Suc k) (xs :: 'a list)"
proof -
  have below: "\<not> f (xs ! k) < f x" if "x \<in> set (take (Suc k) xs)" for x
  proof -
    from that obtain i where "i \<le> k" "x = xs ! i"
      using assms(3) by (auto simp: in_set_conv_nth less_Suc_eq_le)
    with sorted_nth_mono [OF assms(1), of i k] assms(3) show ?thesis by (simp add: not_less)
  qed
  have above: "f (xs ! k) < f x" if "x \<in> set (drop (Suc k) xs)" for x
  proof -
    from that obtain i where i: "i < length xs - Suc k" "x = xs ! (Suc k + i)"
      by (auto simp: in_set_conv_nth)
    let ?j = "Suc k + i"
    have "?j < length xs" using i by simp
    then have "f (xs ! k) \<le> f (xs ! ?j)" and "f (xs ! k) \<noteq> f (xs ! ?j)"
      using sorted_nth_mono [OF assms(1), of k ?j] assms(3) nth_eq_iff_index_eq [OF assms(2), of k ?j]
      by auto
    with i show ?thesis by (simp add: less_le)
  qed
  have "filter (\<lambda>x. f (xs ! k) < f x) (take (Suc k) xs @ drop (Suc k) xs) = drop (Suc k) xs"
    using below above by (simp only: filter_append) (simp add: filter_empty_conv filter_id_conv)
  then show ?thesis by simp
qed

lemma remaining_after:
  assumes "distinct (map cr_id active)" and "k < length (remaining active lastId)"
  shows "remaining active (cr_id (remaining active lastId ! k)) = drop (Suc k) (remaining active lastId)"
proof -
  let ?R = "remaining active lastId"
  let ?x = "cr_id (?R ! k)"
  have "?R ! k \<in> set ?R" using assms(2) by (rule nth_mem)
  then have "lastId < ?x" by (simp add: remaining_def)
  then have "filter (\<lambda>r. ?x < cr_id r) active = filter (\<lambda>r. ?x < cr_id r) (filter (\<lambda>r. lastId < cr_id r) active)"
    by (auto intro!: filter_cong)
  then have "remaining active ?x = filter (\<lambda>r. ?x < cr_id r) ?R"
    by (simp add: remaining_def filter_sort)
  also have "\<dots> = drop (Suc k) ?R"
  proof (rule sorted_above [OF _ _ assms(2)])
    show "sorted (map cr_id ?R)" by (simp add: remaining_def)
    show "distinct (map cr_id ?R)"
      using distinct_map_filter [OF assms(1)] by (simp add: remaining_def distinct_map)
  qed
  finally show ?thesis .
qed

lemma admit_pages_fold:
  assumes "distinct (map cr_id active)"
  shows "admit_pages n start t active lastId acc =
    (if length (remaining active lastId) \<le> 100 * n
     then Inr (fold (admit_row start t) (remaining active lastId) acc)
     else Inl ''cron_scan_budget_exceeded'')"
proof (induction n arbitrary: lastId acc)
  case 0
  show ?case by auto
next
  case (Suc n)
  let ?R = "remaining active lastId"
  show ?case
  proof (cases "length ?R < 100")
    case True
    then show ?thesis by (simp add: Let_def)
  next
    case False
    then have last: "last (take 100 ?R) = ?R ! 99"
      by (subst last_conv_nth) (auto simp: min_def)
    have "remaining active (cr_id (?R ! 99)) = drop 100 ?R"
      using remaining_after [OF assms, of 99 lastId] False by simp
    then have "admit_pages (Suc n) start t active lastId acc =
        (if length (drop 100 ?R) \<le> 100 * n
         then Inr (fold (admit_row start t) (drop 100 ?R) (fold (admit_row start t) (take 100 ?R) acc))
         else Inl ''cron_scan_budget_exceeded'')"
      using False Suc.IH by (simp add: Let_def last min_def)
    moreover have "fold (admit_row start t) (drop 100 ?R) (fold (admit_row start t) (take 100 ?R) acc) =
        fold (admit_row start t) ?R acc"
      by (metis append_take_drop_id fold_append comp_apply)
    ultimately show ?thesis using False by auto
  qed
qed

lemma admit_row_checked:
  "ct_checked (fst (admit_row start t row acc)) = Suc (ct_checked (fst acc))"
  by (auto simp: admit_row_def count_start_def Let_def split: prod.splits option.splits list.splits
      trigger.splits sum.splits bool.splits start_outcome.splits)

lemma fold_checked:
  "ct_checked (fst (fold (admit_row start t) rows acc)) = ct_checked (fst acc) + length rows"
  by (induction rows arbitrary: acc) (simp_all add: admit_row_checked)

text \<open>C27: paging by id over the active workflows visits each of them exactly once, in the
  order of the ids: with at most 1000 active workflows a tick is the fold of the row handler
  over all of them, and with more it fails rather than to leave some out silently.
\<close>

theorem admitScheduledCron_all_rows:
  assumes "distinct (map cr_id active)" and "\<forall>r \<in> set active. cr_id r \<noteq> []"
    and "0 \<le> t" and "t \<le> MAX_SAFE_INTEGER"
  shows "admitScheduledCron start active t s =
      (if length active \<le> 1000 then Inr (fold (admit_row start t) (sort_key cr_id active) (empty_tick, s))
       else Inl ''cron_scan_budget_exceeded'') \<and>
    (\<forall>tick s'. admitScheduledCron start active t s = Inr (tick, s') \<longrightarrow> ct_checked tick = length active)"
proof -
  have "filter (\<lambda>r. [] < cr_id r) active = active"
    using assms(2) by (auto simp: filter_id_conv Nil_less_Cons neq_Nil_conv)
  then have rem: "remaining active [] = sort_key cr_id active"
    by (simp add: remaining_def)
  have eq: "admitScheduledCron start active t s =
      (if length active \<le> 1000 then Inr (fold (admit_row start t) (sort_key cr_id active) (empty_tick, s))
       else Inl ''cron_scan_budget_exceeded'')"
    using assms(3,4) unfolding admitScheduledCron_def admit_pages_fold [OF assms(1)] rem by simp
  have "ct_checked (fst (fold (admit_row start t) (sort_key cr_id active) (empty_tick, s))) = length active"
    by (simp add: fold_checked empty_tick_def)
  with eq show ?thesis by (auto split: if_splits)
qed

lemma admitScheduledCron_all_rows_witness:
  "\<exists>tick s'. admitScheduledCron (\<lambda>i k v log. (StartOk False, log @ [(i, k)]))
      [\<lparr>cr_id = ''w2'', cr_active_version_id = ''v'', cr_triggers = Some [CronTrigger ''* * * * *'']\<rparr>,
       \<lparr>cr_id = ''w1'', cr_active_version_id = ''v'', cr_triggers = Some []\<rparr>] 60000 [] = Inr (tick, s') \<and>
     ct_checked tick = 2"
proof -
  let ?a = "[\<lparr>cr_id = ''w2'', cr_active_version_id = ''v'', cr_triggers = Some [CronTrigger ''* * * * *'']\<rparr>,
       \<lparr>cr_id = ''w1'', cr_active_version_id = ''v'', cr_triggers = Some []\<rparr>]"
  let ?start = "\<lambda>i k v log. (StartOk False, log @ [(i, k)])"
  have "distinct (map cr_id ?a)" "\<forall>r \<in> set ?a. cr_id r \<noteq> []" "(0 :: int) \<le> 60000" "60000 \<le> MAX_SAFE_INTEGER"
    by (simp_all add: MAX_SAFE_INTEGER_def)
  note visit = admitScheduledCron_all_rows [OF this, of ?start "[]"]
  obtain tick s' where fold: "fold (admit_row ?start 60000) (sort_key cr_id ?a) (empty_tick, []) = (tick, s')"
    by fastforce
  have "length ?a \<le> 1000" by simp
  with visit fold have "admitScheduledCron ?start ?a 60000 [] = Inr (tick, s')" by simp
  with visit show ?thesis by fastforce
qed

end
