(* ===== verification/Program.thy ===== *)
theory Program
  imports Prelude "HOL-Library.Multiset"
begin

text \<open>
  Asynchronous code as a tree of requests: a program returns, throws, or sends a request to its
  surroundings (a database statement, a native checkpoint, a remote call) and goes on with the
  answer. Sequencing, \<open>try\<close>/\<open>catch\<close> and \<open>Promise.all\<close> are functions on such trees. A pool of
  programs runs by answering, in any order, the request at the root of one of them; a program that
  is never answered again has died.

  The second part is an accounting discipline. A request may need, or use up, tokens that earlier
  answers to the same program have granted. A program that follows the discipline never uses more
  than it was granted, and, in surroundings whose answers grant only what they have in stock, neither
  does any pool of them, whatever is interleaved, dies or is started again.
\<close>

section \<open>Programs\<close>

datatype ('q, 'a, 'r) prog =
    Return 'r
  | Fail string
  | Ask 'q "'a \<Rightarrow> ('q, 'a, 'r) prog"

primrec bindP :: "('q, 'a, 'r) prog \<Rightarrow> ('r \<Rightarrow> ('q, 'a, 's) prog) \<Rightarrow> ('q, 'a, 's) prog" where
  "bindP (Return x) f = f x"
| "bindP (Fail m) f = Fail m"
| "bindP (Ask q k) f = Ask q (\<lambda>a. bindP (k a) f)"

primrec catchP :: "('q, 'a, 'r) prog \<Rightarrow> (string \<Rightarrow> ('q, 'a, 'r) prog) \<Rightarrow> ('q, 'a, 'r) prog" where
  "catchP (Return x) h = Return x"
| "catchP (Fail m) h = h m"
| "catchP (Ask q k) h = Ask q (\<lambda>a. catchP (k a) h)"

definition mapP :: "('r \<Rightarrow> 's) \<Rightarrow> ('q, 'a, 'r) prog \<Rightarrow> ('q, 'a, 's) prog" where
  "mapP g p = bindP p (\<lambda>x. Return (g x))"

lemma mapP_simps [simp]:
  "mapP g (Return x) = Return (g x)" "mapP g (Fail m) = Fail m" "mapP g (Ask q k) = Ask q (\<lambda>a. mapP g (k a))"
  by (simp_all add: mapP_def)

inductive_set subprog :: "(('q, 'a, 'r) prog \<times> ('q, 'a, 'r) prog) set" where
  "(k a, Ask q k) \<in> subprog"

lemma subprog_iff [simp]:
  "(p, Return x) \<in> subprog \<longleftrightarrow> False" "(p, Fail m) \<in> subprog \<longleftrightarrow> False"
  "(p, Ask q k) \<in> subprog \<longleftrightarrow> (\<exists>a. p = k a)"
  by (auto elim: subprog.cases intro: subprog.intros)

lemma wf_subprog: "wf (subprog :: (('q, 'a, 'r) prog \<times> ('q, 'a, 'r) prog) set)"
proof (rule wfUNIVI)
  fix P :: "('q, 'a, 'r) prog \<Rightarrow> bool" and p
  assume step: "\<forall>x. (\<forall>y. (y, x) \<in> subprog \<longrightarrow> P y) \<longrightarrow> P x"
  show "P p"
  proof (induction p)
    case (Ask q k)
    have "\<forall>y. (y, Ask q k) \<in> subprog \<longrightarrow> P y" using Ask by auto
    with step show ?case by blast
  qed (use step in simp_all)
qed

function (sequential) both ::
  "'q \<Rightarrow> ('a \<Rightarrow> bool) \<Rightarrow> ('q, 'a, 'r) prog \<Rightarrow> ('q, 'a, 's) prog \<Rightarrow> ('q, 'a, 'r \<times> 's) prog" where
  \<comment> \<open>two concurrent programs: the answer to \<open>turn\<close> says which of them goes on; when one has thrown, the
     other goes on or is left\<close>
  "both turn left (Return x) (Return y) = Return (x, y)"
| "both turn left (Fail m) (Ask q k) = Ask turn (\<lambda>t. if left t then Fail m else Ask q (\<lambda>a. both turn left (Fail m) (k a)))"
| "both turn left (Fail m) _ = Fail m"
| "both turn left (Ask q k) (Fail m) = Ask turn (\<lambda>t. if left t then Ask q (\<lambda>a. both turn left (k a) (Fail m)) else Fail m)"
| "both turn left (Return x) (Fail m) = Fail m"
| "both turn left (Return x) (Ask q k) = Ask q (\<lambda>a. both turn left (Return x) (k a))"
| "both turn left (Ask q k) (Return y) = Ask q (\<lambda>a. both turn left (k a) (Return y))"
| "both turn left (Ask q k) (Ask q' k') =
    Ask turn (\<lambda>t. if left t then Ask q (\<lambda>a. both turn left (k a) (Ask q' k'))
      else Ask q' (\<lambda>a. both turn left (Ask q k) (k' a)))"
  by pat_completeness auto
termination
  by (relation "inv_image (subprog <*lex*> subprog) (\<lambda>(turn, left, p, q). (p, q))")
    (auto simp: wf_subprog wf_lex_prod intro: subprog.intros)

primrec all_of :: "'q \<Rightarrow> ('a \<Rightarrow> bool) \<Rightarrow> ('q, 'a, 'r) prog list \<Rightarrow> ('q, 'a, 'r list) prog" where
  \<comment> \<open>\<open>Promise.all\<close>\<close>
  "all_of turn left [] = Return []"
| "all_of turn left (p # ps) = mapP (\<lambda>(x, xs). x # xs) (both turn left p (all_of turn left ps))"

section \<open>The requests a program can send\<close>

inductive may_ask :: "('q, 'a, 'r) prog \<Rightarrow> 'q \<Rightarrow> bool" where
  here: "may_ask (Ask q k) q"
| later: "may_ask (k a) q' \<Longrightarrow> may_ask (Ask q k) q'"

inductive_simps may_ask_simps [simp]: "may_ask (Return x) q" "may_ask (Fail m) q" "may_ask (Ask q k) q'"

lemma may_ask_bind: "may_ask (bindP p f) q \<Longrightarrow> may_ask p q \<or> (\<exists>x. may_ask (f x) q)"
  by (induction p) auto

lemma may_ask_catch: "may_ask (catchP p h) q \<Longrightarrow> may_ask p q \<or> (\<exists>m. may_ask (h m) q)"
  by (induction p) auto

lemma may_ask_both: "may_ask (both turn left p p') q \<Longrightarrow> q = turn \<or> may_ask p q \<or> may_ask p' q"
proof (induction turn left p p' rule: both.induct)
  case (8 turn left r k r' k')
  from "8.prems" obtain a where "q = turn \<or>
    left a \<and> (q = r \<or> (\<exists>b. may_ask (both turn left (k b) (Ask r' k')) q)) \<or>
    \<not> left a \<and> (q = r' \<or> (\<exists>b. may_ask (both turn left (Ask r k) (k' b)) q))"
    by (auto split: if_splits)
  then show ?case using "8.IH" by (metis may_ask_simps(3))
qed (auto split: if_splits)

lemma may_ask_all: "may_ask (all_of turn left ps) q \<Longrightarrow> q = turn \<or> (\<exists>p \<in> set ps. may_ask p q)"
  by (induction ps) (auto simp: mapP_def dest!: may_ask_bind may_ask_both)

section \<open>The discipline\<close>

declare subset_mset.add_diff_assoc2 [simp del] subset_mset.add_diff_assoc [simp del]

text \<open>
  \<open>needs q\<close> are the facts that must be established before the request is sent, \<open>learns q a\<close> the facts
  that an answer establishes; facts stay and are shared. \<open>uses q\<close> are the tokens that the request
  takes away, \<open>grants q a\<close> the tokens that an answer hands to the program that asked.
\<close>

record ('q, 'a, 'f, 'k) discipline =
  needs :: "'q \<Rightarrow> 'f set"
  learns :: "'q \<Rightarrow> 'a \<Rightarrow> 'f set"
  uses :: "'q \<Rightarrow> 'k multiset"
  grants :: "'q \<Rightarrow> 'a \<Rightarrow> 'k multiset"

definition idle :: "('q, 'a, 'f, 'k) discipline \<Rightarrow> 'q \<Rightarrow> bool" where
  "idle D q \<longleftrightarrow> needs D q = {} \<and> uses D q = {#} \<and> (\<forall>a. learns D q a = {} \<and> grants D q a = {#})"

primrec follows :: "('q, 'a, 'f, 'k) discipline \<Rightarrow> 'f set \<Rightarrow> 'k multiset \<Rightarrow> ('q, 'a, 'r) prog \<Rightarrow>
    ('f set \<Rightarrow> 'k multiset \<Rightarrow> 'r \<Rightarrow> bool) \<Rightarrow> ('f set \<Rightarrow> 'k multiset \<Rightarrow> string \<Rightarrow> bool) \<Rightarrow> bool" where
  \<comment> \<open>from the facts \<open>F\<close> and holding the tokens \<open>H\<close>, the program sends only requests that the discipline
     allows; what it knows and holds when it returns or throws satisfies the postconditions\<close>
  "follows D F H (Return x) Q R = Q F H x"
| "follows D F H (Fail m) Q R = R F H m"
| "follows D F H (Ask q k) Q R \<longleftrightarrow>
    needs D q \<subseteq> F \<and> uses D q \<subseteq># H \<and> (\<forall>a. follows D (F \<union> learns D q a) (H - uses D q + grants D q a) (k a) Q R)"

definition lasting :: "('f set \<Rightarrow> 'k multiset \<Rightarrow> 'r \<Rightarrow> bool) \<Rightarrow> bool" where
  \<comment> \<open>more facts and more tokens do not falsify the postcondition\<close>
  "lasting Q \<longleftrightarrow> (\<forall>F G H K x. Q F H x \<longrightarrow> Q (F \<union> G) (H + K) x)"

lemma lastingD: "lasting Q \<Longrightarrow> Q F H x \<Longrightarrow> Q (F \<union> G) (H + K) x"
  by (simp add: lasting_def)

lemma lasting_facts: "lasting Q \<Longrightarrow> Q F H x \<Longrightarrow> Q (F \<union> G) H x"
  using lastingD [of Q F H x G "{#}"] by simp

definition anything :: "'f set \<Rightarrow> 'k multiset \<Rightarrow> 'r \<Rightarrow> bool" where
  "anything F H x = True"

lemma anything [simp]: "anything F H x"
  by (simp add: anything_def)

lemma lasting_anything [simp]: "lasting anything"
  by (simp add: lasting_def)

lemma follows_bind:
  "follows D F H (bindP p f) Q R = follows D F H p (\<lambda>F H x. follows D F H (f x) Q R) R"
  by (induction p arbitrary: F H) auto

lemma follows_catch:
  "follows D F H (catchP p h) Q R = follows D F H p Q (\<lambda>F H m. follows D F H (h m) Q R)"
  by (induction p arbitrary: F H) auto

lemma follows_weaken:
  "follows D F H p Q R \<Longrightarrow> (\<And>G H x. F \<subseteq> G \<Longrightarrow> Q G H x \<Longrightarrow> Q' G H x) \<Longrightarrow>
     (\<And>G H m. F \<subseteq> G \<Longrightarrow> R G H m \<Longrightarrow> R' G H m) \<Longrightarrow> follows D F H p Q' R'"
proof (induction p arbitrary: F H)
  case (Ask q k)
  have "follows D (F \<union> learns D q a) (H - uses D q + grants D q a) (k a) Q' R'" for a
    by (rule Ask.IH [OF rangeI]) (use Ask.prems in auto)
  with Ask.prems(1) show ?case by simp
qed auto

lemma diff_more:
  assumes "U \<subseteq># H"
  shows "H + K - U + G = H - U + G + (K :: 'k multiset)"
proof (rule multiset_eqI)
  fix x
  show "count (H + K - U + G) x = count (H - U + G + K) x"
    using mset_subset_eq_count [OF assms, of x] by simp
qed

lemma follows_step:
  assumes "needs D q \<subseteq> F" "uses D q \<subseteq># H"
    and "\<And>a. follows D (F \<union> learns D q a) (H - uses D q + grants D q a + K) (k a) Q R"
  shows "follows D F (H + K) (Ask q k) Q R"
  unfolding follows.simps diff_more [OF assms(2)]
proof (intro conjI allI)
  show "uses D q \<subseteq># H + K"
    using assms(2) by (metis mset_subset_eq_add_left subset_mset.order_trans)
qed (use assms in auto)

lemma follows_step_right:
  assumes "needs D q \<subseteq> F" "uses D q \<subseteq># K"
    and "\<And>a. follows D (F \<union> learns D q a) (H + (K - uses D q + grants D q a)) (k a) Q R"
  shows "follows D F (H + K) (Ask q k) Q R"
  unfolding add.commute [of H K]
  by (rule follows_step) (use assms in \<open>simp_all only: add.commute [of H]\<close>)

lemma follows_more:
  "follows D F H p Q R \<Longrightarrow> lasting Q \<Longrightarrow> lasting R \<Longrightarrow> follows D (F \<union> G) (H + K) p Q R"
proof (induction p arbitrary: F H)
  case (Ask q k)
  show ?case
  proof (rule follows_step)
    fix a
    have "follows D (F \<union> learns D q a \<union> G) (H - uses D q + grants D q a + K) (k a) Q R"
      by (rule Ask.IH) (use Ask.prems in auto)
    then show "follows D (F \<union> G \<union> learns D q a) (H - uses D q + grants D q a + K) (k a) Q R"
      by (simp add: Un_ac)
  qed (use Ask.prems in auto)
qed (auto intro: lastingD)

lemma follows_learnt:
  "follows D F H p Q R \<Longrightarrow> lasting Q \<Longrightarrow> lasting R \<Longrightarrow> follows D (F \<union> G) H p Q R"
  using follows_more [of D F H p Q R G "{#}"] by simp

lemma follows_idle_turn:
  assumes "idle D turn"
    and "\<And>t. left t \<Longrightarrow> follows D F H p Q R" "\<And>t. \<not> left t \<Longrightarrow> follows D F H p' Q R"
  shows "follows D F H (Ask turn (\<lambda>t. if left t then p else p')) Q R"
  using assms by (simp add: idle_def)

definition joined :: "('f set \<Rightarrow> 'k multiset \<Rightarrow> 'r \<Rightarrow> bool) \<Rightarrow> ('f set \<Rightarrow> 'k multiset \<Rightarrow> 's \<Rightarrow> bool) \<Rightarrow>
    'f set \<Rightarrow> 'k multiset \<Rightarrow> 'r \<times> 's \<Rightarrow> bool" where
  "joined Q Q' F L xy \<longleftrightarrow> (\<exists>L1 L2. L = L1 + L2 \<and> Q F L1 (fst xy) \<and> Q' F L2 (snd xy))"

lemma follows_both:
  assumes "lasting Q" "lasting Q'" "lasting R"
  shows "idle D turn \<Longrightarrow> follows D F H p Q R \<Longrightarrow> follows D F K p' Q' R \<Longrightarrow>
     follows D F (H + K) (both turn left p p') (joined Q Q') R"
proof (induction turn left p p' arbitrary: F H K rule: both.induct)
  case (1 turn left x y)
  then show ?case by (auto simp: joined_def)
next
  case (2 turn left m q k)
  show ?case unfolding both.simps
  proof (rule follows_idle_turn)
    fix t assume t: "\<not> left t"
    show "follows D F (H + K) (Ask q (\<lambda>a. both turn left (Fail m) (k a))) (joined Q Q') R"
    proof (rule follows_step_right)
      fix a
      show "follows D (F \<union> learns D q a) (H + (K - uses D q + grants D q a)) (both turn left (Fail m) (k a)) (joined Q Q') R"
        by (rule "2.IH" [OF t "2.prems"(1)]) (use "2.prems" assms lasting_facts in simp_all)
    qed (use "2.prems" in simp_all)
  qed (use 2 assms lastingD [of R F H m "{}" K] in simp_all)
next
  case (4 turn left q k m)
  show ?case unfolding both.simps
  proof (rule follows_idle_turn)
    fix t assume t: "left t"
    show "follows D F (H + K) (Ask q (\<lambda>a. both turn left (k a) (Fail m))) (joined Q Q') R"
    proof (rule follows_step)
      fix a
      show "follows D (F \<union> learns D q a) (H - uses D q + grants D q a + K) (both turn left (k a) (Fail m)) (joined Q Q') R"
        by (rule "4.IH" [OF t "4.prems"(1)]) (use "4.prems" assms lasting_facts in simp_all)
    qed (use "4.prems" in simp_all)
  qed (use 4 assms lastingD [of R F K m "{}" H] in \<open>simp_all add: add.commute [of H]\<close>)
next
  case (5 turn left x m)
  then show ?case using assms lastingD [of R F K m "{}" H] by (simp add: add.commute [of H])
next
  case (6 turn left x q k)
  show ?case unfolding both.simps
  proof (rule follows_step_right)
    fix a
    show "follows D (F \<union> learns D q a) (H + (K - uses D q + grants D q a)) (both turn left (Return x) (k a)) (joined Q Q') R"
      by (rule "6.IH" [OF "6.prems"(1)]) (use "6.prems" assms lasting_facts in simp_all)
  qed (use "6.prems" in simp_all)
next
  case (7 turn left q k y)
  show ?case unfolding both.simps
  proof (rule follows_step)
    fix a
    show "follows D (F \<union> learns D q a) (H - uses D q + grants D q a + K) (both turn left (k a) (Return y)) (joined Q Q') R"
      by (rule "7.IH" [OF "7.prems"(1)]) (use "7.prems" assms lasting_facts in simp_all)
  qed (use "7.prems" in simp_all)
next
  case (8 turn left q k q' k')
  show ?case unfolding both.simps
  proof (rule follows_idle_turn)
    fix t assume t: "left t"
    show "follows D F (H + K) (Ask q (\<lambda>a. both turn left (k a) (Ask q' k'))) (joined Q Q') R"
    proof (rule follows_step)
      fix a
      show "follows D (F \<union> learns D q a) (H - uses D q + grants D q a + K) (both turn left (k a) (Ask q' k')) (joined Q Q') R"
      proof (rule "8.IH"(1) [OF t "8.prems"(1)])
        show "follows D (F \<union> learns D q a) (H - uses D q + grants D q a) (k a) Q R"
          using "8.prems"(2) by simp
      qed (rule follows_learnt [OF "8.prems"(3) assms(2,3)])
    qed (use "8.prems" in auto)
  next
    fix t assume t: "\<not> left t"
    show "follows D F (H + K) (Ask q' (\<lambda>a. both turn left (Ask q k) (k' a))) (joined Q Q') R"
    proof (rule follows_step_right)
      fix a
      show "follows D (F \<union> learns D q' a) (H + (K - uses D q' + grants D q' a)) (both turn left (Ask q k) (k' a)) (joined Q Q') R"
      proof (rule "8.IH"(2) [OF t "8.prems"(1) follows_learnt [OF "8.prems"(2) assms(1,3)]])
        show "follows D (F \<union> learns D q' a) (K - uses D q' + grants D q' a) (k' a) Q' R"
          using "8.prems"(3) by simp
      qed
    qed (use "8.prems" in auto)
  qed (use "8.prems" in simp_all)
qed (use assms lastingD [of R _ _ _ "{}"] in auto)

definition each :: "('s \<Rightarrow> 'f set \<Rightarrow> 'r \<Rightarrow> bool) \<Rightarrow> 's list \<Rightarrow> 'f set \<Rightarrow> 'k multiset \<Rightarrow> 'r list \<Rightarrow> bool" where
  "each Q ss F H xs = list_all2 (\<lambda>s x. Q s F x) ss xs"

lemma follows_all:
  assumes turn: "idle D turn" and R: "lasting R"
    and Q: "\<And>s F G x. Q s F x \<Longrightarrow> Q s (F \<union> G) x"
    and one: "\<And>s. s \<in> set ss \<Longrightarrow> follows D F {#} (f s) (\<lambda>F H x. Q s F x) R"
  shows "follows D F {#} (all_of turn left (map f ss)) (each Q ss) R"
  using one
proof (induction ss)
  case (Cons s ss)
  have last: "lasting (\<lambda>F H x. Q s F x)" "lasting (each Q ss)"
    using Q by (auto simp: lasting_def each_def elim!: list_all2_mono)
  have "follows D F ({#} + {#}) (both turn left (f s) (all_of turn left (map f ss)))
      (joined (\<lambda>F H x. Q s F x) (each Q ss)) R"
    by (rule follows_both [OF last R turn]) (use Cons in auto)
  then show ?case
    by (auto simp: mapP_def follows_bind joined_def each_def elim!: follows_weaken)
qed (simp add: each_def)

section \<open>Programs that keep to the discipline\<close>

definition keeps :: "('q, 'a, 'f, 'k) discipline \<Rightarrow> 'f set \<Rightarrow> ('q, 'a, 'r) prog \<Rightarrow> bool" where
  \<comment> \<open>from the facts \<open>F\<close>, and with no token in hand\<close>
  "keeps D F p \<longleftrightarrow> follows D F {#} p anything anything"

named_theorems keeps_intro

lemma keeps_follows: "keeps D F p \<Longrightarrow> F \<subseteq> G \<Longrightarrow> follows D G H p anything anything"
  using follows_more [of D F "{#}" p anything anything G H] by (simp add: keeps_def Un_absorb1)

lemma keeps_Return [keeps_intro]: "keeps D F (Return x)"
  by (simp add: keeps_def)

lemma keeps_Fail [keeps_intro]: "keeps D F (Fail m)"
  by (simp add: keeps_def)

lemma keeps_Ask:
  assumes "needs D q \<subseteq> F" "uses D q = {#}" "\<And>a. keeps D F (k a)"
  shows "keeps D F (Ask q k)"
  using assms keeps_follows [OF assms(3)] by (auto simp: keeps_def)

lemma keeps_after:
  assumes "follows D F H p Q R" "\<And>G K x. F \<subseteq> G \<Longrightarrow> Q G K x \<Longrightarrow> keeps D G (f x)"
  shows "follows D F H (bindP p f) anything anything"
  unfolding follows_bind
  by (rule follows_weaken [OF assms(1)]) (use keeps_follows [OF assms(2)] in auto)

lemma keeps_bind [keeps_intro]:
  assumes "keeps D F p" "\<And>x. keeps D F (f x)"
  shows "keeps D F (bindP p f)"
  unfolding keeps_def follows_bind
  by (rule follows_weaken [OF assms(1) [unfolded keeps_def]]) (use keeps_follows [OF assms(2)] in auto)

lemma keeps_catch [keeps_intro]:
  assumes "keeps D F p" "\<And>m. keeps D F (h m)"
  shows "keeps D F (catchP p h)"
  unfolding keeps_def follows_catch
  by (rule follows_weaken [OF assms(1) [unfolded keeps_def]]) (use keeps_follows [OF assms(2)] in auto)

lemma keeps_map [keeps_intro]: "keeps D F p \<Longrightarrow> keeps D F (mapP g p)"
  unfolding mapP_def by (intro keeps_intro)

lemma keeps_if [keeps_intro]: "(b \<Longrightarrow> keeps D F p) \<Longrightarrow> (\<not> b \<Longrightarrow> keeps D F q) \<Longrightarrow> keeps D F (if b then p else q)"
  by simp

section \<open>Traces\<close>

inductive trace :: "('q, 'a, 'r) prog \<Rightarrow> ('q \<times> 'a) list \<Rightarrow> bool" where
  start: "trace p []"
| ask: "trace (k a) tr \<Longrightarrow> trace (Ask q k) ((q, a) # tr)"

inductive_cases trace_ConsE: "trace p ((q, a) # tr)"

definition learnt :: "('q, 'a, 'f, 'k) discipline \<Rightarrow> ('q \<times> 'a) list \<Rightarrow> 'f set" where
  "learnt D tr = (\<Union>(q, a) \<in> set tr. learns D q a)"

lemma trace_needs:
  "follows D F H p Q R \<Longrightarrow> trace p (tr @ [(q, a)]) \<Longrightarrow> needs D q \<subseteq> F \<union> learnt D tr"
proof (induction tr arbitrary: F H p)
  case Nil
  then show ?case by (auto elim!: trace_ConsE)
next
  case (Cons qa tr)
  obtain q1 a1 where qa: "qa = (q1, a1)" by (cases qa)
  with Cons.prems(2) obtain k where p: "p = Ask q1 k" "trace (k a1) (tr @ [(q, a)])"
    by (auto elim: trace_ConsE)
  with Cons.prems(1) have "follows D (F \<union> learns D q1 a1) (H - uses D q1 + grants D q1 a1) (k a1) Q R" by simp
  from Cons.IH [OF this p(2)] show ?case by (auto simp: learnt_def qa)
qed

section \<open>Pools\<close>

inductive pool_moves :: "('w \<Rightarrow> 'q \<Rightarrow> 'a \<Rightarrow> 'w \<Rightarrow> bool) \<Rightarrow> ('w \<Rightarrow> 'w \<Rightarrow> bool) \<Rightarrow> (('q, 'a, 'r) prog \<Rightarrow> bool) \<Rightarrow>
    'w \<times> ('q, 'a, 'r) prog list \<Rightarrow> 'w \<times> ('q, 'a, 'r) prog list \<Rightarrow> bool"
  for answer :: "'w \<Rightarrow> 'q \<Rightarrow> 'a \<Rightarrow> 'w \<Rightarrow> bool" and others :: "'w \<Rightarrow> 'w \<Rightarrow> bool" and main where
  stay: "pool_moves answer others main c c"
| launch: "pool_moves answer others main c (w, ps) \<Longrightarrow> main p \<Longrightarrow> pool_moves answer others main c (w, p # ps)"
| progress: "pool_moves answer others main c (w, ps) \<Longrightarrow> i < length ps \<Longrightarrow> ps ! i = Ask q k \<Longrightarrow> answer w q a w' \<Longrightarrow>
    pool_moves answer others main c (w', ps[i := k a])"
| outside: "pool_moves answer others main c (w, ps) \<Longrightarrow> others w w' \<Longrightarrow> pool_moves answer others main c (w', ps)"

locale stock =
  fixes answer :: "'w \<Rightarrow> 'q \<Rightarrow> 'a \<Rightarrow> 'w \<Rightarrow> bool"
    and others :: "'w \<Rightarrow> 'w \<Rightarrow> bool"
    and D :: "('q, 'a, 'f, 'k) discipline"
    and sound :: "'w \<Rightarrow> bool"
    and issued :: "'w \<Rightarrow> 'k multiset"
    and spent :: "'w \<Rightarrow> 'k multiset"
  assumes answer_sound: "sound w \<Longrightarrow> answer w q a w' \<Longrightarrow> sound w'"
    and others_sound: "sound w \<Longrightarrow> others w w' \<Longrightarrow> sound w'"
    and answer_issues: "sound w \<Longrightarrow> answer w q a w' \<Longrightarrow> issued w + grants D q a \<subseteq># issued w'"
    and answer_spends: "sound w \<Longrightarrow> answer w q a w' \<Longrightarrow> spent w' \<subseteq># spent w + uses D q"
    and others_issue: "sound w \<Longrightarrow> others w w' \<Longrightarrow> issued w \<subseteq># issued w'"
    and others_spend: "others w w' \<Longrightarrow> spent w' = spent w"
begin

definition balanced :: "'w \<times> ('q, 'a, 'r) prog list \<Rightarrow> bool" where
  \<comment> \<open>what the programs of the pool hold and what was spent has been issued\<close>
  "balanced c \<longleftrightarrow> sound (fst c) \<and> (\<exists>Hs. list_all2 (\<lambda>H p. \<exists>F. follows D F H p anything anything) Hs (snd c) \<and>
    sum_list Hs + spent (fst c) \<subseteq># issued (fst c))"

lemma balanced_progress:
  assumes "balanced (w, ps)" "i < length ps" "ps ! i = Ask q k" "answer w q a w'"
  shows "balanced (w', ps[i := k a])"
proof -
  from assms(1) obtain Hs where sound: "sound w"
    and all: "list_all2 (\<lambda>H p. \<exists>F. follows D F H p anything anything) Hs ps"
    and sum: "sum_list Hs + spent w \<subseteq># issued w" by (auto simp: balanced_def)
  from all have len: "length Hs = length ps" by (rule list_all2_lengthD)
  define H where "H = Hs ! i"
  from list_all2_nthD2 [OF all assms(2)] assms(3) obtain F where F: "follows D F H (Ask q k) anything anything"
    by (auto simp: H_def)
  then have used: "uses D q \<subseteq># H" by simp
  define H' where "H' = H - uses D q + grants D q a"
  have "list_all2 (\<lambda>H p. \<exists>F. follows D F H p anything anything) (Hs[i := H']) (ps[i := k a])"
    by (rule list_all2_update_cong [OF all]) (use F in \<open>auto simp: H'_def\<close>)
  moreover have "sum_list (Hs[i := H']) + spent w' \<subseteq># issued w'"
  proof -
    obtain R where R: "sum_list Hs = H + R" "sum_list (Hs[i := H']) = H' + R"
    proof
      show "sum_list Hs = H + (sum_list (take i Hs) + sum_list (drop (Suc i) Hs))"
        using id_take_nth_drop [of i Hs] assms(2) len
        by (metis H_def add.left_commute sum_list.append sum_list.Cons)
      show "sum_list (Hs[i := H']) = H' + (sum_list (take i Hs) + sum_list (drop (Suc i) Hs))"
        using upd_conv_take_nth_drop [of i Hs H'] assms(2) len
        by (metis add.left_commute sum_list.append sum_list.Cons)
    qed
    have "H' + R + spent w' \<subseteq># H' + R + (spent w + uses D q)"
      using answer_spends [OF sound assms(4)] by simp
    also have "H' + R + (spent w + uses D q) = H + R + spent w + grants D q a"
    proof (rule multiset_eqI)
      fix x
      show "count (H' + R + (spent w + uses D q)) x = count (H + R + spent w + grants D q a) x"
        using mset_subset_eq_count [OF used, of x] by (simp add: H'_def)
    qed
    also have "\<dots> \<subseteq># issued w + grants D q a" using sum R by simp
    also have "\<dots> \<subseteq># issued w'" by (rule answer_issues [OF sound assms(4)])
    finally show ?thesis using R by simp
  qed
  ultimately show ?thesis using answer_sound [OF sound assms(4)] by (auto simp: balanced_def)
qed

lemma moves_balanced:
  assumes "pool_moves answer others main c c'" "balanced c"
    and "\<And>p. main p \<Longrightarrow> follows D {} {#} p anything anything"
  shows "balanced c'"
  using assms(1,2)
proof (induction rule: pool_moves.induct)
  case (launch c w ps p)
  then obtain Hs where "sound w" "list_all2 (\<lambda>H p. \<exists>F. follows D F H p anything anything) Hs ps"
    "sum_list Hs + spent w \<subseteq># issued w" by (auto simp: balanced_def)
  with assms(3) [OF launch(2)] show ?case
    by (auto simp: balanced_def intro!: exI [of _ "{#} # Hs"])
next
  case (progress c w ps i q k a w')
  then show ?case using balanced_progress by blast
next
  case (outside c w ps w')
  then obtain Hs where sound: "sound w" and "list_all2 (\<lambda>H p. \<exists>F. follows D F H p anything anything) Hs ps"
    and "sum_list Hs + spent w \<subseteq># issued w" by (auto simp: balanced_def)
  moreover from this(3) others_issue [OF sound outside(2)] have "sum_list Hs + spent w' \<subseteq># issued w'"
    unfolding others_spend [OF outside(2)] by (rule subset_mset.order_trans)
  ultimately show ?case using others_sound [OF sound outside(2)] by (auto simp: balanced_def)
qed

lemma balanced_empty: "sound w \<Longrightarrow> spent w \<subseteq># issued w \<Longrightarrow> balanced (w, [])"
  by (simp add: balanced_def)

lemma moves_within_stock:
  assumes "pool_moves answer others main (w, []) (w', ps)" "sound w" "spent w \<subseteq># issued w"
    and "\<And>p. main p \<Longrightarrow> follows D {} {#} p anything anything"
  shows "spent w' \<subseteq># issued w'"
proof -
  from moves_balanced [OF assms(1) balanced_empty [OF assms(2,3)] assms(4)]
  obtain Hs where "sum_list Hs + spent w' \<subseteq># issued w'" by (auto simp: balanced_def)
  with mset_subset_eq_add_right show ?thesis by (rule subset_mset.order_trans)
qed

end

end
