(* ===== verification/RunStore.thy ===== *)
theory RunStore
  imports Prelude
begin

text \<open>
  The D1 tables \<open>runs\<close>, \<open>workflows\<close>, \<open>workflow_versions\<close> and \<open>child_cancellations\<close>
  of \<open>apps/workflow-mcp-worker\<close> and the statements that the Worker executes on them
  (\<open>src/child-capacity.ts\<close>, \<open>src/child-cancel.ts\<close>, \<open>src/store.ts\<close>,
  \<open>src/runner.ts\<close>). One statement, or one batch, is atomic; the handlers of different
  requests interleave between them. An UPDATE is a guard on a row and a change of it.
\<close>

section \<open>Tables\<close>

datatype start_state =
  Reserved | Creating | Dispatching | StartUnknown | Started | CancelledBeforeStart | StateCancelled

datatype outcome = Queued | Running | Succeeded | Failed | Cancelled | Indeterminate

record run_row =
  r_id :: string
  r_workflow_id :: string
  r_version_id :: string
  r_instance_id :: string
  r_admission_key :: "string option"
  r_request_digest :: string
  r_inputs :: string
  r_start_state :: start_state
  r_outcome :: outcome
  r_error_code :: "string option"
  r_created_at :: int
  r_updated_at :: int
  r_complete_seen_at :: "int option"
  r_capacity_weight :: nat
  r_parent_run_id :: "string option"
  r_parent_step_id :: "string option"

record workflow_row =
  w_id :: string
  w_active :: bool
  w_deleted :: bool
  w_active_version_id :: "string option"

text \<open>The plan of a version enters by the ids of its awaited child steps only (None if the
  stored plan does not parse to one with steps).\<close>

record version_row =
  v_id :: string
  v_workflow_id :: string
  v_awaited_steps :: "string list option"

record cancellation_row =
  cc_parent_run_id :: string
  cc_parent_step_id :: string
  cc_child_run_id :: string
  cc_requested_at :: int
  cc_termination_attempted_at :: "int option"

record run_db =
  db_runs :: "run_row list"
  db_workflows :: "workflow_row list"
  db_versions :: "version_row list"
  db_cancellations :: "cancellation_row list"

section \<open>Queries\<close>

definition active :: "outcome \<Rightarrow> bool" where
  "active oc \<longleftrightarrow> oc = Queued \<or> oc = Running"

definition RUN_CAPACITY_LIMIT :: nat where "RUN_CAPACITY_LIMIT = 8"

definition unit_of :: "run_row \<Rightarrow> nat" where
  "unit_of r = (if active (r_outcome r) then r_capacity_weight r else 0)"

definition active_units :: "run_row list \<Rightarrow> nat" where
  \<comment> \<open>the sum of the weights of the queued and running rows\<close>
  "active_units rows = sum_list (map unit_of rows)"

definition capacityAdmissionPredicate :: "nat \<Rightarrow> run_db \<Rightarrow> bool" where
  "capacityAdmissionPredicate weight db \<longleftrightarrow> active_units (db_runs db) \<le> RUN_CAPACITY_LIMIT - weight"

definition find_run :: "run_db \<Rightarrow> string \<Rightarrow> run_row option" where
  "find_run db i = List.find (\<lambda>r. r_id r = i) (db_runs db)"

definition find_child :: "run_db \<Rightarrow> string \<Rightarrow> string \<Rightarrow> run_row option" where
  "find_child db parent step =
     List.find (\<lambda>r. r_parent_run_id r = Some parent \<and> r_parent_step_id r = Some step) (db_runs db)"

definition cancellation_pending :: "run_db \<Rightarrow> string \<Rightarrow> bool" where
  "cancellation_pending db child \<longleftrightarrow> list_ex (\<lambda>c. cc_child_run_id c = child) (db_cancellations db)"

definition run_is_running :: "run_db \<Rightarrow> string \<Rightarrow> bool" where
  "run_is_running db i \<longleftrightarrow> list_ex (\<lambda>p. r_id p = i \<and> r_outcome p = Running) (db_runs db)"

section \<open>Inserting and updating\<close>

definition run_conflict :: "run_row \<Rightarrow> run_row \<Rightarrow> bool" where
  \<comment> \<open>the primary key and the unique indexes of \<open>runs\<close>\<close>
  "run_conflict new r \<longleftrightarrow>
     r_id r = r_id new \<or> r_instance_id r = r_instance_id new \<or>
     (r_workflow_id r = r_workflow_id new \<and> r_admission_key r = r_admission_key new \<and> r_admission_key new \<noteq> None) \<or>
     (r_parent_run_id r = r_parent_run_id new \<and> r_parent_step_id r = r_parent_step_id new \<and>
      r_parent_run_id new \<noteq> None \<and> r_parent_step_id new \<noteq> None)"

definition capacity_guard :: "run_db \<Rightarrow> run_row \<Rightarrow> bool" where
  \<comment> \<open>the trigger \<open>runs_top_level_capacity_guard\<close> lets the insert happen\<close>
  "capacity_guard db new \<longleftrightarrow>
     \<not> (r_parent_run_id new = None \<and> active (r_outcome new) \<and>
        active_units (db_runs db) + r_capacity_weight new > RUN_CAPACITY_LIMIT)"

definition insert_or_ignore :: "run_row \<Rightarrow> run_db \<Rightarrow> nat \<times> run_db" where
  "insert_or_ignore new db =
    (if list_ex (run_conflict new) (db_runs db) \<or> \<not> capacity_guard db new then (0, db)
     else (1, db\<lparr>db_runs := db_runs db @ [new]\<rparr>))"

definition update_runs :: "(run_row \<Rightarrow> bool) \<Rightarrow> (run_row \<Rightarrow> run_row) \<Rightarrow> run_db \<Rightarrow> nat \<times> run_db" where
  "update_runs guard change db =
    (length (filter guard (db_runs db)),
     db\<lparr>db_runs := map (\<lambda>r. if guard r then change r else r) (db_runs db)\<rparr>)"

section \<open>Statements\<close>

record child_reservation =
  cr_parentRunId :: string
  cr_parentStepId :: string
  cr_childRunId :: string
  cr_childWorkflowId :: string
  cr_childVersionId :: string
  cr_admissionKey :: string
  cr_requestDigest :: string
  cr_inputJson :: string
  cr_timestamp :: int

definition child_row :: "child_reservation \<Rightarrow> run_row" where
  \<comment> \<open>the row that both child INSERTs select\<close>
  "child_row a = \<lparr>r_id = cr_childRunId a, r_workflow_id = cr_childWorkflowId a,
     r_version_id = cr_childVersionId a, r_instance_id = cr_childRunId a,
     r_admission_key = Some (cr_admissionKey a), r_request_digest = cr_requestDigest a,
     r_inputs = cr_inputJson a, r_start_state = Reserved, r_outcome = Queued, r_error_code = None,
     r_created_at = cr_timestamp a, r_updated_at = cr_timestamp a, r_complete_seen_at = None,
     r_capacity_weight = 1, r_parent_run_id = Some (cr_parentRunId a),
     r_parent_step_id = Some (cr_parentStepId a)\<rparr>"

definition child_admissible :: "run_db \<Rightarrow> child_reservation \<Rightarrow> nat \<Rightarrow> bool" where
  \<comment> \<open>the joins and conditions of the child INSERTs, with the weight the parent must have\<close>
  "child_admissible db a weight \<longleftrightarrow>
     list_ex (\<lambda>p. r_id p = cr_parentRunId a \<and> r_outcome p = Running \<and> r_capacity_weight p = weight \<and>
        r_parent_run_id p = None \<and> r_workflow_id p \<noteq> cr_childWorkflowId a) (db_runs db) \<and>
     list_ex (\<lambda>c. w_id c = cr_childWorkflowId a \<and> w_active c \<and>
        w_active_version_id c = Some (cr_childVersionId a)) (db_workflows db) \<and>
     list_ex (\<lambda>v. v_id v = cr_childVersionId a \<and> v_workflow_id v = cr_childWorkflowId a) (db_versions db)"

definition same_child :: "child_reservation \<Rightarrow> run_row \<Rightarrow> bool" where
  \<comment> \<open>the EXISTS condition of the weight transfer\<close>
  "same_child a c \<longleftrightarrow> r_id c = cr_childRunId a \<and> r_parent_run_id c = Some (cr_parentRunId a) \<and>
     r_parent_step_id c = Some (cr_parentStepId a) \<and> r_version_id c = cr_childVersionId a \<and>
     r_workflow_id c = cr_childWorkflowId a \<and> r_request_digest c = cr_requestDigest a \<and>
     r_inputs c = cr_inputJson a"

text \<open>
  The UPDATE statements; the last argument is the time of the update. \<open>RunnerFinish\<close> carries
  whether a step was uncertain or failed; \<open>CancelStep\<close>, the cancellation of a step that waits, of an
  approval or of a Cloudflare action, carries whether it also ends a queued run (the Cloudflare action
  does) and whether its further conditions on the tables of steps, attempts and invocations hold, which
  are not modelled.
\<close>

datatype run_update =
    ReleaseParentUnit child_reservation
  | ExpireDetached string string string int
  | MarkStartedDetached string string string int
  | AbandonDetached string int
  | ClaimDispatch string string string int
  | CreateFailed string int
  | MarkStartedAwaited string string string int
  | ClaimCreating string string string int
  | ExpireCreating string int
  | ExpireStartUnknown string int
  | DispatchAwaited string string string int
  | AbandonCreating string int
  | CancelBeforeStart string string string int
  | ConfirmTerminated string int
  | MarkStartedTop string int
  | StartUnknownTop string int
  | ExpireTopStart string int int
  | SettleTerminal string string int
  | MarkCompleteSeen string int
  | ExpireUnconfirmed string int int
  | ClearCompleteSeen string
  | RunnerBegin string int
  | RunnerRefuse string int
  | RunnerFinish string bool bool "string option" int
  | RunnerInterrupted string int
  | CancelStep string string bool bool int

definition is_child :: "string \<Rightarrow> string \<Rightarrow> string \<Rightarrow> run_row \<Rightarrow> bool" where
  "is_child child parent step r \<longleftrightarrow>
     r_id r = child \<and> r_parent_run_id r = Some parent \<and> r_parent_step_id r = Some step"

fun update_guard :: "run_update \<Rightarrow> run_db \<Rightarrow> run_row \<Rightarrow> bool" where
  "update_guard (ReleaseParentUnit a) db r \<longleftrightarrow>
     r_id r = cr_parentRunId a \<and> r_outcome r = Running \<and> r_capacity_weight r = 2 \<and>
     list_ex (same_child a) (db_runs db)"
| "update_guard (ExpireDetached c p s t) db r \<longleftrightarrow>
     is_child c p s r \<and> r_start_state r \<in> {Dispatching, StartUnknown} \<and> r_outcome r = Queued"
| "update_guard (MarkStartedDetached c p s t) db r \<longleftrightarrow>
     is_child c p s r \<and> r_start_state r \<in> {Dispatching, StartUnknown} \<and>
     r_outcome r \<in> {Queued, Running, Succeeded, Failed}"
| "update_guard (AbandonDetached c t) db r \<longleftrightarrow>
     r_id r = c \<and> r_start_state r = Reserved \<and> r_outcome r = Queued"
| "update_guard (ClaimDispatch c p s t) db r \<longleftrightarrow>
     is_child c p s r \<and> r_start_state r = Reserved \<and> r_outcome r = Queued \<and> run_is_running db p"
| "update_guard (CreateFailed c t) db r \<longleftrightarrow>
     r_id r = c \<and> r_start_state r = Dispatching \<and> active (r_outcome r)"
| "update_guard (MarkStartedAwaited c p s t) db r \<longleftrightarrow>
     is_child c p s r \<and> r_start_state r \<in> {Creating, Dispatching, StartUnknown} \<and> active (r_outcome r)"
| "update_guard (ClaimCreating c p s t) db r \<longleftrightarrow>
     is_child c p s r \<and> r_start_state r = Reserved \<and> r_outcome r = Queued \<and> run_is_running db p"
| "update_guard (ExpireCreating c t) db r \<longleftrightarrow>
     r_id r = c \<and> r_start_state r \<in> {Creating, Dispatching} \<and> r_outcome r = Queued"
| "update_guard (ExpireStartUnknown c t) db r \<longleftrightarrow>
     r_id r = c \<and> r_start_state r = StartUnknown \<and> r_outcome r = Queued"
| "update_guard (DispatchAwaited c p s t) db r \<longleftrightarrow>
     is_child c p s r \<and> r_start_state r \<in> {Creating, StartUnknown} \<and> r_outcome r = Queued \<and>
     \<not> cancellation_pending db c \<and> run_is_running db p"
| "update_guard (AbandonCreating c t) db r \<longleftrightarrow>
     r_id r = c \<and> r_start_state r = Creating \<and> r_outcome r = Queued \<and> cancellation_pending db c"
| "update_guard (CancelBeforeStart c p s t) db r \<longleftrightarrow>
     is_child c p s r \<and> r_start_state r \<in> {Reserved, Creating} \<and> r_outcome r = Queued"
| "update_guard (ConfirmTerminated c t) db r \<longleftrightarrow>
     r_id r = c \<and> active (r_outcome r) \<and> cancellation_pending db c"
| "update_guard (MarkStartedTop i t) db r \<longleftrightarrow>
     r_id r = i \<and> r_start_state r \<in> {Reserved, StartUnknown}"
| "update_guard (StartUnknownTop i t) db r \<longleftrightarrow> r_id r = i \<and> r_start_state r = Reserved"
| "update_guard (ExpireTopStart i t cutoff) db r \<longleftrightarrow>
     r_id r = i \<and> r_outcome r = Queued \<and> r_start_state r \<in> {Reserved, StartUnknown} \<and> r_created_at r \<le> cutoff"
| "update_guard (SettleTerminal i e t) db r \<longleftrightarrow> r_id r = i \<and> active (r_outcome r)"
| "update_guard (MarkCompleteSeen i t) db r \<longleftrightarrow>
     r_id r = i \<and> r_complete_seen_at r = None \<and> active (r_outcome r)"
| "update_guard (ExpireUnconfirmed i t cutoff) db r \<longleftrightarrow>
     r_id r = i \<and> (case r_complete_seen_at r of None \<Rightarrow> False | Some x \<Rightarrow> x \<le> cutoff) \<and> active (r_outcome r)"
| "update_guard (ClearCompleteSeen i) db r \<longleftrightarrow> r_id r = i \<and> active (r_outcome r)"
| "update_guard (RunnerBegin i t) db r \<longleftrightarrow>
     r_id r = i \<and> r_outcome r = Queued \<and> \<not> cancellation_pending db i"
| "update_guard (RunnerRefuse i t) db r \<longleftrightarrow>
     r_id r = i \<and> r_outcome r = Queued \<and> r_parent_run_id r \<noteq> None \<and> cancellation_pending db i"
| "update_guard (RunnerFinish i uncertain failed e t) db r \<longleftrightarrow> r_id r = i \<and> r_outcome r = Running"
| "update_guard (RunnerInterrupted i t) db r \<longleftrightarrow> r_id r = i \<and> r_outcome r = Running"
| "update_guard (CancelStep i e queued allowed t) db r \<longleftrightarrow>
     r_id r = i \<and> (r_outcome r = Running \<or> queued \<and> r_outcome r = Queued) \<and> allowed"

fun update_change :: "run_update \<Rightarrow> run_row \<Rightarrow> run_row" where
  "update_change (ReleaseParentUnit a) r = r\<lparr>r_capacity_weight := 1, r_updated_at := cr_timestamp a\<rparr>"
| "update_change (ExpireDetached c p s t) r =
     r\<lparr>r_outcome := Indeterminate, r_error_code := Some ''detached_child_start_unconfirmed'', r_updated_at := t\<rparr>"
| "update_change (MarkStartedDetached c p s t) r = r\<lparr>r_start_state := Started, r_updated_at := t\<rparr>"
| "update_change (AbandonDetached c t) r =
     r\<lparr>r_outcome := Failed, r_error_code := Some ''detached_parent_not_active'', r_updated_at := t\<rparr>"
| "update_change (ClaimDispatch c p s t) r = r\<lparr>r_start_state := Dispatching, r_updated_at := t\<rparr>"
| "update_change (CreateFailed c t) r = r\<lparr>r_start_state := StartUnknown, r_updated_at := t\<rparr>"
| "update_change (MarkStartedAwaited c p s t) r = r\<lparr>r_start_state := Started, r_updated_at := t\<rparr>"
| "update_change (ClaimCreating c p s t) r = r\<lparr>r_start_state := Creating, r_updated_at := t\<rparr>"
| "update_change (ExpireCreating c t) r =
     r\<lparr>r_outcome := Indeterminate, r_error_code := Some ''start_unconfirmed'', r_updated_at := t\<rparr>"
| "update_change (ExpireStartUnknown c t) r =
     r\<lparr>r_outcome := Indeterminate, r_error_code := Some ''start_unconfirmed'', r_updated_at := t\<rparr>"
| "update_change (DispatchAwaited c p s t) r = r\<lparr>r_start_state := Dispatching, r_updated_at := t\<rparr>"
| "update_change (AbandonCreating c t) r =
     r\<lparr>r_outcome := Cancelled, r_start_state := CancelledBeforeStart,
       r_error_code := Some ''cancelled_before_start'', r_updated_at := t\<rparr>"
| "update_change (CancelBeforeStart c p s t) r =
     r\<lparr>r_outcome := Cancelled, r_start_state := CancelledBeforeStart,
       r_error_code := Some ''cancelled_before_start'', r_updated_at := t\<rparr>"
| "update_change (ConfirmTerminated c t) r =
     r\<lparr>r_outcome := Cancelled, r_start_state := StateCancelled, r_updated_at := t\<rparr>"
| "update_change (MarkStartedTop i t) r = r\<lparr>r_start_state := Started, r_updated_at := t\<rparr>"
| "update_change (StartUnknownTop i t) r = r\<lparr>r_start_state := StartUnknown, r_updated_at := t\<rparr>"
| "update_change (ExpireTopStart i t cutoff) r =
     r\<lparr>r_outcome := Indeterminate, r_error_code := Some ''start_unconfirmed'', r_updated_at := t\<rparr>"
| "update_change (SettleTerminal i e t) r =
     r\<lparr>r_outcome := Indeterminate, r_error_code := Some e, r_updated_at := t\<rparr>"
| "update_change (MarkCompleteSeen i t) r = r\<lparr>r_complete_seen_at := Some t\<rparr>"
| "update_change (ExpireUnconfirmed i t cutoff) r =
     r\<lparr>r_outcome := Indeterminate, r_error_code := Some ''outcome_unconfirmed'', r_updated_at := t\<rparr>"
| "update_change (ClearCompleteSeen i) r = r\<lparr>r_complete_seen_at := None\<rparr>"
| "update_change (RunnerBegin i t) r = r\<lparr>r_outcome := Running, r_updated_at := t\<rparr>"
| "update_change (RunnerRefuse i t) r =
     r\<lparr>r_outcome := Failed, r_error_code := Some ''child_cancel_requested'', r_updated_at := t\<rparr>"
| "update_change (RunnerFinish i uncertain failed e t) r =
     r\<lparr>r_outcome := if uncertain then Indeterminate else if failed then Failed else Succeeded,
       r_error_code := if uncertain then e else None, r_updated_at := t\<rparr>"
| "update_change (RunnerInterrupted i t) r =
     r\<lparr>r_outcome := Indeterminate, r_error_code := Some ''execution_interrupted'', r_updated_at := t\<rparr>"
| "update_change (CancelStep i e queued allowed t) r =
     r\<lparr>r_outcome := Cancelled, r_error_code := Some e, r_updated_at := t\<rparr>"

definition exec_update :: "run_update \<Rightarrow> run_db \<Rightarrow> nat \<times> run_db" where
  "exec_update u db = update_runs (update_guard u db) (update_change u) db"

text \<open>The INSERT statements, the batch of the capacity transfer, and the claim of the one
  native termination.\<close>

record top_run =
  tr_id :: string
  tr_workflow_id :: string
  tr_version_id :: string
  tr_admission_key :: "string option"
  tr_request_digest :: string
  tr_inputs :: string
  tr_timestamp :: int
  tr_weight :: nat

definition top_row :: "top_run \<Rightarrow> run_row" where
  "top_row a = \<lparr>r_id = tr_id a, r_workflow_id = tr_workflow_id a, r_version_id = tr_version_id a,
     r_instance_id = tr_id a, r_admission_key = tr_admission_key a,
     r_request_digest = tr_request_digest a, r_inputs = tr_inputs a, r_start_state = Reserved,
     r_outcome = Queued, r_error_code = None, r_created_at = tr_timestamp a,
     r_updated_at = tr_timestamp a, r_complete_seen_at = None, r_capacity_weight = tr_weight a,
     r_parent_run_id = None, r_parent_step_id = None\<rparr>"

definition exec_admit_top :: "top_run \<Rightarrow> run_db \<Rightarrow> nat \<times> run_db" where
  "exec_admit_top a db =
    (if list_ex (\<lambda>w. w_id w = tr_workflow_id a \<and> w_active w \<and> \<not> w_deleted w \<and>
          w_active_version_id w = Some (tr_version_id a)) (db_workflows db) \<and>
        capacityAdmissionPredicate (tr_weight a) db
     then insert_or_ignore (top_row a) db else (0, db))"

definition exec_transfer :: "child_reservation \<Rightarrow> run_db \<Rightarrow> nat \<times> run_db" where
  \<comment> \<open>the batch: the changes of its first statement\<close>
  "exec_transfer a db =
    (let (inserted, db1) = (if child_admissible db a 2 then insert_or_ignore (child_row a) db else (0, db))
     in (inserted, snd (exec_update (ReleaseParentUnit a) db1)))"

definition exec_insert_detached :: "child_reservation \<Rightarrow> run_db \<Rightarrow> nat \<times> run_db" where
  "exec_insert_detached a db =
    (if child_admissible db a 1 \<and> capacityAdmissionPredicate 1 db
     then insert_or_ignore (child_row a) db else (0, db))"

definition exec_insert_intent :: "string \<Rightarrow> string \<Rightarrow> string \<Rightarrow> int \<Rightarrow> run_db \<Rightarrow> nat \<times> run_db" where
  "exec_insert_intent child parent step t db =
    (if list_ex (\<lambda>r. is_child child parent step r \<and> r_start_state r \<in> {Dispatching, StartUnknown, Started} \<and>
          active (r_outcome r)) (db_runs db) \<and>
        \<not> list_ex (\<lambda>c. cc_parent_run_id c = parent \<and> cc_parent_step_id c = step \<or> cc_child_run_id c = child)
          (db_cancellations db)
     then (1, db\<lparr>db_cancellations := db_cancellations db @
       [\<lparr>cc_parent_run_id = parent, cc_parent_step_id = step, cc_child_run_id = child,
         cc_requested_at = t, cc_termination_attempted_at = None\<rparr>]\<rparr>)
     else (0, db))"

definition exec_claim_terminate :: "string \<Rightarrow> int \<Rightarrow> run_db \<Rightarrow> nat \<times> run_db" where
  "exec_claim_terminate child t db =
    (let open_claim = (\<lambda>c. cc_child_run_id c = child \<and> cc_termination_attempted_at c = None) in
     (length (filter open_claim (db_cancellations db)),
      db\<lparr>db_cancellations := map (\<lambda>c. if open_claim c then c\<lparr>cc_termination_attempted_at := Some t\<rparr> else c)
        (db_cancellations db)\<rparr>))"

datatype run_stmt =
    Update run_update
  | AdmitTop top_run
  | Transfer child_reservation
  | InsertDetached child_reservation
  | InsertIntent string string string int
  | ClaimTerminate string int

fun exec :: "run_stmt \<Rightarrow> run_db \<Rightarrow> nat \<times> run_db" where
  "exec (Update u) db = exec_update u db"
| "exec (AdmitTop a) db = exec_admit_top a db"
| "exec (Transfer a) db = exec_transfer a db"
| "exec (InsertDetached a) db = exec_insert_detached a db"
| "exec (InsertIntent c p s t) db = exec_insert_intent c p s t db"
| "exec (ClaimTerminate c t) db = exec_claim_terminate c t db"

definition run_step :: "run_stmt \<Rightarrow> run_db \<Rightarrow> run_db" where
  "run_step s db = snd (exec s db)"

section \<open>Capacity\<close>

lemma active_units_map:
  assumes "\<And>r. r \<in> set rows \<Longrightarrow> g r \<Longrightarrow> unit_of (f r) \<le> unit_of r"
  shows "active_units (map (\<lambda>r. if g r then f r else r) rows) \<le> active_units rows"
  using assms
proof (induction rows)
  case Nil
  then show ?case by simp
next
  case (Cons r rows)
  have "unit_of (if g r then f r else r) \<le> unit_of r" using Cons.prems by simp
  moreover have "active_units (map (\<lambda>r. if g r then f r else r) rows) \<le> active_units rows"
    using Cons by simp
  ultimately show ?case by (simp add: active_units_def)
qed

lemma active_units_map_less:
  assumes "\<And>r. r \<in> set rows \<Longrightarrow> g r \<Longrightarrow> unit_of (f r) \<le> unit_of r"
    and "x \<in> set rows" and "g x" and "unit_of (f x) < unit_of x"
  shows "active_units (map (\<lambda>r. if g r then f r else r) rows) < active_units rows"
  using assms
proof (induction rows)
  case Nil
  then show ?case by simp
next
  case (Cons r rows)
  let ?h = "\<lambda>r. if g r then f r else r"
  have le: "unit_of (?h r) \<le> unit_of r" "active_units (map ?h rows) \<le> active_units rows"
    using Cons.prems(1) by (simp_all add: active_units_map)
  show ?case
  proof (cases "x \<in> set rows")
    case True
    then have "active_units (map ?h rows) < active_units rows"
      using Cons.IH Cons.prems by simp
    with le show ?thesis by (simp add: active_units_def)
  next
    case False
    with Cons.prems(2) have "r = x" by simp
    then have "unit_of (?h r) < unit_of r" using Cons.prems(3,4) by simp
    with le show ?thesis by (simp add: active_units_def)
  qed
qed

lemma update_unit: "update_guard u db r \<Longrightarrow> unit_of (update_change u r) \<le> unit_of r"
  by (cases u) (auto simp: unit_of_def active_def is_child_def)

lemma exec_update_units:
  "active_units (db_runs (snd (exec_update u db))) \<le> active_units (db_runs db)"
  by (simp add: exec_update_def update_runs_def active_units_map update_unit)

lemma exec_update_units_less:
  assumes "x \<in> set (db_runs db)" and "update_guard u db x" and "unit_of (update_change u x) < unit_of x"
  shows "active_units (db_runs (snd (exec_update u db))) < active_units (db_runs db)"
  using active_units_map_less [of "db_runs db" "update_guard u db" "update_change u" x, OF update_unit assms]
  by (simp add: exec_update_def update_runs_def)

lemma update_change_id [simp]: "r_id (update_change u r) = r_id r"
  by (cases u) simp_all

lemma exec_update_ids [simp]:
  "map r_id (db_runs (snd (exec_update u db))) = map r_id (db_runs db)"
  by (simp add: exec_update_def update_runs_def comp_def)

lemma active_units_snoc: "active_units (rows @ [r]) = active_units rows + unit_of r"
  by (simp add: active_units_def)

lemma insert_or_ignore_cases:
  "insert_or_ignore new db = (0, db) \<or>
   insert_or_ignore new db = (1, db\<lparr>db_runs := db_runs db @ [new]\<rparr>) \<and>
     r_id new \<notin> set (map r_id (db_runs db)) \<and> capacity_guard db new"
  by (auto simp: insert_or_ignore_def list_ex_iff run_conflict_def)

definition runs_inv :: "run_db \<Rightarrow> bool" where
  "runs_inv db \<longleftrightarrow> active_units (db_runs db) \<le> RUN_CAPACITY_LIMIT \<and> distinct (map r_id (db_runs db))"

lemma transfer_units:
  assumes "distinct (map r_id (db_runs db))"
  shows "active_units (db_runs (snd (exec_transfer a db))) \<le> active_units (db_runs db)"
proof (cases "child_admissible db a 2 \<and> fst (insert_or_ignore (child_row a) db) = 1")
  case True
  then have db1: "insert_or_ignore (child_row a) db = (1, db\<lparr>db_runs := db_runs db @ [child_row a]\<rparr>)"
    using insert_or_ignore_cases [of "child_row a" db] by auto
  let ?db1 = "db\<lparr>db_runs := db_runs db @ [child_row a]\<rparr>"
  let ?u = "ReleaseParentUnit a"
  from True obtain p where p: "p \<in> set (db_runs db)" "r_id p = cr_parentRunId a" "r_outcome p = Running"
    "r_capacity_weight p = 2"
    by (auto simp: child_admissible_def list_ex_iff)
  have "same_child a (child_row a)" by (simp add: same_child_def child_row_def)
  then have g: "update_guard ?u ?db1 p" using p by (simp add: list_ex_iff)
  have less: "unit_of (update_change ?u p) < unit_of p" using p by (simp add: unit_of_def active_def)
  have "active_units (db_runs (snd (exec_update ?u ?db1))) < active_units (db_runs ?db1)"
    by (rule exec_update_units_less [of p]) (use p(1) g less in simp_all)
  also have "\<dots> = active_units (db_runs db) + 1"
    by (simp add: active_units_snoc unit_of_def child_row_def active_def)
  finally show ?thesis using True db1 by (simp add: exec_transfer_def Let_def)
next
  case False
  then have "(if child_admissible db a 2 then insert_or_ignore (child_row a) db else (0, db)) = (0, db)"
    using insert_or_ignore_cases [of "child_row a" db] by auto
  then show ?thesis by (simp add: exec_transfer_def exec_update_units)
qed

lemma transfer_ids:
  "distinct (map r_id (db_runs db)) \<Longrightarrow> distinct (map r_id (db_runs (snd (exec_transfer a db))))"
  using insert_or_ignore_cases [of "child_row a" db]
  by (auto simp: exec_transfer_def Let_def split: prod.splits)

lemma run_step_inv: "runs_inv db \<Longrightarrow> runs_inv (run_step s db)"
proof (cases s)
  case (Update u)
  then show "runs_inv db \<Longrightarrow> ?thesis"
    using exec_update_units [of u db] by (simp add: runs_inv_def run_step_def)
next
  case (AdmitTop a)
  then show "runs_inv db \<Longrightarrow> ?thesis"
    using insert_or_ignore_cases [of "top_row a" db]
    by (auto simp: runs_inv_def run_step_def exec_admit_top_def capacity_guard_def active_units_snoc
        unit_of_def top_row_def active_def)
next
  case (Transfer a)
  then show "runs_inv db \<Longrightarrow> ?thesis"
    using transfer_units [of db a] transfer_ids [of db a] by (simp add: runs_inv_def run_step_def)
next
  case (InsertDetached a)
  then show "runs_inv db \<Longrightarrow> ?thesis"
    using insert_or_ignore_cases [of "child_row a" db]
    by (auto simp: runs_inv_def run_step_def exec_insert_detached_def capacityAdmissionPredicate_def
        RUN_CAPACITY_LIMIT_def active_units_snoc unit_of_def child_row_def active_def)
next
  case (InsertIntent c p st t)
  then show "runs_inv db \<Longrightarrow> ?thesis"
    by (auto simp: runs_inv_def run_step_def exec_insert_intent_def)
next
  case (ClaimTerminate c t)
  then show "runs_inv db \<Longrightarrow> ?thesis"
    by (auto simp: runs_inv_def run_step_def exec_claim_terminate_def Let_def)
qed

section \<open>How rows evolve\<close>

definition row_evolves :: "run_row \<Rightarrow> run_row \<Rightarrow> bool" where
  "row_evolves r r' \<longleftrightarrow>
     r_id r' = r_id r \<and> r_workflow_id r' = r_workflow_id r \<and> r_version_id r' = r_version_id r \<and>
     r_instance_id r' = r_instance_id r \<and> r_admission_key r' = r_admission_key r \<and>
     r_request_digest r' = r_request_digest r \<and> r_inputs r' = r_inputs r \<and>
     r_created_at r' = r_created_at r \<and> r_parent_run_id r' = r_parent_run_id r \<and>
     r_parent_step_id r' = r_parent_step_id r \<and> r_capacity_weight r' \<le> r_capacity_weight r \<and>
     (\<not> active (r_outcome r) \<longrightarrow> r_outcome r' = r_outcome r) \<and>
     (r_start_state r \<noteq> Reserved \<longrightarrow> r_start_state r' \<noteq> Reserved)"

lemma row_evolves_refl: "row_evolves r r"
  by (simp add: row_evolves_def)

lemma row_evolves_trans: "row_evolves r s \<Longrightarrow> row_evolves s t \<Longrightarrow> row_evolves r t"
  by (auto simp: row_evolves_def)

lemma update_evolves: "update_guard u db r \<Longrightarrow> row_evolves r (update_change u r)"
  by (cases u) (auto simp: row_evolves_def active_def is_child_def)

definition runs_evolve :: "run_db \<Rightarrow> run_db \<Rightarrow> bool" where
  "runs_evolve db db' \<longleftrightarrow> (\<forall>r \<in> set (db_runs db). \<exists>r' \<in> set (db_runs db'). row_evolves r r')"

lemma exec_update_evolves: "runs_evolve db (snd (exec_update u db))"
  by (auto simp: runs_evolve_def exec_update_def update_runs_def intro: update_evolves row_evolves_refl)

lemma insert_evolves: "runs_evolve db (snd (insert_or_ignore new db))"
  using insert_or_ignore_cases [of new db]
  unfolding runs_evolve_def by (elim disjE conjE) (auto intro: row_evolves_refl)

lemma runs_evolve_trans: "runs_evolve a b \<Longrightarrow> runs_evolve b c \<Longrightarrow> runs_evolve a c"
  unfolding runs_evolve_def by (meson row_evolves_trans)

lemma runs_evolve_same: "db_runs db' = db_runs db \<Longrightarrow> runs_evolve db db'"
  unfolding runs_evolve_def using row_evolves_refl by auto

lemma run_step_evolves: "runs_evolve db (run_step s db)"
proof (cases s)
  case (Update u)
  then show ?thesis by (simp add: run_step_def exec_update_evolves)
next
  case (AdmitTop a)
  then show ?thesis
    by (simp add: run_step_def exec_admit_top_def insert_evolves runs_evolve_same)
next
  case (Transfer a)
  have "runs_evolve db (snd (if child_admissible db a 2 then insert_or_ignore (child_row a) db else (0, db)))"
    by (simp add: insert_evolves runs_evolve_same)
  with Transfer show ?thesis
    by (auto simp: run_step_def exec_transfer_def Let_def split: prod.splits
        intro: runs_evolve_trans exec_update_evolves)
next
  case (InsertDetached a)
  then show ?thesis by (simp add: run_step_def exec_insert_detached_def insert_evolves runs_evolve_same)
next
  case (InsertIntent c p st t)
  then show ?thesis by (simp add: run_step_def exec_insert_intent_def runs_evolve_same)
next
  case (ClaimTerminate c t)
  then show ?thesis by (simp add: run_step_def exec_claim_terminate_def Let_def runs_evolve_same)
qed

interpretation runs: evolving_machine run_step runs_inv runs_evolve
  by unfold_locales (auto intro: run_step_inv run_step_evolves runs_evolve_same runs_evolve_trans)

text \<open>C5: whatever requests do and however their statements interleave, the queued and
  running runs never hold more than eight capacity units, although the transfer to an
  awaited child is exempt from the admission test: it takes the unit from the parent.
\<close>

theorem runs_capacity:
  assumes "runs_inv db"
  shows "active_units (db_runs (fold run_step stmts db)) \<le> RUN_CAPACITY_LIMIT \<and>
    distinct (map r_id (db_runs (fold run_step stmts db)))"
  using runs.run_inv [OF assms] by (simp add: runs_inv_def)

lemma runs_capacity_witness:
  "\<exists>db stmts. map r_capacity_weight (db_runs (fold run_step stmts db)) = [1, 1] \<and>
     active_units (db_runs (fold run_step stmts db)) \<le> RUN_CAPACITY_LIMIT"
proof -
  let ?db = "\<lparr>db_runs = [],
    db_workflows = [\<lparr>w_id = ''w'', w_active = True, w_deleted = False, w_active_version_id = Some ''v''\<rparr>,
      \<lparr>w_id = ''c'', w_active = True, w_deleted = False, w_active_version_id = Some ''cv''\<rparr>],
    db_versions = [\<lparr>v_id = ''v'', v_workflow_id = ''w'', v_awaited_steps = Some [''s'']\<rparr>,
      \<lparr>v_id = ''cv'', v_workflow_id = ''c'', v_awaited_steps = Some []\<rparr>],
    db_cancellations = []\<rparr>"
  let ?stmts = "[AdmitTop \<lparr>tr_id = ''r'', tr_workflow_id = ''w'', tr_version_id = ''v'', tr_admission_key = None,
      tr_request_digest = ''d'', tr_inputs = ''{}'', tr_timestamp = 1, tr_weight = 2\<rparr>,
    Update (RunnerBegin ''r'' 2),
    Transfer \<lparr>cr_parentRunId = ''r'', cr_parentStepId = ''s'', cr_childRunId = ''k'', cr_childWorkflowId = ''c'',
      cr_childVersionId = ''cv'', cr_admissionKey = ''a'', cr_requestDigest = ''d'', cr_inputJson = ''{}'',
      cr_timestamp = 3\<rparr>]"
  have inv: "runs_inv ?db" by code_simp
  have "map r_capacity_weight (db_runs (fold run_step ?stmts ?db)) = [1, 1]" by code_simp
  moreover have "active_units (db_runs (fold run_step ?stmts ?db)) \<le> RUN_CAPACITY_LIMIT"
    by (rule runs_capacity [OF inv, THEN conjunct1])
  ultimately show ?thesis by (intro exI conjI)
qed

text \<open>C20: no sequence of statements loses a run, changes what it was admitted with, raises
  its weight, changes an outcome once it is terminal, or makes a run that left the reserved
  state reserved again.
\<close>

theorem runs_history:
  assumes "runs_inv db" and "r \<in> set (db_runs db)"
  shows "\<exists>r' \<in> set (db_runs (fold run_step stmts db)). row_evolves r r'"
  using runs.run_rel [OF assms(1)] assms(2) by (auto simp: runs_evolve_def)

lemma runs_history_witness:
  "\<exists>r r'. r_outcome r = Succeeded \<and> row_evolves r r' \<and> r_outcome r' = Succeeded"
proof -
  let ?r = "(top_row \<lparr>tr_id = ''r'', tr_workflow_id = ''w'', tr_version_id = ''v'', tr_admission_key = None,
      tr_request_digest = ''d'', tr_inputs = ''{}'', tr_timestamp = 1, tr_weight = 2\<rparr>)\<lparr>r_outcome := Succeeded\<rparr>"
  let ?db = "\<lparr>db_runs = [?r], db_workflows = [], db_versions = [], db_cancellations = []\<rparr>"
  have inv: "runs_inv ?db" by code_simp
  have "?r \<in> set (db_runs ?db)" by simp
  from runs_history [OF inv this, of "[Update (RunnerInterrupted ''r'' 5)]"]
  obtain r' where "row_evolves ?r r'" by blast
  moreover from this have "r_outcome r' = Succeeded" by (simp add: row_evolves_def active_def)
  ultimately show ?thesis by (intro exI conjI) simp_all
qed

end
