(* ===== verification/ChildStart.thy ===== *)
theory ChildStart
  imports Program RunStore
begin

text \<open>
  The handlers of \<open>apps/workflow-mcp-worker/src/child-capacity.ts\<close>,
  \<open>src/child-cancel.ts\<close> and \<open>src/instance-observation.ts\<close> as programs of \<open>Program\<close>: every
  statement and every call of the Cloudflare Workflows binding is one request, and any number of
  handlers run in a pool, where their requests are answered in any order, throw before or after
  their effect, and a handler that is not answered again has died.

  The world is the database together with the requests sent to the binding: the ids of native
  create and terminate requests, in order. What the binding answers is arbitrary.
\<close>

section \<open>Requests and answers\<close>

record world =
  wd_db :: run_db
  wd_creates :: "string list"
  wd_terminates :: "string list"

datatype child_request =
    Stmt run_stmt
  | ReadChild string string  \<comment> \<open>parent, step\<close>
  | ReadRow string
  | ReadStart string string string  \<comment> \<open>child, parent, step\<close>
  | ReadJoined string string string  \<comment> \<open>the child and its parent\<close>
  | ReadCancellable string string  \<comment> \<open>the child and the plan of its parent\<close>
  | ReadIntent string
  | Lookup string  \<comment> \<open>\<open>get\<close> and \<open>status\<close> of an observation\<close>
  | Status string  \<comment> \<open>\<open>get\<close> and \<open>status\<close> of a cancellation\<close>
  | Create string
  | Terminate string
  | Clock

datatype child_answer =
    Thrown string
  | Ok
  | Changes nat
  | GotRow "run_row option"
  | GotJoined "(run_row \<times> run_row) option"
  | GotCancellable "(run_row \<times> string list option) option"
  | GotIntent bool
  | GotLookup "string option + string option"
  | GotStatus string bool  \<comment> \<open>whether the instance has \<open>terminate\<close>\<close>
  | GotTime int

definition find_joined :: "run_db \<Rightarrow> string \<Rightarrow> string \<Rightarrow> string \<Rightarrow> (run_row \<times> run_row) option" where
  \<comment> \<open>the child joined with its parent\<close>
  "find_joined db child parent step =
    (case List.find (is_child child parent step) (db_runs db) of
       None \<Rightarrow> None
     | Some c \<Rightarrow> (case find_run db parent of None \<Rightarrow> None | Some p \<Rightarrow> Some (c, p)))"

definition find_cancellable :: "run_db \<Rightarrow> string \<Rightarrow> string \<Rightarrow> (run_row \<times> string list option) option" where
  \<comment> \<open>the child joined with its parent and the plan of the parent\<close>
  "find_cancellable db parent step =
    (case find_child db parent step of
       None \<Rightarrow> None
     | Some c \<Rightarrow>
         (case find_run db parent of
            None \<Rightarrow> None
          | Some p \<Rightarrow>
              map_option (\<lambda>v. (c, v_awaited_steps v)) (List.find (\<lambda>v. v_id v = r_version_id p) (db_versions db))))"

fun child_act :: "child_request \<Rightarrow> world \<Rightarrow> child_answer option \<times> world" where
  \<comment> \<open>the answer, or none when any answer can come back\<close>
  "child_act (Stmt s) w = (Some (Changes (fst (exec s (wd_db w)))), w\<lparr>wd_db := run_step s (wd_db w)\<rparr>)"
| "child_act (ReadChild p s) w = (Some (GotRow (find_child (wd_db w) p s)), w)"
| "child_act (ReadRow i) w = (Some (GotRow (find_run (wd_db w) i)), w)"
| "child_act (ReadStart c p s) w = (Some (GotRow (List.find (is_child c p s) (db_runs (wd_db w)))), w)"
| "child_act (ReadJoined c p s) w = (Some (GotJoined (find_joined (wd_db w) c p s)), w)"
| "child_act (ReadCancellable p s) w = (Some (GotCancellable (find_cancellable (wd_db w) p s)), w)"
| "child_act (ReadIntent c) w = (Some (GotIntent (cancellation_pending (wd_db w) c)), w)"
| "child_act (Create c) w = (None, w\<lparr>wd_creates := wd_creates w @ [c]\<rparr>)"
| "child_act (Terminate c) w = (None, w\<lparr>wd_terminates := wd_terminates w @ [c]\<rparr>)"
| "child_act _ w = (None, w)"

inductive child_answers :: "world \<Rightarrow> child_request \<Rightarrow> child_answer \<Rightarrow> world \<Rightarrow> bool" where
  answered: "child_act q w = (Some a, w') \<Longrightarrow> child_answers w q a w'"
| external: "child_act q w = (None, w') \<Longrightarrow> child_answers w q a w'"
| lost: "child_answers w q (Thrown m) w"
| ambiguous: "child_act q w = (a, w') \<Longrightarrow> child_answers w q (Thrown m) w'"

inductive child_others :: "world \<Rightarrow> world \<Rightarrow> bool" where
  \<comment> \<open>a statement of any other handler of the service\<close>
  statement: "child_others w (w\<lparr>wd_db := run_step s (wd_db w)\<rparr>)"

section \<open>Sending a request\<close>

type_synonym 'r child_prog = "(child_request, child_answer, 'r) prog"

fun thrown :: "child_answer \<Rightarrow> string" where
  \<comment> \<open>an answer that is not of the kind asked for counts as an error\<close>
  "thrown (Thrown m) = m"
| "thrown _ = []"

definition changes :: "run_stmt \<Rightarrow> nat child_prog" where
  \<comment> \<open>\<open>meta.changes\<close>\<close>
  "changes s = Ask (Stmt s) (\<lambda>a. case a of Changes n \<Rightarrow> Return n | _ \<Rightarrow> Fail (thrown a))"

definition got_row :: "child_request \<Rightarrow> run_row option child_prog" where
  "got_row q = Ask q (\<lambda>a. case a of GotRow r \<Rightarrow> Return r | _ \<Rightarrow> Fail (thrown a))"

definition got_joined :: "string \<Rightarrow> string \<Rightarrow> string \<Rightarrow> (run_row \<times> run_row) option child_prog" where
  "got_joined child parent step =
     Ask (ReadJoined child parent step) (\<lambda>a. case a of GotJoined r \<Rightarrow> Return r | _ \<Rightarrow> Fail (thrown a))"

definition got_cancellable :: "string \<Rightarrow> string \<Rightarrow> (run_row \<times> string list option) option child_prog" where
  "got_cancellable parent step =
     Ask (ReadCancellable parent step) (\<lambda>a. case a of GotCancellable r \<Rightarrow> Return r | _ \<Rightarrow> Fail (thrown a))"

definition got_intent :: "string \<Rightarrow> bool child_prog" where
  "got_intent child = Ask (ReadIntent child) (\<lambda>a. case a of GotIntent b \<Rightarrow> Return b | _ \<Rightarrow> Fail (thrown a))"

definition got_status :: "string \<Rightarrow> (string \<times> bool) child_prog" where
  "got_status i = Ask (Status i) (\<lambda>a. case a of GotStatus s b \<Rightarrow> Return (s, b) | _ \<Rightarrow> Fail (thrown a))"

definition got_time :: "int child_prog" where
  "got_time = Ask Clock (\<lambda>a. case a of GotTime t \<Rightarrow> Return t | _ \<Rightarrow> Fail (thrown a))"

definition sent :: "child_request \<Rightarrow> bool child_prog" where
  \<comment> \<open>a call inside \<open>try\<close>: whether it returned\<close>
  "sent q = Ask q (\<lambda>a. case a of Thrown m \<Rightarrow> Return False | _ \<Rightarrow> Return True)"

section \<open>Observing a native instance\<close>

datatype instance_observation = Found string | Missing | Unavailable

text \<open>A lookup gives the details' status (None for no details or no status), or throws: an
  \<open>Error\<close> with its message, or another value (None).\<close>

definition observeInstance :: "string option + string option \<Rightarrow> instance_observation" where
  "observeInstance lookup =
    (case lookup of
       Inr None \<Rightarrow> Unavailable
     | Inr (Some s) \<Rightarrow> if s = [] \<or> s = ''unknown'' then Unavailable else Found s
     | Inl None \<Rightarrow> Unavailable
     | Inl (Some message) \<Rightarrow>
         if js_trim message = ''instance.not_found'' \<or>
            js_trim message = ''(instance.not_found) Instance not found''
         then Missing else Unavailable)"

definition observe :: "string \<Rightarrow> instance_observation child_prog" where
  "observe i = Ask (Lookup i) (\<lambda>a. Return (case a of
     GotLookup x \<Rightarrow> observeInstance x | _ \<Rightarrow> observeInstance (Inl (Some (thrown a)))))"

definition unresolvedNativeTerminalError :: "string \<Rightarrow> outcome \<Rightarrow> string option" where
  "unresolvedNativeTerminalError native oc =
    (if \<not> active oc then None
     else if native = ''errored'' then Some ''orchestration_errored''
     else if native = ''terminated'' then Some ''orchestration_terminated''
     else None)"

definition OUTCOME_SETTLE_WINDOW_MS :: int where "OUTCOME_SETTLE_WINDOW_MS = 10 * 60000"

definition shouldExpireUnconfirmedOutcome :: "string \<Rightarrow> outcome \<Rightarrow> int option \<Rightarrow> int \<Rightarrow> bool" where
  "shouldExpireUnconfirmedOutcome native oc firstSeen now \<longleftrightarrow>
     native = ''complete'' \<and> active oc \<and>
     (case firstSeen of None \<Rightarrow> False | Some t \<Rightarrow> now - t \<ge> OUTCOME_SETTLE_WINDOW_MS)"

section \<open>Reserving a child\<close>

definition safe_integer :: "int \<Rightarrow> bool" where
  "safe_integer i \<longleftrightarrow> - 9007199254740991 \<le> i \<and> i \<le> 9007199254740991"

definition invalid_reservation :: "child_reservation \<Rightarrow> bool" where
  "invalid_reservation a \<longleftrightarrow>
     cr_parentRunId a = [] \<or> cr_parentStepId a = [] \<or> cr_childRunId a = [] \<or>
     cr_parentRunId a = cr_childRunId a \<or> cr_childWorkflowId a = [] \<or> cr_childVersionId a = [] \<or>
     cr_admissionKey a = [] \<or> cr_requestDigest a = [] \<or> cr_inputJson a = [] \<or>
     \<not> safe_integer (cr_timestamp a)"

definition reserved_as :: "child_reservation \<Rightarrow> run_row \<Rightarrow> bool" where
  \<comment> \<open>the row read back is the reservation that was asked for\<close>
  "reserved_as a c \<longleftrightarrow>
     r_id c = cr_childRunId a \<and> r_workflow_id c = cr_childWorkflowId a \<and>
     r_version_id c = cr_childVersionId a \<and> r_parent_run_id c = Some (cr_parentRunId a) \<and>
     r_parent_step_id c = Some (cr_parentStepId a) \<and> r_admission_key c = Some (cr_admissionKey a) \<and>
     r_request_digest c = cr_requestDigest a \<and> r_inputs c = cr_inputJson a \<and> r_capacity_weight c = 1"

definition transferAwaitedChildCapacity :: "child_reservation \<Rightarrow> (string \<times> bool) child_prog" where
  \<comment> \<open>the child's id and whether it was already reserved\<close>
  "transferAwaitedChildCapacity a =
    (if invalid_reservation a then Fail ''invalid_child_capacity_request''
     else bindP (changes (Transfer a)) (\<lambda>inserted.
       bindP (got_row (ReadChild (cr_parentRunId a) (cr_parentStepId a))) (\<lambda>child.
       bindP (got_row (ReadRow (cr_parentRunId a))) (\<lambda>parent.
       case (child, parent) of
         (Some c, Some p) \<Rightarrow>
           if r_outcome p = Running \<and> r_capacity_weight p = 1 \<and> reserved_as a c
           then Return (r_id c, inserted = 0)
           else Fail ''child_capacity_transfer_rejected''
       | _ \<Rightarrow> Fail ''child_capacity_transfer_rejected''))))"

definition admitDetachedChild :: "child_reservation \<Rightarrow> (string \<times> bool) child_prog" where
  "admitDetachedChild a =
    (if invalid_reservation a then Fail ''invalid_detached_child_request''
     else bindP (changes (InsertDetached a)) (\<lambda>inserted.
       bindP (got_row (ReadChild (cr_parentRunId a) (cr_parentStepId a))) (\<lambda>child.
       case child of
         Some c \<Rightarrow>
           if reserved_as a c then Return (r_id c, inserted = 0)
           else Fail ''detached_child_admission_rejected''
       | None \<Rightarrow> Fail ''detached_child_admission_rejected'')))"

section \<open>Cancelling an awaited child\<close>

datatype cancel_result =
  CancelNotFound | AlreadyTerminal | RequestedUnverified | TerminalConfirmed | CancelDoneBeforeStart

definition confirm_after :: "string \<Rightarrow> cancel_result child_prog" where
  \<comment> \<open>the status after the request, with its confirmation in the run; any error is swallowed\<close>
  "confirm_after child =
    catchP (bindP (got_status child) (\<lambda>(after, _).
      if after = ''terminated''
      then bindP got_time (\<lambda>t. bindP (changes (Update (ConfirmTerminated child t))) (\<lambda>_. Return TerminalConfirmed))
      else Return RequestedUnverified)) (\<lambda>_. Return RequestedUnverified)"

definition terminate_native :: "string \<Rightarrow> cancel_result child_prog" where
  \<comment> \<open>from the claim of the one terminate request on\<close>
  "terminate_native child =
    bindP got_time (\<lambda>t. bindP (changes (ClaimTerminate child t)) (\<lambda>n.
      if n \<noteq> 1 then confirm_after child
      else bindP (sent (Terminate child)) (\<lambda>_. confirm_after child)))"

definition cancel_requested :: "string \<Rightarrow> cancel_result child_prog" where
  \<comment> \<open>once the durable intent is stored\<close>
  "cancel_requested child =
    bindP (catchP (mapP Some (got_status child)) (\<lambda>_. Return None)) (\<lambda>found.
      case found of
        None \<Rightarrow> Return RequestedUnverified
      | Some (before, can_terminate) \<Rightarrow>
          if before = ''terminated'' then
            bindP got_time (\<lambda>t. bindP (changes (Update (ConfirmTerminated child t))) (\<lambda>_.
              bindP (got_row (ReadRow child)) (\<lambda>saved.
                Return (if map_option r_outcome saved = Some Cancelled then TerminalConfirmed else RequestedUnverified))))
          else if before = ''complete'' \<or> before = ''errored'' then Return AlreadyTerminal
          else if \<not> can_terminate then Return RequestedUnverified
          else terminate_native child)"

definition not_intended :: "run_row option \<Rightarrow> cancel_result" where
  \<comment> \<open>no intent was stored: the answer from the row of the child\<close>
  "not_intended current =
    (case current of
       None \<Rightarrow> RequestedUnverified
     | Some c \<Rightarrow>
         if r_outcome c = Cancelled \<and> r_start_state c = CancelledBeforeStart then CancelDoneBeforeStart
         else if \<not> active (r_outcome c) then AlreadyTerminal else RequestedUnverified)"

definition cancel_dispatched :: "string \<Rightarrow> string \<Rightarrow> string \<Rightarrow> cancel_result child_prog" where
  \<comment> \<open>from the insertion of the intent on\<close>
  "cancel_dispatched child parent step =
    bindP got_time (\<lambda>t. bindP (changes (InsertIntent child parent step t)) (\<lambda>_.
      bindP (got_intent child) (\<lambda>intent.
        if intent then cancel_requested child else mapP not_intended (got_row (ReadRow child)))))"

definition cancelAwaitedChild :: "string \<Rightarrow> string \<Rightarrow> cancel_result child_prog" where
  "cancelAwaitedChild parent step =
    bindP (got_cancellable parent step) (\<lambda>found.
      case found of
        None \<Rightarrow> Return CancelNotFound
      | Some (c, awaited_steps) \<Rightarrow>
          if (case awaited_steps of None \<Rightarrow> True | Some ss \<Rightarrow> step \<notin> set ss) then Return CancelNotFound
          else if r_outcome c = Cancelled
          then Return (if r_start_state c = CancelledBeforeStart then CancelDoneBeforeStart else TerminalConfirmed)
          else if \<not> active (r_outcome c) then Return AlreadyTerminal
          else if r_instance_id c \<noteq> r_id c then Return CancelNotFound
          else if r_start_state c \<in> {Reserved, Creating} then
            bindP got_time (\<lambda>t. bindP (changes (Update (CancelBeforeStart (r_id c) parent step t))) (\<lambda>n.
              if n = 1 then Return CancelDoneBeforeStart else cancel_dispatched (r_id c) parent step))
          else cancel_dispatched (r_id c) parent step)"

section \<open>Starting a detached child\<close>

datatype start_result = RStarted | RStartUnknown | RIndeterminate | RRejected | RCancelledBeforeStart

definition START_WINDOW_MS :: int where "START_WINDOW_MS = 10 * 60000"

definition start_of :: "run_row option \<Rightarrow> start_result" where
  "start_of latest =
    (case latest of
       None \<Rightarrow> RIndeterminate
     | Some l \<Rightarrow>
         if r_start_state l = Started \<and> r_outcome l \<in> {Queued, Running, Succeeded, Failed} then RStarted
         else if r_start_state l = Reserved \<and> r_outcome l = Failed \<and>
                 r_error_code l = Some ''detached_parent_not_active'' then RRejected
         else if r_outcome l = Indeterminate \<or> r_outcome l = Cancelled then RIndeterminate
         else RStartUnknown)"

definition persistedStart :: "string \<Rightarrow> string \<Rightarrow> string \<Rightarrow> start_result child_prog" where
  "persistedStart child parent step = mapP start_of (got_row (ReadStart child parent step))"

definition guarded_start :: "run_update \<Rightarrow> start_result \<Rightarrow> string \<Rightarrow> string \<Rightarrow> string \<Rightarrow> start_result child_prog" where
  \<comment> \<open>an update with the answer if it changed the row, and the persisted state if not\<close>
  "guarded_start u answer child parent step =
    bindP (changes (Update u)) (\<lambda>n. if n = 1 then Return answer else persistedStart child parent step)"

definition start_detached :: "string \<Rightarrow> string \<Rightarrow> string \<Rightarrow> int \<Rightarrow> start_result child_prog" where
  \<comment> \<open>the branch of a reserved child with a running parent: claim, create, mark\<close>
  "start_detached child parent step t =
    (let marked = guarded_start (MarkStartedDetached child parent step t) RStarted child parent step in
     bindP (changes (Update (ClaimDispatch child parent step t))) (\<lambda>n.
       if n \<noteq> 1 then Return RStartUnknown
       else bindP (sent (Create child)) (\<lambda>created.
         if created then marked
         else bindP (changes (Update (CreateFailed child t))) (\<lambda>_.
           bindP (observe child) (\<lambda>observed.
             case observed of Found s \<Rightarrow> marked | _ \<Rightarrow> Return RStartUnknown)))))"

definition startReservedDetachedChild :: "string \<Rightarrow> string \<Rightarrow> string \<Rightarrow> int \<Rightarrow> start_result child_prog" where
  "startReservedDetachedChild parent step child t =
    (if parent = [] \<or> step = [] \<or> child = [] \<or> \<not> safe_integer t
     then Fail ''invalid_detached_start_request''
     else bindP (got_joined child parent step) (\<lambda>found.
       case found of
         None \<Rightarrow> Fail ''detached_child_start_not_authorized''
       | Some (row, p) \<Rightarrow>
          if r_instance_id row \<noteq> child \<or> r_capacity_weight row \<noteq> 1
          then Fail ''detached_child_start_not_authorized''
          else if r_start_state row = Started then Return RStarted
          else if r_start_state row \<noteq> Reserved then
            if r_start_state row \<notin> {Dispatching, StartUnknown} \<or>
               r_outcome row \<notin> {Queued, Running, Succeeded, Failed}
            then Return RIndeterminate
            else bindP (observe child) (\<lambda>observed.
              case observed of
                Found s \<Rightarrow> guarded_start (MarkStartedDetached child parent step t) RStarted child parent step
              | _ \<Rightarrow>
                  if t - r_created_at row \<ge> START_WINDOW_MS
                  then guarded_start (ExpireDetached child parent step t) RIndeterminate child parent step
                  else Return RStartUnknown)
          else if r_outcome p \<noteq> Running then guarded_start (AbandonDetached child t) RRejected child parent step
          else start_detached child parent step t))"

section \<open>Starting an awaited child\<close>

definition reconcileCancellation :: "string \<Rightarrow> string \<Rightarrow> string \<Rightarrow> unit child_prog" where
  "reconcileCancellation child parent step =
    bindP (got_intent child) (\<lambda>pending.
      if pending then catchP (mapP (\<lambda>_. ()) (cancelAwaitedChild parent step)) (\<lambda>_. Return ()) else Return ())"

definition mark_awaited :: "string \<Rightarrow> string \<Rightarrow> string \<Rightarrow> int \<Rightarrow> start_result child_prog" where
  \<comment> \<open>\<open>markStarted\<close> of the awaited start\<close>
  "mark_awaited child parent step t =
    bindP (changes (Update (MarkStartedAwaited child parent step t))) (\<lambda>_.
      mapP (\<lambda>_. RStarted) (reconcileCancellation child parent step))"

definition dispatch_refused :: "string \<Rightarrow> int \<Rightarrow> start_result child_prog" where
  \<comment> \<open>the dispatch claim changed no row\<close>
  "dispatch_refused child t =
    bindP (got_row (ReadRow child)) (\<lambda>found.
      case found of
        None \<Rightarrow> Return RStartUnknown
      | Some stopped \<Rightarrow>
          if r_outcome stopped = Cancelled \<and> r_start_state stopped = CancelledBeforeStart
          then Return RCancelledBeforeStart
          else if r_start_state stopped = Creating then
            bindP (changes (Update (AbandonCreating child t))) (\<lambda>n.
              Return (if n = 1 then RCancelledBeforeStart else RStartUnknown))
          else Return RStartUnknown)"

definition dispatch_awaited :: "string \<Rightarrow> string \<Rightarrow> string \<Rightarrow> int \<Rightarrow> start_result child_prog" where
  \<comment> \<open>from the linearization point on\<close>
  "dispatch_awaited child parent step t =
    bindP (changes (Update (DispatchAwaited child parent step t))) (\<lambda>n.
      if n \<noteq> 1 then dispatch_refused child t
      else bindP (sent (Create child)) (\<lambda>created.
        if created then mark_awaited child parent step t
        else bindP (changes (Update (CreateFailed child t))) (\<lambda>_.
          bindP (observe child) (\<lambda>observed.
            case observed of Found s \<Rightarrow> mark_awaited child parent step t | _ \<Rightarrow> Return RStartUnknown))))"

definition resume_awaited :: "run_row \<Rightarrow> string \<Rightarrow> string \<Rightarrow> string \<Rightarrow> int \<Rightarrow> start_result child_prog" where
  \<comment> \<open>a child that an earlier attempt claimed: observe before anything else\<close>
  "resume_awaited row child parent step t =
    bindP (observe child) (\<lambda>observed.
      case observed of
        Found s \<Rightarrow> mark_awaited child parent step t
      | Unavailable \<Rightarrow> Return RStartUnknown
      | Missing \<Rightarrow>
          if r_start_state row = Creating \<or> r_start_state row = Dispatching then
            if t - r_created_at row \<ge> START_WINDOW_MS
            then bindP (changes (Update (ExpireCreating child t))) (\<lambda>_. Return RIndeterminate)
            else Return RStartUnknown
          else if t - r_created_at row \<ge> START_WINDOW_MS
          then bindP (changes (Update (ExpireStartUnknown child t))) (\<lambda>_. Return RIndeterminate)
          else dispatch_awaited child parent step t)"

definition claim_awaited :: "string \<Rightarrow> string \<Rightarrow> string \<Rightarrow> int \<Rightarrow> start_result child_prog" where
  \<comment> \<open>a reserved child\<close>
  "claim_awaited child parent step t =
    bindP (changes (Update (ClaimCreating child parent step t))) (\<lambda>n.
      if n \<noteq> 1 then
        mapP (\<lambda>stopped. if map_option r_outcome stopped = Some Cancelled then RCancelledBeforeStart else RStartUnknown)
          (got_row (ReadRow child))
      else dispatch_awaited child parent step t)"

definition startReservedAwaitedChild :: "string \<Rightarrow> string \<Rightarrow> string \<Rightarrow> int \<Rightarrow> start_result child_prog" where
  "startReservedAwaitedChild parent step child t =
    (if parent = [] \<or> step = [] \<or> child = [] \<or> \<not> safe_integer t
     then Fail ''invalid_child_start_request''
     else bindP (got_joined child parent step) (\<lambda>found.
       case found of
         None \<Rightarrow> Fail ''child_start_not_authorized''
       | Some (row, p) \<Rightarrow>
          if r_outcome row = Cancelled \<and> r_start_state row = CancelledBeforeStart
          then Return RCancelledBeforeStart
          else if \<not> active (r_outcome row) then Return RStarted
          else if r_outcome p \<noteq> Running \<or> r_capacity_weight row \<noteq> 1 \<or> r_instance_id row \<noteq> child \<or>
            r_start_state row \<notin> {Reserved, Creating, Dispatching, StartUnknown, Started}
          then Fail ''child_start_not_authorized''
          else if r_start_state row = Started
          then mapP (\<lambda>_. RStarted) (reconcileCancellation child parent step)
          else if r_start_state row = Reserved then claim_awaited child parent step t
          else resume_awaited row child parent step t))"

section \<open>The handlers keep to their claims\<close>

text \<open>
  A create request for the child \<open>child\<close> is sent only on a dispatch claim that changed a row, and
  used once; a terminate request only on a claim of the termination.
\<close>

datatype token = MayCreate string | MayTerminate string

definition child_grants :: "string \<Rightarrow> child_request \<Rightarrow> child_answer \<Rightarrow> token multiset" where
  "child_grants child q a =
    (case (q, a) of
       (Stmt (Update (ClaimDispatch c p s t)), Changes n) \<Rightarrow> if c = child \<and> n = 1 then {#MayCreate c#} else {#}
     | (Stmt (ClaimTerminate c t), Changes n) \<Rightarrow> if n = 1 then {#MayTerminate c#} else {#}
     | _ \<Rightarrow> {#})"

definition child_uses :: "string \<Rightarrow> child_request \<Rightarrow> token multiset" where
  "child_uses child q =
    (case q of
       Create c \<Rightarrow> if c = child then {#MayCreate c#} else {#}
     | Terminate c \<Rightarrow> {#MayTerminate c#}
     | _ \<Rightarrow> {#})"

definition child_rules :: "string \<Rightarrow> (child_request, child_answer, unit, token) discipline" where
  "child_rules child = \<lparr>needs = \<lambda>_. {}, learns = \<lambda>_ _. {}, uses = child_uses child, grants = child_grants child\<rparr>"

lemma child_rules_simps [simp]:
  "needs (child_rules child) q = {}" "learns (child_rules child) q a = {}"
  "uses (child_rules child) q = child_uses child q" "grants (child_rules child) q a = child_grants child q a"
  by (simp_all add: child_rules_def)

lemma keeps_request:
  assumes "child_uses child q = {#}" and "\<And>a. keeps (child_rules child) F (k a)"
  shows "keeps (child_rules child) F (Ask q k)"
  by (rule keeps_Ask) (use assms in simp_all)

lemma keeps_requests [keeps_intro]:
  "keeps (child_rules child) F (changes s)"
  "keeps (child_rules child) F (got_joined c p st)"
  "keeps (child_rules child) F (got_cancellable p st)"
  "keeps (child_rules child) F (got_intent c)"
  "keeps (child_rules child) F (got_status c)"
  "keeps (child_rules child) F got_time"
  "keeps (child_rules child) F (observe c)"
  unfolding changes_def got_joined_def got_cancellable_def got_intent_def got_status_def got_time_def observe_def
  by (auto intro!: keeps_request intro: keeps_intro simp: child_uses_def split: child_answer.split)

lemma keeps_got_row [keeps_intro]:
  "keeps (child_rules child) F (got_row (ReadChild p st))"
  "keeps (child_rules child) F (got_row (ReadRow c))"
  "keeps (child_rules child) F (got_row (ReadStart c p st))"
  unfolding got_row_def
  by (auto intro!: keeps_request intro: keeps_intro simp: child_uses_def split: child_answer.split)

lemma keeps_claimed:
  assumes "child_uses child q \<subseteq># child_grants child (Stmt s) (Changes 1)"
    and "\<And>b. keeps (child_rules child) F (g b)" "keeps (child_rules child) F p"
  shows "keeps (child_rules child) F (bindP (changes s) (\<lambda>n. if n \<noteq> 1 then p else bindP (sent q) g))"
proof -
  have rest: "follows (child_rules child) F H (g b) anything anything" "follows (child_rules child) F H p anything anything"
    for H b
    using assms(2,3) keeps_follows by blast+
  have "follows (child_rules child) F (child_grants child (Stmt s) (Changes 1)) (bindP (sent q) g) anything anything"
    using assms(1) rest by (auto simp: sent_def split: child_answer.split)
  then show ?thesis
    using rest by (auto simp: keeps_def changes_def child_uses_def split: child_answer.split)
qed

lemma keeps_option [keeps_intro]:
  "(x = None \<Longrightarrow> keeps D F p) \<Longrightarrow> (\<And>y. x = Some y \<Longrightarrow> keeps D F (f y)) \<Longrightarrow>
     keeps D F (case x of None \<Rightarrow> p | Some y \<Rightarrow> f y)"
  by (cases x) auto

lemma keeps_pair [keeps_intro]: "(\<And>x y. keeps D F (f x y)) \<Longrightarrow> keeps D F (case z of (x, y) \<Rightarrow> f x y)"
  by (cases z) auto

lemma keeps_observation [keeps_intro]:
  "(\<And>s. keeps D F (f s)) \<Longrightarrow> keeps D F p \<Longrightarrow> keeps D F q \<Longrightarrow>
     keeps D F (case x of Found s \<Rightarrow> f s | Missing \<Rightarrow> p | Unavailable \<Rightarrow> q)"
  by (cases x) auto

lemma keeps_transfer: "keeps (child_rules child) F (transferAwaitedChildCapacity a)"
  unfolding transferAwaitedChildCapacity_def by (intro keeps_intro)

lemma keeps_admit_detached: "keeps (child_rules child) F (admitDetachedChild a)"
  unfolding admitDetachedChild_def by (intro keeps_intro)

lemma keeps_confirm: "keeps (child_rules child) F (confirm_after c)"
  unfolding confirm_after_def by (intro keeps_intro)

lemma keeps_terminate: "keeps (child_rules child) F (terminate_native c)"
  unfolding terminate_native_def
  by (intro keeps_bind keeps_requests keeps_claimed keeps_confirm) (simp add: child_uses_def child_grants_def)

lemma keeps_cancel: "keeps (child_rules child) F (cancelAwaitedChild p st)"
  unfolding cancelAwaitedChild_def cancel_dispatched_def cancel_requested_def
  by (intro keeps_intro keeps_terminate)

lemma keeps_guarded [keeps_intro]: "keeps (child_rules child) F (guarded_start u a c p st)"
  unfolding guarded_start_def persistedStart_def by (intro keeps_intro)

lemma keeps_start_detached: "keeps (child_rules child) F (startReservedDetachedChild p st c t)"
proof -
  have "keeps (child_rules child) F (start_detached c p st t)"
    unfolding start_detached_def Let_def
    by (rule keeps_claimed) (simp add: child_uses_def child_grants_def, intro keeps_intro, intro keeps_intro)
  then show ?thesis
    unfolding startReservedDetachedChild_def by (intro keeps_intro)
qed

lemma keeps_mark: "keeps (child_rules child) F (mark_awaited c p st t)"
  unfolding mark_awaited_def reconcileCancellation_def by (intro keeps_intro keeps_cancel)

lemma keeps_dispatch_awaited:
  assumes "c \<noteq> child"
  shows "keeps (child_rules child) F (dispatch_awaited c p st t)"
  unfolding dispatch_awaited_def dispatch_refused_def
  by (rule keeps_claimed) (use assms in \<open>simp add: child_uses_def\<close>, (intro keeps_intro keeps_mark)+)

lemma keeps_start_awaited:
  assumes "c \<noteq> child"
  shows "keeps (child_rules child) F (startReservedAwaitedChild p st c t)"
  unfolding startReservedAwaitedChild_def claim_awaited_def resume_awaited_def reconcileCancellation_def
  by (intro keeps_intro keeps_mark keeps_cancel keeps_dispatch_awaited [OF assms])

section \<open>What the tables allow\<close>

lemma distinct_ids_eq:
  "distinct (map r_id rows) \<Longrightarrow> r \<in> set rows \<Longrightarrow> r' \<in> set rows \<Longrightarrow> r_id r = r_id r' \<Longrightarrow> r = r'"
  by (metis distinct_map inj_onD)

lemma update_changed:
  "fst (exec (Update u) db) = Suc 0 \<Longrightarrow> \<exists>r \<in> set (db_runs db). update_guard u db r"
  by (auto simp: exec_update_def update_runs_def filter_empty_conv dest!: arg_cong [of _ _ "\<lambda>n. 0 < n"])

lemma updated_row:
  "r \<in> set (db_runs db) \<Longrightarrow> update_guard u db r \<Longrightarrow> update_change u r \<in> set (db_runs (run_step (Update u) db))"
  by (force simp: run_step_def exec_update_def update_runs_def)

definition left_reserved :: "string \<Rightarrow> run_db \<Rightarrow> bool" where
  "left_reserved child db \<longleftrightarrow> list_ex (\<lambda>r. r_id r = child \<and> r_start_state r \<noteq> Reserved) (db_runs db)"

lemma left_reserved_stmt:
  assumes "left_reserved child db"
  shows "left_reserved child (run_step s db)"
proof -
  from assms obtain r where r: "r \<in> set (db_runs db)" "r_id r = child" "r_start_state r \<noteq> Reserved"
    by (auto simp: left_reserved_def list_ex_iff)
  with run_step_evolves [of db s] obtain r' where "r' \<in> set (db_runs (run_step s db))" "row_evolves r r'"
    by (auto simp: runs_evolve_def)
  with r show ?thesis by (auto simp: left_reserved_def list_ex_iff row_evolves_def)
qed

lemma claim_leaves_reserved:
  assumes "runs_inv db" "fst (exec (Update (ClaimDispatch c p st t)) db) = Suc 0"
  shows "\<not> left_reserved c db" "left_reserved c (run_step (Update (ClaimDispatch c p st t)) db)"
proof -
  let ?u = "ClaimDispatch c p st t"
  from update_changed [OF assms(2)] obtain r where r: "r \<in> set (db_runs db)" and guard: "update_guard ?u db r" by blast
  then have row: "r_id r = c" "r_start_state r = Reserved" by (simp_all add: is_child_def)
  with r assms(1) show "\<not> left_reserved c db"
    unfolding runs_inv_def left_reserved_def list_ex_iff by (metis distinct_ids_eq)
  from updated_row [OF r guard] row(1) show "left_reserved c (run_step (Update ?u) db)"
    by (auto simp: left_reserved_def list_ex_iff intro!: bexI [of _ "update_change ?u r"])
qed

definition attempted :: "run_db \<Rightarrow> string multiset" where
  "attempted db = mset (map cc_child_run_id (filter (\<lambda>c. cc_termination_attempted_at c \<noteq> None) (db_cancellations db)))"

definition cancelled_ids :: "run_db \<Rightarrow> string list" where
  "cancelled_ids db = map cc_child_run_id (db_cancellations db)"

lemma attempted_ids: "attempted db \<subseteq># mset (cancelled_ids db)"
  unfolding attempted_def cancelled_ids_def by (induction "db_cancellations db") (auto simp: image_mset_subseteq_mono)

lemma update_runs_cancellations [simp]:
  "db_cancellations (snd (exec_update u db)) = db_cancellations db"
  "db_cancellations (snd (insert_or_ignore new db)) = db_cancellations db"
  by (simp_all add: exec_update_def update_runs_def insert_or_ignore_def)

lemma run_stmt_cancellations:
  "db_cancellations (run_step s db) = db_cancellations db \<or>
   (\<exists>c. cc_child_run_id c \<notin> set (cancelled_ids db) \<and> cc_termination_attempted_at c = None \<and>
      db_cancellations (run_step s db) = db_cancellations db @ [c]) \<or>
   (\<exists>c t. s = ClaimTerminate c t)"
  by (cases s) (auto simp: run_step_def exec_admit_top_def exec_transfer_def exec_insert_detached_def
      exec_insert_intent_def Let_def list_ex_iff cancelled_ids_def split: prod.splits,
      (metis snd_conv update_runs_cancellations(2))+)

lemma claim_terminate_ids: "cancelled_ids (run_step (ClaimTerminate c t) db) = cancelled_ids db"
  by (simp add: run_step_def exec_claim_terminate_def Let_def cancelled_ids_def comp_def)

lemma claimed_list:
  "mset (map cc_child_run_id (filter (\<lambda>k. cc_termination_attempted_at k \<noteq> None)
     (map (\<lambda>k. if cc_child_run_id k = c \<and> cc_termination_attempted_at k = None
        then k\<lparr>cc_termination_attempted_at := Some t\<rparr> else k) ks))) =
   mset (map cc_child_run_id (filter (\<lambda>k. cc_termination_attempted_at k \<noteq> None) ks)) +
   replicate_mset (length (filter (\<lambda>k. cc_child_run_id k = c \<and> cc_termination_attempted_at k = None) ks)) c"
  by (induction ks) auto

lemma claim_terminate_attempted:
  "attempted (run_step (ClaimTerminate c t) db) =
     attempted db + replicate_mset (fst (exec (ClaimTerminate c t) db)) c"
  using claimed_list [of c t "db_cancellations db"]
  by (simp add: run_step_def exec_claim_terminate_def attempted_def Let_def)

lemma attempted_stmt: "attempted db \<subseteq># attempted (run_step s db)"
  using run_stmt_cancellations [of s db] claim_terminate_attempted by (auto simp: attempted_def)

definition child_tables :: "world \<Rightarrow> bool" where
  "child_tables w \<longleftrightarrow> runs_inv (wd_db w) \<and> distinct (cancelled_ids (wd_db w))"

lemma child_tables_stmt: "child_tables w \<Longrightarrow> child_tables (w\<lparr>wd_db := run_step s (wd_db w)\<rparr>)"
  using run_stmt_cancellations [of s "wd_db w"] claim_terminate_ids [of _ _ "wd_db w"]
  by (auto simp: child_tables_def run_step_inv) (auto simp: cancelled_ids_def)

definition child_issued :: "string \<Rightarrow> world \<Rightarrow> token multiset" where
  "child_issued child w = (if left_reserved child (wd_db w) then {#MayCreate child#} else {#}) +
     image_mset MayTerminate (attempted (wd_db w))"

definition child_spent :: "string \<Rightarrow> world \<Rightarrow> token multiset" where
  "child_spent child w = replicate_mset (count_list (wd_creates w) child) (MayCreate child) +
     image_mset MayTerminate (mset (wd_terminates w))"

lemma issued_same: "wd_db w' = wd_db w \<Longrightarrow> child_issued child w' = child_issued child w"
  by (simp add: child_issued_def)

lemma issued_stmt: "child_issued child w \<subseteq># child_issued child (w\<lparr>wd_db := run_step s (wd_db w)\<rparr>)"
  using left_reserved_stmt [of child "wd_db w" s] image_mset_subseteq_mono [OF attempted_stmt [of "wd_db w" s]]
  by (auto simp: child_issued_def intro: subset_mset.add_mono [of "{#}" "{#_#}", simplified])

lemma granted_stmt:
  assumes "child_tables w"
  shows "child_issued child w + child_grants child (Stmt s) (Changes (fst (exec s (wd_db w))))
    \<subseteq># child_issued child (w\<lparr>wd_db := run_step s (wd_db w)\<rparr>)"
proof (cases "child_grants child (Stmt s) (Changes (fst (exec s (wd_db w)))) = {#}")
  case False
  then consider p st t where "s = Update (ClaimDispatch child p st t)" "fst (exec s (wd_db w)) = Suc 0"
    | c t where "s = ClaimTerminate c t" "fst (exec s (wd_db w)) = Suc 0"
    by (auto simp: child_grants_def split: run_stmt.splits run_update.splits if_splits)
  then show ?thesis
  proof cases
    case 1
    with claim_leaves_reserved [of "wd_db w" child] attempted_stmt [of "wd_db w" s] assms show ?thesis
      by (simp add: child_issued_def child_grants_def child_tables_def image_mset_subseteq_mono)
  next
    case 2
    with claim_terminate_attempted [of c t "wd_db w"] left_reserved_stmt [of child "wd_db w" s] show ?thesis
      by (simp add: child_issued_def child_grants_def)
  qed
qed (simp add: issued_stmt)

lemma child_answer_cases:
  assumes "child_answers w q a w'"
  obtains (same) "w' = w" "child_grants child q a = {#}"
  | (stmt) s where "q = Stmt s" "w' = w\<lparr>wd_db := run_step s (wd_db w)\<rparr>"
      "a = Changes (fst (exec s (wd_db w))) \<or> child_grants child q a = {#}"
  | (sent) "wd_db w' = wd_db w" "child_grants child q a = {#}" "child_spent child w' = child_spent child w + child_uses child q"
proof -
  have thrown: "child_grants child q (Thrown m) = {#}" for m
    by (simp add: child_grants_def split: child_request.split run_stmt.split run_update.split)
  have act: thesis if "child_act q w = (b, w')" "b = Some a \<or> b = None \<or> (\<exists>m. a = Thrown m)" for b
  proof (cases q)
    case (Stmt s)
    with that thrown show ?thesis by (intro stmt) auto
  next
    case (Create c)
    with that show ?thesis by (intro sent) (auto simp: child_grants_def child_spent_def child_uses_def)
  next
    case (Terminate c)
    with that show ?thesis by (intro sent) (auto simp: child_grants_def child_spent_def child_uses_def)
  qed (use that in \<open>auto simp: child_grants_def intro!: same\<close>)
  from assms show ?thesis
    by (cases rule: child_answers.cases) (use act same thrown in auto)
qed

interpretation children: stock child_answers child_others "child_rules child" child_tables
  "child_issued child" "child_spent child" for child
proof unfold_locales
  fix w w' :: world and q a
  assume "child_answers w q a w'"
  then show "child_spent child w' \<subseteq># child_spent child w + uses (child_rules child) q"
    by (cases rule: child_answer_cases [where child = child]) (auto simp: child_spent_def child_uses_def)
  assume tables: "child_tables w"
  from \<open>child_answers w q a w'\<close> show "child_tables w'"
    by (cases rule: child_answer_cases [where child = child])
      (use tables child_tables_stmt in \<open>auto simp: child_tables_def\<close>)
  from \<open>child_answers w q a w'\<close> show "child_issued child w + grants (child_rules child) q a \<subseteq># child_issued child w'"
  proof (cases rule: child_answer_cases [where child = child])
    case (stmt s)
    then show ?thesis
      using granted_stmt [OF tables, of child s] issued_stmt [of child w s] by (elim disjE) simp_all
  next
    case sent
    then show ?thesis by (simp add: issued_same [OF sent(1)])
  qed simp
qed (auto elim!: child_others.cases intro: child_tables_stmt issued_stmt simp: child_spent_def)

section \<open>Interleaved handlers\<close>

datatype child_result = Reserves "string \<times> bool" | Starts start_result | Cancels cancel_result

inductive child_handler :: "string \<Rightarrow> child_result child_prog \<Rightarrow> bool" for child where
  \<comment> \<open>the handlers of the service; the child itself is detached, so that the awaited start, which
     belongs to the other kind of step, is for other children\<close>
  transfers: "child_handler child (mapP Reserves (transferAwaitedChildCapacity a))"
| admits: "child_handler child (mapP Reserves (admitDetachedChild a))"
| starts: "child_handler child (mapP Starts (startReservedDetachedChild p s c t))"
| awaits: "c \<noteq> child \<Longrightarrow> child_handler child (mapP Starts (startReservedAwaitedChild p s c t))"
| cancels: "child_handler child (mapP Cancels (cancelAwaitedChild p s))"

definition child_moves :: "string \<Rightarrow> world \<times> child_result child_prog list \<Rightarrow> world \<times> child_result child_prog list \<Rightarrow> bool" where
  "child_moves child = pool_moves child_answers child_others (child_handler child)"

lemma handler_keeps: "child_handler child p \<Longrightarrow> keeps (child_rules child) {} p"
  by (erule child_handler.cases)
    (auto intro!: keeps_map keeps_transfer keeps_admit_detached keeps_start_detached keeps_start_awaited keeps_cancel)

lemma handler_follows: "child_handler child p \<Longrightarrow> follows (child_rules child) {} {#} p anything anything"
  using handler_keeps unfolding keeps_def .

definition fresh_tables :: "world \<Rightarrow> bool" where
  \<comment> \<open>the constraints of the tables, and no request sent yet\<close>
  "fresh_tables w \<longleftrightarrow> child_tables w \<and> wd_creates w = [] \<and> wd_terminates w = []"

lemma children_within:
  assumes "child_moves child (w, []) (w', ps)" "fresh_tables w"
  shows "child_spent child w' \<subseteq># child_issued child w'" "child_tables w'"
proof -
  have spent: "child_spent child w \<subseteq># child_issued child w" and tables: "child_tables w"
    using assms(2) by (simp_all add: fresh_tables_def child_spent_def)
  show "child_spent child w' \<subseteq># child_issued child w'"
    by (rule children.moves_within_stock [OF assms(1) [unfolded child_moves_def] tables spent handler_follows])
  have "children.balanced child (w', ps)"
    by (rule children.moves_balanced [OF assms(1) [unfolded child_moves_def]
        children.balanced_empty [OF tables spent] handler_follows])
  then show "child_tables w'" by (simp add: children.balanced_def)
qed

text \<open>C11: however many handlers of the service run at once on a detached child, with their
  statements and native calls interleaved in any order, with answers that are lost before or after
  their effect, with handlers that die between any two requests and start again, and with statements
  of any other handler in between, the native instance of the child is asked for at most once; and
  once it was, its row is no longer reserved.
\<close>

theorem detached_created_once:
  assumes "child_moves child (w, []) (w', ps)" and "fresh_tables w"
  shows "count_list (wd_creates w') child \<le> 1 \<and>
    (child \<in> set (wd_creates w') \<longrightarrow> left_reserved child (wd_db w'))"
proof -
  have "count (child_spent child w') (MayCreate child) \<le> count (child_issued child w') (MayCreate child)"
    by (rule mset_subset_eq_count [OF children_within(1) [OF assms]])
  moreover have "count (image_mset MayTerminate M) (MayCreate child) = 0" for M
    by (auto simp: count_eq_zero_iff)
  ultimately have "count_list (wd_creates w') child \<le> (if left_reserved child (wd_db w') then 1 else 0)"
    by (simp add: child_spent_def child_issued_def split: if_splits)
  then show ?thesis by (auto simp: count_list_0_iff split: if_splits)
qed

text \<open>A child of any kind, cancelled any number of times at once, is asked to terminate at most once.\<close>

lemma child_terminated_once:
  assumes "child_moves child (w, []) (w', ps)" and "fresh_tables w"
  shows "count_list (wd_terminates w') c \<le> 1"
proof -
  have "count (child_spent child w') (MayTerminate c) \<le> count (child_issued child w') (MayTerminate c)"
    by (rule mset_subset_eq_count [OF children_within(1) [OF assms]])
  moreover have "count (image_mset MayTerminate M) (MayTerminate c) = count M c" for M
    by (induction M) auto
  ultimately have "count_list (wd_terminates w') c \<le> count (attempted (wd_db w')) c"
    by (simp add: child_spent_def child_issued_def count_mset split: if_splits)
  also have "\<dots> \<le> count (mset (cancelled_ids (wd_db w'))) c"
    by (rule mset_subset_eq_count [OF attempted_ids])
  also have "\<dots> \<le> 1"
    using children_within(2) [OF assms] by (simp add: child_tables_def distinct_count_atmost_1)
  finally show ?thesis .
qed

section \<open>An example\<close>

text \<open>A running parent with n units and the reservation of a child of it.\<close>

definition example_world :: "nat \<Rightarrow> run_row list \<Rightarrow> cancellation_row list \<Rightarrow> world" where
  "example_world n children cs =
    \<lparr>wd_db = \<lparr>db_runs = \<lparr>r_id = ''r'', r_workflow_id = ''w'', r_version_id = ''v'', r_instance_id = ''r'',
        r_admission_key = None, r_request_digest = ''d'', r_inputs = ''{}'', r_start_state = Started,
        r_outcome = Running, r_error_code = None, r_created_at = 1, r_updated_at = 1, r_complete_seen_at = None,
        r_capacity_weight = n, r_parent_run_id = None, r_parent_step_id = None\<rparr> # children,
      db_workflows = [\<lparr>w_id = ''w'', w_active = True, w_deleted = False, w_active_version_id = Some ''v''\<rparr>,
        \<lparr>w_id = ''c'', w_active = True, w_deleted = False, w_active_version_id = Some ''cv''\<rparr>],
      db_versions = [\<lparr>v_id = ''v'', v_workflow_id = ''w'', v_awaited_steps = Some [''s'']\<rparr>,
        \<lparr>v_id = ''cv'', v_workflow_id = ''c'', v_awaited_steps = Some []\<rparr>],
      db_cancellations = cs\<rparr>,
     wd_creates = [], wd_terminates = []\<rparr>"

definition example_child :: child_reservation where
  "example_child = \<lparr>cr_parentRunId = ''r'', cr_parentStepId = ''s'', cr_childRunId = ''k'',
     cr_childWorkflowId = ''c'', cr_childVersionId = ''cv'', cr_admissionKey = ''a'',
     cr_requestDigest = ''d'', cr_inputJson = ''{}'', cr_timestamp = 3\<rparr>"

text \<open>A schedule: which program goes on, with the answer of the platform where the store gives none.\<close>

fun play_pool :: "(nat \<times> child_answer) list \<Rightarrow> world \<times> 'r child_prog list \<Rightarrow> world \<times> 'r child_prog list" where
  "play_pool [] c = c"
| "play_pool ((i, e) # es) (w, ps) =
    play_pool es
      (if i < length ps
       then (case ps ! i of
               Ask q k \<Rightarrow> (case child_act q w of (Some a, w') \<Rightarrow> (w', ps[i := k a]) | (None, w') \<Rightarrow> (w', ps[i := k e]))
             | _ \<Rightarrow> (w, ps))
       else (w, ps))"

lemma play_pool_moves:
  "pool_moves child_answers others main c d \<Longrightarrow> pool_moves child_answers others main c (play_pool es d)"
proof (induction es d rule: play_pool.induct)
  case (2 i e es w ps)
  show ?case
    unfolding play_pool.simps
    by (rule "2.IH")
      (use "2.prems" in \<open>auto split: prog.split prod.split option.split intro: pool_moves.progress answered external\<close>)
qed simp

text \<open>Two starts of the child overlap: both read it as reserved, one claims it and loses the answer of
  its create request, and a third start finds it undecided.\<close>

definition example_pool :: "child_result child_prog list" where
  "example_pool = replicate 3 (mapP Starts (startReservedDetachedChild ''r'' ''s'' ''k'' 5))"

definition example_end :: "world \<times> child_result child_prog list" where
  "example_end = play_pool [(0, Ok), (1, Ok), (0, Ok), (1, Ok), (0, Thrown ''timeout''), (2, Ok), (0, Ok),
     (0, GotLookup (Inl None)), (2, GotLookup (Inl None))] (example_world 1 [child_row example_child] [], example_pool)"

lemma detached_created_once_witness:
  "count_list (wd_creates (fst example_end)) ''k'' = 1 \<and> count_list (wd_creates (fst example_end)) ''k'' \<le> 1"
proof
  show "count_list (wd_creates (fst example_end)) ''k'' = 1" by code_simp
  have "child_moves ''k'' (example_world 1 [child_row example_child] [], [])
      (example_world 1 [child_row example_child] [], example_pool)"
    unfolding child_moves_def example_pool_def numeral_3_eq_3 replicate.simps
    by (intro pool_moves.launch pool_moves.stay child_handler.starts)
  then have "child_moves ''k'' (example_world 1 [child_row example_child] [], []) example_end"
    unfolding child_moves_def example_end_def by (rule play_pool_moves)
  then have "child_moves ''k'' (example_world 1 [child_row example_child] [], []) (fst example_end, snd example_end)"
    by simp
  moreover have "fresh_tables (example_world 1 [child_row example_child] [])" by code_simp
  ultimately show "count_list (wd_creates (fst example_end)) ''k'' \<le> 1"
    by (rule detached_created_once [THEN conjunct1])
qed

end
