(* ===== verification/BrowserIntents.thy ===== *)
theory BrowserIntents
  imports WebTypes
begin

text \<open>
  The durable intent ledger of \<open>apps/browser-mcp-worker\<close>: \<open>src/interactions.ts\<close> and
  \<open>src/intents.ts\<close>. The tables are lists of rows; a method that awaits a digest between
  two accesses to the tables is split there, because other requests run in between.

  Parameters of the model: the URL parser, the HMAC of the ledger's key (\<open>hmac\<close>, applied
  to the canonical text of a command), the SHA-256 digest (\<open>sha\<close>), and the random values
  and clock readings, which are arguments of the operations. An argument that should be a
  string and is not counts as the empty string, which no pattern accepts.
\<close>

section \<open>Interactions\<close>

definition interactionActions :: "string list" where
  "interactionActions = [''click'', ''fill'', ''keypress'', ''scroll'', ''select'']"

definition interactionExtra :: "string \<Rightarrow> string list" where
  "interactionExtra action =
    (if action = ''fill'' then [''text''] else if action = ''keypress'' then [''key'']
     else if action = ''scroll'' then [''delta_y''] else if action = ''select'' then [''value''] else [])"

definition isInteraction :: "json option \<Rightarrow> bool" where
  "isInteraction action \<longleftrightarrow> (case as_str action of Some a \<Rightarrow> a \<in> set interactionActions | None \<Rightarrow> False)"

definition str_field :: "(string \<times> json) list \<Rightarrow> string \<Rightarrow> string" where
  "str_field c k = (case as_str (obj_get c k) of Some s \<Rightarrow> s | None \<Rightarrow> [])"

definition length_between :: "json option \<Rightarrow> nat \<Rightarrow> nat \<Rightarrow> bool" where
  \<comment> \<open>a string of a length in the given range\<close>
  "length_between v lo hi \<longleftrightarrow>
     (case as_str v of Some s \<Rightarrow> lo \<le> length s \<and> length s \<le> hi | None \<Rightarrow> False)"

definition natural_field :: "json option \<Rightarrow> bool" where
  "natural_field v \<longleftrightarrow> (case safe_int v of Some i \<Rightarrow> 0 \<le> i | None \<Rightarrow> False)"

definition element_pattern :: "(char \<Rightarrow> bool) list" where
  "element_pattern = lit ''e-'' @ replicate 36 (\<lambda>c. is_hex c \<or> c = CHR ''-'')"

definition keypressKeys :: "string list" where
  "keypressKeys = [''ArrowUp'', ''ArrowDown'', ''ArrowLeft'', ''ArrowRight'', ''Home'', ''End'', ''Escape'']"

definition validInteraction :: "(string \<times> json) list \<Rightarrow> bool" where
  "validInteraction c =
    (if \<not> isInteraction (obj_get c ''action'') then False
     else
       let action = str_field c ''action'';
           keys = [''endpoint_id'', ''intent_key'', ''action'', ''tab_id'', ''document_id'', ''element_id''] @
             interactionExtra action
       in if length (obj_keys c) \<noteq> length keys \<or> list_ex (\<lambda>k. k \<notin> set (obj_keys c)) keys then False
          else if \<not> is_uuid (str_field c ''endpoint_id'') \<or> \<not> is_uuid_v7 (str_field c ''intent_key'') \<or>
             \<not> natural_field (obj_get c ''tab_id'') \<or> \<not> length_between (obj_get c ''document_id'') 1 200 \<or>
             \<not> matches element_pattern (str_field c ''element_id'') then False
          else if action = ''fill'' then length_between (obj_get c ''text'') 0 2000
          else if action = ''select'' then length_between (obj_get c ''value'') 0 200
          else if action = ''keypress'' then
            (case as_str (obj_get c ''key'') of Some k \<Rightarrow> k \<in> set keypressKeys | None \<Rightarrow> False)
          else if action = ''scroll'' then
            (case safe_int (obj_get c ''delta_y'') of Some d \<Rightarrow> \<bar>d\<bar> \<le> 1000 \<and> d \<noteq> 0 | None \<Rightarrow> False)
          else True)"

section \<open>The tables\<close>

datatype istate =
  Admitted | PendingApproval | Denied | Dispatching | Unknown | OwnerReported | Completed | Failed | Expired

record intent_row =
  ir_endpoint_id :: string
  ir_intent_key :: string
  ir_operation_id :: string
  ir_action :: string
  ir_commitment :: string
  ir_state :: istate
  ir_generation :: "int option"
  ir_prepared_revision :: "int option"
  ir_token_hash :: "string option"
  ir_created_at :: int
  ir_updated_at :: int
  ir_tab_id :: "int option"
  ir_result_code :: "string option"

record ledger =
  lg_secret :: "string option"
  lg_rows :: "intent_row list"
  lg_reviews :: "(string \<times> string option) list"  \<comment> \<open>operation id and outcome\<close>

record answer =
  an_operation_id :: "string option"
  an_state :: "istate option"
  an_tab_id :: "int option"
  an_report :: "string option"
  an_next :: "string option"
  an_error :: "string option"
  an_token :: "string option"
  an_fresh :: bool
  an_warning :: "string option"

definition no_answer :: answer where
  "no_answer = \<lparr>an_operation_id = None, an_state = None, an_tab_id = None, an_report = None,
     an_next = None, an_error = None, an_token = None, an_fresh = False, an_warning = None\<rparr>"

definition error_answer :: "string \<Rightarrow> answer" where
  "error_answer e = no_answer\<lparr>an_error := Some e\<rparr>"

definition sevenDays :: int where "sevenDays = 7 * 86400000"

definition fiveMinutes :: int where "fiveMinutes = 5 * 60000"

definition approvalExpiryReasons :: "string list" where
  "approvalExpiryReasons = [''approval_deadline_expired'', ''approval_endpoint_changed'',
     ''approval_extension_context_invalid'', ''approval_retired'']"

definition failureActions :: "(string \<times> string) list" where
  "failureActions =
    [(''forbidden'', ''blocked_forbidden_target''),
     (''stale_target'', ''reobserve_target_before_new_intent''),
     (''stale_element'', ''reobserve_target_before_new_intent''),
     (''sensitive_surface'', ''blocked_sensitive_surface''),
     (''unsupported_input'', ''manual_owner_input_or_separately_review_trusted_input; do_not_claim_success''),
     (''stopped'', ''owner_must_resume_locally''),
     (''preparation_unavailable'', ''extension_prepare_failed; confirm installed extension version before a new intent''),
     (''prepare_validation_unavailable'', ''extension_target_validation_failed; check local extension readiness''),
     (''prepare_context_changed'', ''extension_authorization_or_session_changed; verify enabled Profile and reconnect''),
     (''prepare_storage_unavailable'', ''extension_session_prepare_storage_failed; check extension session storage''),
     (''prepare_expired'', ''extension_prepare_deadline_invalid; do not reuse this operation''),
     (''capacity_exceeded'', ''review_operation_capacity''),
     (''ordinary_window_required'', ''owner_must_open_ordinary_window'')]"

definition safeFailureCode :: "string option \<Rightarrow> string option" where
  "safeFailureCode v =
    (case v of None \<Rightarrow> None | Some c \<Rightarrow> if c \<in> set (map fst failureActions) then Some c else None)"

section \<open>Commands\<close>

definition web_url :: "(string \<Rightarrow> url option) \<Rightarrow> string \<Rightarrow> bool" where
  "web_url parse_url s \<longleftrightarrow>
     (case parse_url s of
        None \<Rightarrow> False
      | Some u \<Rightarrow> url_protocol u \<in> {''http:'', ''https:''} \<and> url_username u = [] \<and> url_password u = [])"

definition validCommand :: "(string \<Rightarrow> url option) \<Rightarrow> (string \<times> json) list \<Rightarrow> bool" where
  "validCommand parse_url c =
    (if isInteraction (obj_get c ''action'') then validInteraction c
     else if \<not> is_uuid (str_field c ''endpoint_id'') \<or> \<not> is_uuid_v7 (str_field c ''intent_key'') then False
     else
       let action = str_field c ''action''
       in if action \<notin> {''tab_open'', ''tab_navigate'', ''tab_close''} then False
          else if action = ''tab_open'' \<and>
             (obj_get c ''tab_id'' \<noteq> None \<or> obj_get c ''document_id'' \<noteq> None) then False
          else if action \<noteq> ''tab_open'' \<and>
             (\<not> natural_field (obj_get c ''tab_id'') \<or> \<not> length_between (obj_get c ''document_id'') 1 200) then False
          else if action = ''tab_close'' then obj_get c ''url'' = None
          else if \<not> length_between (obj_get c ''url'') 0 2048 then False
          else web_url parse_url (str_field c ''url''))"

definition or_null :: "json option \<Rightarrow> json" where
  "or_null v = (case v of None \<Rightarrow> JNull | Some j \<Rightarrow> j)"

definition canonical_command :: "(string \<times> json) list \<Rightarrow> string" where
  "canonical_command c =
    (let v = (\<lambda>k. or_null (obj_get c k)) in
     stringify (JArr ([v ''endpoint_id'', v ''action'', v ''tab_id'', v ''document_id'', v ''url''] @
       (if isInteraction (obj_get c ''action'')
        then [v ''element_id'', v ''text'', v ''key'', v ''delta_y'', v ''value''] else []))))"

section \<open>The ledger\<close>

definition ir_id :: "intent_row \<Rightarrow> string \<times> string" where
  "ir_id r = (ir_endpoint_id r, ir_intent_key r)"

definition intent_at :: "ledger \<Rightarrow> string \<Rightarrow> string \<Rightarrow> intent_row option" where
  \<comment> \<open>the method \<open>row\<close>\<close>
  "intent_at lg ep key = List.find (\<lambda>r. ir_id r = (ep, key)) (lg_rows lg)"

definition byOperation :: "ledger \<Rightarrow> string \<Rightarrow> intent_row option" where
  "byOperation lg op = List.find (\<lambda>r. ir_operation_id r = op) (lg_rows lg)"

definition upd_intents :: "(intent_row \<Rightarrow> bool) \<Rightarrow> (intent_row \<Rightarrow> intent_row) \<Rightarrow> ledger \<Rightarrow> ledger" where
  "upd_intents g f lg = lg\<lparr>lg_rows := upd_rows g f (lg_rows lg)\<rparr>"

definition open_ledger :: "string \<Rightarrow> ledger \<Rightarrow> ledger" where
  \<comment> \<open>the constructor, with the random secret it may store\<close>
  "open_ledger fresh lg =
    (if lg_secret lg = None then lg\<lparr>lg_secret := Some fresh\<rparr> else lg)"

definition exposed :: "ledger \<Rightarrow> intent_row \<Rightarrow> answer" where
  "exposed lg r =
    (let review = (case map_of (lg_reviews lg) (ir_operation_id r) of Some (Some outcome) \<Rightarrow> outcome | _ \<Rightarrow> []);
         failed = (if ir_state r = Failed then safeFailureCode (ir_result_code r) else None);
         expired = (ir_state r = Expired \<and>
           (case ir_result_code r of Some c \<Rightarrow> c \<in> set approvalExpiryReasons | None \<Rightarrow> False))
     in no_answer\<lparr>an_operation_id := Some (ir_operation_id r), an_state := Some (ir_state r),
          an_tab_id := ir_tab_id r,
          an_report := (if review = ''effect_seen'' \<or> review = ''no_effect_seen'' then Some review else None),
          an_next :=
            (case failed of
               Some c \<Rightarrow> map_of failureActions c
             | None \<Rightarrow>
                 if ir_result_code r = Some ''approval_blocked''
                 then Some ''Blocked: independent owner approval is unavailable''
                 else if ir_state r = OwnerReported
                 then Some ''owner_report_recorded; no automatic execution or confirmed website result''
                 else if ir_state r = Unknown
                 then Some ''outcome_unknown; inspect_original_receipt; never_retry_original_intent''
                 else None),
          an_error :=
            (if failed \<noteq> None \<or> expired \<or> ir_result_code r = Some ''approval_blocked'' \<or>
                ir_result_code r = Some ''capacity_exceeded''
             then ir_result_code r else None),
          an_warning :=
            (if ir_result_code r = Some ''tab_group_unavailable'' then ir_result_code r else None)\<rparr>)"

definition status :: "ledger \<Rightarrow> string \<Rightarrow> string \<Rightarrow> answer" where
  "status lg ep key =
    (if \<not> is_uuid ep \<or> \<not> is_uuid_v7 key then error_answer ''invalid_arguments''
     else case intent_at lg ep key of Some r \<Rightarrow> exposed lg r | None \<Rightarrow> error_answer ''not_found'')"

definition sweep :: "int \<Rightarrow> ledger \<Rightarrow> ledger" where
  "sweep now lg =
    upd_intents (\<lambda>r. ir_state r = Admitted \<and> ir_created_at r < now - fiveMinutes)
      (\<lambda>r. r\<lparr>ir_state := Expired, ir_updated_at := now\<rparr>)
      (lg\<lparr>lg_rows := filter (\<lambda>r. \<not> (ir_state r \<in> {Completed, Failed, Expired, Denied} \<and>
        ir_updated_at r < now - sevenDays)) (lg_rows lg)\<rparr>)"

definition unknown_count :: "int \<Rightarrow> ledger \<Rightarrow> nat" where
  "unknown_count now lg =
    length (filter (\<lambda>r. ir_state r = Unknown \<and> now - sevenDays \<le> ir_created_at r) (lg_rows lg))"

definition new_intent :: "(string \<times> json) list \<Rightarrow> string \<Rightarrow> string \<Rightarrow> int \<Rightarrow> intent_row" where
  "new_intent c commitment op now =
    \<lparr>ir_endpoint_id = str_field c ''endpoint_id'', ir_intent_key = str_field c ''intent_key'',
     ir_operation_id = op, ir_action = str_field c ''action'', ir_commitment = commitment,
     ir_state = Admitted, ir_generation = None, ir_prepared_revision = None, ir_token_hash = None,
     ir_created_at = now, ir_updated_at = now, ir_tab_id = None, ir_result_code = None\<rparr>"

definition answer_existing :: "ledger \<Rightarrow> string \<Rightarrow> intent_row \<Rightarrow> answer" where
  "answer_existing lg commitment r =
    (if ir_commitment r = commitment then exposed lg r else error_answer ''intent_conflict'')"

definition admit_commit ::
  "(string \<times> json) list \<Rightarrow> string \<Rightarrow> int \<Rightarrow> nat \<Rightarrow> string \<Rightarrow> ledger \<Rightarrow> answer \<times> ledger" where
  \<comment> \<open>the rest of \<open>admit\<close> after the commitment, which runs without a pause\<close>
  "admit_commit c commitment now maxUnknown op lg =
    (let ep = str_field c ''endpoint_id''; key = str_field c ''intent_key''
     in case intent_at lg ep key of
          Some r \<Rightarrow> (answer_existing lg commitment r, lg)
        | None \<Rightarrow>
            if uuid_time key > now + 30000 then (error_answer ''clock_skew'', lg)
            else if uuid_time key < now - fiveMinutes then (error_answer ''expired_intent_key'', lg)
            else
              let lg1 = sweep now lg
              in if unknown_count now lg1 \<ge> maxUnknown then (error_answer ''unknown_capacity_exceeded'', lg1)
                 else if intent_at lg1 ep key \<noteq> None \<or> byOperation lg1 op \<noteq> None
                 then (case intent_at lg1 ep key of
                         Some r \<Rightarrow> (answer_existing lg1 commitment r, lg1)
                       | None \<Rightarrow> (error_answer ''storage_unavailable'', lg1))
                 else (no_answer\<lparr>an_operation_id := Some op, an_state := Some Admitted, an_fresh := True\<rparr>,
                       lg1\<lparr>lg_rows := lg_rows lg1 @ [new_intent c commitment op now]\<rparr>))"

definition admit ::
  "(string \<Rightarrow> url option) \<Rightarrow> (string \<Rightarrow> string) \<Rightarrow> (string \<times> json) list \<Rightarrow> int \<Rightarrow> nat \<Rightarrow> string \<Rightarrow> ledger \<Rightarrow>
     answer \<times> ledger" where
  "admit parse_url hmac c now maxUnknown op lg =
    (if \<not> is_uuid (str_field c ''endpoint_id'') \<or> \<not> is_uuid_v7 (str_field c ''intent_key'')
     then (error_answer ''invalid_intent_key'', lg)
     else if \<not> validCommand parse_url c then (error_answer ''invalid_arguments'', lg)
     else admit_commit c (hmac (canonical_command c)) now maxUnknown op lg)"

definition bindPrepare :: "string \<Rightarrow> string \<Rightarrow> int \<Rightarrow> int \<Rightarrow> int \<Rightarrow> ledger \<Rightarrow> bool \<times> ledger" where
  \<comment> \<open>the generation and the revision are safe integers\<close>
  "bindPrepare ep key generation revision now lg =
    (if generation < 1 \<or> revision < 0 then (False, lg)
     else
       let lg1 = upd_intents (\<lambda>r. ir_id r = (ep, key) \<and> ir_state r = Admitted \<and> ir_generation r = None)
             (\<lambda>r. r\<lparr>ir_generation := Some generation, ir_prepared_revision := Some revision,
                ir_updated_at := now\<rparr>) lg
       in (case intent_at lg1 ep key of
             None \<Rightarrow> False
           | Some r \<Rightarrow> ir_state r = Admitted \<and> ir_generation r = Some generation \<and>
               ir_prepared_revision r = Some revision \<and> ir_updated_at r = now, lg1))"

definition matchesPrepare :: "string \<Rightarrow> string \<Rightarrow> string \<Rightarrow> int \<Rightarrow> int \<Rightarrow> int \<Rightarrow> ledger \<Rightarrow> bool" where
  "matchesPrepare ep key op generation revision now lg \<longleftrightarrow>
     (case intent_at lg ep key of
        None \<Rightarrow> False
      | Some r \<Rightarrow> ir_state r = Admitted \<and> ir_operation_id r = op \<and> ir_generation r = Some generation \<and>
          ir_prepared_revision r = Some revision \<and> ir_updated_at r \<le> now \<and> now - ir_updated_at r \<le> 8000)"

definition reconcile :: "int \<Rightarrow> ledger \<Rightarrow> ledger" where
  "reconcile now lg =
    upd_intents (\<lambda>r. ir_state r = Admitted \<and> ir_generation r \<noteq> None \<and> ir_updated_at r < now - 8000)
      (\<lambda>r. r\<lparr>ir_state := Failed, ir_updated_at := now\<rparr>)
      (upd_intents (\<lambda>r. ir_state r = Dispatching \<and> ir_updated_at r < now - 8000)
        (\<lambda>r. r\<lparr>ir_state := Unknown, ir_updated_at := now\<rparr>) lg)"

definition hasDispatching :: "string \<Rightarrow> ledger \<Rightarrow> bool" where
  "hasDispatching ep lg \<longleftrightarrow> list_ex (\<lambda>r. ir_endpoint_id r = ep \<and> ir_state r = Dispatching) (lg_rows lg)"

definition dispatch_check :: "string \<Rightarrow> string \<Rightarrow> int \<Rightarrow> ledger \<Rightarrow> answer + string" where
  \<comment> \<open>\<open>dispatch\<close> up to the digest of the new token; the operation id is returned\<close>
  "dispatch_check ep key generation lg =
    (case intent_at lg ep key of
       None \<Rightarrow> Inl (error_answer ''not_found'')
     | Some r \<Rightarrow>
         if ir_state r \<noteq> Admitted then Inl (error_answer ''already_dispatched'')
         else if generation < 1 then Inl (error_answer ''invalid_generation'')
         else if hasDispatching ep lg then Inl (error_answer ''busy'')
         else Inr (ir_operation_id r))"

definition dispatch_commit ::
  "string \<Rightarrow> string \<Rightarrow> int \<Rightarrow> string \<Rightarrow> string \<Rightarrow> string \<Rightarrow> int \<Rightarrow> ledger \<Rightarrow> answer \<times> ledger" where
  \<comment> \<open>the rest: the UPDATE violates the unique index if another intent is dispatching\<close>
  "dispatch_commit ep key generation op token tokenHash now lg =
    (let guard = (\<lambda>r. ir_id r = (ep, key) \<and> ir_state r = Admitted)
     in if list_ex guard (lg_rows lg) \<and> hasDispatching ep lg then (error_answer ''busy'', lg)
        else
          let lg1 = upd_intents guard (\<lambda>r. r\<lparr>ir_state := Dispatching, ir_generation := Some generation,
                ir_token_hash := Some tokenHash, ir_updated_at := now\<rparr>) lg
          in (case intent_at lg1 ep key of
                None \<Rightarrow> error_answer ''already_dispatched''
              | Some r \<Rightarrow>
                  if ir_state r \<noteq> Dispatching \<or> ir_generation r \<noteq> Some generation \<or>
                     ir_token_hash r \<noteq> Some tokenHash
                  then error_answer ''already_dispatched''
                  else no_answer\<lparr>an_operation_id := Some op, an_state := Some Dispatching,
                    an_token := Some token\<rparr>, lg1))"

definition abort :: "string \<Rightarrow> string \<Rightarrow> int \<Rightarrow> ledger \<Rightarrow> answer \<times> ledger" where
  "abort ep key now lg =
    (if intent_at lg ep key = None then (error_answer ''not_found'', lg)
     else
       let lg1 = upd_intents (\<lambda>r. ir_id r = (ep, key) \<and> ir_state r = Admitted)
             (\<lambda>r. r\<lparr>ir_state := Failed, ir_updated_at := now\<rparr>) lg
       in (status lg1 ep key, lg1))"

definition markUnknown :: "string \<Rightarrow> string \<Rightarrow> int \<Rightarrow> ledger \<Rightarrow> answer \<times> ledger" where
  "markUnknown ep key now lg =
    (if intent_at lg ep key = None then (error_answer ''not_found'', lg)
     else
       let lg1 = upd_intents (\<lambda>r. ir_id r = (ep, key) \<and> ir_state r = Dispatching)
             (\<lambda>r. r\<lparr>ir_state := Unknown, ir_updated_at := now\<rparr>) lg
       in (status lg1 ep key, lg1))"

definition activitySummary :: "string \<Rightarrow> ledger \<Rightarrow> nat \<times> nat" where
  \<comment> \<open>pending and unknown\<close>
  "activitySummary ep lg =
    (if \<not> is_uuid ep then (0, 0)
     else (length (filter (\<lambda>r. ir_endpoint_id r = ep \<and> ir_state r \<in> {Admitted, Dispatching}) (lg_rows lg)),
           length (filter (\<lambda>r. ir_endpoint_id r = ep \<and> ir_state r = Unknown) (lg_rows lg))))"

definition recoverUnknown :: "int \<Rightarrow> ledger \<Rightarrow> nat \<times> ledger" where
  "recoverUnknown now lg =
    (length (filter (\<lambda>r. ir_state r = Dispatching) (lg_rows lg)),
     upd_intents (\<lambda>r. ir_state r = Dispatching) (\<lambda>r. r\<lparr>ir_state := Unknown, ir_updated_at := now\<rparr>) lg)"

definition retirePendingApprovals :: "int \<Rightarrow> ledger \<Rightarrow> ledger" where
  "retirePendingApprovals now lg =
    upd_intents (\<lambda>r. ir_state r = PendingApproval)
      (\<lambda>r. r\<lparr>ir_state := Expired, ir_updated_at := now, ir_result_code := Some ''approval_retired''\<rparr>) lg"

text \<open>The arguments of a receipt.\<close>

record receipt =
  rc_endpoint_id :: string
  rc_intent_key :: string
  rc_token :: string
  rc_generation :: int
  rc_result :: istate
  rc_tab_id :: "int option"
  rc_warning :: "string option"
  rc_failure :: "string option"

definition finalize_check :: "(string \<Rightarrow> string) \<Rightarrow> receipt \<Rightarrow> ledger \<Rightarrow> answer option" where
  \<comment> \<open>the checks of \<open>finalize\<close>; None lets it go on\<close>
  "finalize_check sha q lg =
    (case intent_at lg (rc_endpoint_id q) (rc_intent_key q) of
       None \<Rightarrow> Some (error_answer ''not_found'')
     | Some r \<Rightarrow>
         if ir_state r \<noteq> Dispatching \<and> ir_state r \<noteq> Unknown \<and>
            \<not> (ir_state r = OwnerReported \<and> rc_result q \<noteq> Unknown)
         then Some (error_answer ''not_dispatching'')
         else if \<not> hex64 (rc_token q) \<or> ir_generation r \<noteq> Some (rc_generation q) \<or>
            ir_token_hash r \<noteq> Some (sha (rc_token q))
         then Some (error_answer ''receipt_mismatch'')
         else if rc_result q \<notin> {Completed, Failed, Unknown} \<or>
            (rc_result q = Completed \<and> rc_tab_id q = None) \<or>
            (case rc_tab_id q of Some t \<Rightarrow> t < 0 \<or> MAX_SAFE_INTEGER < t | None \<Rightarrow> False) \<or>
            (rc_warning q \<noteq> None \<and> (rc_result q \<noteq> Completed \<or> ir_action r \<noteq> ''tab_open'' \<or>
               rc_warning q \<noteq> Some ''tab_group_unavailable'')) \<or>
            (rc_failure q \<noteq> None \<and> (rc_result q \<noteq> Failed \<or> safeFailureCode (rc_failure q) = None))
         then Some (error_answer ''invalid_arguments'')
         else None)"

definition finalize_commit :: "receipt \<Rightarrow> int \<Rightarrow> ledger \<Rightarrow> answer \<times> ledger" where
  "finalize_commit q now lg =
    (let ep = rc_endpoint_id q; key = rc_intent_key q;
         lg1 = upd_intents (\<lambda>r. ir_id r = (ep, key) \<and> ir_state r \<in> {Dispatching, Unknown, OwnerReported})
           (\<lambda>r. r\<lparr>ir_state := rc_result q, ir_updated_at := now, ir_tab_id := rc_tab_id q,
              ir_result_code := (if rc_warning q \<noteq> None then rc_warning q else rc_failure q)\<rparr>) lg
     in (case intent_at lg1 ep key of
           None \<Rightarrow> error_answer ''not_dispatching''
         | Some r \<Rightarrow>
             if ir_state r \<noteq> rc_result q \<or> ir_updated_at r \<noteq> now \<or> ir_tab_id r \<noteq> rc_tab_id q
             then error_answer ''not_dispatching'' else status lg1 ep key, lg1))"

end
