(* ===== verification/BrowserLedger.thy ===== *)
theory BrowserLedger
  imports BrowserIntents
begin

text \<open>
  Runs of the intent ledger: any interleaving of the ledger's atomic segments, with the
  tokens handed out and the receipts that passed their checks recorded beside the tables.
  The coordinator reads the clock when a request arrives and uses that reading after its
  pauses, so a segment carries a reading that may be older than the time it runs at.
\<close>

section \<open>Segments and runs\<close>

datatype ledger_op =
    Admit "(string \<times> json) list" int nat string
  | BindPrepare string string int int int
  | Reconcile int
  | DispatchCommit string string int string string int
  | Abort string string int
  | MarkUnknown string string int
  | RecoverUnknown int
  | FinalizeCheck receipt int
  | FinalizeCommit receipt int
  | RetirePending int
  | RecordDenial string string int

record ledger_world =
  lw_ledger :: ledger
  lw_issued :: "((string \<times> string) \<times> string) list"  \<comment> \<open>intent and execute token\<close>
  lw_verified :: "receipt list"

definition rc_id :: "receipt \<Rightarrow> string \<times> string" where
  "rc_id q = (rc_endpoint_id q, rc_intent_key q)"

definition record_denial :: "string \<Rightarrow> string \<Rightarrow> ledger \<Rightarrow> ledger" where
  \<comment> \<open>the statement by which the coordinator stores the reason of a refused prepare\<close>
  "record_denial op result lg =
    upd_intents (\<lambda>r. ir_operation_id r = op \<and> ir_state r = Failed) (\<lambda>r. r\<lparr>ir_result_code := Some result\<rparr>) lg"

fun op_now :: "ledger_op \<Rightarrow> int" where
  "op_now (Admit c now m op) = now"
| "op_now (BindPrepare ep key g rv now) = now"
| "op_now (Reconcile now) = now"
| "op_now (DispatchCommit ep key g op token now) = now"
| "op_now (Abort ep key now) = now"
| "op_now (MarkUnknown ep key now) = now"
| "op_now (RecoverUnknown now) = now"
| "op_now (FinalizeCheck q now) = now"
| "op_now (FinalizeCommit q now) = now"
| "op_now (RetirePending now) = now"
| "op_now (RecordDenial op c now) = now"

fun ledger_step ::
  "(string \<Rightarrow> url option) \<Rightarrow> (string \<Rightarrow> string) \<Rightarrow> (string \<Rightarrow> string) \<Rightarrow> ledger_op \<Rightarrow> ledger_world \<Rightarrow> ledger_world"
  where
  "ledger_step parse_url hmac sha (Admit c now m op) w =
     w\<lparr>lw_ledger := snd (admit parse_url hmac c now m op (lw_ledger w))\<rparr>"
| "ledger_step parse_url hmac sha (BindPrepare ep key g rv now) w =
     w\<lparr>lw_ledger := snd (bindPrepare ep key g rv now (lw_ledger w))\<rparr>"
| "ledger_step parse_url hmac sha (Reconcile now) w = w\<lparr>lw_ledger := reconcile now (lw_ledger w)\<rparr>"
| "ledger_step parse_url hmac sha (DispatchCommit ep key g op token now) w =
     (let (a, lg) = dispatch_commit ep key g op token (sha token) now (lw_ledger w)
      in w\<lparr>lw_ledger := lg,
           lw_issued := (if an_token a = None then lw_issued w else lw_issued w @ [((ep, key), token)])\<rparr>)"
| "ledger_step parse_url hmac sha (Abort ep key now) w =
     w\<lparr>lw_ledger := snd (abort ep key now (lw_ledger w))\<rparr>"
| "ledger_step parse_url hmac sha (MarkUnknown ep key now) w =
     w\<lparr>lw_ledger := snd (markUnknown ep key now (lw_ledger w))\<rparr>"
| "ledger_step parse_url hmac sha (RecoverUnknown now) w =
     w\<lparr>lw_ledger := snd (recoverUnknown now (lw_ledger w))\<rparr>"
| "ledger_step parse_url hmac sha (FinalizeCheck q now) w =
     (if finalize_check sha q (lw_ledger w) = None then w\<lparr>lw_verified := lw_verified w @ [q]\<rparr> else w)"
| "ledger_step parse_url hmac sha (FinalizeCommit q now) w =
     (if q \<in> set (lw_verified w) then w\<lparr>lw_ledger := snd (finalize_commit q now (lw_ledger w))\<rparr> else w)"
| "ledger_step parse_url hmac sha (RetirePending now) w =
     w\<lparr>lw_ledger := retirePendingApprovals now (lw_ledger w)\<rparr>"
| "ledger_step parse_url hmac sha (RecordDenial op c now) w =
     w\<lparr>lw_ledger := record_denial op c (lw_ledger w)\<rparr>"

text \<open>The time is that of the clock when the segment runs; its own reading is not from the
  future and at most \<open>STALE\<close> old, a day, longer than any request lives.\<close>

definition STALE :: int where "STALE = 86400000"

fun well_timed :: "int \<Rightarrow> (int \<times> ledger_op) list \<Rightarrow> bool" where
  "well_timed T [] \<longleftrightarrow> True"
| "well_timed T ((t, op) # ops) \<longleftrightarrow> T \<le> t \<and> t - STALE \<le> op_now op \<and> op_now op \<le> t \<and> well_timed t ops"

definition ledger_run ::
  "(string \<Rightarrow> url option) \<Rightarrow> (string \<Rightarrow> string) \<Rightarrow> (string \<Rightarrow> string) \<Rightarrow> (int \<times> ledger_op) list \<Rightarrow>
     ledger_world \<Rightarrow> ledger_world" where
  "ledger_run parse_url hmac sha ops w = fold (\<lambda>(t, op). ledger_step parse_url hmac sha op) ops w"

definition empty_ledger :: ledger where
  "empty_ledger = \<lparr>lg_secret = None, lg_rows = [], lg_reviews = []\<rparr>"

definition initial_world :: ledger_world where
  "initial_world = \<lparr>lw_ledger = empty_ledger, lw_issued = [], lw_verified = []\<rparr>"

section \<open>The effect of a segment on the rows\<close>

text \<open>
  What a segment may do to the rows: drop finished ones, change rows without changing what
  they are, and append an admitted one. One segment takes an intent along at most one edge of the
  following graph; None stands for an intent that has no row. The graph has a cycle through None
  (the row of a finished intent is deleted after a week), so what it says of an intent is said edge
  by edge, with its closure used nowhere.
\<close>

inductive moves :: "istate option \<Rightarrow> istate option \<Rightarrow> bool" where
  admitted: "moves None (Some Admitted)"
| dispatched: "moves (Some Admitted) (Some Dispatching)"
| given_up: "moves (Some Admitted) (Some Failed)"
| outdated: "moves (Some Admitted) (Some Expired)"
| lost: "moves (Some Dispatching) (Some Unknown)"
| answered: "st \<in> {Dispatching, Unknown, OwnerReported} \<Longrightarrow> res \<in> {Completed, Failed, Unknown} \<Longrightarrow>
    moves (Some st) (Some res)"
| retired: "moves (Some PendingApproval) (Some Expired)"
| swept: "st \<in> {Completed, Failed, Expired, Denied} \<Longrightarrow> moves (Some st) None"

inductive_simps moves_to_dispatching: "moves p (Some Dispatching)"
inductive_simps moves_to_admitted: "moves p (Some Admitted)"
inductive_simps moves_from_unknown: "moves (Some Unknown) q"
inductive_cases moves_SomeE: "moves (Some st) q"

definition phase :: "ledger \<Rightarrow> string \<times> string \<Rightarrow> istate option" where
  "phase lg k = map_option ir_state (List.find (\<lambda>r. ir_id r = k) (lg_rows lg))"

section \<open>The invariant\<close>

definition time_ok :: "int \<Rightarrow> intent_row \<Rightarrow> bool" where
  "time_ok T r \<longleftrightarrow> uuid_time (ir_intent_key r) \<le> ir_created_at r + 30000 \<and>
     ir_created_at r - STALE \<le> ir_updated_at r \<and> ir_updated_at r \<le> T \<and> ir_created_at r \<le> T"

definition dispatching_endpoints :: "intent_row list \<Rightarrow> string list" where
  "dispatching_endpoints rows = map ir_endpoint_id (filter (\<lambda>r. ir_state r = Dispatching) rows)"

lemma dispatching_endpoints_simps [simp]:
  "dispatching_endpoints [] = []"
  "dispatching_endpoints (r # rows) =
    (if ir_state r = Dispatching then [ir_endpoint_id r] else []) @ dispatching_endpoints rows"
  by (simp_all add: dispatching_endpoints_def)

definition token_known :: "(string \<Rightarrow> string) \<Rightarrow> ((string \<times> string) \<times> string) list \<Rightarrow> intent_row \<Rightarrow> bool" where
  \<comment> \<open>a token hash is that of the token handed out for the intent\<close>
  "token_known sha issued r \<longleftrightarrow>
     (case ir_token_hash r of
        None \<Rightarrow> ir_state r \<notin> {Dispatching, Unknown, Completed}
      | Some h \<Rightarrow> ir_state r \<noteq> Admitted \<and> (\<exists>t. (ir_id r, t) \<in> set issued \<and> h = sha t))"

definition backed :: "receipt list \<Rightarrow> intent_row \<Rightarrow> bool" where
  "backed verified r \<longleftrightarrow>
     (ir_state r = Completed \<longrightarrow> (\<exists>q \<in> set verified. rc_id q = ir_id r \<and> rc_result q = Completed))"

definition accounted :: "(string \<Rightarrow> string) \<Rightarrow> int \<Rightarrow> intent_row list \<Rightarrow> (string \<times> string) \<times> string \<Rightarrow> bool" where
  \<comment> \<open>a token handed out belongs to a row, or its intent key is too old to be admitted again\<close>
  "accounted sha T rows i \<longleftrightarrow>
     (\<exists>r \<in> set rows. ir_id r = fst i \<and> ir_token_hash r = Some (sha (snd i))) \<or>
     fst i \<notin> ir_id ` set rows \<and> uuid_time (snd (fst i)) < T - fiveMinutes - STALE"

definition row_ok ::
  "(string \<Rightarrow> string) \<Rightarrow> int \<Rightarrow> ((string \<times> string) \<times> string) list \<Rightarrow> receipt list \<Rightarrow> intent_row \<Rightarrow> bool" where
  "row_ok sha T issued verified r \<longleftrightarrow> time_ok T r \<and> token_known sha issued r \<and> backed verified r"

definition receipt_ok :: "(string \<Rightarrow> string) \<Rightarrow> ((string \<times> string) \<times> string) list \<Rightarrow> receipt \<Rightarrow> bool" where
  "receipt_ok sha issued q \<longleftrightarrow> rc_result q \<in> {Completed, Failed, Unknown} \<and>
     (\<exists>t. (rc_id q, t) \<in> set issued \<and> sha t = sha (rc_token q))"

definition ledger_inv ::
  "(string \<Rightarrow> string) \<Rightarrow> int \<Rightarrow> intent_row list \<Rightarrow> ((string \<times> string) \<times> string) list \<Rightarrow> receipt list \<Rightarrow> bool" where
  "ledger_inv sha T rows issued verified \<longleftrightarrow>
     distinct (map ir_id rows) \<and> distinct (map ir_operation_id rows) \<and>
     distinct (dispatching_endpoints rows) \<and> distinct (map fst issued) \<and>
     (\<forall>r \<in> set rows. row_ok sha T issued verified r) \<and>
     (\<forall>i \<in> set issued. accounted sha T rows i) \<and>
     (\<forall>q \<in> set verified. receipt_ok sha issued q)"

lemma ledger_invI:
  assumes "distinct (map ir_id rows)" "distinct (map ir_operation_id rows)"
    "distinct (dispatching_endpoints rows)" "distinct (map fst issued)"
    and "\<And>r. r \<in> set rows \<Longrightarrow> row_ok sha T issued verified r"
    and "\<And>i. i \<in> set issued \<Longrightarrow> accounted sha T rows i"
    and "\<And>q. q \<in> set verified \<Longrightarrow> receipt_ok sha issued q"
  shows "ledger_inv sha T rows issued verified"
  using assms by (simp add: ledger_inv_def)

lemma ledger_invD:
  assumes "ledger_inv sha T rows issued verified"
  shows "distinct (map ir_id rows)" "distinct (map ir_operation_id rows)"
    "distinct (dispatching_endpoints rows)" "distinct (map fst issued)"
    and "r \<in> set rows \<Longrightarrow> row_ok sha T issued verified r"
    and "i \<in> set issued \<Longrightarrow> accounted sha T rows i"
    and "q \<in> set verified \<Longrightarrow> receipt_ok sha issued q"
  using assms by (simp_all add: ledger_inv_def)

lemma time_ok_later: "time_ok T r \<Longrightarrow> T \<le> T' \<Longrightarrow> time_ok T' r"
  by (simp add: time_ok_def)

lemma ledger_inv_later:
  assumes "ledger_inv sha T rows issued verified" "T \<le> T'"
  shows "ledger_inv sha T' rows issued verified"
proof (rule ledger_invI)
  fix i assume "i \<in> set issued"
  from ledger_invD(6) [OF assms(1) this] assms(2) show "accounted sha T' rows i"
    unfolding accounted_def by (elim disjE) auto
next
  fix r assume "r \<in> set rows"
  from ledger_invD(5) [OF assms(1) this] assms(2) show "row_ok sha T' issued verified r"
    by (auto simp: row_ok_def intro: time_ok_later)
qed (simp_all add: ledger_invD [OF assms(1)])

text \<open>A change of rows that keeps what they are and does not dispatch.\<close>

definition plain_change ::
  "int \<Rightarrow> receipt list \<Rightarrow> intent_row \<Rightarrow> intent_row \<Rightarrow> bool" where
  "plain_change T verified r r' \<longleftrightarrow>
     ir_id r' = ir_id r \<and> ir_operation_id r' = ir_operation_id r \<and> ir_created_at r' = ir_created_at r \<and>
     ir_token_hash r' = ir_token_hash r \<and>
     (ir_updated_at r' = ir_updated_at r \<or> T - STALE \<le> ir_updated_at r' \<and> ir_updated_at r' \<le> T) \<and>
     (ir_state r' = ir_state r \<or> ir_state r' \<in> {Failed, Expired} \<or>
      ir_token_hash r \<noteq> None \<and> ir_state r' \<in> {Completed, Unknown}) \<and>
     (ir_state r' = Completed \<longrightarrow> ir_state r = Completed \<or>
        (\<exists>q \<in> set verified. rc_id q = ir_id r \<and> rc_result q = Completed))"

lemma ir_id_fields: "ir_id r' = ir_id r \<Longrightarrow> ir_endpoint_id r' = ir_endpoint_id r \<and> ir_intent_key r' = ir_intent_key r"
  by (simp add: ir_id_def)

lemma plain_change_row:
  assumes "plain_change T verified r r'" "row_ok sha T issued verified r"
  shows "row_ok sha T issued verified r'"
proof -
  have same: "ir_id r' = ir_id r" "ir_created_at r' = ir_created_at r" "ir_token_hash r' = ir_token_hash r"
    using assms(1) by (simp_all add: plain_change_def)
  have "time_ok T r'"
    using assms ir_id_fields [OF same(1)] by (auto simp: plain_change_def time_ok_def row_ok_def)
  moreover have "token_known sha issued r'"
    using assms same unfolding plain_change_def token_known_def row_ok_def by (auto split: option.splits)
  moreover have "backed verified r'"
    using assms same unfolding plain_change_def backed_def row_ok_def by auto
  ultimately show ?thesis by (simp add: row_ok_def)
qed

lemma dispatching_endpoints_plain:
  assumes "\<forall>r \<in> set rows. g r \<longrightarrow> ir_endpoint_id (f r) = ir_endpoint_id r \<and>
      (ir_state (f r) = ir_state r \<or> ir_state (f r) \<noteq> Dispatching)"
    and "distinct (dispatching_endpoints rows)"
  shows "distinct (dispatching_endpoints (upd_rows g f rows)) \<and>
    set (dispatching_endpoints (upd_rows g f rows)) \<subseteq> set (dispatching_endpoints rows)"
  using assms unfolding dispatching_endpoints_def by (induction rows) (auto split: if_splits)

lemma ledger_inv_upd:
  assumes inv: "ledger_inv sha T rows issued verified"
    and plain: "\<And>r. r \<in> set rows \<Longrightarrow> g r \<Longrightarrow> plain_change T verified r (f r)"
  shows "ledger_inv sha T (upd_rows g f rows) issued verified"
proof -
  have keep: "map k (upd_rows g f rows) = map k rows" if "\<And>r. r \<in> set rows \<Longrightarrow> g r \<Longrightarrow> k (f r) = k r"
    for k :: "intent_row \<Rightarrow> 'k"
    using that by (induction rows) auto
  have ids: "map ir_id (upd_rows g f rows) = map ir_id rows"
    by (rule keep) (use plain in \<open>simp add: plain_change_def\<close>)
  have ops: "map ir_operation_id (upd_rows g f rows) = map ir_operation_id rows"
    by (rule keep) (use plain in \<open>simp add: plain_change_def\<close>)
  have hashes: "map (\<lambda>r. (ir_id r, ir_token_hash r)) (upd_rows g f rows) = map (\<lambda>r. (ir_id r, ir_token_hash r)) rows"
    by (rule keep) (use plain in \<open>simp add: plain_change_def\<close>)
  have "ir_endpoint_id (f r) = ir_endpoint_id r \<and> (ir_state (f r) = ir_state r \<or> ir_state (f r) \<noteq> Dispatching)"
    if "r \<in> set rows" "g r" for r
    using plain [OF that] ir_id_fields [of "f r" r] by (auto simp: plain_change_def)
  then have disp: "distinct (dispatching_endpoints (upd_rows g f rows))"
    using dispatching_endpoints_plain ledger_invD(3) [OF inv] by blast
  show ?thesis
  proof (rule ledger_invI)
    fix r' assume "r' \<in> set (upd_rows g f rows)"
    then obtain r where r: "r \<in> set rows" and r': "r' = (if g r then f r else r)"
      by (auto simp: in_upd_rows)
    show "row_ok sha T issued verified r'"
      using ledger_invD(5) [OF inv r] plain_change_row [OF plain [OF r]] r' by auto
  next
    fix i assume i: "i \<in> set issued"
    have "accounted sha T rows i"
      using ledger_invD(6) [OF inv i] .
    moreover have "(\<exists>r \<in> set xs. ir_id r = k \<and> ir_token_hash r = h) \<longleftrightarrow>
        (k, h) \<in> set (map (\<lambda>r. (ir_id r, ir_token_hash r)) xs)" for k h xs
      by auto
    moreover have "ir_id ` set xs = set (map ir_id xs)" for xs by simp
    ultimately show "accounted sha T (upd_rows g f rows) i"
      unfolding accounted_def by (simp only: hashes ids)
  qed (simp_all add: ids ops disp ledger_invD [OF inv])
qed

text \<open>Dropping finished rows of which a week has passed.\<close>

lemma old_key:
  assumes "time_ok T r" "ir_updated_at r < now - sevenDays" "now \<le> T"
  shows "uuid_time (ir_intent_key r) < T - fiveMinutes - STALE"
  using assms by (simp add: time_ok_def sevenDays_def fiveMinutes_def STALE_def)

lemma distinct_map_filter_sub: "distinct (map k rows) \<Longrightarrow> distinct (map k (filter p rows))"
  by (simp add: distinct_map_filter)

lemma ledger_inv_filter:
  assumes inv: "ledger_inv sha T rows issued verified"
    and old: "\<And>r. r \<in> set rows \<Longrightarrow> \<not> p r \<Longrightarrow> ir_updated_at r < now - sevenDays" and now: "now \<le> T"
  shows "ledger_inv sha T (filter p rows) issued verified"
proof (rule ledger_invI)
  have "filter (\<lambda>r. ir_state r = Dispatching) (filter p rows) = filter p (filter (\<lambda>r. ir_state r = Dispatching) rows)"
    by (simp add: conj_commute)
  then show "distinct (dispatching_endpoints (filter p rows))"
    unfolding dispatching_endpoints_def
    using distinct_map_filter_sub [OF ledger_invD(3) [OF inv, unfolded dispatching_endpoints_def], of p]
    by (simp only:)
next
  fix i assume i: "i \<in> set issued"
  from ledger_invD(6) [OF inv i] consider
    r where "r \<in> set rows" "ir_id r = fst i" "ir_token_hash r = Some (sha (snd i))"
    | "fst i \<notin> ir_id ` set rows" "uuid_time (snd (fst i)) < T - fiveMinutes - STALE"
    unfolding accounted_def by blast
  then show "accounted sha T (filter p rows) i"
  proof cases
    case 1
    show ?thesis
    proof (cases "p r")
      case True
      with 1 show ?thesis unfolding accounted_def by auto
    next
      case False
      have "fst i \<notin> ir_id ` set (filter p rows)"
      proof
        assume "fst i \<in> ir_id ` set (filter p rows)"
        then obtain r' where "r' \<in> set rows" "p r'" "ir_id r' = ir_id r" using 1(2) by auto
        with 1(1) False ledger_invD(1) [OF inv] show False by (auto simp: distinct_map dest: inj_onD)
      qed
      moreover have "time_ok T r"
        using ledger_invD(5) [OF inv 1(1)] by (simp add: row_ok_def)
      then have "uuid_time (ir_intent_key r) < T - fiveMinutes - STALE"
        by (rule old_key) (use old [OF 1(1) False] now in auto)
      moreover have "snd (fst i) = ir_intent_key r"
        using 1(2) by (simp add: ir_id_def flip: \<open>ir_id r = fst i\<close>)
      ultimately show ?thesis unfolding accounted_def by simp
    qed
  next
    case 2
    then show ?thesis unfolding accounted_def by auto
  qed
qed (auto simp: distinct_map_filter_sub ledger_invD [OF inv])

text \<open>Appending an admitted row.\<close>

lemma ledger_inv_append:
  assumes inv: "ledger_inv sha T rows issued verified"
    and new: "ir_id r \<notin> ir_id ` set rows" "ir_operation_id r \<notin> ir_operation_id ` set rows"
    and state: "ir_state r = Admitted" "ir_token_hash r = None"
    and times: "ir_created_at r = now" "ir_updated_at r = now" "now \<le> T" "T - STALE \<le> now"
      "uuid_time (ir_intent_key r) \<le> now + 30000" "now - fiveMinutes \<le> uuid_time (ir_intent_key r)"
  shows "ledger_inv sha T (rows @ [r]) issued verified"
proof (rule ledger_invI)
  fix i assume i: "i \<in> set issued"
  have "snd (ir_id r) = ir_intent_key r" by (simp add: ir_id_def)
  with ledger_invD(6) [OF inv i] times show "accounted sha T (rows @ [r]) i"
    unfolding accounted_def by (elim disjE) auto
next
  fix r' assume "r' \<in> set (rows @ [r])"
  then consider "r' \<in> set rows" | "r' = r" by auto
  then show "row_ok sha T issued verified r'"
  proof cases
    case 2
    with state times show ?thesis
      by (simp add: row_ok_def time_ok_def token_known_def backed_def STALE_def)
  qed (simp add: ledger_invD [OF inv])
qed (use new state in \<open>simp_all add: ledger_invD [OF inv] dispatching_endpoints_def
    ledger_invD(3) [OF inv, unfolded dispatching_endpoints_def]\<close>)

text \<open>Dispatching an admitted intent of an endpoint at which nothing is dispatching: no token
  was handed out for it before.\<close>

lemma issued_row:
  assumes inv: "ledger_inv sha T rows issued verified"
    and r: "r \<in> set rows" "(ir_id r, t) \<in> set issued"
  shows "ir_token_hash r = Some (sha t)"
proof -
  have "ir_id r \<in> ir_id ` set rows" using r(1) by (rule imageI)
  with ledger_invD(6) [OF inv r(2)] obtain r' where r': "r' \<in> set rows" "ir_id r' = ir_id r"
    "ir_token_hash r' = Some (sha t)"
    unfolding accounted_def by auto
  have "r' = r"
    using r' r(1) ledger_invD(1) [OF inv] by (auto simp: distinct_map dest: inj_onD)
  with r' show ?thesis by simp
qed

lemma dispatch_row_unissued:
  assumes inv: "ledger_inv sha T rows issued verified"
    and r: "r \<in> set rows" "ir_state r = Admitted"
  shows "ir_id r \<notin> fst ` set issued"
proof
  assume "ir_id r \<in> fst ` set issued"
  then obtain t where "(ir_id r, t) \<in> set issued" by auto
  from issued_row [OF inv r(1) this] r(2) ledger_invD(5) [OF inv r(1)] show False
    by (auto simp: row_ok_def token_known_def)
qed

lemma ledger_inv_dispatch:
  assumes inv: "ledger_inv sha T rows issued verified"
    and r0: "r0 \<in> set rows" "ir_id r0 = k" "ir_state r0 = Admitted"
    and idle: "fst k \<notin> set (dispatching_endpoints rows)"
    and now: "now \<le> T" "T - STALE \<le> now"
  shows "ledger_inv sha T
    (upd_rows (\<lambda>r. ir_id r = k \<and> ir_state r = Admitted) (\<lambda>r. r\<lparr>ir_state := Dispatching,
       ir_generation := Some g, ir_token_hash := Some (sha token), ir_updated_at := now\<rparr>) rows)
    (issued @ [(k, token)]) verified"
    (is "ledger_inv sha T (upd_rows ?g ?f rows) ?issued verified")
proof -
 have ids: "map ir_id (upd_rows ?g ?f rows) = map ir_id rows"
   by (rule map_upd_rows) (simp add: ir_id_def)
 show ?thesis
 proof (rule ledger_invI)
  from ids show "distinct (map ir_id (upd_rows ?g ?f rows))"
    by (simp add: ledger_invD [OF inv])
  show "distinct (map ir_operation_id (upd_rows ?g ?f rows))"
    by (subst map_upd_rows) (simp_all add: ledger_invD [OF inv])
  show "distinct (map fst ?issued)"
    using dispatch_row_unissued [OF inv r0(1,3)] r0(2) by (simp add: ledger_invD [OF inv])
  have "distinct (dispatching_endpoints (upd_rows ?g ?f rs)) \<and>
      set (dispatching_endpoints (upd_rows ?g ?f rs)) \<subseteq> insert (fst k) (set (dispatching_endpoints rs)) \<and>
      (k \<notin> ir_id ` set rs \<longrightarrow> dispatching_endpoints (upd_rows ?g ?f rs) = dispatching_endpoints rs)"
    if "distinct (map ir_id rs)" "distinct (dispatching_endpoints rs)"
      "fst k \<notin> set (dispatching_endpoints rs)" for rs
    using that
  proof (induction rs)
    case (Cons r rs)
    then have IH: "distinct (dispatching_endpoints (upd_rows ?g ?f rs))"
      "set (dispatching_endpoints (upd_rows ?g ?f rs)) \<subseteq> insert (fst k) (set (dispatching_endpoints rs))"
      "k \<notin> ir_id ` set rs \<Longrightarrow> dispatching_endpoints (upd_rows ?g ?f rs) = dispatching_endpoints rs"
      by (auto split: if_splits)
    show ?case
    proof (cases "ir_id r = k")
      case True
      with Cons.prems(1) have "k \<notin> ir_id ` set rs" by auto
      note same = IH(3) [OF this]
      have "fst k = ir_endpoint_id r" using True by (auto simp: ir_id_def)
      with same Cons.prems True show ?thesis by (simp add: subset_insertI)
    next
      case False
      with IH Cons.prems show ?thesis by auto
    qed
  qed simp
  with ledger_invD(1,3) [OF inv] idle show "distinct (dispatching_endpoints (upd_rows ?g ?f rows))"
    by blast
next
  fix r' assume "r' \<in> set (upd_rows ?g ?f rows)"
  then obtain r where r: "r \<in> set rows" and r': "r' = (if ?g r then ?f r else r)"
    by (auto simp: in_upd_rows)
  show "row_ok sha T ?issued verified r'"
    using ledger_invD(5) [OF inv r] r' now
    by (auto simp: row_ok_def time_ok_def token_known_def backed_def ir_id_def split: option.splits)
next
  fix i assume i: "i \<in> set ?issued"
  show "accounted sha T (upd_rows ?g ?f rows) i"
  proof (cases "i = (k, token)")
    case True
    have "?f r0 \<in> set (upd_rows ?g ?f rows)" using r0 by (auto simp: in_upd_rows)
    then show ?thesis unfolding accounted_def True using r0(2) by (auto simp: ir_id_def intro: bexI [of _ "?f r0"])
  next
    case False
    with i have i: "i \<in> set issued" by simp
    have "fst i \<noteq> k"
      using dispatch_row_unissued [OF inv r0(1,3)] r0(2) i by (metis imageI)
    from ledger_invD(6) [OF inv i] consider
      r where "r \<in> set rows" "ir_id r = fst i" "ir_token_hash r = Some (sha (snd i))"
      | "fst i \<notin> ir_id ` set rows" "uuid_time (snd (fst i)) < T - fiveMinutes - STALE"
      unfolding accounted_def by blast
    then show ?thesis
    proof cases
      case 1
      then have "r \<in> set (upd_rows ?g ?f rows)"
        using \<open>fst i \<noteq> k\<close> by (auto simp: in_upd_rows intro!: bexI [of _ r])
      with 1 show ?thesis unfolding accounted_def by blast
    next
      case 2
      have "ir_id ` set (upd_rows ?g ?f rows) = ir_id ` set rows"
        using arg_cong [OF ids, of set] by simp
      with 2 show ?thesis unfolding accounted_def by blast
    qed
  qed
next
  fix q assume "q \<in> set verified"
  from ledger_invD(7) [OF inv this] show "receipt_ok sha ?issued q"
    by (auto simp: receipt_ok_def)
 qed
qed

section \<open>Every segment keeps the invariant\<close>

definition world_inv :: "(string \<Rightarrow> string) \<Rightarrow> int \<Rightarrow> ledger_world \<Rightarrow> bool" where
  "world_inv sha T w \<longleftrightarrow> ledger_inv sha T (lg_rows (lw_ledger w)) (lw_issued w) (lw_verified w)"

lemma rows_upd_intents [simp]: "lg_rows (upd_intents g f lg) = upd_rows g f (lg_rows lg)"
  by (simp add: upd_intents_def)

lemma plain_changeI:
  assumes "ir_id r' = ir_id r" "ir_operation_id r' = ir_operation_id r"
    "ir_created_at r' = ir_created_at r" "ir_token_hash r' = ir_token_hash r"
    and "ir_updated_at r' = ir_updated_at r \<or> T - STALE \<le> ir_updated_at r' \<and> ir_updated_at r' \<le> T"
    and "ir_state r' = ir_state r \<or> ir_state r' \<in> {Failed, Expired} \<or>
      ir_token_hash r \<noteq> None \<and> ir_state r' = Unknown"
  shows "plain_change T verified r r'"
  using assms by (auto simp: plain_change_def)

lemma intent_in_rows: "intent_at lg ep key = Some r \<Longrightarrow> r \<in> set (lg_rows lg) \<and> ir_id r = (ep, key)"
  unfolding intent_at_def by (drule find_Some_in) simp

lemma intent_at_None: "intent_at lg ep key = None \<longleftrightarrow> (ep, key) \<notin> ir_id ` set (lg_rows lg)"
  unfolding intent_at_def by (auto simp: find_None_iff image_iff)

lemma byOperation_None: "byOperation lg op = None \<longleftrightarrow> op \<notin> ir_operation_id ` set (lg_rows lg)"
  unfolding byOperation_def by (auto simp: find_None_iff image_iff)

lemma row_hash:
  assumes "ledger_inv sha T rows issued verified" "r \<in> set rows" "ir_state r = Dispatching \<or> ir_state r = Unknown"
  shows "ir_token_hash r \<noteq> None"
  using ledger_invD(5) [OF assms(1,2)] assms(3) by (auto simp: row_ok_def token_known_def split: option.splits)

lemma ledger_inv_sweep:
  assumes "ledger_inv sha T (lg_rows lg) issued verified" "now \<le> T" "T - STALE \<le> now"
  shows "ledger_inv sha T (lg_rows (sweep now lg)) issued verified"
  unfolding sweep_def rows_upd_intents
  by (rule ledger_inv_upd, simp, rule ledger_inv_filter [OF assms(1) _ assms(2)])
    (use assms in \<open>auto intro!: plain_changeI simp: ir_id_def\<close>)

lemma ledger_inv_admit:
  assumes inv: "ledger_inv sha T (lg_rows lg) issued verified" and now: "now \<le> T" "T - STALE \<le> now"
  shows "ledger_inv sha T (lg_rows (snd (admit parse_url hmac c now m op lg))) issued verified"
proof -
  note swept = ledger_inv_sweep [OF inv now]
  have "ledger_inv sha T (lg_rows (snd (admit_commit c cm now m op lg))) issued verified" for cm
  proof (cases "intent_at lg (str_field c ''endpoint_id'') (str_field c ''intent_key'')")
    case None
    let ?lg = "sweep now lg"
    show ?thesis
    proof (cases "\<not> uuid_time (str_field c ''intent_key'') > now + 30000 \<and>
        \<not> uuid_time (str_field c ''intent_key'') < now - fiveMinutes \<and> \<not> unknown_count now ?lg \<ge> m \<and>
        intent_at ?lg (str_field c ''endpoint_id'') (str_field c ''intent_key'') = None \<and>
        byOperation ?lg op = None")
      case True
      have "ledger_inv sha T (lg_rows ?lg @ [new_intent c cm op now]) issued verified"
        by (rule ledger_inv_append [OF swept])
          (use True now in \<open>auto simp: new_intent_def ir_id_def intent_at_None byOperation_None not_less not_le\<close>)
      with None True show ?thesis by (simp add: admit_commit_def Let_def)
    next
      case False
      with None inv swept show ?thesis
        by (auto simp: admit_commit_def Let_def split: option.splits)
    qed
  qed (simp add: admit_commit_def inv)
  then show ?thesis by (simp add: admit_def inv)
qed

lemma ledger_inv_finalize:
  assumes inv: "ledger_inv sha T (lg_rows lg) issued verified" and now: "now \<le> T" "T - STALE \<le> now"
    and q: "q \<in> set verified"
  shows "ledger_inv sha T (lg_rows (snd (finalize_commit q now lg))) issued verified"
proof -
  have "plain_change T verified r (r\<lparr>ir_state := rc_result q, ir_updated_at := now,
      ir_tab_id := rc_tab_id q,
      ir_result_code := (if rc_warning q \<noteq> None then rc_warning q else rc_failure q)\<rparr>)"
    if r: "r \<in> set (lg_rows lg)" "ir_id r = rc_id q" for r
  proof -
    from ledger_invD(7) [OF inv q] obtain t where t: "(rc_id q, t) \<in> set issued"
      and res: "rc_result q \<in> {Completed, Failed, Unknown}"
      unfolding receipt_ok_def by blast
    have "ir_token_hash r = Some (sha t)"
      by (rule issued_row [OF inv r(1)]) (use t r in simp)
    then show ?thesis
      using res r now q by (auto simp: plain_change_def ir_id_def)
  qed
  then show ?thesis
    unfolding finalize_commit_def Let_def by (auto intro!: ledger_inv_upd [OF inv] simp: rc_id_def)
qed

lemma ledger_inv_check:
  assumes inv: "ledger_inv sha T (lg_rows lg) issued verified" and check: "finalize_check sha q lg = None"
  shows "ledger_inv sha T (lg_rows lg) issued (verified @ [q])"
proof (rule ledger_invI)
  fix r assume "r \<in> set (lg_rows lg)"
  from ledger_invD(5) [OF inv this] show "row_ok sha T issued (verified @ [q]) r"
    by (auto simp: row_ok_def backed_def)
next
  fix q' assume q': "q' \<in> set (verified @ [q])"
  from check obtain r where r: "intent_at lg (rc_endpoint_id q) (rc_intent_key q) = Some r"
    and h: "ir_token_hash r = Some (sha (rc_token q))" and res: "rc_result q \<in> {Completed, Failed, Unknown}"
    unfolding finalize_check_def by (auto split: option.splits if_splits)
  have "row_ok sha T issued verified r" "ir_id r = rc_id q"
    using intent_in_rows [OF r] ledger_invD(5) [OF inv] by (auto simp: rc_id_def)
  with h res have "receipt_ok sha issued q"
    by (auto simp: row_ok_def token_known_def receipt_ok_def)
  with q' show "receipt_ok sha issued q'"
    using ledger_invD(7) [OF inv] by auto
qed (simp_all add: ledger_invD [OF inv])

lemma ledger_inv_dispatch_commit:
  assumes inv: "ledger_inv sha T (lg_rows lg) issued verified" and now: "now \<le> T" "T - STALE \<le> now"
    and fresh: "sha token \<notin> sha ` snd ` set issued"
    and step: "dispatch_commit ep key g op token (sha token) now lg = (a, lg')"
  shows "ledger_inv sha T (lg_rows lg') (if an_token a = None then issued else issued @ [((ep, key), token)]) verified"
proof -
  let ?guard = "\<lambda>r. ir_id r = (ep, key) \<and> ir_state r = Admitted"
  show ?thesis
  proof (cases "list_ex ?guard (lg_rows lg)")
    case True
    then obtain r0 where r0: "r0 \<in> set (lg_rows lg)" "ir_id r0 = (ep, key)" "ir_state r0 = Admitted"
      by (auto simp: list_ex_iff)
    show ?thesis
    proof (cases "hasDispatching ep lg")
      case True
      with \<open>list_ex ?guard (lg_rows lg)\<close> step inv show ?thesis
        by (auto simp: dispatch_commit_def error_answer_def no_answer_def)
    next
      case False
      let ?f = "\<lambda>r. r\<lparr>ir_state := Dispatching, ir_generation := Some g,
        ir_token_hash := Some (sha token), ir_updated_at := now\<rparr>"
      have idle: "fst (ep, key) \<notin> set (dispatching_endpoints (lg_rows lg))"
        using False by (auto simp: hasDispatching_def dispatching_endpoints_def list_ex_iff)
      have lg': "lg' = upd_intents ?guard ?f lg"
        using step False by (simp add: dispatch_commit_def Let_def)
      have "List.find (\<lambda>r. ir_id r = (ep, key)) (lg_rows lg) = Some r0"
        using find_key_iff [OF ledger_invD(1) [OF inv]] r0 by blast
      then have "intent_at lg' ep key = Some (?f r0)"
        unfolding intent_at_def lg' rows_upd_intents
        by (subst find_upd_rows) (use r0 in \<open>simp_all add: ir_id_def\<close>)
      then have "an_token a = Some token"
        using step False lg' by (auto simp: dispatch_commit_def Let_def no_answer_def)
      then show ?thesis
        using ledger_inv_dispatch [OF inv r0 idle now, where g = g and token = token] by (simp add: lg')
    qed
  next
    case False
    then have same: "lg' = lg"
      using step by (simp add: dispatch_commit_def Let_def upd_intents_def upd_rows_none)
    have "an_token a = None"
    proof (rule ccontr)
      assume "an_token a \<noteq> None"
      then obtain r where r: "intent_at lg ep key = Some r" "ir_token_hash r = Some (sha token)"
        using step False by (auto simp: dispatch_commit_def Let_def upd_intents_def upd_rows_none
            error_answer_def no_answer_def split: option.splits if_splits)
      then have "token_known sha issued r"
        using intent_in_rows ledger_invD(5) [OF inv] by (auto simp: row_ok_def)
      with r(2) fresh show False
        by (auto simp: token_known_def) (metis image_eqI snd_conv)
    qed
    with same inv show ?thesis by simp
  qed
qed

text \<open>The token that a segment would hand out.\<close>

fun drawn :: "ledger_op \<Rightarrow> string list" where
  "drawn (DispatchCommit ep key g op token now) = [token]"
| "drawn _ = []"

definition drawn_all :: "(int \<times> ledger_op) list \<Rightarrow> string list" where
  "drawn_all ops = concat (map (\<lambda>(t, op). drawn op) ops)"

lemma drawn_all_simps [simp]:
  "drawn_all [] = []"
  "drawn_all ((t, op) # ops) = drawn op @ drawn_all ops"
  by (simp_all add: drawn_all_def)

lemma ledger_step_inv:
  assumes inv: "world_inv sha T w" and now: "op_now op \<le> T" "T - STALE \<le> op_now op"
    and fresh: "\<And>t. t \<in> set (drawn op) \<Longrightarrow> sha t \<notin> sha ` snd ` set (lw_issued w)"
  shows "world_inv sha T (ledger_step parse_url hmac sha op w)"
proof -
  note inv' = inv [unfolded world_inv_def]
  note upd = ledger_inv_upd [OF inv']
  note hash = row_hash [OF inv']
  show ?thesis
  proof (cases op)
    case (Admit c t m i)
    with now show ?thesis by (simp add: world_inv_def ledger_inv_admit [OF inv'])
  next
    case (BindPrepare ep key g rv t)
    with now show ?thesis
      by (auto simp: world_inv_def bindPrepare_def Let_def inv' ir_id_def intro!: upd plain_changeI)
  next
    case (Reconcile t)
    have step1: "ledger_inv sha T (upd_rows (\<lambda>r. ir_state r = Dispatching \<and> ir_updated_at r < t - 8000)
        (\<lambda>r. r\<lparr>ir_state := Unknown, ir_updated_at := t\<rparr>) (lg_rows (lw_ledger w))) (lw_issued w) (lw_verified w)"
      using now Reconcile by (intro upd plain_changeI) (auto simp: ir_id_def dest: hash)
    show ?thesis
      unfolding Reconcile world_inv_def
      by (simp add: reconcile_def, rule ledger_inv_upd [OF step1])
        (use now Reconcile in \<open>auto simp: ir_id_def intro!: plain_changeI\<close>)
  next
    case (DispatchCommit ep key g i token t)
    obtain a lg where commit: "dispatch_commit ep key g i token (sha token) t (lw_ledger w) = (a, lg)"
      by fastforce
    have "ledger_inv sha T (lg_rows lg)
        (if an_token a = None then lw_issued w else lw_issued w @ [((ep, key), token)]) (lw_verified w)"
      by (rule ledger_inv_dispatch_commit [OF inv' _ _ _ commit]) (use now fresh DispatchCommit in auto)
    with commit show ?thesis
      by (simp add: DispatchCommit world_inv_def)
  next
    case (Abort ep key t)
    with now show ?thesis
      by (auto simp: world_inv_def abort_def Let_def inv' ir_id_def intro!: upd plain_changeI)
  next
    case (MarkUnknown ep key t)
    with now show ?thesis
      by (auto simp: world_inv_def markUnknown_def Let_def inv' ir_id_def intro!: upd plain_changeI dest: hash)
  next
    case (RecoverUnknown t)
    with now show ?thesis
      by (auto simp: world_inv_def recoverUnknown_def inv' ir_id_def intro!: upd plain_changeI dest: hash)
  next
    case (FinalizeCheck q t)
    then show ?thesis
      by (auto simp: world_inv_def inv' ledger_inv_check [OF inv'])
  next
    case (FinalizeCommit q t)
    with now show ?thesis
      by (auto simp: world_inv_def inv' ledger_inv_finalize [OF inv'])
  next
    case (RetirePending t)
    with now show ?thesis
      by (auto simp: world_inv_def retirePendingApprovals_def ir_id_def intro!: upd plain_changeI)
  next
    case (RecordDenial i c t)
    then show ?thesis
      by (auto simp: world_inv_def record_denial_def ir_id_def intro!: upd plain_changeI)
  qed
qed

lemma step_issued:
  "map snd (lw_issued (ledger_step parse_url hmac sha op w)) = map snd (lw_issued w) \<or>
   map snd (lw_issued (ledger_step parse_url hmac sha op w)) = map snd (lw_issued w) @ drawn op"
  by (cases op) (auto split: prod.splits)

lemma ledger_run_inv:
  assumes "well_timed T ops" "world_inv sha T w"
    and "distinct (map sha (map snd (lw_issued w) @ drawn_all ops))"
  shows "\<exists>T'. world_inv sha T' (ledger_run parse_url hmac sha ops w)"
  using assms
proof (induction ops arbitrary: T w)
  case Nil
  then show ?case by (auto simp: ledger_run_def)
next
  case (Cons top ops)
  obtain t op where top: "top = (t, op)" by (cases top)
  let ?w = "ledger_step parse_url hmac sha op w"
  from Cons.prems(1) top have times: "T \<le> t" "op_now op \<le> t" "t - STALE \<le> op_now op" and rest: "well_timed t ops"
    by auto
  have dist: "distinct (map sha (map snd (lw_issued w)) @ map sha (drawn op) @ map sha (drawn_all ops))"
    using Cons.prems(3) top by simp
  have "world_inv sha t w"
    using Cons.prems(2) times(1) unfolding world_inv_def by (rule ledger_inv_later)
  moreover have "sha x \<notin> sha ` snd ` set (lw_issued w)" if "x \<in> set (drawn op)" for x
    using dist that unfolding distinct_append by (auto simp: image_image)
  ultimately have inv: "world_inv sha t ?w"
    using times by (intro ledger_step_inv) auto
  have "map sha (map snd (lw_issued ?w)) = map sha (map snd (lw_issued w)) \<or>
      map sha (map snd (lw_issued ?w)) = map sha (map snd (lw_issued w)) @ map sha (drawn op)"
    using step_issued [of parse_url hmac sha op w] by (metis map_append)
  then have "distinct (map sha (map snd (lw_issued ?w)) @ map sha (drawn_all ops))"
  proof (elim disjE)
    assume "map sha (map snd (lw_issued ?w)) = map sha (map snd (lw_issued w))"
    then show ?thesis
      using dist unfolding distinct_append by (simp only: set_append) blast
  next
    assume "map sha (map snd (lw_issued ?w)) = map sha (map snd (lw_issued w)) @ map sha (drawn op)"
    with dist show ?thesis by (simp only: append_assoc)
  qed
  then have "\<exists>T'. world_inv sha T' (ledger_run parse_url hmac sha ops ?w)"
    by (intro Cons.IH [OF rest inv]) simp
  then show ?case by (simp add: ledger_run_def top)
qed

lemma initial_world_inv: "world_inv sha T initial_world"
  by (simp add: world_inv_def initial_world_def empty_ledger_def ledger_inv_def)

section \<open>The life of an intent\<close>

lemma phase_find: "List.find (\<lambda>r. ir_id r = k) (lg_rows lg) = Some r \<Longrightarrow> phase lg k = Some (ir_state r)"
  by (simp add: phase_def)

text \<open>One segment takes an intent along at most one edge.\<close>

definition life_step :: "istate option \<Rightarrow> istate option \<Rightarrow> bool" where
  "life_step p q \<longleftrightarrow> q = p \<or> moves p q"

lemma phase_upd:
  assumes "\<And>r. g r \<Longrightarrow> ir_id (f r) = ir_id r"
    and "\<And>r. r \<in> set (lg_rows lg) \<Longrightarrow> g r \<Longrightarrow> ir_id r = k \<Longrightarrow>
      ir_state (f r) = ir_state r \<or> moves (Some (ir_state r)) (Some (ir_state (f r)))"
  shows "life_step (phase lg k) (phase (upd_intents g f lg) k)"
proof (cases "List.find (\<lambda>r. ir_id r = k) (lg_rows lg)")
  case None
  then show ?thesis by (simp add: phase_def find_upd_rows assms(1) life_step_def)
next
  case (Some r)
  then have "r \<in> set (lg_rows lg)" "ir_id r = k" by (auto dest: find_Some_in)
  with Some assms(2) [of r] show ?thesis
    by (auto simp: phase_def find_upd_rows assms(1) life_step_def)
qed

lemma phase_row: "phase lg k = (case List.find (\<lambda>r. ir_id r = k) (lg_rows lg) of None \<Rightarrow> None | Some r \<Rightarrow> Some (ir_state r))"
  by (simp add: phase_def split: option.splits)

text \<open>A row is deleted for the state that it has, or expires: the two statements never meet on one row.\<close>

lemma phase_sweep:
  assumes "distinct (map ir_id (lg_rows lg))"
  shows "life_step (phase lg k) (phase (sweep now lg) k)"
proof -
  let ?keep = "\<lambda>r. \<not> (ir_state r \<in> {Completed, Failed, Expired, Denied} \<and> ir_updated_at r < now - sevenDays)"
  let ?lg = "lg\<lparr>lg_rows := filter ?keep (lg_rows lg)\<rparr>"
  have upd: "life_step (phase ?lg k) (phase (sweep now lg) k)"
    unfolding sweep_def by (rule phase_upd) (auto simp: ir_id_def intro: moves.intros)
  show ?thesis
  proof (cases "phase ?lg k = phase lg k")
    case True
    with upd show ?thesis by simp
  next
    case False
    then have "phase ?lg k = None" "moves (phase lg k) None"
      using find_filter_rows [OF assms, of k ?keep]
      by (auto simp: phase_def intro: moves.swept split: option.splits if_splits)
    moreover from this upd have "phase (sweep now lg) k = None"
      by (auto simp: phase_def sweep_def find_upd_rows ir_id_def)
    ultimately show ?thesis by (simp add: life_step_def)
  qed
qed

lemma phase_None_sweep:
  assumes "phase lg k = None"
  shows "phase (sweep now lg) k = None"
proof -
  have "\<forall>r \<in> set (lg_rows lg). ir_id r \<noteq> k" using assms by (simp add: phase_def find_None_iff)
  then have "\<forall>r \<in> set (lg_rows (sweep now lg)). ir_id r \<noteq> k" by (auto simp: sweep_def upd_rows_def ir_id_def)
  then show ?thesis by (simp add: phase_def find_None_iff)
qed

lemma phase_admit:
  assumes "distinct (map ir_id (lg_rows lg))"
  shows "life_step (phase lg k) (phase (snd (admit parse_url hmac c now m op lg)) k)"
proof -
  have "life_step (phase lg k) (phase (snd (admit_commit c cm now m op lg)) k)" for cm
  proof -
    let ?ep = "str_field c ''endpoint_id''" and ?key = "str_field c ''intent_key''" and ?lg = "sweep now lg"
    note swept = phase_sweep [OF assms, of k now]
    have new: "life_step (phase lg k) (phase (?lg\<lparr>lg_rows := lg_rows ?lg @ [new_intent c cm op now]\<rparr>) k)"
      if "intent_at lg ?ep ?key = None"
    proof (cases "k = (?ep, ?key)")
      case True
      with that have "phase lg k = None" by (simp add: phase_def intent_at_def)
      with phase_None_sweep [OF this, of now] True show ?thesis
        by (auto simp: phase_def find_snoc_row new_intent_def ir_id_def life_step_def intro: moves.admitted)
    next
      case False
      then have "phase (?lg\<lparr>lg_rows := lg_rows ?lg @ [new_intent c cm op now]\<rparr>) k = phase ?lg k"
        by (auto simp: phase_def find_snoc_row new_intent_def ir_id_def split: option.splits)
      with swept show ?thesis by simp
    qed
    show ?thesis
      using swept new by (auto simp: admit_commit_def Let_def life_step_def split: option.splits)
  qed
  then show ?thesis by (simp add: admit_def life_step_def)
qed

lemma phase_step:
  assumes dist: "distinct (map ir_id (lg_rows (lw_ledger w)))"
    and res: "\<forall>q \<in> set (lw_verified w). rc_result q \<in> {Completed, Failed, Unknown}"
  shows "life_step (phase (lw_ledger w) k) (phase (lw_ledger (ledger_step parse_url hmac sha op w)) k)"
proof (cases op)
  case (Admit c now m i)
  then show ?thesis by (simp add: phase_admit [OF dist])
next
  case (Reconcile now)
  then show ?thesis
    by (cases "List.find (\<lambda>r. ir_id r = k) (lg_rows (lw_ledger w))")
      (auto simp: reconcile_def phase_def find_upd_rows ir_id_def life_step_def intro: moves.intros)
next
  case (DispatchCommit ep key g i token now)
  then show ?thesis
    by (auto simp: dispatch_commit_def Let_def ir_id_def life_step_def [of _ "phase (lw_ledger w) k"]
        intro!: phase_upd intro: moves.intros)
next
  case (FinalizeCommit q now)
  then show ?thesis
    using res by (auto simp: finalize_commit_def Let_def ir_id_def life_step_def [of _ "phase (lw_ledger w) k"]
        intro!: phase_upd moves.answered)
qed (auto simp: bindPrepare_def abort_def markUnknown_def recoverUnknown_def retirePendingApprovals_def
    record_denial_def Let_def ir_id_def life_step_def [of _ "phase (lw_ledger w) k"] intro!: phase_upd intro: moves.intros)

lemma distinct_ids_sweep: "distinct (map ir_id (lg_rows lg)) \<Longrightarrow> distinct (map ir_id (lg_rows (sweep now lg)))"
  unfolding sweep_def by (simp add: map_upd_rows ir_id_def distinct_map_filter_sub)

lemma distinct_ids_admit:
  assumes "distinct (map ir_id (lg_rows lg))"
  shows "distinct (map ir_id (lg_rows (snd (admit parse_url hmac c now m op lg))))"
proof -
  have "distinct (map ir_id (lg_rows (snd (admit_commit c cm now m op lg))))" for cm
    using assms distinct_ids_sweep [OF assms, of now] intent_at_None [of "sweep now lg"]
    by (auto simp: admit_commit_def Let_def new_intent_def ir_id_def split: option.splits)
  then show ?thesis using assms by (simp add: admit_def)
qed

definition ledger_well_formed :: "ledger_world \<Rightarrow> bool" where
  "ledger_well_formed w \<longleftrightarrow> distinct (map ir_id (lg_rows (lw_ledger w))) \<and>
     (\<forall>q \<in> set (lw_verified w). rc_result q \<in> {Completed, Failed, Unknown})"

lemma ledger_well_formed_step:
  assumes "ledger_well_formed w"
  shows "ledger_well_formed (ledger_step parse_url hmac sha op w)"
proof -
  have upd: "map ir_id (upd_rows g f rows) = map ir_id rows" if "\<And>r. g r \<Longrightarrow> ir_id (f r) = ir_id r" for g f rows
    using that by (rule map_upd_rows)
  show ?thesis
  proof (cases op)
    case (FinalizeCheck q now)
    with assms show ?thesis
      by (auto simp: ledger_well_formed_def finalize_check_def split: option.splits if_splits)
  qed (use assms distinct_ids_admit in \<open>auto simp: ledger_well_formed_def bindPrepare_def reconcile_def
      dispatch_commit_def abort_def markUnknown_def recoverUnknown_def finalize_commit_def
      retirePendingApprovals_def record_denial_def Let_def upd ir_id_def\<close>)
qed

text \<open>What a segment may do to the intents, all at once: take each along at most one edge.\<close>

definition intents_step :: "ledger_world \<Rightarrow> ledger_world \<Rightarrow> bool" where
  "intents_step w w' \<longleftrightarrow> (\<forall>k. life_step (phase (lw_ledger w) k) (phase (lw_ledger w') k))"

interpretation ledger: walking_machine "ledger_step parse_url hmac sha" ledger_well_formed intents_step
  for parse_url hmac sha
proof unfold_locales
  show "intents_step s (ledger_step parse_url hmac sha op s)" if "ledger_well_formed s" for op s
    using that phase_step unfolding intents_step_def ledger_well_formed_def by blast
qed (rule ledger_well_formed_step)

lemma ledger_run_fold: "ledger_run parse_url hmac sha ops = fold (ledger_step parse_url hmac sha) (map snd ops)"
proof -
  have "fold (\<lambda>(t, op). ledger_step parse_url hmac sha op) ops w = fold (ledger_step parse_url hmac sha) (map snd ops) w"
    for w by (induction ops arbitrary: w) auto
  then show ?thesis by (auto simp: ledger_run_def fun_eq_iff)
qed

section \<open>Properties\<close>

text \<open>C10: an execute token is handed out at most once for an intent, and at most one intent of
  an endpoint is dispatching at any time, whatever the interleaving, over the whole life of the
  ledger: deleting a finished row after a week does not make its intent key usable again. The
  clock does not run backwards, a request lives at most a day, and no two drawn tokens have the
  same digest.
\<close>

theorem intent_dispatched_once:
  assumes "well_timed T ops" and "distinct (map sha (drawn_all ops))"
  shows "distinct (map fst (lw_issued (ledger_run parse_url hmac sha ops initial_world))) \<and>
    distinct (dispatching_endpoints (lg_rows (lw_ledger (ledger_run parse_url hmac sha ops initial_world))))"
proof -
  have "\<exists>T'. world_inv sha T' (ledger_run parse_url hmac sha ops initial_world)"
    by (rule ledger_run_inv [OF assms(1) initial_world_inv]) (simp add: initial_world_def assms(2))
  then show ?thesis
    unfolding world_inv_def by (auto dest: ledger_invD)
qed

text \<open>C21: an intent is reported as completed only after a receipt for this intent passed its
  checks with a token of the digest of the one token handed out for it.
\<close>

theorem completed_has_receipt:
  assumes "well_timed T ops" and "distinct (map sha (drawn_all ops))"
    and "intent_at (lw_ledger (ledger_run parse_url hmac sha ops initial_world)) ep key = Some r"
    and "ir_state r = Completed"
  shows "\<exists>q \<in> set (lw_verified (ledger_run parse_url hmac sha ops initial_world)). \<exists>t.
    ((ep, key), t) \<in> set (lw_issued (ledger_run parse_url hmac sha ops initial_world)) \<and>
    rc_id q = (ep, key) \<and> rc_result q = Completed \<and> sha (rc_token q) = sha t"
proof -
  let ?w = "ledger_run parse_url hmac sha ops initial_world"
  obtain T' where inv: "ledger_inv sha T' (lg_rows (lw_ledger ?w)) (lw_issued ?w) (lw_verified ?w)"
    using ledger_run_inv [OF assms(1) initial_world_inv, of sha parse_url hmac] assms(2)
    by (auto simp: initial_world_def world_inv_def)
  have r: "r \<in> set (lg_rows (lw_ledger ?w))" "ir_id r = (ep, key)"
    using intent_in_rows [OF assms(3)] by simp_all
  have "backed (lw_verified ?w) r"
    using ledger_invD(5) [OF inv r(1)] by (simp add: row_ok_def)
  then obtain q where q: "q \<in> set (lw_verified ?w)" "rc_id q = (ep, key)" "rc_result q = Completed"
    using r(2) assms(4) unfolding backed_def by auto
  from ledger_invD(7) [OF inv q(1)] obtain t
    where t: "(rc_id q, t) \<in> set (lw_issued ?w)" "sha t = sha (rc_token q)"
    unfolding receipt_ok_def by blast
  show ?thesis
    by (intro bexI [OF _ q(1)] exI [of _ t]) (use q t in simp)
qed

definition phases ::
  "(string \<Rightarrow> url option) \<Rightarrow> (string \<Rightarrow> string) \<Rightarrow> (string \<Rightarrow> string) \<Rightarrow> (int \<times> ledger_op) list \<Rightarrow>
     ledger_world \<Rightarrow> string \<times> string \<Rightarrow> istate option list" where
  \<comment> \<open>the phase of an intent before the run and after each of its segments\<close>
  "phases parse_url hmac sha ops w k =
    map (\<lambda>n. phase (lw_ledger (ledger_run parse_url hmac sha (take n ops) w)) k) [0..<Suc (length ops)]"

lemma phases_nth:
  "n \<le> length ops \<Longrightarrow> phases parse_url hmac sha ops w k ! n =
     phase (lw_ledger (ledger_run parse_url hmac sha (take n ops) w)) k"
  by (simp add: phases_def del: upt_Suc)

lemma length_phases [simp]: "length (phases parse_url hmac sha ops w k) = Suc (length ops)"
  by (simp add: phases_def)

lemma before_dispatch:
  assumes "\<forall>n. Suc n < length ps \<longrightarrow> life_step (ps ! n) (ps ! Suc n)"
    and "i \<le> j" "j < length ps" "ps ! j = Some Dispatching" "\<forall>m. i \<le> m \<and> m < j \<longrightarrow> ps ! m \<noteq> None"
  shows "ps ! i \<in> {Some Admitted, Some Dispatching}"
  using assms(2)
proof (induction rule: inc_induct)
  case base
  then show ?case using assms(4) by simp
next
  case (step n)
  then have "life_step (ps ! n) (ps ! Suc n)" "ps ! n \<noteq> None" using assms(1,3,5) by auto
  with step.IH show ?case by (auto simp: life_step_def moves_to_dispatching moves_to_admitted)
qed

text \<open>C22: Each segment of a run takes an intent along at most one edge of the life cycle graph, and
  while its row is stored no edge leads back: an intent that is dispatching at one point of a run
  was admitted or dispatching at every earlier point, back to the last one without a row. So a result
  that is unknown, or a finished intent, is never dispatched again.
\<close>

theorem intent_life_cycle:
  assumes "ledger_well_formed w" and "ps = phases parse_url hmac sha ops w k"
  shows "(\<forall>n < length ops. ps ! Suc n = ps ! n \<or> moves (ps ! n) (ps ! Suc n)) \<and>
    (\<forall>i j. i \<le> j \<and> j \<le> length ops \<and> ps ! j = Some Dispatching \<longrightarrow>
      ps ! i \<in> {Some Admitted, Some Dispatching} \<or> (\<exists>m. i \<le> m \<and> m < j \<and> ps ! m = None))"
proof -
  have step: "life_step (ps ! n) (ps ! Suc n)" if "n < length ops" for n
    using ledger.run_walk [OF assms(1), of n "map snd ops" parse_url hmac sha, unfolded intents_step_def, THEN spec, of k] that
    by (simp add: assms(2) phases_nth ledger_run_fold take_map)
  moreover have "ps ! i \<in> {Some Admitted, Some Dispatching} \<or> (\<exists>m. i \<le> m \<and> m < j \<and> ps ! m = None)"
    if "i \<le> j" "j \<le> length ops" "ps ! j = Some Dispatching" for i j
    using before_dispatch [of ps i j] that step by (auto simp: assms(2))
  ultimately show ?thesis by (auto simp: life_step_def)
qed

text \<open>a retry of an admitted intent finds the stored receipt and changes nothing; the same
  key with another command is refused.
\<close>

theorem admit_retry:
  assumes "admit parse_url hmac c now m op lg = (a, lg1)" and "an_fresh a"
    and "validCommand parse_url c'" and "str_field c' ''endpoint_id'' = str_field c ''endpoint_id''"
    and "str_field c' ''intent_key'' = str_field c ''intent_key''"
  shows "snd (admit parse_url hmac c' now' m' op' lg1) = lg1 \<and>
    (hmac (canonical_command c') = hmac (canonical_command c) \<longrightarrow>
       an_operation_id (fst (admit parse_url hmac c' now' m' op' lg1)) = Some op \<and>
       an_state (fst (admit parse_url hmac c' now' m' op' lg1)) = Some Admitted \<and>
       \<not> an_fresh (fst (admit parse_url hmac c' now' m' op' lg1))) \<and>
    (hmac (canonical_command c') \<noteq> hmac (canonical_command c) \<longrightarrow>
       fst (admit parse_url hmac c' now' m' op' lg1) = error_answer ''intent_conflict'')"
proof -
  let ?ep = "str_field c ''endpoint_id''" and ?key = "str_field c ''intent_key''"
  let ?new = "new_intent c (hmac (canonical_command c)) op now"
  have not_fresh: "\<not> an_fresh (answer_existing l cm r)" "\<not> an_fresh (error_answer e)" for l cm r e
    by (simp_all add: answer_existing_def exposed_def error_answer_def no_answer_def Let_def)
  have valid: "is_uuid ?ep" "is_uuid_v7 ?key"
    and none: "intent_at (sweep now lg) ?ep ?key = None"
    and lg1: "lg1 = (sweep now lg)\<lparr>lg_rows := lg_rows (sweep now lg) @ [?new]\<rparr>"
    using assms(1,2) not_fresh
    by (auto simp: admit_def admit_commit_def Let_def split: if_splits option.splits)
  have found: "intent_at lg1 ?ep ?key = Some ?new"
    using none unfolding intent_at_def lg1
    by (simp add: find_snoc_row) (simp add: ir_id_def new_intent_def)
  have "admit parse_url hmac c' now' m' op' lg1 = (answer_existing lg1 (hmac (canonical_command c')) ?new, lg1)"
    using assms(3-5) valid found by (simp add: admit_def admit_commit_def)
  then show ?thesis
    by (auto simp: answer_existing_def exposed_def no_answer_def new_intent_def Let_def)
qed

section \<open>Concrete runs\<close>

definition sample_url :: "string \<Rightarrow> url option" where
  "sample_url s = Some \<lparr>url_protocol = ''https:'', url_hostname = ''example.org'', url_username = [],
     url_password = [], url_pathname = ''/'', url_port = [], url_hash = [], url_params = 0\<rparr>"

definition sample_ep :: string where "sample_ep = ''00000000-0000-4000-8000-000000000001''"

definition sample_key :: string where "sample_key = ''00000000-03e8-7000-8000-00000000000a''"

definition sample_command :: "(string \<times> json) list" where
  "sample_command = [(''endpoint_id'', JStr sample_ep), (''intent_key'', JStr sample_key),
     (''action'', JStr ''tab_open''), (''url'', JStr ''https://example.org/'')]"

definition sample_receipt :: receipt where
  "sample_receipt = \<lparr>rc_endpoint_id = sample_ep, rc_intent_key = sample_key, rc_token = replicate 64 (CHR ''a''),
     rc_generation = 3, rc_result = Completed, rc_tab_id = Some 7, rc_warning = None, rc_failure = None\<rparr>"

definition sample_ops :: "(int \<times> ledger_op) list" where
  "sample_ops =
    [(1000, Admit sample_command 1000 100 ''op''), (1001, BindPrepare sample_ep sample_key 3 1 1001),
     (1002, DispatchCommit sample_ep sample_key 3 ''op'' (replicate 64 (CHR ''a'')) 1002),
     (1003, FinalizeCheck sample_receipt 1003), (1003, FinalizeCommit sample_receipt 1003)]"

lemma sample_premises:
  "well_timed 0 sample_ops" "distinct (map (\<lambda>s. s) (drawn_all sample_ops))"
  by code_simp+

lemma sample_result:
  "lw_issued (ledger_run sample_url (\<lambda>s. s) (\<lambda>s. s) sample_ops initial_world) =
     [((sample_ep, sample_key), replicate 64 (CHR ''a''))]"
  "phase (lw_ledger (ledger_run sample_url (\<lambda>s. s) (\<lambda>s. s) sample_ops initial_world)) (sample_ep, sample_key) =
     Some Completed"
  by code_simp+

lemma intent_dispatched_once_witness:
  "lw_issued (ledger_run sample_url (\<lambda>s. s) (\<lambda>s. s) sample_ops initial_world) =
     [((sample_ep, sample_key), replicate 64 (CHR ''a''))] \<and>
   distinct (map fst (lw_issued (ledger_run sample_url (\<lambda>s. s) (\<lambda>s. s) sample_ops initial_world)))"
  using intent_dispatched_once [OF sample_premises, of sample_url "\<lambda>s. s"] sample_result(1) by blast

lemma completed_has_receipt_witness:
  "\<exists>q \<in> set (lw_verified (ledger_run sample_url (\<lambda>s. s) (\<lambda>s. s) sample_ops initial_world)). \<exists>t.
     ((sample_ep, sample_key), t) \<in>
       set (lw_issued (ledger_run sample_url (\<lambda>s. s) (\<lambda>s. s) sample_ops initial_world)) \<and>
     rc_id q = (sample_ep, sample_key) \<and> rc_result q = Completed \<and> rc_token q = t"
proof -
  obtain r where "intent_at (lw_ledger (ledger_run sample_url (\<lambda>s. s) (\<lambda>s. s) sample_ops initial_world))
      sample_ep sample_key = Some r" "ir_state r = Completed"
    using sample_result(2) unfolding phase_def intent_at_def by blast
  then show ?thesis by (rule completed_has_receipt [OF sample_premises])
qed

lemma sample_phases:
  "phases sample_url (\<lambda>s. s) (\<lambda>s. s) sample_ops initial_world (sample_ep, sample_key) =
     [None, Some Admitted, Some Admitted, Some Dispatching, Some Dispatching, Some Completed]"
  by code_simp

lemma intent_life_cycle_witness: "moves None (Some Admitted) \<and> moves (Some Dispatching) (Some Completed)"
proof -
  have "ledger_well_formed initial_world"
    by (simp add: ledger_well_formed_def initial_world_def empty_ledger_def)
  from intent_life_cycle [OF this sample_phases [symmetric]]
  have step: "\<forall>n < length sample_ops. [None, Some Admitted, Some Admitted, Some Dispatching, Some Dispatching, Some Completed] ! Suc n =
      [None, Some Admitted, Some Admitted, Some Dispatching, Some Dispatching, Some Completed] ! n \<or>
      moves ([None, Some Admitted, Some Admitted, Some Dispatching, Some Dispatching, Some Completed] ! n)
        ([None, Some Admitted, Some Admitted, Some Dispatching, Some Dispatching, Some Completed] ! Suc n)" by blast
  have "length sample_ops = 5" by (simp add: sample_ops_def)
  with step [rule_format, of 0] step [rule_format, of 4] show ?thesis by simp
qed

definition first_admit :: "answer \<times> ledger" where
  "first_admit = admit sample_url (\<lambda>s. s) sample_command 1000 100 ''op'' empty_ledger"

lemma admit_retry_witness:
  "an_operation_id (fst (admit sample_url (\<lambda>s. s) sample_command 5000 100 ''other'' (snd first_admit))) = Some ''op''"
proof -
  have first: "admit sample_url (\<lambda>s. s) sample_command 1000 100 ''op'' empty_ledger = (fst first_admit, snd first_admit)"
    by (simp add: first_admit_def)
  have "an_fresh (fst first_admit)" "validCommand sample_url sample_command"
    by code_simp+
  from admit_retry [OF first this refl refl] show ?thesis by blast
qed

end
