(* ===== verification/BrowserOwner.thy ===== *)
theory BrowserOwner
  imports BrowserLedger
begin

text \<open>
  The durable object \<open>BrowserOwner\<close> of \<open>apps/browser-mcp-worker/src/coordinator.ts\<close>: the
  tables of endpoints and activation attempts, the web sockets with their attachments, the
  mutations and reads in flight, and the handlers.

  A handler that awaits something lets other events run in between. The parameter \<open>aw\<close> of
  such a handler is what they do to the state at the handler's n-th pause; any function may
  stand there. \<open>clk n\<close> is the clock after n pauses, \<open>now\<close> the reading at the arrival. Whether an alarm can be set and whether a frame can be sent are arguments, as
  are the clock readings and the random values. Answers are the status and the JSON body.
\<close>

section \<open>State\<close>

datatype estate = Stopped | Enabled | Revoked

record endpoint =
  ep_id :: string
  ep_alias :: string
  ep_state :: estate
  ep_generation :: int
  ep_revision :: int
  ep_stop_epoch :: int
  ep_credential_hash :: string
  ep_updated_at :: int
  ep_mode :: string
  ep_lease :: "int option"
  ep_offline :: "int option"
  ep_idle :: "int option"
  ep_last_seen :: "int option"
  ep_family :: "string option"
  ep_platform :: "string option"
  ep_version :: "string option"

record socket =
  so_id :: nat
  so_open :: bool
  so_authenticated :: bool
  so_protocol :: nat
  so_extension :: string
  so_endpoint :: "string option"
  so_generation :: int
  so_deadline :: int
  so_last_seen :: "int option"

record pending_mutation =
  pm_operation_id :: string
  pm_endpoint_id :: string
  pm_intent_key :: string
  pm_generation :: int
  pm_revision :: int
  pm_socket :: nat
  pm_dispatched :: bool

record pending_read =
  pr_request_id :: string
  pr_endpoint_id :: string
  pr_generation :: int
  pr_socket :: nat
  pr_tool :: string
  pr_stage :: "string option"
  pr_stage_at :: int

record attempt =
  at_id :: string
  at_proof_hash :: string
  at_alias :: string
  at_mode :: string
  at_endpoint :: "string option"
  at_stop_epoch :: "int option"
  at_verified :: bool
  at_consumed :: bool
  at_expires :: int

datatype frame =
    Notice string
  | Authenticated string int
  | PrepareRequest string string int
  | ExecuteRequest string string int string
  | ReadRequest string int string
  | Pong int

record owner =
  ow_idle_ms :: int
  ow_endpoints :: "endpoint list"
  ow_attempts :: "attempt list"
  ow_limits :: "(string \<times> nat \<times> int) list"
  ow_ledger :: ledger
  ow_sockets :: "socket list"
  ow_mutations :: "pending_mutation list"
  ow_reads :: "pending_read list"
  ow_admitting :: "string list"
  ow_alarm :: "int option"
  ow_sent :: "(nat \<times> frame) list"
  ow_answers :: "(string \<times> json) list"  \<comment> \<open>reads that were answered\<close>

type_synonym response = "nat \<times> json"

definition TEMP_RECONNECT_GRACE_MS :: int where "TEMP_RECONNECT_GRACE_MS = 90000"
definition DAY_MS :: int where "DAY_MS = 86400000"
definition LIVE_AUDIT_MS :: int where "LIVE_AUDIT_MS = 60000"

definition rememberedIdleDays :: "string option \<Rightarrow> string + nat" where
  "rememberedIdleDays value =
    (case value of
       None \<Rightarrow> Inr 14
     | Some s \<Rightarrow>
         if s = [] then Inr 14
         else if matches [\<lambda>c. is_digit c \<and> c \<noteq> CHR ''0''] s \<or>
            matches [\<lambda>c. is_digit c \<and> c \<noteq> CHR ''0'' \<and> c \<noteq> CHR ''9'', is_digit] s \<or> s = ''90''
         then Inr (digits_val s) else Inl ''Invalid BROWSER_REMEMBERED_IDLE_DAYS'')"

section \<open>Small helpers\<close>

definition validId :: "json option \<Rightarrow> string option" where
  "validId v = (case as_str v of Some s \<Rightarrow> if is_uuid s then Some s else None | None \<Rightarrow> None)"

definition error_reply :: "nat \<Rightarrow> string \<Rightarrow> response" where
  "error_reply st e = (st, JObj [(''error'', JStr e)])"

definition code_reply :: "nat \<Rightarrow> string \<Rightarrow> response" where
  "code_reply st e = (st, JObj [(''error_code'', JStr e)])"

definition jint :: "int \<Rightarrow> json" where "jint i = JNum (Finite (int_str i))"

definition jint_or_null :: "int option \<Rightarrow> json" where
  "jint_or_null v = (case v of None \<Rightarrow> JNull | Some i \<Rightarrow> jint i)"

definition jstr_or_null :: "string option \<Rightarrow> json" where
  "jstr_or_null v = (case v of None \<Rightarrow> JNull | Some i \<Rightarrow> JStr i)"

definition istate_text :: "istate \<Rightarrow> string" where
  "istate_text st =
    (case st of Admitted \<Rightarrow> ''admitted'' | PendingApproval \<Rightarrow> ''pending_approval'' | Denied \<Rightarrow> ''denied''
     | Dispatching \<Rightarrow> ''dispatching'' | Unknown \<Rightarrow> ''unknown'' | OwnerReported \<Rightarrow> ''owner_reported_resolution''
     | Completed \<Rightarrow> ''completed'' | Failed \<Rightarrow> ''failed'' | Expired \<Rightarrow> ''expired'')"

definition opt_field :: "string \<Rightarrow> string option \<Rightarrow> (string \<times> json) list" where
  "opt_field k v = (case v of None \<Rightarrow> [] | Some s \<Rightarrow> [(k, JStr s)])"

definition answer_json :: "answer \<Rightarrow> json" where
  "answer_json a = JObj (opt_field ''operation_id'' (an_operation_id a) @
     opt_field ''state'' (map_option istate_text (an_state a)) @
     (case an_tab_id a of None \<Rightarrow> [] | Some i \<Rightarrow> [(''tab_id'', jint i)]) @
     opt_field ''owner_reported_resolution'' (an_report a) @ opt_field ''safe_next_action'' (an_next a) @
     opt_field ''error_code'' (an_error a) @ opt_field ''execute_token'' (an_token a) @
     (if an_fresh a then [(''fresh'', JBool True)] else []) @ opt_field ''presentation_warning'' (an_warning a))"

definition control_free :: "string \<Rightarrow> bool" where
  "control_free s \<longleftrightarrow> list_all (\<lambda>c. 32 \<le> code c \<and> code c \<noteq> 127) s"

definition safeAlias :: "json option \<Rightarrow> bool" where
  "safeAlias v \<longleftrightarrow>
     (case as_str v of
        None \<Rightarrow> False
      | Some s \<Rightarrow> 0 < length (js_trim s) \<and> length (js_trim s) \<le> 64 \<and> length s \<le> 64 \<and> control_free s)"

definition visibleAlias :: "endpoint \<Rightarrow> string" where
  "visibleAlias e = (if ep_alias e = ''Browser profile'' then take 8 (ep_id e) else ep_alias e)"

definition truthy_time :: "int option \<Rightarrow> int option" where
  \<comment> \<open>a number that JavaScript takes for true\<close>
  "truthy_time v = (case v of Some i \<Rightarrow> if i = 0 then None else Some i | None \<Rightarrow> None)"

definition after :: "int option \<Rightarrow> int \<Rightarrow> bool" where
  \<comment> \<open>\<open>!v || v > now\<close>\<close>
  "after v now \<longleftrightarrow> (case truthy_time v of None \<Rightarrow> True | Some i \<Rightarrow> i > now)"

definition leaseValid :: "endpoint \<Rightarrow> int \<Rightarrow> bool" where
  "leaseValid e now \<longleftrightarrow> after (ep_lease e) now \<and> after (ep_offline e) now"

definition publicEndpoint :: "endpoint \<Rightarrow> bool \<Rightarrow> int \<Rightarrow> (string \<times> json) list" where
  "publicEndpoint e online now =
    (let ready = (ep_state e = Enabled \<and> after (ep_lease e) now \<and> online)
     in [(''endpoint_id'', JStr (ep_id e)), (''alias'', JStr (visibleAlias e)),
         (''authorization'', JStr (case ep_state e of Stopped \<Rightarrow> ''stopped'' | Enabled \<Rightarrow> ''enabled'' | Revoked \<Rightarrow> ''revoked'')),
         (''online'', JBool ready), (''control_ready'', JBool ready), (''observation_ready'', JBool ready),
         (''generation'', jint (ep_generation e)), (''updated_at'', jint (ep_updated_at e)),
         (''pairing_mode'', JStr (ep_mode e)), (''lease_expires_at'', jint_or_null (ep_lease e)),
         (''idle_expires_at'', if ep_state e = Stopped then jint_or_null (ep_idle e)
            else if ep_state e = Enabled \<and> \<not> online then jint_or_null (ep_offline e) else JNull),
         (''last_seen_at'', jint_or_null (ep_last_seen e)), (''browser_family'', jstr_or_null (ep_family e)),
         (''browser_platform'', jstr_or_null (ep_platform e)), (''client_version'', jstr_or_null (ep_version e))])"

definition endpoint_of :: "owner \<Rightarrow> string \<Rightarrow> endpoint option" where
  \<comment> \<open>the method \<open>endpoint\<close>\<close>
  "endpoint_of s i = List.find (\<lambda>e. ep_id e = i) (ow_endpoints s)"

definition upd_endpoints :: "(endpoint \<Rightarrow> bool) \<Rightarrow> (endpoint \<Rightarrow> endpoint) \<Rightarrow> owner \<Rightarrow> owner" where
  "upd_endpoints g f s = s\<lparr>ow_endpoints := upd_rows g f (ow_endpoints s)\<rparr>"

definition selects :: "(endpoint \<Rightarrow> bool) \<Rightarrow> owner \<Rightarrow> bool" where
  \<comment> \<open>the statement writes a row; ids are unique\<close>
  "selects g s \<longleftrightarrow> list_ex g (ow_endpoints s)"

definition revoke_row :: "int \<Rightarrow> endpoint \<Rightarrow> endpoint" where
  "revoke_row now e = e\<lparr>ep_state := Revoked, ep_revision := ep_revision e + 1, ep_updated_at := now\<rparr>"

definition send :: "nat \<Rightarrow> frame \<Rightarrow> owner \<Rightarrow> owner" where
  "send sock f s = s\<lparr>ow_sent := ow_sent s @ [(sock, f)]\<rparr>"

definition socket_of :: "owner \<Rightarrow> nat \<Rightarrow> socket option" where
  "socket_of s n = List.find (\<lambda>x. so_id x = n) (ow_sockets s)"

definition close_socket :: "nat \<Rightarrow> owner \<Rightarrow> owner" where
  "close_socket n s = s\<lparr>ow_sockets := upd_rows (\<lambda>x. so_id x = n) (\<lambda>x. x\<lparr>so_open := False\<rparr>) (ow_sockets s)\<rparr>"

definition current_client :: "socket \<Rightarrow> bool" where
  "current_client a \<longleftrightarrow> so_authenticated a \<and> so_protocol a = 3 \<and> so_extension a = ''0.2.6''"

definition socket_ready :: "string \<Rightarrow> int \<Rightarrow> int \<Rightarrow> socket \<Rightarrow> bool" where
  "socket_ready i generation now a \<longleftrightarrow> current_client a \<and> so_endpoint a = Some i \<and>
     so_generation a = generation \<and> so_open a \<and>
     (case so_last_seen a of Some t \<Rightarrow> now - t < 60000 | None \<Rightarrow> False)"

definition live :: "owner \<Rightarrow> string \<Rightarrow> int \<Rightarrow> int \<Rightarrow> bool" where
  "live s i generation now \<longleftrightarrow> list_ex (socket_ready i generation now) (ow_sockets s)"

section \<open>Terminating, closing, expiring\<close>

definition terminateMutation :: "int \<Rightarrow> string \<Rightarrow> owner \<Rightarrow> owner" where
  "terminateMutation now op s =
    (case List.find (\<lambda>p. pm_operation_id p = op) (ow_mutations s) of
       None \<Rightarrow> s
     | Some p \<Rightarrow>
         s\<lparr>ow_mutations := filter (\<lambda>q. pm_operation_id q \<noteq> op) (ow_mutations s),
           ow_ledger :=
             (if pm_dispatched p then snd (markUnknown (pm_endpoint_id p) (pm_intent_key p) now (ow_ledger s))
              else snd (abort (pm_endpoint_id p) (pm_intent_key p) now (ow_ledger s)))\<rparr>)"

definition terminate_where :: "int \<Rightarrow> (pending_mutation \<Rightarrow> bool) \<Rightarrow> owner \<Rightarrow> owner" where
  \<comment> \<open>the loops over the pending mutations\<close>
  "terminate_where now sel s =
    fold (terminateMutation now) (map pm_operation_id (filter sel (ow_mutations s))) s"

definition close_endpoint :: "int \<Rightarrow> string \<Rightarrow> string \<Rightarrow> owner \<Rightarrow> owner" where
  \<comment> \<open>the method \<open>close\<close>\<close>
  "close_endpoint now i reason s =
    (let s1 = terminate_where now (\<lambda>p. pm_endpoint_id p = i) s;
         hit = filter (\<lambda>x. so_endpoint x = Some i) (ow_sockets s1)
     in fold (\<lambda>x t. close_socket (so_id x) (send (so_id x) (Notice reason) t)) hit s1)"

definition revoke_if :: "int \<Rightarrow> string \<Rightarrow> (endpoint \<Rightarrow> bool) \<Rightarrow> owner \<Rightarrow> owner" where
  \<comment> \<open>the guarded UPDATE to revoked and the close when it wrote the row\<close>
  "revoke_if now i g s =
    (if selects (\<lambda>e. ep_id e = i \<and> g e) s
     then close_endpoint now i ''revoked'' (upd_endpoints (\<lambda>e. ep_id e = i \<and> g e) (revoke_row now) s)
     else s)"

definition temporary_expired :: "int \<Rightarrow> endpoint \<Rightarrow> bool" where
  "temporary_expired now e \<longleftrightarrow> ep_state e = Enabled \<and> ep_mode e = ''temporary'' \<and>
     ((case ep_lease e of Some t \<Rightarrow> t \<le> now | None \<Rightarrow> False) \<or>
      (case ep_offline e of Some t \<Rightarrow> t \<le> now | None \<Rightarrow> False))"

definition expireTemporary :: "int \<Rightarrow> owner \<Rightarrow> owner" where
  "expireTemporary now s =
    fold (\<lambda>i. revoke_if now i (\<lambda>e. ep_state e = Enabled))
      (map ep_id (filter (temporary_expired now) (ow_endpoints s))) s"

definition scheduleEarlierAlarm :: "int \<Rightarrow> int \<Rightarrow> owner \<Rightarrow> owner" where
  "scheduleEarlierAlarm now deadline s =
    (case ow_alarm s of
       None \<Rightarrow> s\<lparr>ow_alarm := Some deadline\<rparr>
     | Some t \<Rightarrow> if t \<le> now \<or> t > deadline then s\<lparr>ow_alarm := Some deadline\<rparr> else s)"

definition min_opt :: "int option \<Rightarrow> int \<Rightarrow> int option" where
  \<comment> \<open>\<open>Math.min\<close> with a variable that starts at Infinity\<close>
  "min_opt a b = (case a of None \<Rightarrow> Some b | Some x \<Rightarrow> Some (min x b))"

definition deadline_of :: "endpoint \<Rightarrow> int option" where
  "deadline_of e = (if ep_state e = Stopped then ep_idle e else ep_offline e)"

definition set_deadline :: "estate \<Rightarrow> int \<Rightarrow> endpoint \<Rightarrow> endpoint" where
  "set_deadline st d e = (if st = Stopped then e\<lparr>ep_idle := Some d\<rparr> else e\<lparr>ep_offline := Some d\<rparr>)"

definition column_of :: "estate \<Rightarrow> endpoint \<Rightarrow> int option" where
  "column_of st e = (if st = Stopped then ep_idle e else ep_offline e)"

fun remembered_step ::
  "int \<Rightarrow> endpoint \<Rightarrow> owner \<times> int option \<times> bool \<Rightarrow> owner \<times> int option \<times> bool" where
  \<comment> \<open>one round of the loop, on a row read before the loop\<close>
  "remembered_step now e (s, next, online) =
    (case deadline_of e of
       Some d \<Rightarrow>
         if d \<le> now then (revoke_if now (ep_id e) (\<lambda>x. ep_state x = ep_state e) s, next, online)
         else if ep_state e = Enabled \<and> live s (ep_id e) (ep_generation e) now
         then (upd_endpoints (\<lambda>x. ep_id x = ep_id e \<and> ep_state x = Enabled \<and> ep_generation x = ep_generation e)
                 (\<lambda>x. x\<lparr>ep_offline := None\<rparr>) s, next, True)
         else (s, min_opt next d, online)
     | None \<Rightarrow>
         if ep_state e = Enabled \<and> live s (ep_id e) (ep_generation e) now then (s, next, True)
         else
           let d = (if ep_state e = Enabled then (case ep_last_seen e of Some t \<Rightarrow> t | None \<Rightarrow> now) else now) +
                 ow_idle_ms s;
               s1 = upd_endpoints
                 (\<lambda>x. ep_id x = ep_id e \<and> ep_state x = ep_state e \<and> column_of (ep_state e) x = None)
                 (set_deadline (ep_state e) d) s
           in if d \<le> now
              then (revoke_if now (ep_id e) (\<lambda>x. ep_state x = ep_state e \<and>
                      (case column_of (ep_state e) x of Some t \<Rightarrow> t \<le> now | None \<Rightarrow> False)) s1, next, online)
              else (s1, min_opt next d, online))"

definition remembered :: "endpoint \<Rightarrow> bool" where
  "remembered e \<longleftrightarrow> ep_mode e = ''permanent'' \<and> ep_state e \<noteq> Revoked"

definition remembered_scan :: "int \<Rightarrow> owner \<Rightarrow> owner \<times> int option" where
  \<comment> \<open>\<open>reconcileRemembered\<close> up to the alarm: the next deadline\<close>
  "remembered_scan now s =
    (let (s1, next, online) = fold (remembered_step now) (filter remembered (ow_endpoints s)) (s, None, False)
     in (s1, if online then min_opt next (now + LIVE_AUDIT_MS) else next))"

definition revoke_remembered :: "int \<Rightarrow> string list \<Rightarrow> owner \<Rightarrow> owner" where
  \<comment> \<open>the alarm could not be set\<close>
  "revoke_remembered now ids s =
    fold (\<lambda>i. close_endpoint now i ''revoked'') ids (upd_endpoints remembered (revoke_row now) s)"

definition reconcileRemembered :: "bool \<Rightarrow> (nat \<Rightarrow> owner \<Rightarrow> owner) \<Rightarrow> (nat \<Rightarrow> int) \<Rightarrow> int \<Rightarrow> owner \<Rightarrow> bool \<times> owner" where
  \<comment> \<open>False if it throws; the alarm may be set or not\<close>
  "reconcileRemembered alarm_ok aw clk now s =
    (let ids = map ep_id (filter remembered (ow_endpoints s));
         (s1, next) = remembered_scan now s
     in case next of
          None \<Rightarrow> (True, s1)
        | Some d \<Rightarrow>
            if alarm_ok then (True, scheduleEarlierAlarm (clk 1) d (aw 0 s1))
            else (False, revoke_remembered now ids (aw 0 s1)))"

section \<open>Rate limits\<close>

definition budget :: "string \<Rightarrow> nat \<Rightarrow> int \<Rightarrow> owner \<Rightarrow> bool \<times> owner" where
  "budget bucket max_count now s =
    (let put = (\<lambda>v. s\<lparr>ow_limits := (bucket, v) # filter (\<lambda>(b, _). b \<noteq> bucket) (ow_limits s)\<rparr>)
     in case map_of (ow_limits s) bucket of
          None \<Rightarrow> (True, put (1, now))
        | Some (count, start) \<Rightarrow>
            if now - start \<ge> 60000 then (True, put (1, now))
            else if count \<ge> max_count then (False, s)
            else (True, put (count + 1, start)))"

section \<open>Activation\<close>

definition at_of :: "owner \<Rightarrow> string \<Rightarrow> attempt option" where
  "at_of s i = List.find (\<lambda>a. at_id a = i) (ow_attempts s)"

definition upd_attempts :: "(attempt \<Rightarrow> bool) \<Rightarrow> (attempt \<Rightarrow> attempt) \<Rightarrow> owner \<Rightarrow> owner" where
  "upd_attempts g f s = s\<lparr>ow_attempts := upd_rows g f (ow_attempts s)\<rparr>"

definition insert_attempt ::
  "(string \<times> json) list \<Rightarrow> string option \<Rightarrow> int option \<Rightarrow> int \<Rightarrow> owner \<Rightarrow> response \<times> owner" where
  \<comment> \<open>the end of activate-begin; a repeated attempt id violates the primary key and throws\<close>
  "insert_attempt arg ep epoch now s =
    (let s1 = s\<lparr>ow_attempts := filter (\<lambda>a. \<not> (at_expires a < now \<or> at_consumed a)) (ow_attempts s)\<rparr>;
         i = str_field arg ''attempt_id''
     in if length (ow_attempts s1) \<ge> 40 then (error_reply 429 ''busy'', s1)
        else if at_of s1 i \<noteq> None then ((500, JNull), s1)
        else ((200, JObj [(''state'', JStr ''pending''), (''expires_at'', jint (now + 300000))]),
          s1\<lparr>ow_attempts := ow_attempts s1 @
            [\<lparr>at_id = i, at_proof_hash = str_field arg ''proof_hash'', at_alias = str_field arg ''alias'',
              at_mode = str_field arg ''mode'', at_endpoint = ep, at_stop_epoch = epoch, at_verified = False,
              at_consumed = False, at_expires = now + 300000\<rparr>]\<rparr>))"

definition credential_arg :: "(string \<times> json) list \<Rightarrow> string option" where
  \<comment> \<open>a credential of 64 characters\<close>
  "credential_arg arg =
    (case as_str (obj_get arg ''credential'') of Some c \<Rightarrow> if length c = 64 then Some c else None | None \<Rightarrow> None)"

definition activate_begin ::
  "(string \<Rightarrow> string) \<Rightarrow> (nat \<Rightarrow> owner \<Rightarrow> owner) \<Rightarrow> (nat \<Rightarrow> int) \<Rightarrow> (string \<times> json) list \<Rightarrow> int \<Rightarrow> owner \<Rightarrow>
     response \<times> owner" where
  "activate_begin sha aw clk arg now s =
    (if validId (obj_get arg ''attempt_id'') = None \<or> \<not> hex64 (str_field arg ''proof_hash'') \<or>
        str_field arg ''mode'' \<notin> {''permanent'', ''temporary''} \<or> \<not> safeAlias (obj_get arg ''alias'')
     then (error_reply 400 ''invalid_activation'', s)
     else
       let (within, s1) = budget ''activation:begin'' 60 now s
       in if \<not> within then (error_reply 400 ''invalid_activation'', s1)
          else if obj_get arg ''endpoint_id'' = None then insert_attempt arg None None now s1
          else case (validId (obj_get arg ''endpoint_id''), credential_arg arg) of
            (Some i, Some credential) \<Rightarrow>
              (case endpoint_of s1 i of
                 None \<Rightarrow> (error_reply 403 ''re_pair_required'', s1)
               | Some e \<Rightarrow>
                   if ep_state e = Revoked \<or> \<not> leaseValid e (clk 0) \<or> ep_mode e \<noteq> str_field arg ''mode''
                   then (error_reply 403 ''re_pair_required'', s1)
                   else
                     let s2 = aw 0 s1
                     in if sha credential \<noteq> ep_credential_hash e then (error_reply 403 ''re_pair_required'', s2)
                        else insert_attempt arg (Some i) (Some (ep_stop_epoch e)) now s2)
          | _ \<Rightarrow> (error_reply 400 ''invalid_endpoint'', s1))"

definition activate_authorize :: "(string \<times> json) list \<Rightarrow> int \<Rightarrow> owner \<Rightarrow> response \<times> owner" where
  "activate_authorize arg now s =
    (case validId (obj_get arg ''attempt_id'') of
       None \<Rightarrow> (error_reply 400 ''invalid_activation'', s)
     | Some i \<Rightarrow>
         let g = (\<lambda>a. at_id a = i \<and> \<not> at_verified a \<and> \<not> at_consumed a \<and> at_expires a > now)
         in if list_ex g (ow_attempts s)
            then ((200, JObj [(''state'', JStr ''verified'')]), upd_attempts g (\<lambda>a. a\<lparr>at_verified := True\<rparr>) s)
            else (error_reply 404 ''not_found'', s))"

definition consume_attempt :: "string \<Rightarrow> int \<Rightarrow> owner \<Rightarrow> bool \<times> owner" where
  \<comment> \<open>the UPDATE that uses the attempt up, and whether it wrote a row\<close>
  "consume_attempt i now s =
    (let g = (\<lambda>a. at_id a = i \<and> \<not> at_consumed a \<and> at_verified a \<and> at_expires a > now)
     in (list_ex g (ow_attempts s), upd_attempts g (\<lambda>a. a\<lparr>at_consumed := True\<rparr>) s))"

definition superseded :: response where
  "superseded = error_reply 409 ''activation_superseded''"

definition grant_current :: "endpoint option \<Rightarrow> attempt \<Rightarrow> int \<Rightarrow> bool" where
  \<comment> \<open>the tests on the endpoint that every stage repeats\<close>
  "grant_current e row now \<longleftrightarrow>
     (case e of
        None \<Rightarrow> False
      | Some x \<Rightarrow> ep_state x \<noteq> Revoked \<and> leaseValid x now \<and> Some (ep_stop_epoch x) = at_stop_epoch row)"

definition commit_resume :: "attempt \<Rightarrow> endpoint \<Rightarrow> int option \<Rightarrow> int \<Rightarrow> owner \<Rightarrow> response \<times> owner" where
  \<comment> \<open>after the alarm: use the attempt up, look again, enable\<close>
  "commit_resume row latest resume now s =
    (let (used, s1) = consume_attempt (at_id row) now s
     in if \<not> used then (superseded, s1)
        else if \<not> grant_current (endpoint_of s1 (ep_id latest)) row now \<or>
           map_option ep_revision (endpoint_of s1 (ep_id latest)) \<noteq> Some (ep_revision latest)
        then (superseded, s1)
        else
          let g = (\<lambda>e. ep_id e = ep_id latest \<and> ep_state e \<noteq> Revoked \<and>
                Some (ep_stop_epoch e) = at_stop_epoch row \<and> ep_revision e = ep_revision latest)
          in if \<not> selects g s1 then (superseded, s1)
             else ((200, JObj [(''authorization'', JStr ''enabled''), (''endpoint_id'', JStr (ep_id latest)),
                     (''pairing_mode'', JStr (at_mode row))]),
                   upd_endpoints g (\<lambda>e. e\<lparr>ep_state := Enabled, ep_revision := ep_revision e + 1,
                     ep_updated_at := now, ep_idle := None, ep_offline := resume\<rparr>) s1))"

definition resume_existing ::
  "(nat \<Rightarrow> owner \<Rightarrow> owner) \<Rightarrow> (nat \<Rightarrow> int) \<Rightarrow> bool \<Rightarrow> attempt \<Rightarrow> endpoint \<Rightarrow> owner \<Rightarrow> response \<times> owner" where
  "resume_existing aw clk alarm_ok row existing s =
    (case endpoint_of s (ep_id existing) of
       None \<Rightarrow> (superseded, s)
     | Some latest \<Rightarrow>
         if \<not> grant_current (Some latest) row (clk 2) \<or> ep_revision latest \<noteq> ep_revision existing \<or>
            ep_credential_hash latest \<noteq> ep_credential_hash existing
         then (superseded, s)
         else if at_mode row = ''permanent'' then
           let deadline = clk 2 + ow_idle_ms s; s1 = aw 2 s
           in if alarm_ok
              then commit_resume row latest (Some deadline) (clk 3) (scheduleEarlierAlarm (clk 3) deadline s1)
              else (error_reply 503 ''lease_unavailable'', s1)
         else commit_resume row latest None (clk 2) s)"

definition new_endpoint :: "attempt \<Rightarrow> string \<Rightarrow> string \<Rightarrow> int \<Rightarrow> int \<Rightarrow> endpoint" where
  "new_endpoint row i credentialHash idle now =
    \<lparr>ep_id = i, ep_alias = at_alias row, ep_state = Enabled, ep_generation = 0, ep_revision = 1,
     ep_stop_epoch = 0, ep_credential_hash = credentialHash, ep_updated_at = now, ep_mode = at_mode row,
     ep_lease = (if at_mode row = ''temporary'' then Some (now + DAY_MS) else None),
     ep_offline = (if at_mode row = ''permanent'' then Some (now + idle) else None), ep_idle = None,
     ep_last_seen = None, ep_family = None, ep_platform = None, ep_version = None\<rparr>"

definition pair_new ::
  "(string \<Rightarrow> string) \<Rightarrow> (nat \<Rightarrow> owner \<Rightarrow> owner) \<Rightarrow> (nat \<Rightarrow> int) \<Rightarrow> bool \<Rightarrow> string \<Rightarrow> string \<Rightarrow> attempt \<Rightarrow> owner \<Rightarrow>
     response \<times> owner" where
  "pair_new sha aw clk alarm_ok fresh_id credential row s =
    (if length (filter (\<lambda>e. ep_state e \<noteq> Revoked) (ow_endpoints s)) \<ge> 100
     then (error_reply 429 ''capacity_exceeded'', s)
     else
       let (used, s1) = consume_attempt (at_id row) (clk 3) (aw 2 s)
       in if \<not> used then (superseded, s1)
          else if endpoint_of s1 fresh_id \<noteq> None then ((500, JNull), s1)
          else
            let e = new_endpoint row fresh_id (sha credential) (ow_idle_ms s1) (clk 3);
                s2 = s1\<lparr>ow_endpoints := ow_endpoints s1 @ [e]\<rparr>;
                deadline = (case truthy_time (ep_lease e) of Some t \<Rightarrow> Some t | None \<Rightarrow> truthy_time (ep_offline e));
                granted = (200, JObj [(''authorization'', JStr ''enabled''), (''endpoint_id'', JStr fresh_id),
                  (''credential'', JStr credential), (''pairing_mode'', JStr (at_mode row)),
                  (''lease_expires_at'', jint_or_null (ep_lease e))])
            in case deadline of
                 None \<Rightarrow> (granted, s2)
               | Some d \<Rightarrow>
                   if alarm_ok then (granted, scheduleEarlierAlarm (clk 4) d (aw 3 s2))
                   else (error_reply 503 ''lease_unavailable'',
                     upd_endpoints (\<lambda>x. ep_id x = fresh_id)
                       (\<lambda>x. x\<lparr>ep_state := Revoked, ep_revision := ep_revision x + 1\<rparr>) (aw 3 s2)))"

definition activate_finish ::
  "(string \<Rightarrow> string) \<Rightarrow> (nat \<Rightarrow> owner \<Rightarrow> owner) \<Rightarrow> (nat \<Rightarrow> int) \<Rightarrow> bool \<Rightarrow> bool \<Rightarrow> string \<Rightarrow> string \<Rightarrow>
     (string \<times> json) list \<Rightarrow> int \<Rightarrow> owner \<Rightarrow> response \<times> owner" where
  \<comment> \<open>activate-cancel and activate-complete\<close>
  "activate_finish sha aw clk alarm_ok cancel fresh_id credential arg now s =
    (case validId (obj_get arg ''attempt_id'') of
       None \<Rightarrow> (error_reply 400 ''invalid_activation'', s)
     | Some i \<Rightarrow>
         if \<not> hex64 (str_field arg ''proof'') then (error_reply 400 ''invalid_activation'', s)
         else case at_of s i of
           None \<Rightarrow> (error_reply 403 ''expired_or_invalid'', s)
         | Some row \<Rightarrow>
             if at_consumed row \<or> at_expires row \<le> now then (error_reply 403 ''expired_or_invalid'', s)
             else
               let s1 = aw 0 s
               in if sha (str_field arg ''proof'') \<noteq> at_proof_hash row
                  then (error_reply 403 ''expired_or_invalid'', s1)
                  else if cancel
                  then ((200, JObj [(''state'', JStr ''cancelled'')]),
                    upd_attempts (\<lambda>a. at_id a = i \<and> \<not> at_consumed a) (\<lambda>a. a\<lparr>at_consumed := True\<rparr>) s1)
                  else if \<not> at_verified row then ((409, JObj [(''state'', JStr ''awaiting_owner'')]), s1)
                  else case at_endpoint row of
                    None \<Rightarrow> pair_new sha aw clk alarm_ok fresh_id credential row s1
                  | Some ep \<Rightarrow>
                      (case endpoint_of s1 ep of
                         None \<Rightarrow> (superseded, s1)
                       | Some existing \<Rightarrow>
                           if \<not> grant_current (Some existing) row (clk 1) \<or> ep_mode existing \<noteq> at_mode row \<or>
                              as_str (obj_get arg ''endpoint_id'') \<noteq> Some ep \<or>
                              as_str (obj_get arg ''credential'') = None
                           then (superseded, s1)
                           else
                             let s2 = aw 1 s1
                             in if sha (str_field arg ''credential'') \<noteq> ep_credential_hash existing
                                then (superseded, s2)
                                else resume_existing aw clk alarm_ok row existing s2))"

end
