(* ===== verification/BrowserHandlers.thy ===== *)
theory BrowserHandlers
  imports BrowserOwner
begin

text \<open>
  The remaining handlers of \<open>BrowserOwner\<close> (\<open>apps/browser-mcp-worker/src/coordinator.ts\<close>):
  the requests that mutate, read, list, rename, stop and revoke, the web socket messages,
  the closing of a socket, the alarm and the timers. Pauses, alarms, clock readings and
  random values are arguments as in \<open>BrowserOwner\<close>; \<open>send_ok\<close> tells whether \<open>socket.send\<close>
  throws.
\<close>

section \<open>Receipts\<close>

definition operation_status :: "(string \<times> json) list \<Rightarrow> int \<Rightarrow> owner \<Rightarrow> response \<times> owner" where
  "operation_status arg now s =
    (if length (obj_keys arg) \<noteq> 2 \<or> obj_get arg ''endpoint_id'' = None \<or>
        (obj_get arg ''intent_key'' = None \<and> obj_get arg ''operation_id'' = None)
     then (code_reply 400 ''invalid_arguments'', s)
     else
       let lg = reconcile now (ow_ledger s);
           original = (case validId (obj_get arg ''operation_id'') of Some i \<Rightarrow> byOperation lg i | None \<Rightarrow> None);
           result =
             (if obj_get arg ''operation_id'' \<noteq> None then
                (case original of
                   Some r \<Rightarrow>
                     if Some (JStr (ir_endpoint_id r)) = obj_get arg ''endpoint_id''
                     then status lg (ir_endpoint_id r) (ir_intent_key r) else error_answer ''not_found''
                 | None \<Rightarrow> error_answer ''not_found'')
              else status lg (str_field arg ''endpoint_id'') (str_field arg ''intent_key''))
       in ((case an_error result of None \<Rightarrow> 200 | Some e \<Rightarrow> if e = ''not_found'' then 404 else 400,
            answer_json result), s\<lparr>ow_ledger := lg\<rparr>))"

definition activity_summary ::
  "(string \<Rightarrow> string) \<Rightarrow> (nat \<Rightarrow> owner \<Rightarrow> owner) \<Rightarrow> (string \<times> json) list \<Rightarrow> int \<Rightarrow> owner \<Rightarrow> response \<times> owner" where
  "activity_summary sha aw arg now s =
    (case (validId (obj_get arg ''endpoint_id''), credential_arg arg) of
       (Some i, Some credential) \<Rightarrow>
         if length (obj_keys arg) \<noteq> 2 then (code_reply 400 ''invalid_arguments'', s)
         else (case endpoint_of s i of
           None \<Rightarrow> (code_reply 401 ''unauthorized'', s)
         | Some e \<Rightarrow>
             if ep_state e = Revoked then (code_reply 401 ''unauthorized'', s)
             else
               let s1 = aw 0 s
               in if sha credential \<noteq> ep_credential_hash e then (code_reply 401 ''unauthorized'', s1)
                  else
                    let lg = reconcile now (ow_ledger s1); (pending, unknown) = activitySummary i lg
                    in ((200, JObj [(''pending'', jint (int pending)), (''unknown'', jint (int unknown))]),
                        s1\<lparr>ow_ledger := lg\<rparr>))
     | _ \<Rightarrow> (code_reply 400 ''invalid_arguments'', s))"

section \<open>Mutations\<close>

definition expected_keys :: "(string \<times> json) list \<Rightarrow> string list" where
  "expected_keys c =
    (let action = str_field c ''action'' in
     if action = ''tab_open'' then [''endpoint_id'', ''intent_key'', ''action'', ''url'']
     else if action = ''tab_navigate''
     then [''endpoint_id'', ''intent_key'', ''action'', ''tab_id'', ''document_id'', ''url'']
     else if action = ''tab_close'' then [''endpoint_id'', ''intent_key'', ''action'', ''tab_id'', ''document_id'']
     else if isInteraction (obj_get c ''action'')
     then [''endpoint_id'', ''intent_key'', ''action'', ''tab_id'', ''document_id'', ''element_id''] @
       interactionExtra action
     else [])"

definition in_flight :: "owner \<Rightarrow> string \<Rightarrow> bool" where
  \<comment> \<open>an admission, a mutation or a read of the endpoint is under way\<close>
  "in_flight s i \<longleftrightarrow> i \<in> set (ow_admitting s) \<or> list_ex (\<lambda>p. pm_endpoint_id p = i) (ow_mutations s) \<or>
     list_ex (\<lambda>p. pr_endpoint_id p = i) (ow_reads s)"

definition ready_socket :: "owner \<Rightarrow> endpoint \<Rightarrow> int \<Rightarrow> socket option" where
  "ready_socket s e now = List.find (socket_ready (ep_id e) (ep_generation e) now) (ow_sockets s)"

definition not_enabled :: "endpoint option \<Rightarrow> response" where
  "not_enabled e = code_reply 403 (if map_option ep_state e = Some Stopped then ''stopped'' else ''revoked'')"

definition same_grant :: "endpoint option \<Rightarrow> endpoint \<Rightarrow> bool" where
  "same_grant current e \<longleftrightarrow>
     (case current of
        None \<Rightarrow> False
      | Some c \<Rightarrow> ep_state c = Enabled \<and> ep_generation c = ep_generation e \<and> ep_revision c = ep_revision e)"

definition prepare_mutation ::
  "bool \<Rightarrow> endpoint \<Rightarrow> socket \<Rightarrow> string \<Rightarrow> string \<Rightarrow> int \<Rightarrow> owner \<Rightarrow> response \<times> owner" where
  \<comment> \<open>after a fresh admission: bind the prepare, remember the mutation, ask the extension\<close>
  "prepare_mutation send_ok e sock key op now s =
    (if \<not> same_grant (endpoint_of s (ep_id e)) e
     then ((200, JObj [(''operation_id'', JStr op), (''state'', JStr ''failed''),
            (''error_code'', JStr ''authorization_changed'')]),
           s\<lparr>ow_ledger := snd (abort (ep_id e) key now (ow_ledger s))\<rparr>)
     else
       let (bound, lg) = bindPrepare (ep_id e) key (ep_generation e) (ep_revision e) now (ow_ledger s)
       in if \<not> bound
          then ((503, JObj [(''operation_id'', JStr op), (''state'', JStr ''failed''),
                 (''error_code'', JStr ''preparation_unavailable'')]),
                s\<lparr>ow_ledger := snd (abort (ep_id e) key now lg)\<rparr>)
          else
            let p = \<lparr>pm_operation_id = op, pm_endpoint_id = ep_id e, pm_intent_key = key,
                  pm_generation = ep_generation e, pm_revision = ep_revision e, pm_socket = so_id sock,
                  pm_dispatched = False\<rparr>;
                s1 = s\<lparr>ow_ledger := lg,
                  ow_mutations := filter (\<lambda>q. pm_operation_id q \<noteq> op) (ow_mutations s) @ [p]\<rparr>;
                s2 = (if send_ok then send (so_id sock) (PrepareRequest op key (ep_generation e)) s1
                      else terminateMutation now op s1)
            in ((200, answer_json (status (ow_ledger s2) (ep_id e) key)), s2))"

definition mutate ::
  "(string \<Rightarrow> url option) \<Rightarrow> (string \<Rightarrow> string) \<Rightarrow> (nat \<Rightarrow> owner \<Rightarrow> owner) \<Rightarrow> (nat \<Rightarrow> int) \<Rightarrow> bool \<Rightarrow> string \<Rightarrow>
     (string \<times> json) list \<Rightarrow> int \<Rightarrow> owner \<Rightarrow> response \<times> owner" where
  "mutate parse_url hmac aw clk send_ok op c now s =
    (let expected = expected_keys c; ep = str_field c ''endpoint_id''; key = str_field c ''intent_key''
     in if expected = [] \<or> length (obj_keys c) \<noteq> length expected \<or>
           list_ex (\<lambda>k. k \<notin> set expected) (obj_keys c) \<or>
           (isInteraction (obj_get c ''action'') \<and> \<not> validInteraction c)
        then (code_reply 400 ''invalid_arguments'', s)
        else
          let s1 = s\<lparr>ow_ledger := reconcile now (ow_ledger s)\<rparr>;
              prior = status (ow_ledger s1) ep key
          in if an_operation_id prior \<noteq> None then
               let s2 = aw 0 s1; (recovered, lg) = admit parse_url hmac c now 100 op (ow_ledger s2)
               in ((if an_error recovered \<noteq> None then 409 else 200, answer_json recovered), s2\<lparr>ow_ledger := lg\<rparr>)
             else case endpoint_of s1 ep of
               None \<Rightarrow> (not_enabled None, s1)
             | Some e \<Rightarrow>
                 if ep_state e \<noteq> Enabled \<or> \<not> leaseValid e (clk 0) then (not_enabled (Some e), s1)
                 else if an_error prior = Some ''not_found'' \<and>
                   (in_flight s1 (ep_id e) \<or> hasDispatching (ep_id e) (ow_ledger s1))
                 then (code_reply 409 ''busy'', s1)
                 else (case ready_socket s1 e now of
                   None \<Rightarrow> (code_reply 503 ''offline'', s1)
                 | Some sock \<Rightarrow>
                     if ep_id e \<in> set (ow_admitting s1) then (code_reply 409 ''busy'', s1)
                     else
                       let s2 = aw 0 (s1\<lparr>ow_admitting := ep_id e # ow_admitting s1\<rparr>);
                           (accepted, lg) = admit parse_url hmac c now 100 op (ow_ledger s2);
                           s3 = aw 1 (s2\<lparr>ow_ledger := lg\<rparr>);
                           s4 = s3\<lparr>ow_admitting := removeAll (ep_id e) (ow_admitting s3)\<rparr>
                       in if an_error accepted \<noteq> None then ((400, answer_json accepted), s4)
                          else if \<not> an_fresh accepted then ((200, answer_json accepted), s4)
                          else prepare_mutation send_ok e sock key
                            (case an_operation_id accepted of Some i \<Rightarrow> i | None \<Rightarrow> []) (clk 2) s4))"

section \<open>Reads\<close>

definition read_request ::
  "(nat \<Rightarrow> int) \<Rightarrow> bool \<Rightarrow> string \<Rightarrow> (string \<times> json) list \<Rightarrow> owner \<Rightarrow> response option \<times> owner" where
  \<comment> \<open>None: the answer comes with the result, the timeout or the closing of the socket\<close>
  "read_request clk send_ok request_id arg s =
    (let tool = str_field arg ''tool''
     in case validId (obj_get arg ''endpoint_id'') of
       None \<Rightarrow> (Some (code_reply 400 ''invalid_arguments''), s)
     | Some i \<Rightarrow>
         if tool \<notin> {''tabs'', ''snapshot'', ''screenshot''} \<or>
            (tool \<noteq> ''tabs'' \<and> \<not> natural_field (obj_get arg ''tab_id'')) \<or>
            (obj_get arg ''scope'' \<noteq> None \<and>
              (tool \<noteq> ''tabs'' \<or> str_field arg ''scope'' \<notin> {''ordinary'', ''private''})) \<or>
            list_ex (\<lambda>k. k \<notin> {''endpoint_id'', ''tool'', ''tab_id'', ''scope''}) (obj_keys arg)
         then (Some (code_reply 400 ''invalid_arguments''), s)
         else case endpoint_of s i of
           None \<Rightarrow> (Some (not_enabled None), s)
         | Some e \<Rightarrow>
             if ep_state e \<noteq> Enabled \<or> \<not> leaseValid e (clk 0) then (Some (not_enabled (Some e)), s)
             else (case ready_socket s e (clk 0) of
               None \<Rightarrow> (Some (code_reply 503 ''offline''), s)
             | Some sock \<Rightarrow>
                 if in_flight s i \<or> hasDispatching i (ow_ledger s) then (Some (code_reply 409 ''busy''), s)
                 else if \<not> send_ok then (Some (200, JObj [(''error_code'', JStr ''offline'')]), s)
                 else (None, send (so_id sock) (ReadRequest request_id (ep_generation e) tool)
                   (s\<lparr>ow_reads := ow_reads s @ [\<lparr>pr_request_id = request_id, pr_endpoint_id = i,
                      pr_generation = ep_generation e, pr_socket = so_id sock, pr_tool = tool,
                      pr_stage = None, pr_stage_at = clk 0\<rparr>]\<rparr>))))"

definition resolve_read :: "pending_read \<Rightarrow> json \<Rightarrow> owner \<Rightarrow> owner" where
  \<comment> \<open>forget the read and answer it\<close>
  "resolve_read p value s =
    s\<lparr>ow_reads := filter (\<lambda>q. pr_request_id q \<noteq> pr_request_id p) (ow_reads s),
      ow_answers := ow_answers s @ [(pr_request_id p, value)]\<rparr>"

definition stage_elapsed :: "pending_read \<Rightarrow> int \<Rightarrow> int" where
  "stage_elapsed p now = min 5000 (max 0 (now - pr_stage_at p))"

definition stage_text :: "pending_read \<Rightarrow> string" where
  "stage_text p = (case pr_stage p of Some st \<Rightarrow> st | None \<Rightarrow> ''awaiting_extension'')"

definition read_timeout :: "string \<Rightarrow> int \<Rightarrow> owner \<Rightarrow> owner" where
  "read_timeout request_id now s =
    (case List.find (\<lambda>p. pr_request_id p = request_id) (ow_reads s) of
       None \<Rightarrow> s
     | Some p \<Rightarrow>
         resolve_read p (if pr_tool p = ''snapshot''
           then JObj [(''error_code'', JStr ''timeout''), (''stage'', JStr (stage_text p)),
             (''stage_elapsed_ms'', jint (stage_elapsed p now))]
           else JObj [(''error_code'', JStr ''timeout'')]) s)"

section \<open>Endpoints\<close>

fun insert_recent :: "endpoint \<Rightarrow> endpoint list \<Rightarrow> endpoint list" where
  "insert_recent e [] = [e]"
| "insert_recent e (x # xs) =
     (if ep_updated_at e > ep_updated_at x then e # x # xs else x # insert_recent e xs)"

definition by_updated :: "endpoint list \<Rightarrow> endpoint list" where
  \<comment> \<open>ORDER BY updated_at DESC\<close>
  "by_updated es = foldl (\<lambda>acc e. insert_recent e acc) [] es"

definition list_endpoints :: "(string \<times> json) list \<Rightarrow> int \<Rightarrow> owner \<Rightarrow> response" where
  "list_endpoints arg now s =
    (if list_ex (\<lambda>k. k \<noteq> ''history'') (obj_keys arg) \<or> obj_get arg ''history'' \<notin> {None, Some (JBool True)}
     then code_reply 400 ''invalid_arguments''
     else
       let current = by_updated (filter (\<lambda>e. ep_state e \<noteq> Revoked) (ow_endpoints s));
           history = (if obj_get arg ''history'' = Some (JBool True)
             then take 100 (by_updated (filter (\<lambda>e. ep_state e = Revoked) (ow_endpoints s))) else [])
       in (200, JObj [(''endpoints'',
            JArr (map (\<lambda>e. JObj (publicEndpoint e (live s (ep_id e) (ep_generation e) now) now))
              (current @ history)))]))"

definition stop_deadline :: "endpoint \<Rightarrow> int \<Rightarrow> int \<Rightarrow> int option" where
  "stop_deadline e idle now =
    (if ep_mode e = ''permanent''
     then min_opt (case (ep_idle e, ep_offline e) of
              (Some a, Some b) \<Rightarrow> Some (min a b) | (Some a, None) \<Rightarrow> Some a | (None, b) \<Rightarrow> b) (now + idle)
     else None)"

definition commit_stop :: "string \<Rightarrow> int option \<Rightarrow> int \<Rightarrow> owner \<Rightarrow> owner" where
  \<comment> \<open>the UPDATE to stopped, which tests the id only, and the close\<close>
  "commit_stop i deadline now s =
    close_endpoint now i ''stopped''
      (upd_endpoints (\<lambda>e. ep_id e = i)
        (\<lambda>e. e\<lparr>ep_state := Stopped, ep_revision := ep_revision e + 1, ep_stop_epoch := ep_stop_epoch e + 1,
          ep_updated_at := now, ep_idle := deadline, ep_offline := None\<rparr>) s)"

definition fail_stop :: "string \<Rightarrow> int \<Rightarrow> owner \<Rightarrow> owner" where
  "fail_stop i now s =
    close_endpoint now i ''revoked''
      (upd_endpoints (\<lambda>e. ep_id e = i)
        (\<lambda>e. e\<lparr>ep_state := Revoked, ep_revision := ep_revision e + 1, ep_stop_epoch := ep_stop_epoch e + 1,
          ep_updated_at := now\<rparr>) s)"

definition stop_endpoint ::
  "(nat \<Rightarrow> owner \<Rightarrow> owner) \<Rightarrow> (nat \<Rightarrow> int) \<Rightarrow> bool \<Rightarrow> endpoint \<Rightarrow> int \<Rightarrow> owner \<Rightarrow> response \<times> owner" where
  \<comment> \<open>the branch of stop and local-stop, on the row that was read before the last pause\<close>
  "stop_endpoint aw clk alarm_ok e now s =
    (let i = ep_id e; stopped = (200, JObj [(''endpoint_id'', JStr i), (''authorization'', JStr ''stopped'')])
     in if ep_state e \<noteq> Stopped then
          (case stop_deadline e (ow_idle_ms s) now of
             None \<Rightarrow> (stopped, commit_stop i None now s)
           | Some d \<Rightarrow>
               if alarm_ok then (stopped, commit_stop i (Some d) now (scheduleEarlierAlarm (clk 2) d (aw 1 s)))
               else (code_reply 503 ''idle_alarm_unavailable'', fail_stop i now (aw 1 s)))
        else (stopped, close_endpoint now i ''stopped''
               (upd_endpoints (\<lambda>x. ep_id x = i) (\<lambda>x. x\<lparr>ep_stop_epoch := ep_stop_epoch x + 1\<rparr>) s)))"

definition commit_revoke :: "string \<Rightarrow> int \<Rightarrow> owner \<Rightarrow> owner" where
  "commit_revoke i now s =
    close_endpoint now i ''revoked'' (upd_endpoints (\<lambda>e. ep_id e = i) (revoke_row now) s)"

definition rename_endpoint :: "(string \<times> json) list \<Rightarrow> string \<Rightarrow> owner \<Rightarrow> response \<times> owner" where
  "rename_endpoint arg i s =
    (if \<not> safeAlias (obj_get arg ''alias'') \<or>
        list_ex (\<lambda>k. k \<notin> {''endpoint_id'', ''credential'', ''alias''}) (obj_keys arg)
     then (code_reply 400 ''invalid_alias'', s)
     else
       let name = js_trim (str_field arg ''alias'')
       in ((200, JObj [(''endpoint_id'', JStr i), (''alias'', JStr name)]),
           upd_endpoints (\<lambda>e. ep_id e = i \<and> ep_state e \<noteq> Revoked) (\<lambda>e. e\<lparr>ep_alias := name\<rparr>) s))"

datatype endpoint_path = State | LocalStop | LocalRevoke | Rename | Stop | Revoke

definition authenticated_paths :: "endpoint_path list" where
  "authenticated_paths = [State, LocalStop, LocalRevoke, Rename]"

definition endpoint_request ::
  "(string \<Rightarrow> string) \<Rightarrow> (nat \<Rightarrow> owner \<Rightarrow> owner) \<Rightarrow> (nat \<Rightarrow> int) \<Rightarrow> bool \<Rightarrow> endpoint_path \<Rightarrow> (string \<times> json) list \<Rightarrow>
     int \<Rightarrow> owner \<Rightarrow> response \<times> owner" where
  \<comment> \<open>the requests that name one endpoint; the row is read before the credential is hashed\<close>
  "endpoint_request sha aw clk alarm_ok path arg now s =
    (case validId (obj_get arg ''endpoint_id'') of
       None \<Rightarrow> (error_reply 400 ''invalid_endpoint'', s)
     | Some i \<Rightarrow>
         (case endpoint_of s i of
            None \<Rightarrow> (error_reply 404 ''not_found'', s)
          | Some e \<Rightarrow>
              let known = (path \<notin> set authenticated_paths \<or>
                    (case credential_arg arg of Some c \<Rightarrow> sha c = ep_credential_hash e | None \<Rightarrow> False));
                  s1 = (if path \<in> set authenticated_paths \<and> credential_arg arg \<noteq> None then aw 0 s else s);
                  revoked = (200, JObj [(''endpoint_id'', JStr i), (''authorization'', JStr ''revoked'')])
              in if \<not> known then (error_reply 401 ''unauthorized'', s1)
                 else if path = State
                 then ((200, JObj (publicEndpoint e (live s1 (ep_id e) (ep_generation e) (clk 1)) (clk 1) @
                        [(''stop_epoch'', jint (ep_stop_epoch e))])), s1)
                 else if ep_state e \<noteq> Revoked \<and> path = Rename then rename_endpoint arg i s1
                 else if ep_state e = Revoked
                 then (if path = Revoke \<or> path = LocalRevoke then revoked else error_reply 403 ''revoked'', s1)
                 else if path = Stop \<or> path = LocalStop then stop_endpoint aw clk alarm_ok e now s1
                 else (revoked, commit_revoke i now s1)))"

section \<open>Web sockets\<close>

definition open_socket :: "bool \<Rightarrow> bool \<Rightarrow> nat \<Rightarrow> int \<Rightarrow> owner \<Rightarrow> response \<times> owner" where
  \<comment> \<open>whether the request asks for an upgrade, whether the alarm can be set, the new socket\<close>
  "open_socket upgrade alarm_ok n now s =
    (if \<not> upgrade then (error_reply 426 ''upgrade_required'', s)
     else if length (ow_sockets s) \<ge> 40 then (error_reply 503 ''capacity_exceeded'', s)
     else
       let d = now + 5000;
           s1 = s\<lparr>ow_sockets := ow_sockets s @
             [\<lparr>so_id = n, so_open = True, so_authenticated = False, so_protocol = 0, so_extension = [],
               so_endpoint = None, so_generation = 0, so_deadline = d, so_last_seen = None\<rparr>]\<rparr>
       in if alarm_ok
          then ((101, JNull), (case ow_alarm s1 of
             None \<Rightarrow> s1\<lparr>ow_alarm := Some d\<rparr>
           | Some t \<Rightarrow> if t = 0 \<or> t > d then s1\<lparr>ow_alarm := Some d\<rparr> else s1))
          else (error_reply 503 ''unavailable'', close_socket n s1))"

definition authentication_timeout :: "nat \<Rightarrow> owner \<Rightarrow> owner" where
  "authentication_timeout n s =
    (case socket_of s n of
       Some a \<Rightarrow> if so_authenticated a then s else close_socket n s
     | None \<Rightarrow> s)"

definition coalesce :: "string option \<Rightarrow> string option \<Rightarrow> string option" where
  "coalesce a b = (case a of None \<Rightarrow> b | Some _ \<Rightarrow> a)"

definition one_of :: "json option \<Rightarrow> string list \<Rightarrow> string option" where
  "one_of v allowed = (case as_str v of Some x \<Rightarrow> if x \<in> set allowed then Some x else None | None \<Rightarrow> None)"

definition supersede_sockets :: "nat \<Rightarrow> string \<Rightarrow> int \<Rightarrow> owner \<Rightarrow> owner" where
  \<comment> \<open>the loop over the other sockets of the endpoint\<close>
  "supersede_sockets n i now s =
    fold (\<lambda>x t. close_socket (so_id x) (terminate_where now (\<lambda>p. pm_socket p = so_id x) t))
      (filter (\<lambda>x. so_id x \<noteq> n \<and> so_endpoint x = Some i) (ow_sockets s)) s"

definition authenticate_commit ::
  "nat \<Rightarrow> endpoint \<Rightarrow> (string \<times> json) list \<Rightarrow> int \<Rightarrow> owner \<Rightarrow> bool \<times> owner" where
  \<comment> \<open>after the digest: look again, take the next generation, bind the socket\<close>
  "authenticate_commit n e v now s =
    (case endpoint_of s (ep_id e) of
       None \<Rightarrow> (False, close_socket n s)
     | Some current \<Rightarrow>
         if ep_state current \<noteq> Enabled \<or> ep_revision current \<noteq> ep_revision e \<or>
            ep_generation current \<noteq> ep_generation e
         then (False, close_socket n s)
         else
           let generation = ep_generation current + 1;
               g = (\<lambda>x. ep_id x = ep_id e \<and> ep_state x = Enabled \<and> ep_generation x = ep_generation current \<and>
                 ep_revision x = ep_revision current);
               s1 = upd_endpoints g (\<lambda>x. x\<lparr>ep_generation := generation, ep_offline := None, ep_idle := None,
                 ep_last_seen := Some now, ep_version := Some ''0.2.6'',
                 ep_family := coalesce (one_of (obj_get v ''browser_family'') [''chrome'', ''edge'']) (ep_family x),
                 ep_platform := coalesce (one_of (obj_get v ''browser_platform'')
                   [''windows'', ''linux'', ''mac'', ''other'']) (ep_platform x),
                 ep_updated_at := now\<rparr>) s;
               s2 = supersede_sockets n (ep_id e) now s1;
               s3 = s2\<lparr>ow_sockets := upd_rows (\<lambda>x. so_id x = n) (\<lambda>x. x\<lparr>so_authenticated := True,
                 so_protocol := 3, so_extension := ''0.2.6'', so_endpoint := Some (ep_id e),
                 so_generation := generation, so_deadline := 0, so_last_seen := Some now\<rparr>) (ow_sockets s2)\<rparr>
           in (True, send n (Authenticated (ep_id e) generation) s3))"

definition authenticate_alarm :: "bool \<Rightarrow> string \<Rightarrow> int \<Rightarrow> owner \<Rightarrow> owner" where
  \<comment> \<open>the alarm after the authentication\<close>
  "authenticate_alarm alarm_ok i now s =
    (if alarm_ok then scheduleEarlierAlarm now (now + LIVE_AUDIT_MS) s
     else close_endpoint now i ''revoked''
       (upd_endpoints (\<lambda>x. ep_id x = i) (\<lambda>x. x\<lparr>ep_state := Revoked, ep_revision := ep_revision x + 1\<rparr>) s))"

definition authenticate_check :: "(string \<times> json) list \<Rightarrow> (string \<times> string) option" where
  \<comment> \<open>the frame names an endpoint and a credential\<close>
  "authenticate_check v =
    (if as_str (obj_get v ''type'') \<noteq> Some ''authenticate'' \<or> safe_int (obj_get v ''protocol'') \<noteq> Some 3 \<or>
        as_str (obj_get v ''extension_version'') \<noteq> Some ''0.2.6'' then None
     else case (validId (obj_get v ''endpoint_id''), credential_arg v) of
       (Some i, Some c) \<Rightarrow> Some (i, c) | _ \<Rightarrow> None)"

definition authenticate_socket ::
  "(string \<Rightarrow> string) \<Rightarrow> (nat \<Rightarrow> owner \<Rightarrow> owner) \<Rightarrow> (nat \<Rightarrow> int) \<Rightarrow> bool \<Rightarrow> nat \<Rightarrow> (string \<times> json) list \<Rightarrow>
     owner \<Rightarrow> owner" where
  "authenticate_socket sha aw clk alarm_ok n v s =
    (case authenticate_check v of
       None \<Rightarrow> close_socket n s
     | Some (i, credential) \<Rightarrow>
         (case endpoint_of s i of
            None \<Rightarrow> close_socket n s
          | Some e \<Rightarrow>
              if ep_state e \<noteq> Enabled \<or> \<not> leaseValid e (clk 0) then close_socket n s
              else
                let s1 = aw 0 s
                in if sha credential \<noteq> ep_credential_hash e then close_socket n s1
                   else
                     let (bound, s2) = authenticate_commit n e v (clk 1) s1
                     in if \<not> bound then s2 else authenticate_alarm alarm_ok i (clk 2) (aw 1 s2)))"

text \<open>A prepare result.\<close>

definition approval_fields :: "string list" where
  "approval_fields = [''approval_required'', ''command'', ''context'', ''run_id'', ''expires_at'', ''owner_approved'']"

definition forget_mutation :: "string \<Rightarrow> owner \<Rightarrow> owner" where
  "forget_mutation op s = s\<lparr>ow_mutations := filter (\<lambda>q. pm_operation_id q \<noteq> op) (ow_mutations s)\<rparr>"

definition prepare_check ::
  "nat \<Rightarrow> endpoint \<Rightarrow> string \<Rightarrow> (string \<times> json) list \<Rightarrow> int \<Rightarrow> owner \<Rightarrow> (string \<times> int) option \<times> owner" where
  \<comment> \<open>up to the dispatch: the intent key and the revision to dispatch under\<close>
  "prepare_check n e op v now s =
    (case List.find (\<lambda>p. pm_operation_id p = op) (ow_mutations s) of
       None \<Rightarrow> (None, s)
     | Some p \<Rightarrow>
         if pm_socket p \<noteq> n \<or> pm_generation p \<noteq> ep_generation e \<or> pm_endpoint_id p \<noteq> ep_id e \<or>
            pm_dispatched p \<or> as_str (obj_get v ''intent_key'') \<noteq> Some (pm_intent_key p)
         then (None, s)
         else
           let key = pm_intent_key p
           in case endpoint_of s (ep_id e) of
             None \<Rightarrow> (None, terminateMutation now op s)
           | Some latest \<Rightarrow>
               if ep_state latest \<noteq> Enabled \<or> ep_generation latest \<noteq> ep_generation e \<or>
                  \<not> matchesPrepare (ep_id e) key op (ep_generation e) (ep_revision latest) now (ow_ledger s)
               then (None, terminateMutation now op s)
               else if list_ex (\<lambda>k. obj_get v k \<noteq> None) approval_fields
               then (None, (let t = terminateMutation now op s
                            in t\<lparr>ow_ledger := record_denial op ''forbidden'' (ow_ledger t)\<rparr>))
               else if obj_get v ''accepted'' \<noteq> Some (JBool True)
               then
                 let denial = (if as_str (obj_get v ''error_code'') = Some ''approval_required''
                       then Some ''forbidden'' else safeFailureCode (as_str (obj_get v ''error_code'')));
                     lg = snd (abort (ep_id e) key now (ow_ledger s))
                 in (None, forget_mutation op (s\<lparr>ow_ledger := record_denial op
                       (case denial of Some c \<Rightarrow> c | None \<Rightarrow> ''preparation_unavailable'') lg\<rparr>))
               else (Some (key, ep_revision latest), s))"

definition dispatch_after ::
  "bool \<Rightarrow> nat \<Rightarrow> endpoint \<Rightarrow> string \<Rightarrow> string \<Rightarrow> int \<Rightarrow> answer \<Rightarrow> int \<Rightarrow> owner \<Rightarrow> owner" where
  \<comment> \<open>after the dispatch: send the token to the socket of the unchanged grant\<close>
  "dispatch_after send_ok n e op key revision a now s =
    (case an_token a of
       None \<Rightarrow> terminateMutation now op s
     | Some token \<Rightarrow>
         if an_state a \<noteq> Some Dispatching then terminateMutation now op s
         else
           let s1 = s\<lparr>ow_mutations := upd_rows (\<lambda>p. pm_operation_id p = op) (\<lambda>p. p\<lparr>pm_dispatched := True\<rparr>)
                 (ow_mutations s)\<rparr>;
               give_up = terminateMutation now op s1
           in case endpoint_of s1 (ep_id e) of
                None \<Rightarrow> give_up
              | Some later \<Rightarrow>
                  if ep_state later \<noteq> Enabled \<or> ep_generation later \<noteq> ep_generation e \<or>
                     ep_revision later \<noteq> revision \<or>
                     \<not> (case socket_of s1 n of Some x \<Rightarrow> so_open x | None \<Rightarrow> False)
                  then give_up
                  else if send_ok then send n (ExecuteRequest op key (ep_generation e) token) s1
                  else give_up)"

definition prepare_result ::
  "(string \<Rightarrow> string) \<Rightarrow> (nat \<Rightarrow> owner \<Rightarrow> owner) \<Rightarrow> (nat \<Rightarrow> int) \<Rightarrow> bool \<Rightarrow> string \<Rightarrow> nat \<Rightarrow> endpoint \<Rightarrow> string \<Rightarrow>
     (string \<times> json) list \<Rightarrow> owner \<Rightarrow> owner" where
  "prepare_result sha aw clk send_ok token n e op v s =
    (case prepare_check n e op v (clk 0) s of
       (None, s1) \<Rightarrow> s1
     | (Some (key, revision), s1) \<Rightarrow>
         (case dispatch_check (ep_id e) key (ep_generation e) (ow_ledger s1) of
            Inl a \<Rightarrow> dispatch_after send_ok n e op key revision a (clk 1) (aw 1 s1)
          | Inr found \<Rightarrow>
              let s2 = aw 0 s1;
                  (a, lg) = dispatch_commit (ep_id e) key (ep_generation e) found token (sha token) (clk 0) (ow_ledger s2)
              in dispatch_after send_ok n e op key revision a (clk 2) (aw 1 (s2\<lparr>ow_ledger := lg\<rparr>))))"

text \<open>The other frames of an authenticated socket.\<close>

definition natural_or_null :: "json option \<Rightarrow> bool" where
  "natural_or_null v \<longleftrightarrow> v = Some JNull \<or> natural_field v"

definition result_state :: "json option \<Rightarrow> istate option" where
  "result_state v =
    (case as_str v of
       Some t \<Rightarrow> if t = ''completed'' then Some Completed else if t = ''failed'' then Some Failed
         else if t = ''unknown'' then Some Unknown else None
     | None \<Rightarrow> None)"

definition execute_frame :: "endpoint \<Rightarrow> (string \<times> json) list \<Rightarrow> (string \<times> receipt) option" where
  \<comment> \<open>the operation id and the receipt of a well-formed execute result\<close>
  "execute_frame e v =
    (case (validId (obj_get v ''operation_id''), as_str (obj_get v ''intent_key''),
           as_str (obj_get v ''execute_token''), result_state (obj_get v ''state'')) of
       (Some op, Some key, Some token, Some res) \<Rightarrow>
         if safe_int (obj_get v ''generation'') = Some (ep_generation e) \<and> natural_or_null (obj_get v ''tab_id'') \<and>
            obj_get v ''presentation_warning'' \<in> {None, Some (JStr ''tab_group_unavailable'')}
         then Some (op, \<lparr>rc_endpoint_id = ep_id e, rc_intent_key = key, rc_token = token,
           rc_generation = ep_generation e, rc_result = res, rc_tab_id = safe_int (obj_get v ''tab_id''),
           rc_warning = as_str (obj_get v ''presentation_warning''),
           rc_failure = (if res = Failed then safeFailureCode (as_str (obj_get v ''error_code'')) else None)\<rparr>)
         else None
     | _ \<Rightarrow> None)"

definition execute_result ::
  "(string \<Rightarrow> string) \<Rightarrow> (nat \<Rightarrow> owner \<Rightarrow> owner) \<Rightarrow> (nat \<Rightarrow> int) \<Rightarrow> nat \<Rightarrow> string \<Rightarrow> receipt \<Rightarrow> owner \<Rightarrow> owner" where
  "execute_result sha aw clk n op q s =
    (if an_operation_id (status (ow_ledger s) (rc_endpoint_id q) (rc_intent_key q)) \<noteq> Some op then s
     else case finalize_check sha q (ow_ledger s) of
       Some refused \<Rightarrow> aw 0 s
     | None \<Rightarrow>
         let s1 = aw 0 s; (result, lg) = finalize_commit q (clk 0) (ow_ledger s1);
             s2 = aw 1 (s1\<lparr>ow_ledger := lg\<rparr>)
         in if an_error result \<noteq> None then s2
            else if list_ex (\<lambda>p. pm_operation_id p = op \<and> pm_socket p = n) (ow_mutations s2)
            then forget_mutation op s2 else s2)"

definition readStages :: "string list" where
  "readStages = [''extension_received'', ''tab_lookup'', ''frame_lookup'', ''text_injection'',
     ''element_refs'', ''final_validation'', ''result_transport'']"

definition read_of :: "owner \<Rightarrow> nat \<Rightarrow> endpoint \<Rightarrow> string \<Rightarrow> pending_read option" where
  \<comment> \<open>the pending read of this socket, endpoint and generation\<close>
  "read_of s n e i =
    (case List.find (\<lambda>p. pr_request_id p = i) (ow_reads s) of
       None \<Rightarrow> None
     | Some p \<Rightarrow>
         if pr_socket p = n \<and> pr_endpoint_id p = ep_id e \<and> pr_generation p = ep_generation e
         then Some p else None)"

definition read_progress :: "nat \<Rightarrow> endpoint \<Rightarrow> string \<Rightarrow> string \<Rightarrow> int \<Rightarrow> owner \<Rightarrow> owner" where
  "read_progress n e i stage now s =
    (case read_of s n e i of
       None \<Rightarrow> s
     | Some p \<Rightarrow>
         if pr_tool p \<noteq> ''snapshot'' then s
         else s\<lparr>ow_reads := upd_rows (\<lambda>q. pr_request_id q = i)
           (\<lambda>q. q\<lparr>pr_stage := Some stage, pr_stage_at := now\<rparr>) (ow_reads s)\<rparr>)"

definition read_result :: "nat \<Rightarrow> endpoint \<Rightarrow> string \<Rightarrow> json option \<Rightarrow> owner \<Rightarrow> owner" where
  "read_result n e i value s =
    (case read_of s n e i of
       None \<Rightarrow> s
     | Some p \<Rightarrow>
         resolve_read p
           (case value of
              Some (JObj kvs) \<Rightarrow>
                if length (stringify (JObj kvs)) \<le> (if pr_tool p = ''screenshot'' then 2100000 else 250000)
                then JObj kvs else JObj [(''error_code'', JStr ''invalid_result'')]
            | _ \<Rightarrow> JObj [(''error_code'', JStr ''invalid_result'')]) s)"

definition ping :: "nat \<Rightarrow> endpoint \<Rightarrow> int \<Rightarrow> owner \<Rightarrow> owner" where
  "ping n e now s =
    (let s1 = s\<lparr>ow_sockets := upd_rows (\<lambda>x. so_id x = n) (\<lambda>x. x\<lparr>so_last_seen := Some now\<rparr>) (ow_sockets s)\<rparr>;
         seen = (case ep_last_seen e of Some t \<Rightarrow> t | None \<Rightarrow> 0);
         s2 = (if ep_mode e = ''permanent'' \<and> now - seen \<ge> 300000
           then upd_endpoints (\<lambda>x. ep_id x = ep_id e \<and> ep_state x = Enabled \<and> ep_generation x = ep_generation e)
             (\<lambda>x. x\<lparr>ep_last_seen := Some now\<rparr>) s1 else s1)
     in send n (Pong (ep_generation e)) s2)"

definition socket_stop ::
  "(nat \<Rightarrow> owner \<Rightarrow> owner) \<Rightarrow> (nat \<Rightarrow> int) \<Rightarrow> bool \<Rightarrow> endpoint \<Rightarrow> owner \<Rightarrow> owner" where
  "socket_stop aw clk alarm_ok e s =
    (case stop_deadline e (ow_idle_ms s) (clk 0) of
       None \<Rightarrow> commit_stop (ep_id e) None (clk 0) s
     | Some d \<Rightarrow>
         if alarm_ok then commit_stop (ep_id e) (Some d) (clk 0) (scheduleEarlierAlarm (clk 1) d (aw 0 s))
         else close_endpoint (clk 1) (ep_id e) ''revoked''
           (upd_endpoints (\<lambda>x. ep_id x = ep_id e)
             (\<lambda>x. x\<lparr>ep_state := Revoked, ep_revision := ep_revision x + 1\<rparr>) (aw 0 s)))"

definition authenticated_message ::
  "(string \<Rightarrow> string) \<Rightarrow> (nat \<Rightarrow> owner \<Rightarrow> owner) \<Rightarrow> (nat \<Rightarrow> int) \<Rightarrow> bool \<Rightarrow> bool \<Rightarrow> string \<Rightarrow> nat \<Rightarrow> socket \<Rightarrow>
     (string \<times> json) list \<Rightarrow> owner \<Rightarrow> owner" where
  "authenticated_message sha aw clk alarm_ok send_ok token n auth v s =
    (if so_protocol auth \<noteq> 3 \<or> so_extension auth \<noteq> ''0.2.6'' then close_socket n s
     else case (case so_endpoint auth of Some i \<Rightarrow> endpoint_of s i | None \<Rightarrow> None) of
       None \<Rightarrow> close_socket n s
     | Some e \<Rightarrow>
         if ep_state e \<noteq> Enabled \<or> \<not> leaseValid e (clk 0) \<or> ep_generation e \<noteq> so_generation auth
         then close_socket n s
         else
           let kind = str_field v ''type''; same = (safe_int (obj_get v ''generation'') = Some (ep_generation e))
           in case (validId (obj_get v ''operation_id''), execute_frame e v, validId (obj_get v ''request_id'')) of
                (op, frame, request) \<Rightarrow>
                  if kind = ''prepare_result'' \<and> op \<noteq> None \<and> same
                  then prepare_result sha aw clk send_ok token n e (the op) v s
                  else if kind = ''execute_result'' \<and> frame \<noteq> None
                  then execute_result sha aw clk n (fst (the frame)) (snd (the frame)) s
                  else if kind = ''read_progress'' \<and> request \<noteq> None \<and> same \<and>
                    str_field v ''stage'' \<in> set readStages
                  then read_progress n e (the request) (str_field v ''stage'') (clk 0) s
                  else if kind = ''read_result'' \<and> request \<noteq> None \<and> same
                  then read_result n e (the request) (obj_get v ''data'') s
                  else if kind = ''ping'' \<and> same then ping n e (clk 0) s
                  else if kind = ''stop'' then socket_stop aw clk alarm_ok e s
                  else close_socket n s)"

definition frame_fields :: "json option \<Rightarrow> (string \<times> json) list option" where
  \<comment> \<open>the parsed text of a frame; None is refused\<close>
  "frame_fields v = (case v of Some (JObj kvs) \<Rightarrow> Some kvs | Some (JStr (c # cs)) \<Rightarrow> Some []
     | Some (JNum n) \<Rightarrow> if n = Finite ''0'' then None else Some [] | Some (JBool True) \<Rightarrow> Some [] | _ \<Rightarrow> None)"

definition webSocketMessage ::
  "(string \<Rightarrow> string) \<Rightarrow> (nat \<Rightarrow> owner \<Rightarrow> owner) \<Rightarrow> (nat \<Rightarrow> owner \<Rightarrow> owner) \<Rightarrow> (nat \<Rightarrow> int) \<Rightarrow> bool \<Rightarrow> bool \<Rightarrow> bool \<Rightarrow>
     string \<Rightarrow> nat \<Rightarrow> nat \<Rightarrow> json option \<Rightarrow> int \<Rightarrow> owner \<Rightarrow> owner" where
  \<comment> \<open>the socket, the length of the text and its parsed value\<close>
  "webSocketMessage sha aw0 aw clk audit_ok alarm_ok send_ok token n chars v now s =
    (case socket_of s n of
       None \<Rightarrow> s
     | Some auth \<Rightarrow>
         let (scanned, s1) = reconcileRemembered audit_ok aw0 clk now (expireTemporary now s)
         in if \<not> scanned then close_socket n s1
            else if chars > (if so_authenticated auth then 2200000 else 4096) \<or>
               (clk 0 > so_deadline auth \<and> \<not> so_authenticated auth)
            then close_socket n s1
            else case frame_fields v of
              None \<Rightarrow> close_socket n s1
            | Some kvs \<Rightarrow>
                if \<not> so_authenticated auth then authenticate_socket sha aw clk alarm_ok n kvs s1
                else authenticated_message sha aw clk alarm_ok send_ok token n auth kvs s1)"

definition offline_deadline :: "socket \<Rightarrow> endpoint \<Rightarrow> int \<Rightarrow> int \<Rightarrow> int" where
  "offline_deadline a e idle now =
    (if ep_mode e = ''temporary''
     then (case ep_lease e of Some t \<Rightarrow> min (now + TEMP_RECONNECT_GRACE_MS) t | None \<Rightarrow> now + TEMP_RECONNECT_GRACE_MS)
     else
       let seen = max (case so_last_seen a of Some t \<Rightarrow> t | None \<Rightarrow> 0) (case ep_last_seen e of Some t \<Rightarrow> t | None \<Rightarrow> 0)
       in min now (if seen = 0 then now else seen) + idle)"

definition close_reads :: "nat \<Rightarrow> json \<Rightarrow> int \<Rightarrow> owner \<Rightarrow> owner" where
  "close_reads n close_code now s =
    fold (\<lambda>p t. resolve_read p (if pr_tool p = ''snapshot''
        then JObj [(''error_code'', JStr ''offline''), (''stage'', JStr (stage_text p)),
          (''stage_elapsed_ms'', jint (stage_elapsed p now)), (''close_code'', close_code)]
        else JObj [(''error_code'', JStr ''offline'')]) t)
      (filter (\<lambda>p. pr_socket p = n) (ow_reads s)) s"

definition webSocketClose ::
  "(nat \<Rightarrow> owner \<Rightarrow> owner) \<Rightarrow> (nat \<Rightarrow> int) \<Rightarrow> bool \<Rightarrow> nat \<Rightarrow> int \<Rightarrow> owner \<Rightarrow> owner" where
  "webSocketClose aw clk alarm_ok n close_number s =
    (case socket_of s n of
       None \<Rightarrow> s
     | Some a \<Rightarrow>
         let now = clk 0;
             close_code = (if 1000 \<le> close_number \<and> close_number \<le> 4999 then jint close_number else JNull);
             gone = s\<lparr>ow_sockets := filter (\<lambda>x. so_id x \<noteq> n) (ow_sockets s)\<rparr>;
             grant = (if so_authenticated a
               then (case so_endpoint a of
                  None \<Rightarrow> None
                | Some i \<Rightarrow> (case endpoint_of s i of
                    Some e \<Rightarrow> if ep_state e = Enabled \<and> ep_generation e = so_generation a then Some e else None
                  | None \<Rightarrow> None)) else None);
             rest = (\<lambda>t. close_reads n close_code now (terminate_where now (\<lambda>p. pm_socket p = n) t))
         in case grant of
              None \<Rightarrow> rest gone
            | Some e \<Rightarrow>
                let d = offline_deadline a e (ow_idle_ms s) now;
                    g = (\<lambda>x. ep_id x = ep_id e \<and> ep_state x = Enabled \<and> ep_generation x = so_generation a \<and>
                      ep_offline x = None);
                    seen = max (max (case so_last_seen a of Some t \<Rightarrow> t | None \<Rightarrow> 0)
                      (case ep_last_seen e of Some t \<Rightarrow> t | None \<Rightarrow> 0)) now;
                    s1 = rest (upd_endpoints g (\<lambda>x. x\<lparr>ep_offline := Some d,
                      ep_last_seen := if ep_mode x = ''permanent'' then Some seen else ep_last_seen x\<rparr>) gone)
                in if \<not> selects g gone then s1
                   else if alarm_ok then scheduleEarlierAlarm (clk 1) d (aw 0 s1)
                   else revoke_if (clk 1) (ep_id e) (\<lambda>x. ep_state x = Enabled \<and>
                     ep_generation x = so_generation a \<and> ep_offline x = Some d) (aw 0 s1))"

section \<open>The alarm, the requests and the start\<close>

definition earliest :: "int option \<Rightarrow> int list \<Rightarrow> int option" where
  "earliest next ds = fold (\<lambda>d n. min_opt n d) ds next"

definition alarm_handler ::
  "bool \<Rightarrow> (nat \<Rightarrow> owner \<Rightarrow> owner) \<Rightarrow> (nat \<Rightarrow> owner \<Rightarrow> owner) \<Rightarrow> (nat \<Rightarrow> int) \<Rightarrow> int \<Rightarrow> owner \<Rightarrow> owner" where
  \<comment> \<open>the method \<open>alarm\<close>; the last alarm is assumed to be set or not to matter\<close>
  "alarm_handler alarm_ok aw0 aw clk now s =
    (let waiting = filter (\<lambda>x. \<not> so_authenticated x) (ow_sockets s);
         s1 = fold close_socket (map so_id (filter (\<lambda>x. so_deadline x \<le> now) waiting)) s;
         next = earliest None (map so_deadline (filter (\<lambda>x. so_deadline x > now) waiting));
         (scanned, s2) = reconcileRemembered alarm_ok aw0 clk now (expireTemporary now s1)
     in if \<not> scanned then s2
        else
          let temporary = filter (\<lambda>e. ep_state e = Enabled \<and> ep_mode e = ''temporary'') (ow_endpoints s2);
              deadlines = concat (map (\<lambda>e. case ep_offline e of
                  None \<Rightarrow> (case ep_lease e of Some l \<Rightarrow> [l] | None \<Rightarrow> [])
                | Some f \<Rightarrow> (case ep_lease e of Some l \<Rightarrow> [min f l] | None \<Rightarrow> [f])) temporary)
          in case earliest next deadlines of
               None \<Rightarrow> s2
             | Some d \<Rightarrow> if alarm_ok then scheduleEarlierAlarm (clk 1) d (aw 0 s2) else aw 0 s2)"

definition retired_paths :: "string list" where
  "retired_paths = [''/create-pair'', ''/claim'', ''/local-resume'']"

definition endpoint_paths :: "(string \<times> endpoint_path) list" where
  "endpoint_paths = [(''/state'', State), (''/local-stop'', LocalStop), (''/local-revoke'', LocalRevoke),
     (''/rename'', Rename), (''/stop'', Stop), (''/revoke'', Revoke)]"

record environment =
  en_parse_url :: "string \<Rightarrow> url option"
  en_hmac :: "string \<Rightarrow> string \<Rightarrow> string"  \<comment> \<open>the secret and the text\<close>
  en_sha :: "string \<Rightarrow> string"
  en_clk :: "nat \<Rightarrow> int"
  en_audit_ok :: bool
  en_alarm_ok :: bool
  en_send_ok :: bool
  en_fresh :: string
  en_secret :: string

definition ledger_hmac :: "environment \<Rightarrow> owner \<Rightarrow> string \<Rightarrow> string" where
  "ledger_hmac env s = en_hmac env (case lg_secret (ow_ledger s) of Some k \<Rightarrow> k | None \<Rightarrow> [])"

definition post_request ::
  "environment \<Rightarrow> (nat \<Rightarrow> owner \<Rightarrow> owner) \<Rightarrow> (nat \<Rightarrow> owner \<Rightarrow> owner) \<Rightarrow> string \<Rightarrow> (string \<times> json) list \<Rightarrow> int \<Rightarrow>
     owner \<Rightarrow> response option \<times> owner" where
  \<comment> \<open>\<open>fetch\<close> with a JSON object; an id that is in no case of the paths is a 404 last\<close>
  "post_request env aw0 aw path arg now s =
    (let (scanned, s1) = reconcileRemembered (en_audit_ok env) aw0 (en_clk env) now (expireTemporary now s);
         answered = map_prod Some id
     in if \<not> scanned then (Some (code_reply 503 ''idle_unavailable''), s1)
        else if path = ''/operation-status'' then answered (operation_status arg now s1)
        else if path = ''/activity-summary'' then answered (activity_summary (en_sha env) aw arg now s1)
        else if path = ''/activate-begin'' then answered (activate_begin (en_sha env) aw (en_clk env) arg now s1)
        else if path = ''/activate-authorize'' then answered (activate_authorize arg now s1)
        else if path = ''/activate-cancel'' \<or> path = ''/activate-complete''
        then answered (activate_finish (en_sha env) aw (en_clk env) (en_alarm_ok env) (path = ''/activate-cancel'')
          (en_fresh env) (en_secret env) arg now s1)
        else if path \<in> set retired_paths then (Some (error_reply 410 ''protocol_retired''), s1)
        else if path = ''/mutate''
        then answered (mutate (en_parse_url env) (ledger_hmac env s1) aw (en_clk env) (en_send_ok env)
          (en_fresh env) arg now s1)
        else if path = ''/read'' then read_request (en_clk env) (en_send_ok env) (en_fresh env) arg s1
        else if path = ''/list'' then (Some (list_endpoints arg (en_clk env 0) s1), s1)
        else case map_of endpoint_paths path of
          Some p \<Rightarrow> answered (endpoint_request (en_sha env) aw (en_clk env) (en_alarm_ok env) p arg now s1)
        | None \<Rightarrow>
            (case validId (obj_get arg ''endpoint_id'') of
               None \<Rightarrow> (Some (error_reply 400 ''invalid_endpoint''), s1)
             | Some i \<Rightarrow> (case endpoint_of s1 i of
                 None \<Rightarrow> (Some (error_reply 404 ''not_found''), s1)
               | Some e \<Rightarrow> (Some (if ep_state e = Revoked then error_reply 403 ''revoked''
                   else error_reply 404 ''not_found''), s1))))"

definition start_owner :: "string \<Rightarrow> int \<Rightarrow> owner \<Rightarrow> owner" where
  \<comment> \<open>the constructor, on stored tables with all columns: nothing in flight survives\<close>
  "start_owner secret now s =
    (let s1 = upd_endpoints (\<lambda>e. ep_mode e = ''permanent'' \<and> ep_state e = Stopped \<and> ep_idle e = None)
           (\<lambda>e. e\<lparr>ep_idle := Some (now + ow_idle_ms s)\<rparr>) s;
         lg = retirePendingApprovals now (snd (recoverUnknown now (open_ledger secret (ow_ledger s1))))
     in s1\<lparr>ow_ledger := lg, ow_mutations := [], ow_reads := [], ow_admitting := []\<rparr>)"

end
