(* ===== verification/BrowserGrants.thy ===== *)
theory BrowserGrants
  imports BrowserHandlers
begin

text \<open>
  What the handlers of the durable object keep: how a grant (an endpoint row) may evolve
  whatever runs at the pauses of a handler, when an activation is superseded, what a stop may
  undo, and under which conditions an execute token leaves.
\<close>

section \<open>Frames: what does not touch the endpoints\<close>

lemma endpoints_terminate [simp]: "ow_endpoints (terminateMutation now op s) = ow_endpoints s"
  by (simp add: terminateMutation_def split: option.splits)

lemma endpoints_fold:
  assumes "\<And>x t. ow_endpoints (f x t) = ow_endpoints t"
  shows "ow_endpoints (fold f xs s) = ow_endpoints s"
  using assms by (induction xs arbitrary: s) auto

lemma endpoints_terminate_where [simp]: "ow_endpoints (terminate_where now sel s) = ow_endpoints s"
  unfolding terminate_where_def by (rule endpoints_fold) simp

lemma endpoints_send [simp]: "ow_endpoints (send n f s) = ow_endpoints s"
  by (simp add: send_def)

lemma endpoints_close_socket [simp]: "ow_endpoints (close_socket n s) = ow_endpoints s"
  by (simp add: close_socket_def)

lemma endpoints_close [simp]: "ow_endpoints (close_endpoint now i reason s) = ow_endpoints s"
  unfolding close_endpoint_def Let_def by (subst endpoints_fold) simp_all

lemma endpoints_alarm [simp]: "ow_endpoints (scheduleEarlierAlarm now d s) = ow_endpoints s"
  by (simp add: scheduleEarlierAlarm_def split: option.splits)

lemma endpoints_upd [simp]: "ow_endpoints (upd_endpoints g f s) = upd_rows g f (ow_endpoints s)"
  by (simp add: upd_endpoints_def)

lemma endpoints_budget [simp]: "ow_endpoints (snd (budget b m now s)) = ow_endpoints s"
  by (simp add: budget_def split: option.splits prod.splits)

lemma endpoints_upd_attempts [simp]: "ow_endpoints (upd_attempts g f s) = ow_endpoints s"
  by (simp add: upd_attempts_def)

lemma endpoints_consume [simp]: "ow_endpoints (snd (consume_attempt i now s)) = ow_endpoints s"
  by (simp add: consume_attempt_def Let_def)

lemma endpoints_forget [simp]: "ow_endpoints (forget_mutation op s) = ow_endpoints s"
  by (simp add: forget_mutation_def)

lemma endpoints_resolve [simp]: "ow_endpoints (resolve_read p v s) = ow_endpoints s"
  by (simp add: resolve_read_def)

lemma endpoints_insert_attempt [simp]: "ow_endpoints (snd (insert_attempt arg ep epoch now s)) = ow_endpoints s"
  by (simp add: insert_attempt_def Let_def)

section \<open>How a grant evolves\<close>

definition grant_evolves :: "endpoint \<Rightarrow> endpoint \<Rightarrow> bool" where
  \<comment> \<open>the state changes with the revision only\<close>
  "grant_evolves e e' \<longleftrightarrow>
     ep_id e' = ep_id e \<and> ep_credential_hash e' = ep_credential_hash e \<and> ep_mode e' = ep_mode e \<and>
     ep_lease e' = ep_lease e \<and>
     ep_generation e \<le> ep_generation e' \<and> ep_revision e \<le> ep_revision e' \<and> ep_stop_epoch e \<le> ep_stop_epoch e' \<and>
     (ep_revision e' = ep_revision e \<longrightarrow> ep_state e' = ep_state e)"

lemma grant_evolves_refl [simp]: "grant_evolves e e"
  by (simp add: grant_evolves_def)

lemma grant_evolves_trans: "grant_evolves a b \<Longrightarrow> grant_evolves b c \<Longrightarrow> grant_evolves a c"
  unfolding grant_evolves_def by (intro conjI impI) simp_all

definition rows_evolve :: "endpoint list \<Rightarrow> endpoint list \<Rightarrow> bool" where
  \<comment> \<open>rows are appended and changed in place\<close>
  "rows_evolve es es' \<longleftrightarrow> length es \<le> length es' \<and> list_all2 grant_evolves es (take (length es) es')"

lemma rows_evolve_refl [simp]: "rows_evolve es es"
  by (simp add: rows_evolve_def list_all2_refl)

lemma rows_evolve_nth:
  "rows_evolve es es' \<longleftrightarrow> length es \<le> length es' \<and> (\<forall>k < length es. grant_evolves (es ! k) (es' ! k))"
  by (auto simp: rows_evolve_def list_all2_conv_all_nth)

lemma rows_evolve_trans: "rows_evolve as bs \<Longrightarrow> rows_evolve bs cs \<Longrightarrow> rows_evolve as cs"
  unfolding rows_evolve_nth by (meson grant_evolves_trans less_le_trans order_trans)

lemma rows_evolve_upd:
  assumes "\<And>e. g e \<Longrightarrow> grant_evolves e (f e)"
  shows "rows_evolve es (upd_rows g f es)"
  using assms by (simp add: rows_evolve_nth upd_rows_def)

lemma rows_evolve_append [simp]: "rows_evolve es (es @ [e])"
  by (simp add: rows_evolve_nth nth_append)

definition evolves :: "owner \<Rightarrow> owner \<Rightarrow> bool" where
  "evolves s s' \<longleftrightarrow> rows_evolve (ow_endpoints s) (ow_endpoints s')"

lemma evolves_refl [simp]: "evolves s s"
  by (simp add: evolves_def)

lemma evolves_trans [trans]: "evolves s t \<Longrightarrow> evolves t u \<Longrightarrow> evolves s u"
  unfolding evolves_def by (rule rows_evolve_trans)

lemma evolves_same: "ow_endpoints s' = ow_endpoints s \<Longrightarrow> evolves s s'"
  by (simp add: evolves_def)

lemma evolves_cong: "ow_endpoints t' = ow_endpoints t \<Longrightarrow> evolves s t' \<longleftrightarrow> evolves s t"
  by (simp add: evolves_def)

lemma evolves_upd: "(\<And>e. g e \<Longrightarrow> grant_evolves e (f e)) \<Longrightarrow> evolves s (upd_endpoints g f s)"
  by (simp add: evolves_def rows_evolve_upd)

lemma evolves_fold:
  assumes "\<And>x t. evolves t (f x t)"
  shows "evolves s (fold f xs s)"
  by (induction xs arbitrary: s) (auto intro: evolves_trans assms)

text \<open>What one endpoint is after an evolution.\<close>

lemma evolves_endpoint:
  assumes "evolves s s'" "endpoint_of s i = Some e"
  shows "\<exists>e'. endpoint_of s' i = Some e' \<and> grant_evolves e e'"
proof -
  have "\<exists>e'. List.find (\<lambda>e. ep_id e = i) es' = Some e' \<and> grant_evolves e e'"
    if "rows_evolve es es'" "List.find (\<lambda>e. ep_id e = i) es = Some e" for es es'
    using that
  proof (induction es arbitrary: es')
    case (Cons x es)
    then obtain x' xs where es': "es' = x' # xs" and ev: "grant_evolves x x'" "rows_evolve es xs"
      by (cases es') (auto simp: rows_evolve_def)
    have "ep_id x' = ep_id x" using ev(1) by (simp add: grant_evolves_def)
    with Cons es' ev show ?case by (auto split: if_splits)
  qed simp
  with assms show ?thesis by (simp add: evolves_def endpoint_of_def)
qed

lemma grant_evolves_revoke [simp]: "grant_evolves e (revoke_row now e)"
  by (simp add: grant_evolves_def revoke_row_def)

lemma evolves_revoke_if: "evolves s (revoke_if now i g s)"
  by (auto simp: revoke_if_def evolves_def intro!: rows_evolve_upd)

lemma evolves_expire: "evolves s (expireTemporary now s)"
  unfolding expireTemporary_def by (rule evolves_fold) (rule evolves_revoke_if)

lemma grant_evolves_deadline [simp]: "grant_evolves e (set_deadline st d e)"
  by (simp add: grant_evolves_def set_deadline_def)

lemma evolves_remembered_step: "evolves s (fst (remembered_step now e (s, nx, online)))"
proof -
  have upd: "evolves s (upd_endpoints g (set_deadline st d) s)" for g st d
    by (rule evolves_upd) simp
  have off: "evolves s (upd_endpoints g (\<lambda>x. x\<lparr>ep_offline := None\<rparr>) s)" for g
    by (rule evolves_upd) (simp add: grant_evolves_def)
  show ?thesis
    by (auto simp: Let_def off upd evolves_revoke_if intro: evolves_trans [OF upd evolves_revoke_if]
        split: option.splits)
qed

lemma evolves_scan: "evolves s (fst (remembered_scan now s))"
proof -
  have "evolves t (fst (fold (remembered_step now) es (t, nx, online)))" for es t nx online
  proof (induction es arbitrary: t nx online)
    case (Cons e es)
    obtain t' nx' online' where step: "remembered_step now e (t, nx, online) = (t', nx', online')"
      by (metis prod_cases3)
    have "evolves t t'"
      using evolves_remembered_step [of t now e nx online] by (simp only: step fst_conv)
    with Cons [of t' nx' online'] show ?case
      by (simp only: fold_simps step) (rule evolves_trans)
  qed simp
  then show ?thesis
    by (simp add: remembered_scan_def split: prod.splits) (metis fst_conv)
qed

text \<open>What runs at the pauses evolves the grants.\<close>

definition interferes :: "(nat \<Rightarrow> owner \<Rightarrow> owner) \<Rightarrow> bool" where
  "interferes aw \<longleftrightarrow> (\<forall>n s. evolves s (aw n s))"

lemma interferesD: "interferes aw \<Longrightarrow> evolves s t \<Longrightarrow> evolves s (aw n t)"
  by (meson evolves_trans interferes_def)

lemma evolves_reconcile:
  assumes "interferes aw"
  shows "evolves s (snd (reconcileRemembered ok aw clk now s))"
proof -
  obtain s1 nxt where scan: "remembered_scan now s = (s1, nxt)" by fastforce
  have s1: "evolves s s1" using evolves_scan [of s now] scan by simp
  have rev: "evolves s (revoke_remembered now ids t)" if "evolves s t" for t ids
    unfolding revoke_remembered_def
    by (rule evolves_trans [OF that], rule evolves_trans [OF evolves_upd evolves_fold])
      (simp_all add: evolves_same)
  show ?thesis
    using s1 interferesD [OF assms s1] rev
    by (auto simp: reconcileRemembered_def Let_def scan evolves_def split: option.splits)
qed

text \<open>What does not touch the endpoints drops out of an evolution.\<close>

lemma evolves_frames [simp]:
  "evolves s (t\<lparr>ow_ledger := lg\<rparr>) \<longleftrightarrow> evolves s t"
  "evolves s (t\<lparr>ow_sockets := x\<rparr>) \<longleftrightarrow> evolves s t"
  "evolves s (t\<lparr>ow_mutations := ms\<rparr>) \<longleftrightarrow> evolves s t"
  "evolves s (t\<lparr>ow_reads := rs\<rparr>) \<longleftrightarrow> evolves s t"
  "evolves s (t\<lparr>ow_admitting := ids\<rparr>) \<longleftrightarrow> evolves s t"
  "evolves s (t\<lparr>ow_alarm := al\<rparr>) \<longleftrightarrow> evolves s t"
  "evolves s (terminateMutation now op t) \<longleftrightarrow> evolves s t"
  "evolves s (terminate_where now sel t) \<longleftrightarrow> evolves s t"
  "evolves s (send n f t) \<longleftrightarrow> evolves s t"
  "evolves s (close_socket n t) \<longleftrightarrow> evolves s t"
  "evolves s (close_endpoint now i reason t) \<longleftrightarrow> evolves s t"
  "evolves s (scheduleEarlierAlarm now d t) \<longleftrightarrow> evolves s t"
  "evolves s (upd_attempts ga fa t) \<longleftrightarrow> evolves s t"
  "evolves s (snd (consume_attempt i now t)) \<longleftrightarrow> evolves s t"
  "evolves s (snd (budget b m now t)) \<longleftrightarrow> evolves s t"
  "evolves s (forget_mutation op t) \<longleftrightarrow> evolves s t"
  "evolves s (resolve_read p v t) \<longleftrightarrow> evolves s t"
  "evolves s (snd (insert_attempt arg ep epoch now t)) \<longleftrightarrow> evolves s t"
  by (simp_all add: evolves_def)

lemma evolves_upd_after:
  assumes "evolves s t" "\<And>e. g e \<Longrightarrow> grant_evolves e (f e)"
  shows "evolves s (upd_endpoints g f t)"
  using assms by (blast intro: evolves_trans evolves_upd)

lemma evolves_append: "evolves s t \<Longrightarrow> evolves s (x\<lparr>ow_endpoints := ow_endpoints t @ [e]\<rparr>)"
  unfolding evolves_def by (simp, erule rows_evolve_trans) simp

lemma evolves_branch:
  "\<lbrakk>b \<Longrightarrow> evolves s (snd x); \<not> b \<Longrightarrow> evolves s (snd y)\<rbrakk> \<Longrightarrow> evolves s (snd (if b then x else y))"
  "\<lbrakk>b \<Longrightarrow> evolves s u; \<not> b \<Longrightarrow> evolves s v\<rbrakk> \<Longrightarrow> evolves s (if b then u else v)"
  by simp_all

lemma evolves_option:
  "\<lbrakk>evolves s (snd x); \<And>y. z = Some y \<Longrightarrow> evolves s (snd (f y))\<rbrakk> \<Longrightarrow>
    evolves s (snd (case z of None \<Rightarrow> x | Some y \<Rightarrow> f y))"
  "\<lbrakk>evolves s u; \<And>y. z = Some y \<Longrightarrow> evolves s (g y)\<rbrakk> \<Longrightarrow>
    evolves s (case z of None \<Rightarrow> u | Some y \<Rightarrow> g y)"
  by (simp_all split: option.splits)

lemmas evolves_cases = evolves_branch evolves_option

lemma evolves_begin:
  assumes "interferes aw"
  shows "evolves s (snd (activate_begin sha aw clk arg now s))"
  by (auto simp: activate_begin_def Let_def split_beta split: option.splits
      intro!: interferesD [OF assms])

lemma evolves_authorize: "evolves s (snd (activate_authorize arg now s))"
  by (auto simp: activate_authorize_def Let_def split_beta split: option.splits)

lemma evolves_commit_resume: "evolves s t \<Longrightarrow> evolves s (snd (commit_resume row latest resume now t))"
  by (auto simp: commit_resume_def Let_def split_beta grant_evolves_def intro!: evolves_upd_after)

lemma evolves_resume:
  assumes "interferes aw" "evolves s t"
  shows "evolves s (snd (resume_existing aw clk ok row existing t))"
  using assms(2) by (auto simp: resume_existing_def Let_def split_beta split: option.splits
      intro!: interferesD [OF assms(1)] evolves_commit_resume)

lemma evolves_pair:
  assumes "interferes aw" "evolves s t"
  shows "evolves s (snd (pair_new sha aw clk ok fresh credential row t))"
  using assms(2) by (auto simp: pair_new_def Let_def split_beta grant_evolves_def split: option.splits
      intro!: interferesD [OF assms(1)] evolves_append evolves_upd_after)

lemma evolves_finish:
  assumes "interferes aw"
  shows "evolves s (snd (activate_finish sha aw clk ok cancel fresh credential arg now s))"
  by (auto simp: activate_finish_def Let_def split_beta split: option.splits
      intro!: interferesD [OF assms] evolves_resume [OF assms] evolves_pair [OF assms])

lemma evolves_operation_status: "evolves s (snd (operation_status arg now s))"
  by (simp add: operation_status_def Let_def)

lemma evolves_activity:
  assumes "interferes aw"
  shows "evolves s (snd (activity_summary sha aw arg now s))"
  by (auto simp: activity_summary_def Let_def split_beta split: option.splits intro!: interferesD [OF assms])

lemma evolves_prepare: "evolves s t \<Longrightarrow> evolves s (snd (prepare_mutation ok e sock key op now t))"
  by (auto simp: prepare_mutation_def Let_def split_beta)

lemma evolves_mutate:
  assumes "interferes aw"
  shows "evolves s (snd (mutate parse_url hmac aw clk ok op c now s))"
  unfolding mutate_def Let_def split_beta
  by (intro evolves_cases; simp add: interferesD [OF assms] evolves_prepare)

lemma evolves_read: "evolves s (snd (read_request clk ok i arg s))"
  by (auto simp: read_request_def Let_def split: option.splits)

lemma evolves_commit_stop: "evolves s t \<Longrightarrow> evolves s (commit_stop i d now t)"
  by (auto simp: commit_stop_def grant_evolves_def intro!: evolves_upd_after)

lemma evolves_stop:
  assumes "interferes aw" "evolves s t"
  shows "evolves s (snd (stop_endpoint aw clk ok e now t))"
  using assms(2) by (auto simp: stop_endpoint_def fail_stop_def Let_def grant_evolves_def split: option.splits
      intro!: interferesD [OF assms(1)] evolves_commit_stop evolves_upd_after)

lemma evolves_endpoint_request:
  assumes "interferes aw"
  shows "evolves s (snd (endpoint_request sha aw clk ok path arg now s))"
  by (auto simp: endpoint_request_def commit_revoke_def rename_endpoint_def grant_evolves_def Let_def
      split: option.splits
      intro!: interferesD [OF assms] evolves_stop [OF assms] evolves_upd_after grant_evolves_revoke)

lemma evolves_supersede [simp]: "evolves s (supersede_sockets n i now t) \<longleftrightarrow> evolves s t"
  unfolding supersede_sockets_def by (rule evolves_cong) (rule endpoints_fold, simp)

lemma evolves_authenticate:
  assumes "interferes aw"
  shows "evolves s (authenticate_socket sha aw clk ok n v s)"
  by (auto simp: authenticate_socket_def authenticate_commit_def authenticate_alarm_def grant_evolves_def
      Let_def split_beta split: option.splits intro!: interferesD [OF assms] evolves_upd_after)

lemma evolves_prepare_check: "evolves s t \<Longrightarrow> evolves s (snd (prepare_check n e op v now t))"
  by (auto simp: prepare_check_def Let_def split: option.splits)

lemma evolves_dispatch_after: "evolves s t \<Longrightarrow> evolves s (dispatch_after ok n e op key rv a now t)"
  by (auto simp: dispatch_after_def Let_def split: option.splits)

lemma evolves_prepare_result:
  assumes "interferes aw"
  shows "evolves s (prepare_result sha aw clk ok token n e op v s)"
proof -
  obtain r s1 where check: "prepare_check n e op v (clk 0) s = (r, s1)" by fastforce
  have "evolves s s1" using evolves_prepare_check [of s s n e op v "clk 0"] check by simp
  then show ?thesis
    by (auto simp: prepare_result_def check Let_def split_beta split: option.splits sum.splits
        intro!: interferesD [OF assms] evolves_dispatch_after)
qed

lemma evolves_execute_result:
  assumes "interferes aw"
  shows "evolves s (execute_result sha aw clk n op q s)"
  by (auto simp: execute_result_def Let_def split_beta split: option.splits intro!: interferesD [OF assms])

lemma evolves_ping: "evolves s (ping n e now s)"
  by (auto simp: ping_def Let_def grant_evolves_def intro!: evolves_upd_after)

lemma evolves_socket_stop:
  assumes "interferes aw"
  shows "evolves s (socket_stop aw clk ok e s)"
  by (auto simp: socket_stop_def grant_evolves_def split: option.splits
      intro!: interferesD [OF assms] evolves_commit_stop evolves_upd_after)

lemma evolves_authenticated:
  assumes "interferes aw"
  shows "evolves s (authenticated_message sha aw clk ok send_ok token n auth v s)"
  by (auto simp: authenticated_message_def read_progress_def read_result_def Let_def split: option.splits
      intro!: evolves_prepare_result [OF assms] evolves_execute_result [OF assms] evolves_ping
        evolves_socket_stop [OF assms])

lemma evolves_message:
  assumes "interferes aw0" "interferes aw"
  shows "evolves s (webSocketMessage sha aw0 aw clk audit ok send_ok token n chars v now s)"
proof -
  obtain r s1 where rec: "reconcileRemembered audit aw0 clk now (expireTemporary now s) = (r, s1)" by fastforce
  have s1: "evolves s s1"
    using evolves_trans [OF evolves_expire evolves_reconcile [OF assms(1)]] rec by (metis snd_conv)
  then have "evolves s (authenticate_socket sha aw clk ok n w s1)"
    "evolves s (authenticated_message sha aw clk ok send_ok token n a w s1)" for w a
    using evolves_trans evolves_authenticate [OF assms(2)] evolves_authenticated [OF assms(2)] by blast+
  with s1 show ?thesis
    by (auto simp: webSocketMessage_def rec split: option.splits)
qed

lemma evolves_close_reads [simp]: "evolves s (close_reads n cl now t) \<longleftrightarrow> evolves s t"
  unfolding close_reads_def by (rule evolves_cong) (rule endpoints_fold, simp)

lemma evolves_revoke_after: "evolves s t \<Longrightarrow> evolves s (revoke_if now i g t)"
  by (rule evolves_trans [OF _ evolves_revoke_if])

lemma evolves_ws_close:
  assumes "interferes aw"
  shows "evolves s (webSocketClose aw clk ok n number s)"
  by (auto simp: webSocketClose_def Let_def grant_evolves_def split: option.splits
      intro!: interferesD [OF assms] evolves_upd_after evolves_revoke_after)

lemma evolves_alarm_handler:
  assumes "interferes aw0" "interferes aw"
  shows "evolves s (alarm_handler ok aw0 aw clk now s)"
proof -
  define s1 where "s1 = fold close_socket (map so_id (filter (\<lambda>x. so_deadline x \<le> now)
    (filter (\<lambda>x. \<not> so_authenticated x) (ow_sockets s)))) s"
  obtain r s2 where rec: "reconcileRemembered ok aw0 clk now (expireTemporary now s1) = (r, s2)" by fastforce
  have "evolves s s1"
    unfolding s1_def by (rule evolves_same, rule endpoints_fold) simp
  then have "evolves s s2"
    using evolves_trans [OF evolves_expire evolves_reconcile [OF assms(1)]] rec by (metis evolves_trans snd_conv)
  then show ?thesis
    unfolding alarm_handler_def Let_def s1_def [symmetric] rec prod.case
    by (auto split: option.splits intro!: interferesD [OF assms(2)])
qed

lemma evolves_post:
  assumes "interferes aw0" "interferes aw"
  shows "evolves s (snd (post_request env aw0 aw path arg now s))"
proof -
  obtain r s1 where rec: "reconcileRemembered (en_audit_ok env) aw0 (en_clk env) now (expireTemporary now s) = (r, s1)"
    by fastforce
  have s1: "evolves s s1"
    using evolves_trans [OF evolves_expire evolves_reconcile [OF assms(1)]] rec by (metis snd_conv)
  note steps = evolves_operation_status evolves_activity [OF assms(2)] evolves_begin [OF assms(2)]
    evolves_authorize evolves_finish [OF assms(2)] evolves_mutate [OF assms(2)] evolves_read
    evolves_endpoint_request [OF assms(2)]
  show ?thesis
    unfolding post_request_def rec Let_def prod.case
    by (simp add: snd_map_prod s1 steps [THEN evolves_trans [OF s1]] split: option.splits)
qed

section \<open>Properties\<close>

text \<open>C13: whatever runs at the pauses, no handler loses a grant, gives it another credential,
  mode or lease, lowers its generation, revision or stop epoch, or changes its state without a
  new revision; the handlers' tests of the revision therefore detect every stop, revocation and
  enabling in between.
\<close>

theorem grants_evolve:
  assumes "interferes aw0" and "interferes aw" and "endpoint_of s i = Some e"
    and "s' \<in> {snd (post_request env aw0 aw path arg now s),
      webSocketMessage sha aw0 aw clk audit ok send_ok token n chars v now s,
      webSocketClose aw clk ok n number s, alarm_handler ok aw0 aw clk now s}"
  shows "\<exists>e'. endpoint_of s' i = Some e' \<and> grant_evolves e e'"
proof -
  have "evolves s s'"
    using assms(4) by (elim insertE emptyE) (simp_all add: evolves_post [OF assms(1,2)]
      evolves_message [OF assms(1,2)] evolves_ws_close [OF assms(2)] evolves_alarm_handler [OF assms(1,2)])
  then show ?thesis by (rule evolves_endpoint [OF _ assms(3)])
qed

definition grant_open :: "attempt \<Rightarrow> string \<Rightarrow> owner \<Rightarrow> bool" where
  "grant_open row ep s \<longleftrightarrow>
     (case endpoint_of s ep of
        None \<Rightarrow> False
      | Some e \<Rightarrow> ep_state e \<noteq> Revoked \<and> Some (ep_stop_epoch e) = at_stop_epoch row)"

lemma endpoint_of_id: "endpoint_of s i = Some e \<Longrightarrow> ep_id e = i"
  unfolding endpoint_of_def by (drule find_Some_in) simp

lemma grant_current_open: "grant_current (endpoint_of s ep) row now \<Longrightarrow> grant_open row ep s"
  by (simp add: grant_current_def grant_open_def split: option.splits)

lemma endpoint_of_frames [simp]:
  "endpoint_of (scheduleEarlierAlarm now d s) i = endpoint_of s i"
  "endpoint_of (snd (consume_attempt a now s)) i = endpoint_of s i"
  "endpoint_of (close_endpoint now j reason s) i = endpoint_of s i"
  by (simp_all add: endpoint_of_def)

lemma commit_resume_open:
  assumes "fst (fst (commit_resume row latest resume now s)) = 200"
  shows "grant_open row (ep_id latest) s"
  using assms grant_current_open [of "snd (consume_attempt (at_id row) now s)" "ep_id latest" row now]
  by (auto simp: commit_resume_def Let_def split_beta superseded_def error_reply_def grant_open_def split: if_splits)

lemma resume_existing_open:
  assumes "fst (fst (resume_existing aw clk ok row existing s)) = 200"
  shows "grant_open row (ep_id existing) s \<and>
    (at_mode row = ''permanent'' \<longrightarrow> grant_open row (ep_id existing) (aw 2 s))"
proof -
  obtain latest where latest: "endpoint_of s (ep_id existing) = Some latest"
    using assms by (auto simp: resume_existing_def superseded_def error_reply_def split: option.splits)
  then have id: "ep_id latest = ep_id existing" by (rule endpoint_of_id)
  have current: "grant_current (endpoint_of s (ep_id existing)) row (clk 2)"
    using assms latest by (auto simp: resume_existing_def superseded_def error_reply_def split: if_splits)
  have "grant_open row (ep_id existing) (aw 2 s)" if "at_mode row = ''permanent''"
  proof -
    let ?t = "scheduleEarlierAlarm (clk 3) (clk 2 + ow_idle_ms s) (aw 2 s)"
    have "fst (fst (commit_resume row latest (Some (clk 2 + ow_idle_ms s)) (clk 3) ?t)) = 200"
      using assms latest that
      by (auto simp: resume_existing_def superseded_def error_reply_def Let_def split: if_splits)
    then have "grant_open row (ep_id latest) ?t" by (rule commit_resume_open)
    then show ?thesis by (simp add: id grant_open_def)
  qed
  with grant_current_open [OF current] show ?thesis by blast
qed

lemma activation_blocked:
  assumes row: "validId (obj_get arg ''attempt_id'') = Some i" "at_of s i = Some row" "at_endpoint row = Some ep"
    and aw: "interferes aw"
    and k: "k < (if at_mode row = ''permanent'' then 3 else 2)"
    and blocked: "\<And>t. evolves s t \<Longrightarrow> \<not> grant_open row ep (aw k t)"
  shows "fst (fst (activate_finish sha aw clk ok False fresh credential arg now s)) \<noteq> 200"
proof
  let ?s1 = "aw 0 s" let ?s2 = "aw 1 ?s1"
  assume ok: "fst (fst (activate_finish sha aw clk ok False fresh credential arg now s)) = 200"
  note defs = activate_finish_def superseded_def error_reply_def Let_def
  obtain existing where ex: "endpoint_of ?s1 ep = Some existing"
    using ok row by (auto simp: defs split: if_splits option.splits)
  have id: "ep_id existing = ep" by (rule endpoint_of_id [OF ex])
  have open1: "grant_open row ep ?s1"
    using ok row ex grant_current_open [of ?s1 ep row "clk 1"] by (auto simp: defs split: if_splits)
  have resumed: "fst (fst (resume_existing aw clk ok row existing ?s2)) = 200"
    using ok row ex by (auto simp: defs split: if_splits)
  have ev: "evolves s ?s1" "evolves s ?s2"
    by (simp_all add: interferesD [OF aw])
  from resume_existing_open [OF resumed] open1 ev blocked k show False
    by (cases "k = 0"; cases "k = 1") (auto simp: id numeral_3_eq_3 numeral_2_eq_2 less_Suc_eq split: if_splits)
qed

text \<open>C9: a stop or a revocation of the endpoint during any pause of the completion of an
  activation wins: the activation is not granted.
\<close>

theorem stop_or_revoke_wins:
  assumes "validId (obj_get arg ''attempt_id'') = Some i" and "at_of s i = Some row"
    and "at_endpoint row = Some ep" and "at_stop_epoch row = Some x"
    and "endpoint_of s ep = Some e" and "x \<le> ep_stop_epoch e"
    and "interferes aw" and "interferes aw'" and "k < (if at_mode row = ''permanent'' then 3 else 2)"
    and "aw k = (\<lambda>t. commit_stop ep d \<tau> (aw' k t)) \<or> aw k = (\<lambda>t. commit_revoke ep \<tau> (aw' k t))"
  shows "fst (fst (activate_finish sha aw clk ok False fresh credential arg now s)) \<noteq> 200"
proof (rule activation_blocked [OF assms(1-3,7,9)])
  fix t assume t: "evolves s t"
  then have "evolves s (aw' k t)" by (rule interferesD [OF assms(8)])
  then obtain e' where e': "endpoint_of (aw' k t) ep = Some e'" "grant_evolves e e'"
    using evolves_endpoint assms(5) by blast
  have id: "ep_id e' = ep" by (rule endpoint_of_id [OF e'(1)])
  have upd: "endpoint_of (upd_endpoints (\<lambda>e. ep_id e = ep) f u) ep = map_option f (endpoint_of u ep)"
    if "\<And>e. ep_id (f e) = ep_id e" for f u
    using that unfolding endpoint_of_def endpoints_upd
    by (subst find_upd_rows) (auto dest!: find_Some_in simp: map_option_case split: option.splits)
  show "\<not> grant_open row ep (aw k t)"
    using assms(10)
  proof (elim disjE)
    assume "aw k = (\<lambda>t. commit_stop ep d \<tau> (aw' k t))"
    with e' assms(4,6) show ?thesis
      by (simp add: grant_open_def commit_stop_def upd grant_evolves_def)
  next
    assume "aw k = (\<lambda>t. commit_revoke ep \<tau> (aw' k t))"
    with e' show ?thesis
      by (simp add: grant_open_def commit_revoke_def upd revoke_row_def)
  qed
qed

text \<open>C28: revocation is not final. A local stop reads the endpoint before it hashes the
  credential and writes the stopped state by the id alone; a revocation that runs in between
  is undone, although the source calls it permanent.
\<close>

theorem local_stop_undoes_revoke:
  assumes "validId (obj_get arg ''endpoint_id'') = Some i" and "endpoint_of s i = Some e"
    and "ep_state e = Enabled" and "credential_arg arg = Some credential" and "sha credential = ep_credential_hash e"
  shows "map_option ep_state (endpoint_of (commit_revoke i \<tau> s) i) = Some Revoked \<and>
    map_option ep_state (endpoint_of (snd (endpoint_request sha
      (\<lambda>k. if k = 0 then commit_revoke i \<tau> else (\<lambda>t. t)) clk True LocalStop arg now s)) i) = Some Stopped"
proof -
  have upd: "endpoint_of (upd_endpoints (\<lambda>e. ep_id e = i) f u) i = map_option f (endpoint_of u i)"
    if "\<And>e. ep_id (f e) = ep_id e" for f u
    using that unfolding endpoint_of_def endpoints_upd
    by (subst find_upd_rows) (auto dest!: find_Some_in simp: map_option_case split: option.splits)
  have id: "ep_id e = i" by (rule endpoint_of_id [OF assms(2)])
  have revoked: "endpoint_of (commit_revoke i \<tau> s) i = Some (revoke_row \<tau> e)"
    by (simp add: commit_revoke_def upd revoke_row_def assms(2))
  have stopped: "\<exists>z. endpoint_of (commit_stop i d now u) i = Some z \<and> ep_state z = Stopped"
    if "endpoint_of u i = Some e'" for d now u e'
    using that by (simp add: commit_stop_def upd)
  show ?thesis
    using assms revoked id
    by (auto simp: endpoint_request_def authenticated_paths_def stop_endpoint_def Let_def revoke_row_def
        intro!: stopped [simplified id [symmetric]] split: option.splits)
qed

text \<open>an execute token leaves only after the endpoint was found enabled again, in the
  generation of the socket and at the revision under which the prepare was checked, and the
  socket is open.
\<close>

theorem execute_for_current_grant:
  "ow_sent (dispatch_after ok n e op key revision a now s) = ow_sent s \<or>
   (\<exists>token later x. an_token a = Some token \<and> an_state a = Some Dispatching \<and>
      endpoint_of s (ep_id e) = Some later \<and> ep_state later = Enabled \<and>
      ep_generation later = ep_generation e \<and> ep_revision later = revision \<and>
      socket_of s n = Some x \<and> so_open x \<and>
      ow_sent (dispatch_after ok n e op key revision a now s) =
        ow_sent s @ [(n, ExecuteRequest op key (ep_generation e) token)])"
proof -
  have sent: "ow_sent (terminateMutation now op t) = ow_sent t" for t
    by (simp add: terminateMutation_def split: option.splits)
  show ?thesis
    by (cases "an_token a") (auto simp: dispatch_after_def Let_def sent send_def endpoint_of_def socket_of_def
        split: option.splits)
qed

text \<open>after a socket is authenticated no other open socket belongs to its endpoint.\<close>

theorem authenticated_socket_alone:
  assumes "authenticate_commit n e v now s = (True, s')"
    and "x \<in> set (ow_sockets s')" and "so_endpoint x = Some (ep_id e)" and "so_open x"
  shows "so_id x = n"
proof (rule ccontr)
  assume other: "so_id x \<noteq> n"
  have sockets: "ow_sockets (terminate_where now sel t) = ow_sockets t" for sel t
  proof -
    have "ow_sockets (terminateMutation now op t) = ow_sockets t" for op t
      by (simp add: terminateMutation_def split: option.splits)
    then have "ow_sockets (fold (terminateMutation now) ops t) = ow_sockets t" for ops
      by (induction ops arbitrary: t) auto
    then show ?thesis by (simp add: terminate_where_def)
  qed
  have step: "\<forall>y \<in> set (ow_sockets (fold (\<lambda>x t. close_socket (so_id x) (terminate_where now (\<lambda>p. pm_socket p = so_id x) t)) xs t)).
      \<exists>z \<in> set (ow_sockets t). so_id y = so_id z \<and> so_endpoint y = so_endpoint z \<and>
        (so_open y \<longrightarrow> so_open z \<and> so_id z \<notin> so_id ` set xs)" for xs t
  proof (induction xs arbitrary: t)
    case (Cons a xs)
    let ?t = "close_socket (so_id a) (terminate_where now (\<lambda>p. pm_socket p = so_id a) t)"
    have closed: "\<exists>z \<in> set (ow_sockets t). so_id y = so_id z \<and> so_endpoint y = so_endpoint z \<and>
        (so_open y \<longrightarrow> so_open z \<and> so_id z \<noteq> so_id a)" if "y \<in> set (ow_sockets ?t)" for y
    proof -
      from that obtain r where "r \<in> set (ow_sockets t)" "y = (if so_id r = so_id a then r\<lparr>so_open := False\<rparr> else r)"
        by (auto simp: close_socket_def in_upd_rows sockets)
      then show ?thesis by (intro bexI [of _ r]) (simp_all split: if_splits)
    qed
    show ?case
    proof
      fix y assume y: "y \<in> set (ow_sockets (fold (\<lambda>x t. close_socket (so_id x)
        (terminate_where now (\<lambda>p. pm_socket p = so_id x) t)) (a # xs) t))"
      then obtain w where "w \<in> set (ow_sockets ?t)" "so_id y = so_id w" "so_endpoint y = so_endpoint w"
        "so_open y \<longrightarrow> so_open w \<and> so_id w \<notin> so_id ` set xs"
        using Cons.IH [of ?t] by auto
      moreover from closed [OF this(1)] obtain z where "z \<in> set (ow_sockets t)" "so_id w = so_id z"
        "so_endpoint w = so_endpoint z" "so_open w \<longrightarrow> so_open z \<and> so_id z \<noteq> so_id a" by blast
      ultimately show "\<exists>z \<in> set (ow_sockets t). so_id y = so_id z \<and> so_endpoint y = so_endpoint z \<and>
          (so_open y \<longrightarrow> so_open z \<and> so_id z \<notin> so_id ` set (a # xs))"
        by (intro bexI [of _ z]) auto
    qed
  qed (auto intro: bexI)
  obtain s1 where s': "x \<in> set (ow_sockets (supersede_sockets n (ep_id e) now s1))"
    using assms(1,2) other
    by (auto simp: authenticate_commit_def Let_def send_def in_upd_rows split: option.splits if_splits)
  with step assms(3,4) other show False
    unfolding supersede_sockets_def by fastforce
qed

section \<open>A concrete owner\<close>

definition sample_credential :: string where "sample_credential = replicate 64 (CHR ''c'')"

definition sample_endpoint :: endpoint where
  "sample_endpoint = \<lparr>ep_id = sample_ep, ep_alias = ''Work'', ep_state = Enabled, ep_generation = 3,
     ep_revision = 1, ep_stop_epoch = 0, ep_credential_hash = sample_credential, ep_updated_at = 0,
     ep_mode = ''permanent'', ep_lease = None, ep_offline = None, ep_idle = None, ep_last_seen = None,
     ep_family = None, ep_platform = None, ep_version = None\<rparr>"

definition sample_attempt_id :: string where "sample_attempt_id = ''00000000-0000-4000-8000-0000000000ff''"

definition sample_attempt :: attempt where
  "sample_attempt = \<lparr>at_id = sample_attempt_id, at_proof_hash = replicate 64 (CHR ''f''), at_alias = ''Work'',
     at_mode = ''permanent'', at_endpoint = Some sample_ep, at_stop_epoch = Some 0, at_verified = True,
     at_consumed = False, at_expires = 300000\<rparr>"

definition sample_socket :: socket where
  "sample_socket = \<lparr>so_id = 1, so_open = True, so_authenticated = True, so_protocol = 3,
     so_extension = ''0.2.6'', so_endpoint = Some sample_ep, so_generation = 3, so_deadline = 0,
     so_last_seen = Some 0\<rparr>"

definition sample_owner :: owner where
  "sample_owner = \<lparr>ow_idle_ms = 1000, ow_endpoints = [sample_endpoint], ow_attempts = [sample_attempt],
     ow_limits = [], ow_ledger = empty_ledger, ow_sockets = [sample_socket], ow_mutations = [], ow_reads = [],
     ow_admitting = [], ow_alarm = None, ow_sent = [], ow_answers = []\<rparr>"

definition sample_proof :: "(string \<times> json) list" where
  "sample_proof = [(''attempt_id'', JStr sample_attempt_id), (''proof'', JStr (replicate 64 (CHR ''f''))),
     (''endpoint_id'', JStr sample_ep), (''credential'', JStr sample_credential)]"

definition sample_stop :: "(string \<times> json) list" where
  "sample_stop = [(''endpoint_id'', JStr sample_ep), (''credential'', JStr sample_credential)]"

lemma sample_owner_facts:
  "endpoint_of sample_owner sample_ep = Some sample_endpoint"
  "at_of sample_owner sample_attempt_id = Some sample_attempt"
  "validId (obj_get sample_proof ''attempt_id'') = Some sample_attempt_id"
  "validId (obj_get sample_stop ''endpoint_id'') = Some sample_ep"
  "credential_arg sample_stop = Some sample_credential"
  by code_simp+

text \<open>Undisturbed, the activation of this attempt is granted.\<close>

lemma sample_activation_granted:
  "fst (fst (activate_finish (\<lambda>s. s) (\<lambda>_ t. t) (\<lambda>_. 0) True False ''x'' ''y'' sample_proof 0 sample_owner)) = 200"
  by code_simp

lemma interferes_id: "interferes (\<lambda>_ t. t)"
  by (simp add: interferes_def)

lemma grants_evolve_witness:
  "\<exists>e'. endpoint_of (webSocketClose (\<lambda>_ t. t) (\<lambda>_. 0) True 1 1000 sample_owner) sample_ep = Some e' \<and>
     grant_evolves sample_endpoint e'"
  by (rule grants_evolve [OF interferes_id interferes_id sample_owner_facts(1)])
    (rule insertI2, rule insertI2, rule insertI1)

definition stop_in_between :: "nat \<Rightarrow> owner \<Rightarrow> owner" where
  "stop_in_between k = (if k = 2 then commit_stop sample_ep None 0 else (\<lambda>t. t))"

lemma stop_or_revoke_wins_witness:
  "fst (fst (activate_finish (\<lambda>s. s) stop_in_between (\<lambda>_. 0) True False ''x'' ''y'' sample_proof 0 sample_owner)) \<noteq> 200"
proof (rule stop_or_revoke_wins [where x = 0 and k = 2 and d = None and \<tau> = 0,
      OF sample_owner_facts(3,2) _ _ sample_owner_facts(1) _ _ interferes_id])
  show "interferes stop_in_between"
    by (simp add: interferes_def stop_in_between_def evolves_commit_stop)
  show "stop_in_between 2 = (\<lambda>t. commit_stop sample_ep None 0 t) \<or> stop_in_between 2 = (\<lambda>t. commit_revoke sample_ep 0 t)"
    by (simp add: stop_in_between_def)
qed (simp_all add: sample_attempt_def sample_endpoint_def)

lemma local_stop_undoes_revoke_witness:
  "map_option ep_state (endpoint_of (commit_revoke sample_ep 5 sample_owner) sample_ep) = Some Revoked \<and>
   map_option ep_state (endpoint_of (snd (endpoint_request (\<lambda>s. s)
      (\<lambda>k. if k = 0 then commit_revoke sample_ep 5 else (\<lambda>t. t)) (\<lambda>_. 9) True LocalStop sample_stop 4 sample_owner))
      sample_ep) = Some Stopped"
  by (rule local_stop_undoes_revoke [OF sample_owner_facts(4,1) _ sample_owner_facts(5)])
    (simp_all add: sample_endpoint_def)

lemma execute_for_current_grant_witness:
  "ow_sent (dispatch_after True 1 sample_endpoint ''op'' sample_key 1
     (no_answer\<lparr>an_token := Some ''t'', an_state := Some Dispatching\<rparr>) 0 sample_owner) =
     [(1, ExecuteRequest ''op'' sample_key 3 ''t'')]"
proof -
  let ?a = "no_answer\<lparr>an_token := Some ''t'', an_state := Some Dispatching\<rparr>"
  have "ow_sent (dispatch_after True 1 sample_endpoint ''op'' sample_key 1 ?a 0 sample_owner) \<noteq> ow_sent sample_owner"
    by code_simp
  with execute_for_current_grant [of True 1 sample_endpoint "''op''" sample_key 1 ?a 0 sample_owner]
  show ?thesis by (auto simp: sample_owner_def sample_endpoint_def no_answer_def)
qed

definition second_socket :: socket where
  "second_socket = sample_socket\<lparr>so_id := 2, so_authenticated := False, so_endpoint := None\<rparr>"

definition two_sockets :: owner where
  "two_sockets = sample_owner\<lparr>ow_sockets := [sample_socket, second_socket]\<rparr>"

lemma authenticated_socket_alone_witness:
  "map so_id (filter (\<lambda>x. so_endpoint x = Some sample_ep \<and> so_open x)
     (ow_sockets (snd (authenticate_commit 2 sample_endpoint [] 0 two_sockets)))) = [2]"
proof -
  let ?r = "authenticate_commit 2 sample_endpoint [] 0 two_sockets"
  have r: "?r = (True, snd ?r)"
    by (rule prod_eqI) (simp_all, code_simp)
  have "map so_id (ow_sockets (snd ?r)) = [1, 2]" "so_open (ow_sockets (snd ?r) ! 1)"
    "so_endpoint (ow_sockets (snd ?r) ! 1) = Some sample_ep"
    by code_simp+
  then obtain a b where ab: "ow_sockets (snd ?r) = [a, b]" "so_id a = 1" "so_id b = 2" "so_open b"
    "so_endpoint b = Some sample_ep"
    by (auto simp: map_eq_Cons_conv)
  have "so_id a = 2" if "so_endpoint a = Some sample_ep" "so_open a"
    by (rule authenticated_socket_alone [OF r]) (use that ab in \<open>simp_all add: sample_endpoint_def\<close>)
  with ab show ?thesis by auto
qed

end
