(* ===== verification/SshTarget.thy ===== *)
theory SshTarget
  imports PublicEndpoint
begin

text \<open>
  What the SSH Worker accepts as input and as a target: the argument checks of
  \<open>apps/ssh-mcp-worker/src/validation.ts\<close>, the address syntax and the public address test of
  \<open>target-security.ts\<close>, and the resolution of \<open>public-target.ts\<close>. Parameters: the platform's
  URL parser (\<open>parse_url\<close>) and the DNS-over-HTTPS replies (\<open>fetch\<close>).
\<close>

section \<open>Errors\<close>

datatype host_error_code =
  HostNotFound | HostRecordInvalid | UnsupportedCryptoVersion | SecretMismatch | ResultTooLarge | HostUntrusted
| InvalidTarget

datatype thrown =
    HostError host_error_code
  | SshHostKeyError
  | SshAuthenticationError
  | SftpError nat
  | JsError string  \<comment> \<open>\<open>new Error(message)\<close>, and whatever the platform throws\<close>

fun host_error_text :: "host_error_code \<Rightarrow> string" where
  "host_error_text HostNotFound = ''host_not_found''"
| "host_error_text HostRecordInvalid = ''host_record_invalid''"
| "host_error_text UnsupportedCryptoVersion = ''unsupported_crypto_version''"
| "host_error_text SecretMismatch = ''secret_mismatch''"
| "host_error_text ResultTooLarge = ''result_too_large''"
| "host_error_text HostUntrusted = ''host_untrusted''"
| "host_error_text InvalidTarget = ''invalid_target''"

definition errorCode :: "thrown \<Rightarrow> string" where
  "errorCode e =
    (case e of
       HostError c \<Rightarrow> host_error_text c
     | SshHostKeyError \<Rightarrow> ''host_untrusted''
     | _ \<Rightarrow> ''host_unreachable'')"

section \<open>Arguments of the tools\<close>

text \<open>A number as \<open>Number.isInteger\<close> sees it.\<close>

datatype js_int = IntegerNumber int | OtherNumber

fun integer_between :: "int \<Rightarrow> int \<Rightarrow> js_int \<Rightarrow> bool" where
  "integer_between lo hi (IntegerNumber n) \<longleftrightarrow> lo \<le> n \<and> n \<le> hi"
| "integer_between lo hi OtherNumber \<longleftrightarrow> False"

definition UUID :: "string \<Rightarrow> bool" where
  \<comment> \<open>the regular expression, with its flag for either case\<close>
  "UUID s \<longleftrightarrow>
     matches (hexes 8 @ lit ''-'' @ hexes 4 @ lit ''-'' @ [\<lambda>c. c \<in> set ''12345678''] @ hexes 3 @ lit ''-'' @
       [\<lambda>c. c \<in> set ''89ab''] @ hexes 3 @ lit ''-'' @ hexes 12) (map to_lower s)"

definition alnum :: "char \<Rightarrow> bool" where
  "alnum c \<longleftrightarrow> is_lower c \<or> is_upper c \<or> is_digit c"

definition TERM_TYPE :: "string \<Rightarrow> bool" where
  "TERM_TYPE s \<longleftrightarrow>
     (case s of
        [] \<Rightarrow> False
      | c # cs \<Rightarrow> alnum c \<and> length cs \<le> 31 \<and> list_all (\<lambda>c. alnum c \<or> c \<in> set ''.+_-'') cs)"

definition invalid_if :: "bool \<Rightarrow> string option" where
  "invalid_if b = (if b then Some ''invalid_args'' else None)"

definition validExecInput :: "string \<Rightarrow> string \<Rightarrow> string \<Rightarrow> js_int \<Rightarrow> string option" where
  "validExecInput hostId operationId command timeoutMs =
    invalid_if (\<not> UUID hostId \<or> \<not> UUID operationId \<or> utf8_length command > 16 * 1024 \<or> command = [] \<or>
      \<not> integer_between 1000 60000 timeoutMs)"

definition validSessionStartInput :: "string \<Rightarrow> string \<Rightarrow> string option \<Rightarrow> string option" where
  "validSessionStartInput hostId operationId termType =
    (if \<not> UUID hostId \<or> \<not> UUID operationId then Some ''invalid_args''
     else invalid_if (case termType of None \<Rightarrow> False | Some t \<Rightarrow> \<not> TERM_TYPE t))"

definition validSessionLookupInput :: "string \<Rightarrow> js_int option \<Rightarrow> js_int option \<Rightarrow> string option" where
  "validSessionLookupInput sessionId offset limit =
    (if \<not> UUID sessionId then Some ''invalid_args''
     else if (case offset of None \<Rightarrow> False | Some (IntegerNumber n) \<Rightarrow> n < 0 | Some OtherNumber \<Rightarrow> True)
     then Some ''invalid_args''
     else invalid_if (case limit of None \<Rightarrow> False | Some n \<Rightarrow> \<not> integer_between 1 (64 * 1024) n))"

definition validSessionInput :: "string \<Rightarrow> string \<Rightarrow> string \<Rightarrow> string option" where
  "validSessionInput sessionId operationId input =
    (if \<not> UUID sessionId \<or> \<not> UUID operationId \<or> input = [] then Some ''invalid_args''
     else invalid_if (utf8_length input > 16 * 1024))"

definition validSessionStop :: "string \<Rightarrow> string \<Rightarrow> string option" where
  "validSessionStop sessionId operationId = invalid_if (\<not> UUID sessionId \<or> \<not> UUID operationId)"

definition validSftpInput :: "string \<Rightarrow> string \<Rightarrow> js_int \<Rightarrow> string option" where
  "validSftpInput hostId path timeoutMs =
    (if \<not> UUID hostId \<or> path = [] \<or> CHR 0x00 \<in> set path then Some ''invalid_args''
     else if utf8_length path > 4 * 1024 then Some ''invalid_args''
     else invalid_if (\<not> integer_between 1000 60000 timeoutMs))"

definition validSftpWriteInput ::
  "string \<Rightarrow> string \<Rightarrow> string \<Rightarrow> string \<Rightarrow> bool option \<Rightarrow> js_int \<Rightarrow> string option" where
  "validSftpWriteInput hostId operationId path contents overwrite timeoutMs =
    (if \<not> UUID operationId \<or> overwrite = None then Some ''invalid_args''
     else if utf8_length contents > 64 * 1024 then Some ''invalid_args''
     else validSftpInput hostId path timeoutMs)"

definition validSftpPath :: "string \<Rightarrow> bool" where
  "validSftpPath path \<longleftrightarrow> length path > 0 \<and> CHR 0x00 \<notin> set path \<and> utf8_length path \<le> 4 * 1024"

definition validSftpRenameInput ::
  "string \<Rightarrow> string \<Rightarrow> string \<Rightarrow> string \<Rightarrow> bool option \<Rightarrow> js_int \<Rightarrow> string option" where
  "validSftpRenameInput hostId operationId oldPath newPath overwrite timeoutMs =
    (if \<not> UUID operationId \<or> overwrite = None \<or> \<not> validSftpPath newPath then Some ''invalid_args''
     else validSftpInput hostId oldPath timeoutMs)"

definition validSftpDeleteInput ::
  "string \<Rightarrow> string \<Rightarrow> string \<Rightarrow> string option \<Rightarrow> bool option \<Rightarrow> bool option \<Rightarrow> js_int \<Rightarrow> string option" where
  "validSftpDeleteInput hostId operationId path kind confirm recursive timeoutMs =
    (if \<not> UUID operationId \<or> confirm \<noteq> Some True \<or> recursive \<noteq> None then Some ''invalid_args''
     else if kind \<noteq> Some ''file'' \<and> kind \<noteq> Some ''empty_directory'' then Some ''invalid_args''
     else validSftpInput hostId path timeoutMs)"

definition validSftpMkdirInput :: "string \<Rightarrow> string \<Rightarrow> string \<Rightarrow> js_int \<Rightarrow> string option" where
  "validSftpMkdirInput hostId operationId path timeoutMs =
    (if \<not> UUID operationId then Some ''invalid_args'' else validSftpInput hostId path timeoutMs)"

lemmas valid_input_defs =
  invalid_if_def validSftpInput_def validSftpWriteInput_def validSftpRenameInput_def validSftpDeleteInput_def
  validSftpMkdirInput_def validSftpPath_def

section \<open>Address syntax\<close>

definition parseIpv4 :: "string \<Rightarrow> nat list option" where
  "parseIpv4 v =
    (let parts = split_char (CHR ''.'') v in
     if length parts = 4 \<and> list_all (\<lambda>p. 1 \<le> length p \<and> length p \<le> 3 \<and> list_all is_digit p) parts
     then let ns = map digits_val parts in if list_all (\<lambda>n. n \<le> 255) ns then Some ns else None
     else None)"

fun split_colons :: "string \<Rightarrow> string list" where
  \<comment> \<open>\<open>split('::')\<close>\<close>
  "split_colons [] = [[]]"
| "split_colons [c] = [[c]]"
| "split_colons (c # d # cs) =
     (if c = CHR '':'' \<and> d = CHR '':'' then [] # split_colons cs
      else case split_colons (d # cs) of [] \<Rightarrow> [[c]] | p # ps \<Rightarrow> (c # p) # ps)"

definition strip_square :: "string \<Rightarrow> string" where
  \<comment> \<open>remove one bracket in front and one at the end\<close>
  "strip_square s =
    (let t = (if hd_is (CHR ''['') s then tl s else s)
     in if t \<noteq> [] \<and> last t = CHR '']'' then butlast t else t)"

fun hex_str :: "nat \<Rightarrow> string" where
  \<comment> \<open>\<open>toString(16)\<close>\<close>
  "hex_str n = (if n < 16 then [hex_digit n] else hex_str (n div 16) @ [hex_digit (n mod 16)])"

declare hex_str.simps [simp del]

definition embed_ipv4 :: "string \<Rightarrow> string option" where
  \<comment> \<open>the dotted quad after the last colon becomes two groups\<close>
  "embed_ipv4 s =
    (let quad = rev (takeWhile (\<lambda>c. c \<noteq> CHR '':'') (rev s)); front = take (length s - length quad - 1) s
     in case parseIpv4 quad of
          Some [a, b, c, d] \<Rightarrow>
            Some (front @ '':'' @ hex_str (a * 256 + b) @ '':'' @ hex_str (c * 256 + d))
        | _ \<Rightarrow> None)"

definition groups_of :: "string \<Rightarrow> string list" where
  "groups_of s = (if s = [] then [] else split_char (CHR '':'') s)"

definition is_group :: "string \<Rightarrow> bool" where
  "is_group w \<longleftrightarrow> 1 \<le> length w \<and> length w \<le> 4 \<and> list_all is_hex w"

definition ipv6_words :: "string \<Rightarrow> string list option" where
  \<comment> \<open>the words of the two halves, with zeros for the double colon\<close>
  "ipv6_words input =
    (let halves = split_colons input;
         left = groups_of (hd halves);
         right = (if length halves = 2 then groups_of (halves ! 1) else [])
     in if length halves > 2 then None
        else if length halves = 1 \<and> length left \<noteq> 8 then None
        else if length halves = 2 \<and> length left + length right \<ge> 8 then None
        else
          let words = left @ replicate (8 - length left - length right) ''0'' @ right
          in if length words \<noteq> 8 \<or> list_ex (\<lambda>w. \<not> is_group w) words then None else Some words)"

definition join_words :: "nat list \<Rightarrow> int" where
  "join_words ws = foldl (\<lambda>acc w. acc * 2 ^ 16 + int w) 0 ws"

definition parseIpv6 :: "string \<Rightarrow> int option" where
  "parseIpv6 v =
    (let input = strip_square (map to_lower v)
     in if CHR ''%'' \<in> set input \<or> CHR '':'' \<notin> set input then None
        else case (if CHR ''.'' \<in> set input then embed_ipv4 input else Some input) of
          None \<Rightarrow> None
        | Some i \<Rightarrow> map_option (\<lambda>ws. join_words (map parse_hex ws)) (ipv6_words i))"

definition isIpLiteral :: "string \<Rightarrow> bool" where
  "isIpLiteral host \<longleftrightarrow> parseIpv4 host \<noteq> None \<or> parseIpv6 host \<noteq> None"

definition dns_label :: "string \<Rightarrow> bool" where
  "dns_label l \<longleftrightarrow> 1 \<le> length l \<and> length l \<le> 63 \<and> alnum (hd l) \<and> alnum (last l) \<and>
     list_all (\<lambda>c. alnum c \<or> c = CHR ''-'') l"

definition normalizeDnsName :: "(string \<Rightarrow> url option) \<Rightarrow> string \<Rightarrow> string option" where
  \<comment> \<open>the parser is called on \<open>http://\<close> and the host; the search string is empty, since the host has no \<open>?\<close>\<close>
  "normalizeDnsName parse_url host =
    (if host = [] \<or> list_ex (\<lambda>c. is_ws c \<or> code c \<le> 32 \<or> c \<in> set ''/@?#'') host \<or> CHR '':'' \<in> set host then None
     else case parse_url (''http://'' @ host) of
       None \<Rightarrow> None
     | Some u \<Rightarrow>
         let name = map to_lower (url_hostname u)
         in if url_port u \<noteq> [] \<or> url_username u \<noteq> [] \<or> url_password u \<noteq> [] \<or> url_pathname u \<noteq> ''/'' \<or>
               url_params u > 0 \<or> url_hash u \<noteq> [] \<or> length name > 253 \<or> ends_with name ''.'' \<or>
               \<not> list_all dns_label (split_char (CHR ''.'') name)
            then None else Some name)"

section \<open>Public addresses\<close>

definition blocked_ipv4 :: "nat \<Rightarrow> nat \<Rightarrow> nat \<Rightarrow> bool" where
  \<comment> \<open>the negated disjunction that \<open>isPublicAddress\<close> returns\<close>
  "blocked_ipv4 a b c \<longleftrightarrow>
     a = 0 \<or> a = 10 \<or> a = 127 \<or> a \<ge> 224 \<or>
     (a = 100 \<and> b \<ge> 64 \<and> b \<le> 127) \<or>
     (a = 169 \<and> b = 254) \<or> (a = 172 \<and> b \<ge> 16 \<and> b \<le> 31) \<or>
     (a = 192 \<and> b = 0) \<or> (a = 192 \<and> b = 2) \<or>
     (a = 192 \<and> b = 88 \<and> c = 99) \<or> (a = 192 \<and> b = 168) \<or>
     (a = 192 \<and> b = 31 \<and> c = 196) \<or> (a = 192 \<and> b = 52 \<and> c = 193) \<or>
     (a = 192 \<and> b = 175 \<and> c = 48) \<or>
     (a = 198 \<and> (b = 18 \<or> b = 19 \<or> (b = 51 \<and> c = 100))) \<or>
     (a = 203 \<and> b = 0 \<and> c = 113)"

definition public_ipv6 :: "int \<Rightarrow> bool" where
  \<comment> \<open>the conjunction on the 128 bit value\<close>
  "public_ipv6 v \<longleftrightarrow>
     drop_bit 112 v \<ge> 0x2000 \<and> drop_bit 112 v \<le> 0x3fff \<and>
     drop_bit 105 v \<noteq> 0x100080 \<and>
     drop_bit 80 v \<noteq> 0x200100020000 \<and>
     drop_bit 32 v \<noteq> 0x20010db80000000000000000 \<and>
     drop_bit 112 v \<noteq> 0x2002 \<and>
     drop_bit 108 v \<noteq> 0x3fff0"

definition isPublicAddress :: "string \<Rightarrow> bool" where
  "isPublicAddress v \<longleftrightarrow>
     (case parseIpv4 v of
        Some ns \<Rightarrow> \<not> blocked_ipv4 (ns ! 0) (ns ! 1) (ns ! 2)
      | None \<Rightarrow> (case parseIpv6 v of None \<Rightarrow> False | Some n \<Rightarrow> public_ipv6 n))"

section \<open>Resolution\<close>

text \<open>What one DNS query brings: an exception, a reply that is not ok, or a JSON body.\<close>

datatype dns_reply = DnsThrown thrown | DnsNotOk | DnsBody json

fun dns_answer :: "nat \<Rightarrow> json \<Rightarrow> thrown + string option" where
  \<comment> \<open>the address of one answer, if it has the type\<close>
  "dns_answer t JNull = Inl (JsError ''TypeError'')"
| "dns_answer t (JObj kvs) =
     Inr (if obj_get kvs ''type'' = Some (JNum (Finite (nat_str t))) then as_str (obj_get kvs ''data'') else None)"
| "dns_answer t v = Inr None"

fun collect_dns :: "nat \<Rightarrow> json list \<Rightarrow> string list \<Rightarrow> thrown + string list" where
  "collect_dns t [] addresses = Inr addresses"
| "collect_dns t (answer # answers) addresses =
     bindE (dns_answer t answer) (\<lambda>found.
       let now_known = addresses @ (case found of None \<Rightarrow> [] | Some a \<Rightarrow> [a])
       in if length now_known > 16 then Inl (HostError InvalidTarget) else collect_dns t answers now_known)"

definition dns_answers :: "json option \<Rightarrow> thrown + json list" where
  "dns_answers v =
    (case v of
       Some (JArr xs) \<Rightarrow> Inr xs
     | Some JNull \<Rightarrow> Inr []
     | Some (JStr s) \<Rightarrow> Inr (map (\<lambda>c. JStr [c]) s)
     | _ \<Rightarrow> Inl (JsError ''TypeError''))"

definition dns_query :: "(nat \<Rightarrow> string \<Rightarrow> dns_reply) \<Rightarrow> string \<Rightarrow> nat \<Rightarrow> string list \<Rightarrow> thrown + string list" where
  "dns_query fetch host t addresses =
    (case fetch t host of
       DnsThrown e \<Rightarrow> Inl e
     | DnsNotOk \<Rightarrow> Inl (HostError InvalidTarget)
     | DnsBody (JObj body) \<Rightarrow>
         if obj_get body ''Answer'' = None then Inr addresses
         else bindE (dns_answers (obj_get body ''Answer'')) (\<lambda>answers. collect_dns t answers addresses)
     | DnsBody _ \<Rightarrow> Inr addresses)"

definition first_occurrences :: "'a list \<Rightarrow> 'a list" where
  \<comment> \<open>\<open>[...new Set(xs)]\<close>\<close>
  "first_occurrences xs = rev (remdups (rev xs))"

definition resolveDns :: "(nat \<Rightarrow> string \<Rightarrow> dns_reply) \<Rightarrow> string \<Rightarrow> thrown + string list" where
  "resolveDns fetch host =
    bindE (dns_query fetch host 1 []) (\<lambda>a4.
    bindE (dns_query fetch host 28 a4) (\<lambda>a.
    Inr (first_occurrences a)))"

definition resolvePublicAddress ::
  "(string \<Rightarrow> url option) \<Rightarrow> (nat \<Rightarrow> string \<Rightarrow> dns_reply) \<Rightarrow> string \<Rightarrow> thrown + string" where
  "resolvePublicAddress parse_url fetch host =
    bindE (if isIpLiteral host then Inr [strip_square host]
           else case normalizeDnsName parse_url host of
             None \<Rightarrow> Inl (HostError InvalidTarget)
           | Some name \<Rightarrow> resolveDns fetch name) (\<lambda>candidates.
    if candidates = [] \<or> length candidates > 16 \<or> list_ex (\<lambda>a. \<not> isPublicAddress a) candidates
    then Inl (HostError InvalidTarget)
    else Inr (hd candidates))"

lemma first_occurrences_simps [simp]:
  "set (first_occurrences xs) = set xs" "first_occurrences xs = [] \<longleftrightarrow> xs = []"
  by (simp_all add: first_occurrences_def)

lemma hd_first_occurrences [simp]: "xs \<noteq> [] \<Longrightarrow> hd (first_occurrences xs) = hd xs"
  by (induction xs rule: rev_induct) (auto simp: first_occurrences_def hd_append)

text \<open>The addresses known before a query stay in front.\<close>

lemma collect_dns_grows: "collect_dns t as known = Inr r \<Longrightarrow> \<exists>more. r = known @ more"
proof (induction t as known rule: collect_dns.induct)
  case (2 t a as known)
  then show ?case by (fastforce simp: Let_def split: if_splits option.splits)
qed simp

lemma dns_query_grows: "dns_query fetch host t known = Inr r \<Longrightarrow> \<exists>more. r = known @ more"
  by (auto simp: dns_query_def split: dns_reply.splits json.splits if_splits dest!: collect_dns_grows)

section \<open>The special-purpose IPv4 blocks\<close>

definition value32 :: "nat list \<Rightarrow> nat" where
  "value32 ns = foldl (\<lambda>acc n. acc * 2 ^ 8 + n) 0 ns"

definition SPECIAL_IPV4 :: "(nat list \<times> nat) list" where
  \<comment> \<open>the blocks that are not globally reachable: network and prefix length\<close>
  "SPECIAL_IPV4 =
    [([0, 0, 0, 0], 8), ([10, 0, 0, 0], 8), ([100, 64, 0, 0], 10), ([127, 0, 0, 0], 8), ([169, 254, 0, 0], 16),
     ([172, 16, 0, 0], 12), ([192, 0, 0, 0], 24), ([192, 0, 2, 0], 24), ([192, 88, 99, 0], 24),
     ([192, 168, 0, 0], 16), ([198, 18, 0, 0], 15), ([198, 51, 100, 0], 24), ([203, 0, 113, 0], 24),
     ([224, 0, 0, 0], 4), ([240, 0, 0, 0], 4)]"

definition in_block :: "nat list \<Rightarrow> nat list \<times> nat \<Rightarrow> bool" where
  "in_block ns b \<longleftrightarrow> drop_bit (32 - snd b) (value32 ns) = drop_bit (32 - snd b) (value32 (fst b))"

lemma parseIpv4_octets: "parseIpv4 v = Some ns \<Longrightarrow> length ns = 4 \<and> list_all (\<lambda>n. n \<le> 255) ns"
  by (auto simp: parseIpv4_def Let_def split: if_splits)

lemma value32_octets: "value32 [a, b, c, d] = ((a * 256 + b) * 256 + c) * 256 + d"
  by (simp add: value32_def)

lemma octet_drop:
  fixes a b c d :: nat
  assumes "a \<le> 255" "b \<le> 255" "c \<le> 255" "d \<le> 255"
  defines "v \<equiv> value32 [a, b, c, d]"
  shows "drop_bit 24 v = a" "drop_bit 16 v = a * 256 + b" "drop_bit 8 v = (a * 256 + b) * 256 + c"
    "drop_bit 22 v = (a * 256 + b) div 64" "drop_bit 20 v = (a * 256 + b) div 16"
    "drop_bit 17 v = (a * 256 + b) div 2" "drop_bit 28 v = a div 16"
proof -
  show v24: "drop_bit 24 v = a" and v16: "drop_bit 16 v = a * 256 + b"
    and "drop_bit 8 v = (a * 256 + b) * 256 + c"
    using assms by (simp_all add: drop_bit_eq_div value32_octets)
  have shift: "drop_bit (16 + k) v = (a * 256 + b) div 2 ^ k" "drop_bit (24 + k) v = a div 2 ^ k" for k
    by (simp_all only: drop_bit_drop_bit [symmetric] add.commute v16 v24 drop_bit_eq_div [of k])
  show "drop_bit 22 v = (a * 256 + b) div 64" "drop_bit 20 v = (a * 256 + b) div 16"
    "drop_bit 17 v = (a * 256 + b) div 2" "drop_bit 28 v = a div 16"
    using shift(1) [of 6] shift(1) [of 4] shift(1) [of 1] shift(2) [of 4] by simp_all
qed

lemma octets_eq:
  fixes a b p q :: nat
  assumes "b < 256" "q < 256"
  shows "a * 256 + b = p * 256 + q \<longleftrightarrow> a = p \<and> b = q"
proof
  assume eq: "a * 256 + b = p * 256 + q"
  have "a = (a * 256 + b) div 256" "b = (a * 256 + b) mod 256" using assms by simp_all
  then show "a = p \<and> b = q" using assms unfolding eq by simp
qed simp

lemma octets_range:
  fixes a b p q :: nat
  assumes "p * 256 + q \<le> a * 256 + b" "a * 256 + b \<le> p * 256 + r" "b < 256" "q < 256" "r < 256"
  shows "a = p" "q \<le> b" "b \<le> r"
proof -
  show "a = p" using assms by linarith
  with assms show "q \<le> b" "b \<le> r" by linarith+
qed

lemma blocked_special:
  assumes "a \<le> 255" "b \<le> 255" "c \<le> 255" "d \<le> 255" "list_ex (in_block [a, b, c, d]) SPECIAL_IPV4"
  shows "blocked_ipv4 a b c"
proof -
  have lt: "b < 256" "c < 256" using assms by simp_all
  have pair: "a * 256 + b = n \<Longrightarrow> n = p * 256 + q \<Longrightarrow> q < 256 \<Longrightarrow> a = p \<and> b = q" for n p q
    using octets_eq [OF lt(1)] by simp
  have triple: "(a * 256 + b) * 256 + c = n \<Longrightarrow> n = m * 256 + r \<Longrightarrow> r < 256 \<Longrightarrow> a * 256 + b = m \<and> c = r" for n m r
    by (simp only: octets_eq [OF lt(2)])
  have base: "list_ex (in_block [a, b, c, d]) SPECIAL_IPV4 \<longleftrightarrow>
    a = 0 \<or> a = 10 \<or> (a * 256 + b) div 64 = 401 \<or> a = 127 \<or> a * 256 + b = 43518 \<or>
    (a * 256 + b) div 16 = 2753 \<or> (a * 256 + b) * 256 + c = 12582912 \<or> (a * 256 + b) * 256 + c = 12582914 \<or>
    (a * 256 + b) * 256 + c = 12605539 \<or> a * 256 + b = 49320 \<or> (a * 256 + b) div 2 = 25353 \<or>
    (a * 256 + b) * 256 + c = 12989284 \<or> (a * 256 + b) * 256 + c = 13303921 \<or> a div 16 = 14 \<or> a div 16 = 15"
    by (simp add: SPECIAL_IPV4_def in_block_def octet_drop [OF assms(1-4)])
      (simp add: value32_octets drop_bit_eq_div)
  have "blocked_ipv4 a b c" if "(a * 256 + b) div 64 = 401"
  proof -
    have "100 * 256 + 64 \<le> a * 256 + b" "a * 256 + b \<le> 100 * 256 + 127" using that by linarith+
    from octets_range [OF this lt(1)] show ?thesis by (simp add: blocked_ipv4_def)
  qed
  moreover have "blocked_ipv4 a b c" if "(a * 256 + b) div 16 = 2753"
  proof -
    have "172 * 256 + 16 \<le> a * 256 + b" "a * 256 + b \<le> 172 * 256 + 31" using that by linarith+
    from octets_range [OF this lt(1)] show ?thesis by (simp add: blocked_ipv4_def)
  qed
  moreover have "blocked_ipv4 a b c" if "(a * 256 + b) div 2 = 25353"
  proof -
    have "198 * 256 + 18 \<le> a * 256 + b" "a * 256 + b \<le> 198 * 256 + 19" using that by linarith+
    from octets_range [OF this lt(1)] have "a = 198" "18 \<le> b" "b \<le> 19" by simp_all
    then show ?thesis by (cases "b = 18") (simp_all add: blocked_ipv4_def)
  qed
  moreover have "blocked_ipv4 a b c" if "a div 16 = 14 \<or> a div 16 = 15"
  proof -
    have "224 \<le> a" using that by linarith
    then show ?thesis by (simp add: blocked_ipv4_def)
  qed
  moreover have "blocked_ipv4 a b c" if "a * 256 + b = 43518"
    using pair [OF that, of 169 254] by (simp add: blocked_ipv4_def)
  moreover have "blocked_ipv4 a b c" if "a * 256 + b = 49320"
    using pair [OF that, of 192 168] by (simp add: blocked_ipv4_def)
  moreover have "blocked_ipv4 a b c" if "(a * 256 + b) * 256 + c = 12582912"
  proof -
    have ab: "a * 256 + b = 49152" and c: "c = 0" using triple [OF that, of 49152 0] by simp_all
    have "a = 192" "b = 0" using pair [OF ab, of 192 0] by simp_all
    with c show ?thesis by (simp add: blocked_ipv4_def)
  qed
  moreover have "blocked_ipv4 a b c" if "(a * 256 + b) * 256 + c = 12582914"
  proof -
    have ab: "a * 256 + b = 49152" and c: "c = 2" using triple [OF that, of 49152 2] by simp_all
    have "a = 192" "b = 0" using pair [OF ab, of 192 0] by simp_all
    with c show ?thesis by (simp add: blocked_ipv4_def)
  qed
  moreover have "blocked_ipv4 a b c" if "(a * 256 + b) * 256 + c = 12605539"
  proof -
    have ab: "a * 256 + b = 49240" and c: "c = 99" using triple [OF that, of 49240 99] by simp_all
    have "a = 192" "b = 88" using pair [OF ab, of 192 88] by simp_all
    with c show ?thesis by (simp add: blocked_ipv4_def)
  qed
  moreover have "blocked_ipv4 a b c" if "(a * 256 + b) * 256 + c = 12989284"
  proof -
    have ab: "a * 256 + b = 50739" and c: "c = 100" using triple [OF that, of 50739 100] by simp_all
    have "a = 198" "b = 51" using pair [OF ab, of 198 51] by simp_all
    with c show ?thesis by (simp add: blocked_ipv4_def)
  qed
  moreover have "blocked_ipv4 a b c" if "(a * 256 + b) * 256 + c = 13303921"
  proof -
    have ab: "a * 256 + b = 51968" and c: "c = 113" using triple [OF that, of 51968 113] by simp_all
    have "a = 203" "b = 0" using pair [OF ab, of 203 0] by simp_all
    with c show ?thesis by (simp add: blocked_ipv4_def)
  qed
  moreover have "blocked_ipv4 a b c" if "a = 0 \<or> a = 10 \<or> a = 127"
    using that by (auto simp: blocked_ipv4_def)
  ultimately show ?thesis using assms(5) unfolding base by blast
qed

section \<open>Properties\<close>

lemma resolvePublicAddress_cases:
  assumes "resolvePublicAddress parse_url fetch host = Inr ip"
  obtains (literal) "isIpLiteral host" "ip = strip_square host" "isPublicAddress ip"
  | (name) name candidates where "normalizeDnsName parse_url host = Some name"
      "resolveDns fetch name = Inr candidates" "ip \<in> set candidates" "list_all isPublicAddress candidates"
  using assms
  by (auto simp: resolvePublicAddress_def bindE_Inr_iff list_ex_iff list_all_iff split: if_splits option.splits)

lemma isPublicAddress_not_special:
  assumes "isPublicAddress ip" "parseIpv4 ip = Some ns"
  shows "\<not> list_ex (in_block ns) SPECIAL_IPV4"
proof -
  from parseIpv4_octets [OF assms(2)] obtain a b c d where
    ns: "ns = [a, b, c, d]" "a \<le> 255" "b \<le> 255" "c \<le> 255" "d \<le> 255"
    by (auto simp: numeral_eq_Suc length_Suc_conv)
  with assms blocked_special show ?thesis by (auto simp: isPublicAddress_def)
qed

text \<open>C19: The address that the SSH Worker connects to has passed the public address test: an
  IPv4 address it returns lies in none of the special-purpose blocks (private, loopback,
  link-local, shared, documentation, benchmark, multicast, reserved), and when the host is a
  name, every address of both DNS answers passed the test, not only the one returned.
\<close>
theorem resolvePublicAddress_safe:
  assumes "resolvePublicAddress parse_url fetch host = Inr ip"
  shows "isPublicAddress ip \<and> \<not> (\<exists>ns. parseIpv4 ip = Some ns \<and> list_ex (in_block ns) SPECIAL_IPV4) \<and>
    (isIpLiteral host \<or> (\<exists>name candidates. normalizeDnsName parse_url host = Some name \<and>
       resolveDns fetch name = Inr candidates \<and> ip \<in> set candidates \<and> list_all isPublicAddress candidates))"
proof (intro conjI)
  show public: "isPublicAddress ip"
    using assms by (cases rule: resolvePublicAddress_cases) (auto simp: list_all_iff)
  show "\<not> (\<exists>ns. parseIpv4 ip = Some ns \<and> list_ex (in_block ns) SPECIAL_IPV4)"
    using isPublicAddress_not_special [OF public] by blast
  show "isIpLiteral host \<or> (\<exists>name candidates. normalizeDnsName parse_url host = Some name \<and>
       resolveDns fetch name = Inr candidates \<and> ip \<in> set candidates \<and> list_all isPublicAddress candidates)"
    using assms by (cases rule: resolvePublicAddress_cases) auto
qed

definition sample_url :: "string \<Rightarrow> url option" where
  "sample_url s = Some \<lparr>url_protocol = ''http:'', url_hostname = drop 7 s, url_username = [], url_password = [],
     url_pathname = ''/'', url_port = [], url_hash = [], url_params = 0\<rparr>"

definition sample_dns :: "nat \<Rightarrow> string \<Rightarrow> dns_reply" where
  "sample_dns t host = DnsBody (JObj (if t = 1 then [(''Answer'', JArr [JObj [(''type'', JNum (Finite ''1'')),
     (''data'', JStr ''8.8.4.4'')]])] else []))"

lemma resolvePublicAddress_safe_witness:
  "resolvePublicAddress sample_url sample_dns ''dns.example.net'' = Inr ''8.8.4.4'' \<and> isPublicAddress ''8.8.4.4''"
proof -
  have r: "resolvePublicAddress sample_url sample_dns ''dns.example.net'' = Inr ''8.8.4.4''" by code_simp
  from r resolvePublicAddress_safe [OF r] show ?thesis by simp
qed

text \<open>A block of IPv6 addresses: network and prefix length.\<close>

definition in_block6 :: "int \<Rightarrow> int \<times> nat \<Rightarrow> bool" where
  "in_block6 v b \<longleftrightarrow> drop_bit (128 - snd b) v = drop_bit (128 - snd b) (fst b)"

definition EXCLUDED_IPV6 :: "(int \<times> nat) list" where
  \<comment> \<open>2001::/23, 2001:2::/48, 2001:db8::/96, 2002::/16, 3fff::/20\<close>
  "EXCLUDED_IPV6 =
    [(0x20010000000000000000000000000000, 23), (0x20010002000000000000000000000000, 48),
     (0x20010db8000000000000000000000000, 96), (0x20020000000000000000000000000000, 16),
     (0x3fff0000000000000000000000000000, 20)]"

lemma global_unicast: "0x2000 \<le> drop_bit 112 v \<and> drop_bit 112 v \<le> 0x3fff \<longleftrightarrow> drop_bit 125 v = (1 :: int)"
proof -
  have "drop_bit 125 v = drop_bit 13 (drop_bit 112 v)" by (simp add: drop_bit_drop_bit)
  then have "drop_bit 125 v = drop_bit 112 v div 8192" by (simp only: drop_bit_eq_div [of 13]) simp
  then show ?thesis by linarith
qed

text \<open>On IPv6 the public address test is membership in 2000::/3 outside five blocks. The
  block of the documentation addresses that it excludes is 2001:db8::/96, not 2001:db8::/32:
  the value is shifted by 32 bits where the prefix of 32 bits needs 96.
\<close>
theorem public_ipv6_blocks:
  "public_ipv6 v \<longleftrightarrow> in_block6 v (0x20000000000000000000000000000000, 3) \<and>
     \<not> list_ex (in_block6 v) EXCLUDED_IPV6"
proof -
  have shifts: "drop_bit 125 (0x20000000000000000000000000000000 :: int) = 1"
    "drop_bit 105 (0x20010000000000000000000000000000 :: int) = 0x100080"
    "drop_bit 80 (0x20010002000000000000000000000000 :: int) = 0x200100020000"
    "drop_bit 32 (0x20010db8000000000000000000000000 :: int) = 0x20010db80000000000000000"
    "drop_bit 112 (0x20020000000000000000000000000000 :: int) = 0x2002"
    "drop_bit 108 (0x3fff0000000000000000000000000000 :: int) = 0x3fff0"
    by (simp_all add: drop_bit_eq_div)
  have "public_ipv6 v \<longleftrightarrow> drop_bit 125 v = 1 \<and> drop_bit 105 v \<noteq> 0x100080 \<and> drop_bit 80 v \<noteq> 0x200100020000 \<and>
     drop_bit 32 v \<noteq> 0x20010db80000000000000000 \<and> drop_bit 112 v \<noteq> 0x2002 \<and> drop_bit 108 v \<noteq> 0x3fff0"
    unfolding public_ipv6_def global_unicast [symmetric] by blast
  then show ?thesis
    by (simp add: in_block6_def EXCLUDED_IPV6_def shifts del: drop_bit_numeral_minus_bit1)
qed

lemma documentation_address_public: "isPublicAddress ''2001:db8:1::1''"
proof -
  have "parseIpv4 ''2001:db8:1::1'' = None" by code_simp
  moreover have "ipv6_words ''2001:db8:1::1'' = Some [''2001'', ''db8'', ''1'', ''0'', ''0'', ''0'', ''0'', ''1'']"
    by code_simp
  moreover have "strip_square (map to_lower ''2001:db8:1::1'') = ''2001:db8:1::1''" by code_simp
  ultimately show ?thesis
    by (simp add: isPublicAddress_def parseIpv6_def parse_hex_def hex_val_def char_class_defs join_words_def
        public_ipv6_def drop_bit_eq_div)
qed

end
