(* ===== verification/Base64.thy ===== *)
theory Base64
  imports QueryResult SshTarget
begin

text \<open>
  The strict base64 decoder of \<open>apps/ssh-mcp-worker/src/hosts.ts\<close> (\<open>decodeBase64Strict\<close>): the
  syntax test, \<open>atob\<close>, and the comparison with the encoding of the result.
\<close>

definition base64_value :: "char \<Rightarrow> nat option" where
  "base64_value c =
    (if is_upper c then Some (code c - 65) else if is_lower c then Some (code c - 71)
     else if is_digit c then Some (code c + 4)
     else if c = CHR ''+'' then Some 62 else if c = CHR ''/'' then Some 63 else None)"

definition base64_symbol :: "char \<Rightarrow> bool" where
  "base64_symbol c \<longleftrightarrow> base64_value c \<noteq> None"

definition b64 :: "char \<Rightarrow> nat" where
  "b64 c = (case base64_value c of Some n \<Rightarrow> n | None \<Rightarrow> 0)"

fun base64_syntax :: "string \<Rightarrow> bool" where
  \<comment> \<open>groups of four symbols, the last one possibly padded\<close>
  "base64_syntax [] \<longleftrightarrow> True"
| "base64_syntax (a # b # c # d # rest) \<longleftrightarrow>
     (base64_symbol a \<and> base64_symbol b \<and> base64_symbol c \<and> base64_symbol d \<and> base64_syntax rest) \<or>
     (rest = [] \<and> base64_symbol a \<and> base64_symbol b \<and> d = CHR ''='' \<and> (c = CHR ''='' \<or> base64_symbol c))"
| "base64_syntax _ \<longleftrightarrow> False"

fun atob :: "string \<Rightarrow> nat list" where
  \<comment> \<open>on strings of this syntax; the surplus bits of a padded group are dropped\<close>
  "atob (a # b # c # d # rest) =
     (if c = CHR ''='' then [b64 a * 4 + b64 b div 16]
      else if d = CHR ''='' then [b64 a * 4 + b64 b div 16, b64 b mod 16 * 16 + b64 c div 4]
      else [b64 a * 4 + b64 b div 16, b64 b mod 16 * 16 + b64 c div 4, b64 c mod 4 * 64 + b64 d] @ atob rest)"
| "atob _ = []"

definition decodeBase64Strict :: "string \<Rightarrow> thrown + nat list" where
  "decodeBase64Strict v =
    (if \<not> base64_syntax v then Inl (HostError HostRecordInvalid)
     else let decoded = atob v
          in if base64Bytes decoded \<noteq> v then Inl (HostError HostRecordInvalid) else Inr decoded)"

section \<open>Symbols and values\<close>

lemma base64_value_range: "base64_value c = Some n \<Longrightarrow> n < 64"
  by (auto simp: base64_value_def char_class_defs split: if_splits)

lemma b64_range [simp]: "b64 c < 64"
  by (auto simp: b64_def dest: base64_value_range split: option.splits)

lemma base64_value_char [simp]: "n < 64 \<Longrightarrow> base64_value (base64_char n) = Some n"
  by (auto simp: base64_value_def base64_char_def char_class_defs of_char_of)

lemma b64_char [simp]: "n < 64 \<Longrightarrow> b64 (base64_char n) = n"
  by (simp add: b64_def)

lemma symbol_char [simp]: "n < 64 \<Longrightarrow> base64_symbol (base64_char n)"
  by (simp add: base64_symbol_def)

lemma symbol_not_pad [simp]: "\<not> base64_symbol (CHR ''='')"
  by (simp add: base64_symbol_def base64_value_def char_class_defs)

lemma char_not_pad [simp]: "n < 64 \<Longrightarrow> base64_char n \<noteq> CHR ''=''"
  using symbol_char symbol_not_pad by metis

section \<open>Round trip\<close>

definition bytes_ok :: "nat list \<Rightarrow> bool" where
  "bytes_ok bs \<longleftrightarrow> list_all (\<lambda>b. b < 256) bs"

lemma sextets:
  fixes a b c :: nat
  assumes "a < 256" "b < 256" "c < 256"
  shows "a div 4 < 64" "a mod 4 * 16 < 64" "a mod 4 * 16 + b div 16 < 64" "b mod 16 * 4 < 64"
    "b mod 16 * 4 + c div 64 < 64" "c mod 64 < 64"
  using assms by linarith+

lemma join_split:
  fixes x y k :: nat
  assumes "y < k"
  shows "(x * k + y) div k = x" "(x * k + y) mod k = y"
  using assms by (simp_all add: div_mult_self3)

lemma octets_back:
  fixes a b c :: nat
  assumes "a < 256" "b < 256" "c < 256"
  shows "a div 4 * 4 + (a mod 4 * 16 + b div 16) div 16 = a"
    "(a mod 4 * 16 + b div 16) mod 16 * 16 + (b mod 16 * 4 + c div 64) div 4 = b"
    "(b mod 16 * 4 + c div 64) mod 4 * 64 + c mod 64 = c"
proof -
  have "b div 16 < 16" "c div 64 < 4" using assms by simp_all
  then show "a div 4 * 4 + (a mod 4 * 16 + b div 16) div 16 = a"
    "(a mod 4 * 16 + b div 16) mod 16 * 16 + (b mod 16 * 4 + c div 64) div 4 = b"
    "(b mod 16 * 4 + c div 64) mod 4 * 64 + c mod 64 = c"
    by (simp_all only: join_split div_mult_mod_eq)
qed

lemma base64Bytes_ok: "bytes_ok bs \<Longrightarrow> base64_syntax (base64Bytes bs) \<and> atob (base64Bytes bs) = bs"
proof (induction bs rule: base64Bytes.induct)
  case (2 a)
  then have "a < 256" by (simp add: bytes_ok_def)
  with sextets [of a 0 0] octets_back [of a 0 0] show ?case by simp
next
  case (3 a b)
  then have "a < 256" "b < 256" by (simp_all add: bytes_ok_def)
  with sextets [of a b 0] octets_back [of a b 0] show ?case by simp
next
  case (4 a b c rest)
  then have "a < 256" "b < 256" "c < 256" and IH: "bytes_ok rest" by (simp_all add: bytes_ok_def)
  with sextets [of a b c] octets_back [of a b c] 4 show ?case by simp
qed simp

lemma atob_bytes: "bytes_ok (atob v)"
proof (induction v rule: atob.induct)
  case (1 a b c d rest)
  have "b64 a < 64" "b64 b < 64" "b64 c < 64" "b64 d < 64" by simp_all
  then have "b64 a * 4 + b64 b div 16 < 256" "b64 b mod 16 * 16 + b64 c div 4 < 256"
    "b64 c mod 4 * 64 + b64 d < 256"
    by linarith+
  with 1 show ?case by (simp add: bytes_ok_def)
qed (simp_all add: bytes_ok_def)

text \<open>The strict decoder accepts exactly the encodings: it returns the bytes that
  base64Bytes (the encoder that the database Worker uses) turns back into its argument,
  and rejects every other text, with non-canonical padding bits among them.
\<close>
theorem decodeBase64Strict_roundtrip:
  "decodeBase64Strict v = Inr bs \<longleftrightarrow> v = base64Bytes bs \<and> bytes_ok bs"
  by (auto simp: decodeBase64Strict_def Let_def atob_bytes base64Bytes_ok split: if_splits)

end
