(* ===== verification/SshHosts.thy ===== *)
theory SshHosts
  imports Base64 "HOL-Library.List_Lexorder" "HOL-Library.Char_ord"
begin

text \<open>
  The host catalog of the SSH Worker: \<open>apps/ssh-mcp-worker/src/hosts.ts\<close> and
  \<open>result-budget.ts\<close>. The three tables it reads are lists of rows; strings are ordered by
  their bytes, as SQLite's default collation does. Parameters: the platform's AES-GCM
  decryption of a record followed by the parser (\<open>decrypt\<close>, None when it throws), and
  the URL parser.
\<close>

section \<open>The catalog\<close>

record host_row =
  hr_id :: string
  hr_account_id :: string
  hr_encrypted_payload :: "string option"  \<comment> \<open>None: not a string\<close>
  hr_updated_at :: js_int

record key_row =
  kr_id :: string
  kr_account_id :: string
  kr_encrypted_payload :: "string option"

record catalog =
  cat_workspace :: "string option list"  \<comment> \<open>account_id of the rows of \<open>workspace_state\<close> with id 1\<close>
  cat_hosts :: "host_row list"
  cat_keychain :: "key_row list"
  cat_fault :: "string \<Rightarrow> thrown option"  \<comment> \<open>whether a query of the table throws\<close>

record ssh_env =
  EDGE_SSH_DB :: "catalog option"
  SSH_ENCRYPTION_KEY :: string

fun safe_number :: "js_int \<Rightarrow> bool" where
  \<comment> \<open>\<open>Number.isSafeInteger\<close>\<close>
  "safe_number (IntegerNumber n) \<longleftrightarrow> \<bar>n\<bar> \<le> MAX_SAFE_INTEGER"
| "safe_number OtherNumber \<longleftrightarrow> False"

definition query :: "catalog \<Rightarrow> string \<Rightarrow> 'a \<Rightarrow> thrown + 'a" where
  "query cat table result = (case cat_fault cat table of Some e \<Rightarrow> Inl e | None \<Rightarrow> Inr result)"

record host_view =
  hv_id :: string
  hv_name :: string
  hv_group :: string
  hv_host :: string
  hv_port :: json
  hv_username :: string
  hv_authMethod :: string
  hv_trustReady :: bool
  hv_readinessReason :: string

record ssh_host_credentials =
  shc_id :: string
  shc_host :: string
  shc_port :: json
  shc_username :: string
  shc_authMethod :: string
  shc_password :: "string option"
  shc_privateKey :: "string option"
  shc_passphrase :: "string option"
  shc_fingerprint :: string

definition HOST_ID :: "string \<Rightarrow> bool" where
  "HOST_ID s \<longleftrightarrow> matches uuid_pattern (map to_lower s)"

definition FINGERPRINT :: "string \<Rightarrow> bool" where
  "FINGERPRINT s \<longleftrightarrow> take 7 s = ''SHA256:'' \<and> length s = 50 \<and> list_all base64_symbol (drop 7 s)"

definition contains_text :: "string \<Rightarrow> string \<Rightarrow> bool" where
  "contains_text s part \<longleftrightarrow> list_ex (\<lambda>k. take (length part) (drop k s) = part) [0..<Suc (length s)]"

section \<open>The payload of a host\<close>

definition validHost :: "(string \<Rightarrow> url option) \<Rightarrow> string \<Rightarrow> bool" where
  "validHost parse_url host =
    (if CHR '':'' \<in> set host
     then (case parse_url (''http://['' @ strip_square host @ '']'') of
             Some u \<Rightarrow> length (url_hostname u) > 2
           | None \<Rightarrow> False)
     else if host \<noteq> [] \<and> list_all (\<lambda>c. is_digit c \<or> c = CHR ''.'') host
     then (let parts = split_char (CHR ''.'') host
           in length parts = 4 \<and> list_all (\<lambda>p. 1 \<le> length p \<and> length p \<le> 3) parts \<and>
              list_all (\<lambda>p. digits_val p \<le> 255 \<and> (p = ''0'' \<or> \<not> hd_is (CHR ''0'') p)) parts)
     else normalizeDnsName parse_url host \<noteq> None)"

definition allowedFields :: "string list" where
  "allowedFields =
    [''name'', ''group'', ''host'', ''port'', ''username'', ''authMethod'', ''password'', ''privateKey'',
     ''keychainId'', ''keyPassphrase'', ''initialCommand'', ''termType'', ''encoding'', ''fingerprint'',
     ''location'', ''locationCheckedAt'', ''system'']"

definition str_within :: "nat \<Rightarrow> nat \<Rightarrow> json option \<Rightarrow> bool" where
  \<comment> \<open>a string of so many code units\<close>
  "str_within lo hi v = (case as_str v of Some s \<Rightarrow> lo \<le> length s \<and> length s \<le> hi | None \<Rightarrow> False)"

definition is_record :: "json option \<Rightarrow> bool" where
  "is_record v = (case v of Some (JObj _) \<Rightarrow> True | _ \<Rightarrow> False)"

definition openssh_key :: "json option \<Rightarrow> bool" where
  "openssh_key v \<longleftrightarrow> str_within 1 (128 * 1024) v \<and>
     (case as_str v of Some s \<Rightarrow> contains_text s ''BEGIN OPENSSH PRIVATE KEY'' | None \<Rightarrow> False)"

definition valid_auth :: "(string \<times> json) list \<Rightarrow> bool" where
  \<comment> \<open>\<open>validPassword\<close> or \<open>validPrivateKey\<close>\<close>
  "valid_auth p \<longleftrightarrow>
     (let inlineKey = openssh_key (obj_get p ''privateKey'');
          referencedKey = (case as_str (obj_get p ''keychainId'') of Some s \<Rightarrow> HOST_ID s | None \<Rightarrow> False)
      in (obj_get p ''authMethod'' = Some (JStr ''password'') \<and> str_within 0 4096 (obj_get p ''password'') \<and>
          obj_get p ''privateKey'' = None \<and> obj_get p ''keychainId'' = None \<and> obj_get p ''keyPassphrase'' = None) \<or>
         (obj_get p ''authMethod'' = Some (JStr ''publickey'') \<and> (inlineKey \<or> referencedKey) \<and>
          (obj_get p ''privateKey'' = None \<or> inlineKey) \<and> (obj_get p ''keychainId'' = None \<or> referencedKey) \<and>
          (obj_get p ''keyPassphrase'' = None \<or> str_within 0 1024 (obj_get p ''keyPassphrase'')) \<and>
          obj_get p ''password'' = None))"

definition term_type_char :: "char \<Rightarrow> bool" where
  "term_type_char c \<longleftrightarrow> alnum c \<or> c \<in> set ''._+-''"

definition validPayload :: "(string \<Rightarrow> url option) \<Rightarrow> json \<Rightarrow> bool" where
  "validPayload parse_url v =
    (case v of
       JObj p \<Rightarrow>
         list_all (\<lambda>k. k \<in> set allowedFields) (obj_keys p) \<and>
         str_within 0 80 (obj_get p ''name'') \<and> str_within 0 40 (obj_get p ''group'') \<and>
         str_within 1 253 (obj_get p ''host'') \<and>
         (case as_str (obj_get p ''host'') of Some h \<Rightarrow> validHost parse_url h | None \<Rightarrow> False) \<and>
         (case safe_int (obj_get p ''port'') of Some n \<Rightarrow> 1 \<le> n \<and> n \<le> 65535 \<and> n \<noteq> 25 | None \<Rightarrow> False) \<and>
         str_within 1 128 (obj_get p ''username'') \<and>
         (case as_str (obj_get p ''username'') of
            Some u \<Rightarrow> list_all (\<lambda>c. c \<notin> {CHR 0x00, CHR 0x0D, CHR 0x0A}) u | None \<Rightarrow> False) \<and>
         valid_auth p \<and>
         as_str (obj_get p ''fingerprint'') \<noteq> None \<and>
         str_within 0 4096 (obj_get p ''initialCommand'') \<and>
         str_within 1 64 (obj_get p ''termType'') \<and>
         (case as_str (obj_get p ''termType'') of Some t \<Rightarrow> list_all term_type_char t | None \<Rightarrow> False) \<and>
         (case as_str (obj_get p ''encoding'') of
            Some c \<Rightarrow> map to_lower c \<in> {''utf-8'', ''gb18030'', ''big5''} | None \<Rightarrow> False) \<and>
         (obj_get p ''location'' = Some JNull \<or> is_record (obj_get p ''location'')) \<and>
         (obj_get p ''locationCheckedAt'' = None \<or> safe_int (obj_get p ''locationCheckedAt'') \<noteq> None) \<and>
         (obj_get p ''system'' = None \<or> obj_get p ''system'' = Some JNull \<or> is_record (obj_get p ''system''))
     | _ \<Rightarrow> False)"

section \<open>Decryption\<close>

type_synonym decryptor = "nat list \<Rightarrow> nat list \<Rightarrow> string \<Rightarrow> nat list \<Rightarrow> json option"
  \<comment> \<open>key, iv, additional data, ciphertext\<close>

definition bad_record :: thrown where "bad_record = HostError HostRecordInvalid"

definition decryptPayload :: "decryptor \<Rightarrow> string \<Rightarrow> string \<Rightarrow> string \<Rightarrow> string \<Rightarrow> thrown + json" where
  "decryptPayload decrypt ciphertext secret accountId recordId =
    (if length ciphertext > 250000 then Inl bad_record
     else case split_char (CHR ''.'') ciphertext of
       [version, encodedIv, encodedCiphertext] \<Rightarrow>
         if version \<noteq> ''v1'' then Inl (HostError UnsupportedCryptoVersion)
         else if encodedIv = [] \<or> encodedCiphertext = [] then Inl bad_record
         else
           bindE (decodeBase64Strict secret) (\<lambda>key.
           if length key \<noteq> 32 then Inl bad_record else
           bindE (decodeBase64Strict encodedIv) (\<lambda>iv.
           bindE (decodeBase64Strict encodedCiphertext) (\<lambda>bytes.
           if length iv \<noteq> 12 \<or> length bytes < 16 then Inl bad_record
           else case decrypt key iv (''edgessh:v1:'' @ accountId @ '':'' @ recordId) bytes of
             Some v \<Rightarrow> Inr v
           | None \<Rightarrow> Inl (HostError SecretMismatch))))
     | _ \<Rightarrow> Inl bad_record)"

definition decryptHost ::
  "(string \<Rightarrow> url option) \<Rightarrow> decryptor \<Rightarrow> string \<Rightarrow> string \<Rightarrow> string \<Rightarrow> string \<Rightarrow> thrown + (string \<times> json) list" where
  "decryptHost parse_url decrypt ciphertext secret accountId hostId =
    bindE (decryptPayload decrypt ciphertext secret accountId hostId) (\<lambda>payload.
      if \<not> validPayload parse_url payload then Inl bad_record
      else case payload of JObj p \<Rightarrow> Inr p | _ \<Rightarrow> Inl bad_record)"

definition text_of :: "(string \<times> json) list \<Rightarrow> string \<Rightarrow> string" where
  \<comment> \<open>a property that is a string or missing; a missing one is falsy like the empty string\<close>
  "text_of p k = (case as_str (obj_get p k) of Some s \<Rightarrow> s | None \<Rightarrow> [])"

definition some_text :: "string \<Rightarrow> string option" where
  "some_text s = (if s = [] then None else Some s)"

definition resolvePrivateKey ::
  "decryptor \<Rightarrow> catalog \<Rightarrow> (string \<times> json) list \<Rightarrow> string \<Rightarrow> string \<Rightarrow> thrown + (string \<times> string option)" where
  \<comment> \<open>the key and its passphrase\<close>
  "resolvePrivateKey decrypt cat p accountId secret =
    (if text_of p ''keychainId'' \<noteq> [] then
       bindE (query cat ''keychain'' (List.find (\<lambda>k. kr_id k = text_of p ''keychainId'' \<and> kr_account_id k = accountId)
         (cat_keychain cat))) (\<lambda>row.
       case row of
         None \<Rightarrow> Inl bad_record
       | Some r \<Rightarrow>
           (case kr_encrypted_payload r of
              None \<Rightarrow> Inl bad_record
            | Some c \<Rightarrow>
                bindE (decryptPayload decrypt c secret accountId (''keychain:'' @ text_of p ''keychainId'')) (\<lambda>entry.
                case entry of
                  JObj e \<Rightarrow>
                    if \<not> openssh_key (obj_get e ''privateKey'') \<or>
                       (obj_get e ''passphrase'' \<noteq> None \<and> \<not> str_within 0 1024 (obj_get e ''passphrase''))
                    then Inl bad_record
                    else Inr (text_of e ''privateKey'',
                      some_text (if text_of p ''keyPassphrase'' \<noteq> [] then text_of p ''keyPassphrase''
                                 else text_of e ''passphrase''))
                | _ \<Rightarrow> Inl bad_record)))
     else if text_of p ''privateKey'' = [] then Inl bad_record
     else Inr (text_of p ''privateKey'', some_text (text_of p ''keyPassphrase'')))"

definition project :: "string \<Rightarrow> (string \<times> json) list \<Rightarrow> host_view" where
  "project i p =
    (let credentialPresent =
           (if text_of p ''authMethod'' = ''password'' then text_of p ''password'' \<noteq> []
            else text_of p ''privateKey'' \<noteq> [] \<or> text_of p ''keychainId'' \<noteq> []);
         trustReady = FINGERPRINT (text_of p ''fingerprint'')
     in \<lparr>hv_id = i, hv_name = text_of p ''name'', hv_group = text_of p ''group'', hv_host = text_of p ''host'',
         hv_port = (case obj_get p ''port'' of Some n \<Rightarrow> n | None \<Rightarrow> JNull), hv_username = text_of p ''username'',
         hv_authMethod = text_of p ''authMethod'', hv_trustReady = trustReady,
         hv_readinessReason = (if trustReady then (if credentialPresent then ''ready'' else ''credential_missing'')
           else ''host_untrusted'')\<rparr>)"

section \<open>Reading the catalog\<close>

definition unavailable :: thrown where "unavailable = JsError ''host_catalog_unavailable''"

definition readAccount :: "ssh_env \<Rightarrow> thrown + (catalog \<times> string)" where
  \<comment> \<open>with the binding that the later queries use\<close>
  "readAccount env =
    (case EDGE_SSH_DB env of
       None \<Rightarrow> Inl unavailable
     | Some cat \<Rightarrow>
         bindE (query cat ''workspace_state'' (cat_workspace cat)) (\<lambda>rows.
         case rows of
           [Some a] \<Rightarrow> if a = [] then Inl unavailable else Inr (cat, a)
         | _ \<Rightarrow> Inl unavailable))"

definition requiredSecret :: "ssh_env \<Rightarrow> thrown + string" where
  "requiredSecret env = (if SSH_ENCRYPTION_KEY env = [] then Inl unavailable else Inr (SSH_ENCRYPTION_KEY env))"

definition decodeRow ::
  "(string \<Rightarrow> url option) \<Rightarrow> decryptor \<Rightarrow> string \<Rightarrow> string \<Rightarrow> host_row \<Rightarrow> thrown + host_view" where
  "decodeRow parse_url decrypt accountId secret row =
    (if \<not> HOST_ID (hr_id row) \<or> hr_account_id row \<noteq> accountId \<or> \<not> safe_number (hr_updated_at row)
     then Inl bad_record
     else case hr_encrypted_payload row of
       None \<Rightarrow> Inl bad_record
     | Some c \<Rightarrow>
         bindE (decryptHost parse_url decrypt c secret accountId (hr_id row)) (\<lambda>p. Inr (project (hr_id row) p)))"

definition host_of :: "catalog \<Rightarrow> string \<Rightarrow> string \<Rightarrow> host_row option" where
  "host_of cat hostId accountId =
    List.find (\<lambda>r. hr_id r = hostId \<and> hr_account_id r = accountId) (cat_hosts cat)"

definition getSshHostCredentials ::
  "(string \<Rightarrow> url option) \<Rightarrow> decryptor \<Rightarrow> ssh_env \<Rightarrow> string \<Rightarrow> thrown + ssh_host_credentials" where
  "getSshHostCredentials parse_url decrypt env hostId =
    (if \<not> HOST_ID hostId then Inl (HostError HostNotFound)
     else
       bindE (readAccount env) (\<lambda>(cat, accountId).
       bindE (requiredSecret env) (\<lambda>secret.
       bindE (query cat ''hosts'' (host_of cat hostId accountId)) (\<lambda>found.
       case found of
         None \<Rightarrow> Inl (HostError HostNotFound)
       | Some row \<Rightarrow>
           if \<not> HOST_ID (hr_id row) \<or> hr_account_id row \<noteq> accountId \<or> \<not> safe_number (hr_updated_at row)
           then Inl bad_record
           else case hr_encrypted_payload row of
             None \<Rightarrow> Inl (JsError ''TypeError'')
           | Some c \<Rightarrow>
               bindE (decryptHost parse_url decrypt c secret accountId (hr_id row)) (\<lambda>p.
               let view = project (hr_id row) p
               in if \<not> hv_trustReady view then Inl (HostError HostUntrusted)
                  else if hv_readinessReason view = ''credential_missing'' then Inl bad_record
                  else
                    bindE (if text_of p ''authMethod'' = ''publickey''
                           then bindE (resolvePrivateKey decrypt cat p accountId secret) (\<lambda>(k, w). Inr (Some k, w))
                           else Inr (None, None)) (\<lambda>(key, passphrase).
                    Inr \<lparr>shc_id = hr_id row, shc_host = text_of p ''host'',
                      shc_port = (case obj_get p ''port'' of Some n \<Rightarrow> n | None \<Rightarrow> JNull),
                      shc_username = text_of p ''username'', shc_authMethod = text_of p ''authMethod'',
                      shc_password = as_str (obj_get p ''password''), shc_privateKey = key,
                      shc_passphrase = passphrase, shc_fingerprint = text_of p ''fingerprint''\<rparr>))))))"

definition getHost :: "(string \<Rightarrow> url option) \<Rightarrow> decryptor \<Rightarrow> ssh_env \<Rightarrow> string \<Rightarrow> thrown + host_view" where
  "getHost parse_url decrypt env hostId =
    (if \<not> HOST_ID hostId then Inl (HostError HostNotFound)
     else
       bindE (readAccount env) (\<lambda>(cat, accountId).
       bindE (requiredSecret env) (\<lambda>secret.
       bindE (query cat ''hosts'' (host_of cat hostId accountId)) (\<lambda>found.
       case found of
         None \<Rightarrow> Inl (HostError HostNotFound)
       | Some row \<Rightarrow> decodeRow parse_url decrypt accountId secret row))))"

section \<open>Pages of hosts\<close>

definition MCP_TOOL_RESULT_MAX_BYTES :: nat where "MCP_TOOL_RESULT_MAX_BYTES = 64 * 1024"
definition MCP_TRANSPORT_ENVELOPE_RESERVE_BYTES :: nat where "MCP_TRANSPORT_ENVELOPE_RESERVE_BYTES = 1024"

definition serializeMcpToolResult :: "json \<Rightarrow> string \<times> nat" where
  "serializeMcpToolResult v =
    (let body = stringify v;
         contents = JObj [(''content'', JArr [JObj [(''type'', JStr ''text''), (''text'', JStr body)]])]
     in (body, utf8_length (stringify contents) + MCP_TRANSPORT_ENVELOPE_RESERVE_BYTES))"

definition fitsMcpToolResultBudget :: "json \<Rightarrow> bool" where
  "fitsMcpToolResultBudget v \<longleftrightarrow> snd (serializeMcpToolResult v) \<le> MCP_TOOL_RESULT_MAX_BYTES"

definition host_json :: "host_view \<Rightarrow> json" where
  "host_json h =
    JObj [(''id'', JStr (hv_id h)), (''name'', JStr (hv_name h)), (''group'', JStr (hv_group h)),
      (''host'', JStr (hv_host h)), (''port'', hv_port h), (''username'', JStr (hv_username h)),
      (''authMethod'', JStr (hv_authMethod h)), (''trustReady'', JBool (hv_trustReady h)),
      (''readinessReason'', JStr (hv_readinessReason h))]"

definition page_json :: "host_view list \<Rightarrow> string option \<Rightarrow> json" where
  "page_json hosts next_cursor =
    JObj [(''hosts'', JArr (map host_json hosts)),
      (''nextCursor'', case next_cursor of Some c \<Rightarrow> JStr c | None \<Rightarrow> JNull)]"

fun page_rows ::
  "(host_row \<Rightarrow> thrown + host_view) \<Rightarrow> nat \<Rightarrow> host_row list \<Rightarrow> host_view list \<Rightarrow> string option \<Rightarrow>
     thrown + (host_view list \<times> string option)" where
  \<comment> \<open>the loop: rows left to visit of the limit, rows, the hosts so far, the last included id\<close>
  "page_rows decode 0 rows hosts lastIncludedId = Inr (hosts, lastIncludedId)"
| "page_rows decode (Suc k) [] hosts lastIncludedId = Inr (hosts, lastIncludedId)"
| "page_rows decode (Suc k) (row # rest) hosts lastIncludedId =
     bindE (decode row) (\<lambda>host.
       let hasMoreAfterCandidate = (rest \<noteq> []);
           candidate = page_json (hosts @ [host]) (if hasMoreAfterCandidate then Some (hr_id row) else None)
       in if \<not> fitsMcpToolResultBudget candidate
          then (if hosts = [] then Inl (HostError ResultTooLarge) else Inr (hosts, lastIncludedId))
          else if \<not> hasMoreAfterCandidate then Inr (hosts @ [host], None)
          else page_rows decode k rest (hosts @ [host]) (Some (hr_id row)))"

definition rows_after :: "catalog \<Rightarrow> string \<Rightarrow> string option \<Rightarrow> host_row list" where
  \<comment> \<open>WHERE account_id = ? AND id > ? ORDER BY id\<close>
  "rows_after cat accountId cursor =
    sort_key hr_id (filter (\<lambda>r. hr_account_id r = accountId \<and>
      (case cursor of None \<Rightarrow> True | Some c \<Rightarrow> c < hr_id r)) (cat_hosts cat))"

definition listHosts ::
  "(string \<Rightarrow> url option) \<Rightarrow> decryptor \<Rightarrow> ssh_env \<Rightarrow> string option \<Rightarrow> js_int option \<Rightarrow>
     thrown + (host_view list \<times> string option)" where
  "listHosts parse_url decrypt env cursor limit =
    bindE (readAccount env) (\<lambda>(cat, accountId).
    bindE (requiredSecret env) (\<lambda>secret.
    let n = (case limit of None \<Rightarrow> IntegerNumber 50 | Some l \<Rightarrow> l)
    in case n of
         OtherNumber \<Rightarrow> Inl bad_record
       | IntegerNumber l \<Rightarrow>
           if l < 1 \<or> l > 200 then Inl bad_record
           else if (case cursor of None \<Rightarrow> False | Some c \<Rightarrow> \<not> HOST_ID c) then Inl bad_record
           else
             bindE (query cat ''hosts'' (take (nat l + 1) (rows_after cat accountId cursor))) (\<lambda>rows.
             page_rows (decodeRow parse_url decrypt accountId secret) (nat l) rows [] None)))"

section \<open>Listing all pages\<close>

fun all_pages ::
  "nat \<Rightarrow> (string option \<Rightarrow> thrown + (host_view list \<times> string option)) \<Rightarrow> string option \<Rightarrow> thrown + host_view list" where
  \<comment> \<open>a client that follows \<open>nextCursor\<close> for so many calls\<close>
  "all_pages 0 page cursor = Inl (JsError ''more pages'')"
| "all_pages (Suc n) page cursor =
     bindE (page cursor) (\<lambda>(hosts, next_cursor).
       case next_cursor of
         None \<Rightarrow> Inr hosts
       | Some c \<Rightarrow> bindE (all_pages n page (Some c)) (\<lambda>more. Inr (hosts @ more)))"

definition fits_alone :: "host_row \<Rightarrow> host_view \<Rightarrow> bool" where
  "fits_alone r h \<longleftrightarrow> fitsMcpToolResultBudget (page_json [h] (Some (hr_id r))) \<and>
     fitsMcpToolResultBudget (page_json [h] None)"

definition page_cursor :: "nat \<Rightarrow> host_row list \<Rightarrow> string option \<Rightarrow> string option" where
  "page_cursor m rows last_id =
    (if m = length rows then None else if m = 0 then last_id else Some (hr_id (rows ! (m - 1))))"

lemma mapE_Cons_Inr:
  "mapE f (x # xs) = Inr ys \<longleftrightarrow> (\<exists>y zs. ys = y # zs \<and> f x = Inr y \<and> mapE f xs = Inr zs)"
  by (auto simp: bindE_Inr_iff)

lemma page_rows_prefix:
  assumes "mapE decode rows = Inr views" "list_all2 fits_alone rows views" "rows \<noteq> []" "k > 0"
  shows "\<exists>m \<le> min k (length rows). (hosts = [] \<longrightarrow> m > 0) \<and>
    page_rows decode k rows hosts last_id = Inr (hosts @ take m views, page_cursor m rows last_id)"
  using assms
proof (induction decode k rows hosts last_id arbitrary: views rule: page_rows.induct)
  case (3 decode k row rest hosts last_id)
  from "3.prems"(1) obtain h vs where v: "views = h # vs" "decode row = Inr h" "mapE decode rest = Inr vs"
    unfolding mapE_Cons_Inr by blast
  let ?c = "if rest \<noteq> [] then Some (hr_id row) else None"
  let ?fits = "fitsMcpToolResultBudget (page_json (hosts @ [h]) ?c)"
  have alone: "hosts = [] \<Longrightarrow> ?fits" using "3.prems"(2) v by (simp add: fits_alone_def)
  consider "\<not> ?fits" | "?fits" "rest = []" | "?fits" "rest \<noteq> []" "k = 0" | "?fits" "rest \<noteq> []" "k > 0" by blast
  then show ?case
  proof cases
    case 1
    with alone v have "hosts \<noteq> []" "page_rows decode (Suc k) (row # rest) hosts last_id = Inr (hosts, last_id)"
      by (auto simp: Let_def)
    then show ?thesis by (intro exI [of _ 0]) (simp add: page_cursor_def)
  next
    case 2
    with v show ?thesis by (intro exI [of _ 1]) (simp add: Let_def page_cursor_def)
  next
    case 3
    with v show ?thesis by (intro exI [of _ 1]) (simp add: Let_def page_cursor_def)
  next
    case 4
    from "3.IH" [where x = h, OF refl refl _ _ v(3)] 4 "3.prems"(2) v(1)
    obtain m where m: "m \<le> min k (length rest)"
      "page_rows decode k rest (hosts @ [h]) (Some (hr_id row)) =
        Inr ((hosts @ [h]) @ take m vs, page_cursor m rest (Some (hr_id row)))"
      by auto
    with 4 v show ?thesis
      by (intro exI [of _ "Suc m"]) (auto simp: Let_def page_cursor_def nth_Cons')
  qed
qed simp_all

lemma mapE_take: "mapE f xs = Inr ys \<Longrightarrow> mapE f (take n xs) = Inr (take n ys)"
proof (induction xs arbitrary: n ys)
  case (Cons x xs)
  then show ?case by (cases n) (auto simp: bindE_Inr_iff)
qed simp

lemma mapE_drop: "mapE f xs = Inr ys \<Longrightarrow> mapE f (drop n xs) = Inr (drop n ys)"
proof (induction xs arbitrary: n ys)
  case (Cons x xs)
  then show ?case by (cases n) (auto simp: bindE_Inr_iff)
qed simp

lemma mapE_nth: "mapE f xs = Inr ys \<Longrightarrow> n < length xs \<Longrightarrow> f (xs ! n) = Inr (ys ! n)"
  using mapE_Inr_all2 list_all2_nthD by fastforce

text \<open>The rows after the row at a position are the rest of the list.\<close>

lemma filter_key_greater:
  assumes "sorted_wrt (<) (map key xs)" "n < length xs"
  shows "filter (\<lambda>x. (key (xs ! n) :: 'b :: linorder) < key x) xs = drop (Suc n) xs"
  using assms
proof (induction xs arbitrary: n)
  case (Cons x xs)
  then show ?case
  proof (cases n)
    case 0
    with Cons.prems show ?thesis by (auto simp: filter_id_conv)
  next
    case (Suc k)
    then have "key x < key (xs ! k)" "k < length xs" "sorted_wrt (<) (map key xs)" using Cons.prems by simp_all
    with Cons.IH Suc show ?thesis by (simp add: not_less_iff_gr_or_eq)
  qed
qed simp

lemma rows_after_cursor: "rows_after cat acc (Some c) = filter (\<lambda>r. c < hr_id r) (rows_after cat acc None)"
  by (simp add: rows_after_def filter_sort conj_commute)

lemma rows_after_sorted:
  assumes "distinct (map hr_id (cat_hosts cat))"
  shows "sorted_wrt (<) (map hr_id (rows_after cat acc cursor))"
proof -
  have d: "distinct (map hr_id (filter p (cat_hosts cat)))" for p
    using assms by (rule distinct_map_filter)
  have "distinct (map hr_id (sort_key hr_id rs)) \<longleftrightarrow> distinct (map hr_id rs)" for rs
    by (simp add: distinct_map)
  with d have "distinct (map hr_id (rows_after cat acc cursor))"
    unfolding rows_after_def by blast
  moreover have "sorted (map hr_id (rows_after cat acc cursor))"
    unfolding rows_after_def by (rule sorted_sort_key)
  ultimately show ?thesis unfolding strict_sorted_iff by blast
qed

lemma rows_after_nth:
  assumes "distinct (map hr_id (cat_hosts cat))" "n < length (rows_after cat acc cursor)"
  shows "rows_after cat acc (Some (hr_id (rows_after cat acc cursor ! n))) = drop (Suc n) (rows_after cat acc cursor)"
proof -
  let ?R = "rows_after cat acc cursor"
  have beyond: "c < hr_id (?R ! n)" if "cursor = Some c" for c
    using nth_mem [OF assms(2)] that by (simp add: rows_after_def)
  have all: "rows_after cat acc cursor = filter (\<lambda>r. case cursor of None \<Rightarrow> True | Some c \<Rightarrow> c < hr_id r)
      (rows_after cat acc None)"
    by (cases cursor) (simp_all add: rows_after_cursor)
  have "rows_after cat acc (Some x) = filter (\<lambda>r. x < hr_id r) ?R" if "\<And>c. cursor = Some c \<Longrightarrow> c < x" for x
    unfolding rows_after_cursor [of cat acc x]
    by (subst all) (use that in \<open>auto intro!: filter_cong split: option.splits\<close>)
  from this [of "hr_id (?R ! n)"] beyond
  have "rows_after cat acc (Some (hr_id (?R ! n))) = filter (\<lambda>r. hr_id (?R ! n) < hr_id r) ?R" by blast
  with filter_key_greater [OF rows_after_sorted [OF assms(1)] assms(2)] show ?thesis by simp
qed

definition page_size :: "js_int option \<Rightarrow> nat option" where
  "page_size limit =
    (case limit of None \<Rightarrow> Some 50 | Some (IntegerNumber l) \<Rightarrow> if 1 \<le> l \<and> l \<le> 200 then Some (nat l) else None
     | Some OtherNumber \<Rightarrow> None)"

lemma listHosts_page:
  assumes env: "readAccount env = Inr (cat, acc)" "requiredSecret env = Inr secret" "cat_fault cat ''hosts'' = None"
    and limit: "page_size limit = Some l" and cursor: "\<And>c. cursor = Some c \<Longrightarrow> HOST_ID c"
    and rows: "mapE (decodeRow parse_url decrypt acc secret) (rows_after cat acc cursor) = Inr views"
      "list_all2 fits_alone (rows_after cat acc cursor) views"
    and some: "rows_after cat acc cursor \<noteq> []"
  shows "\<exists>m. 0 < m \<and> m \<le> length (rows_after cat acc cursor) \<and>
    listHosts parse_url decrypt env cursor limit =
      Inr (take m views, page_cursor m (rows_after cat acc cursor) None)"
proof -
  let ?R = "rows_after cat acc cursor" and ?d = "decodeRow parse_url decrypt acc secret"
  have l: "0 < l" using limit by (auto simp: page_size_def split: option.splits js_int.splits if_splits)
  have "list_all2 fits_alone (take (l + 1) ?R) (take (l + 1) views)" "take (l + 1) ?R \<noteq> []"
    using rows(2) some by (simp_all add: list_all2_takeI)
  from page_rows_prefix [OF mapE_take [OF rows(1), of "l + 1"] this l, of "[]" None]
  obtain m where m: "m \<le> min l (length (take (l + 1) ?R))" "0 < m"
    "page_rows ?d l (take (l + 1) ?R) [] None =
      Inr (take m (take (l + 1) views), page_cursor m (take (l + 1) ?R) None)"
    unfolding append_Nil by blast
  have "page_cursor m (take (l + 1) ?R) None = page_cursor m ?R None" "take m (take (l + 1) views) = take m views"
    using m(1,2) by (auto simp: page_cursor_def min_absorb1)
  moreover have "listHosts parse_url decrypt env cursor limit = page_rows ?d l (take (l + 1) ?R) [] None"
    using limit cursor
    by (auto simp: listHosts_def env query_def page_size_def nat_add_distrib
        split: option.splits js_int.splits if_splits)
  ultimately show ?thesis using m by (intro exI [of _ m]) simp
qed

lemma listHosts_empty:
  assumes env: "readAccount env = Inr (cat, acc)" "requiredSecret env = Inr secret" "cat_fault cat ''hosts'' = None"
    and limit: "page_size limit = Some l" and cursor: "\<And>c. cursor = Some c \<Longrightarrow> HOST_ID c"
    and none: "rows_after cat acc cursor = []"
  shows "listHosts parse_url decrypt env cursor limit = Inr ([], None)"
proof -
  have "page_rows d k [] [] None = Inr ([], None)" for d k by (cases k) simp_all
  with limit cursor none show ?thesis
    by (auto simp: listHosts_def env query_def page_size_def split: option.splits js_int.splits if_splits)
qed

lemma decodeRow_id: "decodeRow parse_url decrypt acc secret r = Inr h \<Longrightarrow> HOST_ID (hr_id r)"
  by (auto simp: decodeRow_def split: if_splits)

text \<open>C23: Following nextCursor from the first page lists every host of the account exactly
  once, in the order of the ids, and ends within one call more than there are hosts,
  whatever the page size: neither the limit nor the byte budget of a page loses, repeats or
  reorders a host. It assumes that every record decodes and that a page with one host fits
  the budget (otherwise the call fails, it does not skip).
\<close>
theorem listHosts_complete:
  assumes env: "readAccount env = Inr (cat, acc)" "requiredSecret env = Inr secret" "cat_fault cat ''hosts'' = None"
    and limit: "page_size limit = Some l"
    and keys: "distinct (map hr_id (cat_hosts cat))"
    and rows: "mapE (decodeRow parse_url decrypt acc secret) (rows_after cat acc None) = Inr views"
      "list_all2 fits_alone (rows_after cat acc None) views"
  shows "all_pages (Suc (length views)) (\<lambda>c. listHosts parse_url decrypt env c limit) None = Inr views"
proof -
  let ?page = "\<lambda>c. listHosts parse_url decrypt env c limit" and ?d = "decodeRow parse_url decrypt acc secret"
  have "all_pages n ?page cursor = Inr vs"
    if "mapE ?d (rows_after cat acc cursor) = Inr vs" "list_all2 fits_alone (rows_after cat acc cursor) vs"
      "\<And>c. cursor = Some c \<Longrightarrow> HOST_ID c" "length vs < n" for cursor vs n
    using that
  proof (induction n arbitrary: cursor vs)
    case (Suc n)
    let ?R = "rows_after cat acc cursor"
    have len: "length ?R = length vs" using Suc.prems(1) by (simp add: mapE_length)
    show ?case
    proof (cases "?R = []")
      case True
      with Suc.prems(1) listHosts_empty [OF env limit Suc.prems(3)] show ?thesis by simp
    next
      case False
      from listHosts_page [OF env limit Suc.prems(3) Suc.prems(1,2) False]
      obtain m where m: "0 < m" "m \<le> length ?R" "?page cursor = Inr (take m vs, page_cursor m ?R None)"
        by blast
      show ?thesis
      proof (cases "m = length ?R")
        case True
        with m len show ?thesis by (simp add: page_cursor_def)
      next
        case more: False
        let ?c = "hr_id (?R ! (m - 1))"
        have lt: "m - 1 < length ?R" using m by simp
        have after: "rows_after cat acc (Some ?c) = drop m ?R" using rows_after_nth [OF keys lt] m(1) by simp
        have "HOST_ID ?c" using decodeRow_id [OF mapE_nth [OF Suc.prems(1) lt]] .
        then have "\<And>c. Some ?c = Some c \<Longrightarrow> HOST_ID c" by simp
        moreover have "length (drop m vs) < n" using Suc.prems(4) m(1,2) len by simp
        ultimately have "all_pages n ?page (Some ?c) = Inr (drop m vs)"
          using Suc.IH [of "Some ?c" "drop m vs", unfolded after] mapE_drop [OF Suc.prems(1)]
            list_all2_dropI [OF Suc.prems(2)] by blast
        with m more show ?thesis by (simp add: page_cursor_def)
      qed
    qed
  qed simp
  from this [of None views "Suc (length views)"] rows show ?thesis by simp
qed

section \<open>A catalog of two hosts\<close>

definition sample_fields :: "(string \<times> json) list" where
  "sample_fields =
    [(''name'', JStr ''db''), (''group'', JStr ''prod''), (''host'', JStr ''db.example.net''),
     (''port'', JNum (Finite ''22'')), (''username'', JStr ''ops''), (''authMethod'', JStr ''password''),
     (''password'', JStr ''pw''), (''initialCommand'', JStr []), (''termType'', JStr ''xterm''),
     (''encoding'', JStr ''utf-8''), (''fingerprint'', JStr (''SHA256:'' @ replicate 43 (CHR ''a''))),
     (''location'', JNull)]"

definition sample_decrypt :: decryptor where
  "sample_decrypt key iv aad bytes = Some (JObj sample_fields)"

definition sample_cipher :: string where
  "sample_cipher = ''v1.'' @ base64Bytes (replicate 12 7) @ ''.'' @ base64Bytes (replicate 16 9)"

definition sample_secret :: string where "sample_secret = base64Bytes (replicate 32 1)"

definition sample_row :: "string \<Rightarrow> host_row" where
  "sample_row i = \<lparr>hr_id = i, hr_account_id = ''acct'',
     hr_encrypted_payload = Some sample_cipher, hr_updated_at = IntegerNumber 5\<rparr>"

definition sample_ids :: "string list" where
  "sample_ids = [''aaaaaaaa-0000-4000-8000-000000000000'', ''bbbbbbbb-0000-4000-8000-000000000000'']"

definition sample_env :: ssh_env where
  "sample_env = \<lparr>EDGE_SSH_DB = Some \<lparr>cat_workspace = [Some ''acct''], cat_hosts = map sample_row (rev sample_ids),
     cat_keychain = [], cat_fault = (\<lambda>_. None)\<rparr>, SSH_ENCRYPTION_KEY = sample_secret\<rparr>"

definition sample_view :: "string \<Rightarrow> host_view" where
  "sample_view i = \<lparr>hv_id = i, hv_name = ''db'', hv_group = ''prod'',
     hv_host = ''db.example.net'', hv_port = JNum (Finite ''22''), hv_username = ''ops'', hv_authMethod = ''password'',
     hv_trustReady = True, hv_readinessReason = ''ready''\<rparr>"

lemma sample_codec:
  "decodeBase64Strict sample_secret = Inr (replicate 32 1)"
  "split_char (CHR ''.'') sample_cipher = [''v1'', base64Bytes (replicate 12 7), base64Bytes (replicate 16 9)]"
  "decodeBase64Strict (base64Bytes (replicate 12 7)) = Inr (replicate 12 7)"
  "decodeBase64Strict (base64Bytes (replicate 16 9)) = Inr (replicate 16 9)"
  "length sample_cipher = 44" "base64Bytes (replicate 12 7) \<noteq> []" "base64Bytes (replicate 16 9) \<noteq> []"
  "FINGERPRINT (''SHA256:'' @ replicate 43 (CHR ''a''))" "sample_secret \<noteq> []"
  by code_simp+

lemma sample_valid: "validPayload sample_url (JObj sample_fields)"
proof -
  have "normalizeDnsName sample_url ''db.example.net'' = Some ''db.example.net''" by code_simp
  then have "validHost sample_url ''db.example.net''"
    by (simp add: validHost_def) (simp add: char_class_defs)
  then show ?thesis
    by (simp add: validPayload_def sample_fields_def valid_auth_def obj_get_def as_str_def str_within_def is_record_def
        safe_int_def int_of_text_def obj_keys_def allowedFields_def digits_val_def char_class_defs
        MAX_SAFE_INTEGER_def term_type_char_def alnum_def)
qed

lemma sample_decode: "i \<in> set sample_ids \<Longrightarrow>
  decodeRow sample_url sample_decrypt ''acct'' sample_secret (sample_row i) = Inr (sample_view i)"
proof -
  assume "i \<in> set sample_ids"
  moreover have "list_all HOST_ID sample_ids" by code_simp
  ultimately have id: "HOST_ID i" by (simp add: list_all_iff)
  have "project i sample_fields = sample_view i"
    using sample_codec(8)
    by (simp add: sample_view_def sample_fields_def project_def text_of_def as_str_def obj_get_def)
  with id show ?thesis
    using sample_valid by (simp add: decodeRow_def sample_row_def decryptHost_def decryptPayload_def
      sample_codec sample_decrypt_def MAX_SAFE_INTEGER_def)
qed

lemma sample_fits: "i \<in> set sample_ids \<Longrightarrow> fits_alone (sample_row i) (sample_view i)"
  by (auto simp: fits_alone_def fitsMcpToolResultBudget_def serializeMcpToolResult_def MCP_TOOL_RESULT_MAX_BYTES_def
    MCP_TRANSPORT_ENVELOPE_RESERVE_BYTES_def page_json_def host_json_def sample_view_def sample_row_def
    json_quote_def json_escape_def code_def sample_ids_def)
lemma sample_env_facts:
  "readAccount sample_env = Inr (the (EDGE_SSH_DB sample_env), ''acct'')"
  "requiredSecret sample_env = Inr sample_secret" "cat_fault (the (EDGE_SSH_DB sample_env)) ''hosts'' = None"
  "distinct (map hr_id (cat_hosts (the (EDGE_SSH_DB sample_env))))"
  "rows_after (the (EDGE_SSH_DB sample_env)) ''acct'' None = map sample_row sample_ids"
  using sample_codec(9)
  by (simp_all add: sample_env_def readAccount_def requiredSecret_def query_def sample_ids_def sample_row_def
      rows_after_def less_char_def)

lemma listHosts_complete_witness:
  "all_pages 3 (\<lambda>c. listHosts sample_url sample_decrypt sample_env c (Some (IntegerNumber 1))) None =
     Inr (map sample_view sample_ids) \<and> length sample_ids = 2"
proof -
  have decoded: "mapE (decodeRow sample_url sample_decrypt ''acct'' sample_secret) (map sample_row sample_ids) =
      Inr (map sample_view sample_ids)"
    using sample_decode by (simp add: sample_ids_def)
  have fits: "list_all2 fits_alone (map sample_row sample_ids) (map sample_view sample_ids)"
    using sample_fits by (simp add: sample_ids_def)
  have size: "page_size (Some (IntegerNumber 1)) = Some 1" by (simp add: page_size_def)
  have three: "Suc (length (map sample_view sample_ids)) = 3" by (simp add: sample_ids_def)
  from listHosts_complete [OF sample_env_facts(1-3) size sample_env_facts(4),
      unfolded sample_env_facts(5), OF decoded fits]
  show ?thesis unfolding three by (simp add: sample_ids_def)
qed

end
