(* ===== verification/Utf8.thy ===== *)
theory Utf8
  imports Main
begin

text \<open>
  UTF-8 as the platform's \<open>TextEncoder\<close> and fatal \<open>TextDecoder\<close> implement it, on bytes and
  code points, and \<open>utf8Prefix\<close> of \<open>apps/ssh-mcp-worker/src/operations.ts\<close>.
\<close>

section \<open>UTF-8\<close>

fun continuation :: "nat \<Rightarrow> bool" where
  "continuation b \<longleftrightarrow> 0x80 \<le> b \<and> b \<le> 0xBF"

definition decode_one :: "nat list \<Rightarrow> (nat \<times> nat list) option" where
  \<comment> \<open>one code point and the bytes after it; None for an invalid or incomplete sequence\<close>
  "decode_one bs =
    (case bs of
       [] \<Rightarrow> None
     | b0 # t0 \<Rightarrow>
         if b0 < 0x80 then Some (b0, t0)
         else (case t0 of
           [] \<Rightarrow> None
         | b1 # t1 \<Rightarrow>
             if 0xC2 \<le> b0 \<and> b0 \<le> 0xDF
             then (if continuation b1 then Some ((b0 - 0xC0) * 64 + (b1 - 0x80), t1) else None)
             else (case t1 of
               [] \<Rightarrow> None
             | b2 # t2 \<Rightarrow>
                 if 0xE0 \<le> b0 \<and> b0 \<le> 0xEF
                 then (if continuation b1 \<and> continuation b2 \<and> (b0 = 0xE0 \<longrightarrow> 0xA0 \<le> b1) \<and> (b0 = 0xED \<longrightarrow> b1 \<le> 0x9F)
                       then Some ((b0 - 0xE0) * 4096 + (b1 - 0x80) * 64 + (b2 - 0x80), t2) else None)
                 else (case t2 of
                   [] \<Rightarrow> None
                 | b3 # t3 \<Rightarrow>
                     if 0xF0 \<le> b0 \<and> b0 \<le> 0xF4 \<and> continuation b1 \<and> continuation b2 \<and> continuation b3 \<and>
                        (b0 = 0xF0 \<longrightarrow> 0x90 \<le> b1) \<and> (b0 = 0xF4 \<longrightarrow> b1 \<le> 0x8F)
                     then Some ((b0 - 0xF0) * 262144 + (b1 - 0x80) * 4096 + (b2 - 0x80) * 64 + (b3 - 0x80), t3)
                     else None))))"

lemma decode_one_shorter: "decode_one bs = Some (c, t) \<Longrightarrow> length t < length bs"
  by (auto simp: decode_one_def split: list.splits if_splits)

function utf8_decode :: "nat list \<Rightarrow> nat list option" where
  "utf8_decode bs =
    (if bs = [] then Some []
     else case decode_one bs of None \<Rightarrow> None | Some (c, t) \<Rightarrow> map_option ((#) c) (utf8_decode t))"
  by pat_completeness auto
termination
  by (relation "measure length") (auto dest: decode_one_shorter)

declare utf8_decode.simps [simp del]

definition fatal_decode :: "nat list \<Rightarrow> nat list option" where
  \<comment> \<open>\<open>new TextDecoder('utf-8', {fatal: true}).decode\<close>: a byte order mark in front is removed\<close>
  "fatal_decode bs = map_option (\<lambda>cs. case cs of [] \<Rightarrow> [] | c # t \<Rightarrow> if c = 0xFEFF then t else cs) (utf8_decode bs)"

fun prefix_from :: "nat list \<Rightarrow> nat list \<Rightarrow> nat list \<times> nat" where
  \<comment> \<open>the loop over the number of trimmed bytes\<close>
  "prefix_from bs [] = ([], 0)"
| "prefix_from bs (trim # trims) =
     (if trim \<le> length bs
      then (case fatal_decode (take (length bs - trim) bs) of
              Some cs \<Rightarrow> (cs, length bs - trim)
            | None \<Rightarrow> prefix_from bs trims)
      else ([], 0))"

definition utf8Prefix :: "nat list \<Rightarrow> nat list \<times> nat" where
  "utf8Prefix bs = prefix_from bs [0, 1, 2, 3]"

definition utf8_encode_one :: "nat \<Rightarrow> nat list" where
  "utf8_encode_one c =
    (if c < 0x80 then [c]
     else if c < 0x800 then [0xC0 + c div 64, 0x80 + c mod 64]
     else if c < 0x10000 then [0xE0 + c div 4096, 0x80 + c div 64 mod 64, 0x80 + c mod 64]
     else [0xF0 + c div 262144, 0x80 + c div 4096 mod 64, 0x80 + c div 64 mod 64, 0x80 + c mod 64])"

definition utf8_encode :: "nat list \<Rightarrow> nat list" where
  "utf8_encode cs = concat (map utf8_encode_one cs)"

definition scalar :: "nat \<Rightarrow> bool" where
  "scalar c \<longleftrightarrow> c < 0xD800 \<or> (0xE000 \<le> c \<and> c < 0x110000)"

lemma utf8_encode_simps [simp]:
  "utf8_encode [] = []" "utf8_encode (c # cs) = utf8_encode_one c @ utf8_encode cs"
  "utf8_encode (cs @ ds) = utf8_encode cs @ utf8_encode ds"
  by (simp_all add: utf8_encode_def)

lemma encode_one_length: "1 \<le> length (utf8_encode_one c)" "length (utf8_encode_one c) \<le> 4"
  by (simp_all add: utf8_encode_one_def)

lemma encode_one_nonempty [simp]: "utf8_encode_one c \<noteq> []"
  by (simp add: utf8_encode_one_def)

text \<open>Decoding undoes encoding, one code point at a time.\<close>

lemma sextet_divs:
  fixes c :: nat
  shows "c div 4096 = c div 64 div 64" "c div 262144 = c div 64 div 64 div 64"
  by (simp_all add: div_mult2_eq [symmetric])

lemma decode_one_encode:
  assumes "scalar c"
  shows "decode_one (utf8_encode_one c @ t) = Some (c, t)"
proof -
  define q where "q = c div 64"
  have c: "q * 64 + c mod 64 = c" and q: "q div 64 * 64 + q mod 64 = q"
    and p: "q div 64 div 64 * 64 + q div 64 mod 64 = q div 64" by (simp_all add: q_def)
  have "c mod 64 < 64" "q mod 64 < 64" "q div 64 mod 64 < 64" by simp_all
  then have m: "c mod 64 \<le> 63" "q mod 64 \<le> 63" "q div 64 mod 64 \<le> 63" by linarith+
  note split_defs = utf8_encode_one_def decode_one_def sextet_divs q_def [symmetric]
  consider "c < 0x80" | "0x80 \<le> c" "c < 0x800" | "0x800 \<le> c" "c < 0x10000" | "0x10000 \<le> c" "c < 0x110000"
    using assms unfolding scalar_def by linarith
  then show ?thesis
  proof cases
    case 1
    then show ?thesis by (simp add: utf8_encode_one_def decode_one_def)
  next
    case 2
    then have "2 \<le> q" "q < 32" unfolding q_def by linarith+
    with 2 c m show ?thesis by (simp add: split_defs)
  next
    case 3
    then have qs: "32 \<le> q" "q < 1024" unfolding q_def by linarith+
    then have ps: "q div 64 < 16" "q div 64 = 0 \<Longrightarrow> 32 \<le> q mod 64" using q by linarith+
    have surrogate: "q mod 64 \<le> 31" if "q div 64 = 13"
    proof -
      have "q < 864" using assms that q c m unfolding scalar_def by linarith
      then show ?thesis using q that by linarith
    qed
    have "q div 64 * 4096 + q mod 64 * 64 + c mod 64 = c" using c q by linarith
    with 3 ps m surrogate show ?thesis by (simp add: split_defs)
  next
    case 4
    then have qs: "1024 \<le> q" "q < 17408" unfolding q_def by linarith+
    then have "q div 64 < 272" "16 \<le> q div 64" by linarith+
    then have ps: "q div 64 div 64 \<le> 4" "q div 64 div 64 = 0 \<Longrightarrow> 16 \<le> q div 64 mod 64"
      "q div 64 div 64 = 4 \<Longrightarrow> q div 64 mod 64 \<le> 15" using p by linarith+
    have "q div 64 div 64 * 262144 + q div 64 mod 64 * 4096 + q mod 64 * 64 + c mod 64 = c"
      using c q p by linarith
    with 4 ps m show ?thesis by (simp add: split_defs)
  qed
qed

text \<open>Decoding the encoding of a sequence of scalar values gives the sequence.\<close>

lemma utf8_decode_text:
  "list_all scalar cs \<Longrightarrow> utf8_decode (utf8_encode cs @ t) = map_option ((@) cs) (utf8_decode t)"
proof (induction cs)
  case (Cons c cs)
  then have "decode_one (utf8_encode_one c @ utf8_encode cs @ t) = Some (c, utf8_encode cs @ t)"
    by (simp add: decode_one_encode)
  with Cons show ?case
    by (subst utf8_decode.simps) (cases "utf8_decode t"; simp)
qed (cases "utf8_decode t"; simp)

section \<open>Prefixes\<close>

lemma decode_empty [simp]: "utf8_decode [] = Some []"
  by (simp add: utf8_decode.simps)

lemma decode_incomplete:
  assumes "scalar c" "0 < k" "k < length (utf8_encode_one c)"
  shows "utf8_decode (take k (utf8_encode_one c)) = None"
proof -
  consider "c < 0x80" | "0x80 \<le> c" "c < 0x800" | "0x800 \<le> c" "c < 0x10000" | "0x10000 \<le> c"
    by linarith
  then have "decode_one (take k (utf8_encode_one c)) = None"
  proof cases
    case 2
    with assms have "k = 1" by (simp add: utf8_encode_one_def)
    with 2 show ?thesis by (simp add: utf8_encode_one_def decode_one_def)
  next
    case 3
    with assms have "k = 1 \<or> k = 2" by (simp add: utf8_encode_one_def) linarith
    with 3 show ?thesis by (auto simp: utf8_encode_one_def decode_one_def take_Cons')
  next
    case 4
    with assms have "k = 1 \<or> k = 2 \<or> k = 3" by (simp add: utf8_encode_one_def) linarith
    with 4 show ?thesis by (auto simp: utf8_encode_one_def decode_one_def take_Cons')
  qed (use assms in \<open>simp add: utf8_encode_one_def\<close>)
  with assms show ?thesis by (subst utf8_decode.simps) auto
qed

definition partial_of :: "nat \<Rightarrow> nat list \<Rightarrow> bool" where
  \<comment> \<open>some first bytes of a code point, not all\<close>
  "partial_of c p \<longleftrightarrow> p \<noteq> [] \<and> (\<exists>k < length (utf8_encode_one c). p = take k (utf8_encode_one c))"

lemma decode_partial: "scalar c \<Longrightarrow> partial_of c p \<Longrightarrow> 0 < j \<Longrightarrow> j \<le> length p \<Longrightarrow> utf8_decode (take j p) = None"
  using decode_incomplete by (auto simp: partial_of_def min_def)

lemma partial_short: "partial_of c p \<Longrightarrow> length p \<le> 3"
  using encode_one_length(2) [of c] by (auto simp: partial_of_def)

lemma take_encode:
  assumes "n \<le> length (utf8_encode cs)"
  shows "\<exists>m p. take n (utf8_encode cs) = utf8_encode (take m cs) @ p \<and> m \<le> length cs \<and>
    (p = [] \<or> (m < length cs \<and> partial_of (cs ! m) p)) \<and> (4 \<le> n \<longrightarrow> 0 < m)"
  using assms
proof (induction cs arbitrary: n)
  case (Cons c cs)
  let ?l = "length (utf8_encode_one c)"
  show ?case
  proof (cases "n < ?l")
    case True
    then show ?thesis using encode_one_length(2) [of c]
      by (intro exI [of _ 0] exI [of _ "take n (utf8_encode_one c)"]) (auto simp: partial_of_def)
  next
    case False
    with Cons.prems have "n - ?l \<le> length (utf8_encode cs)" by simp
    from Cons.IH [OF this] obtain m p where
      "take (n - ?l) (utf8_encode cs) = utf8_encode (take m cs) @ p" "m \<le> length cs"
      "p = [] \<or> (m < length cs \<and> partial_of (cs ! m) p)" by blast
    with False show ?thesis by (intro exI [of _ "Suc m"] exI [of _ p]) simp
  qed
qed simp

definition no_mark :: "nat list \<Rightarrow> bool" where
  "no_mark cs \<longleftrightarrow> 0xFEFF \<notin> set cs"

lemma fatal_decode_encode: "list_all scalar cs \<Longrightarrow> no_mark cs \<Longrightarrow> fatal_decode (utf8_encode cs) = Some cs"
  using utf8_decode_text [of cs "[]"] by (auto simp: fatal_decode_def no_mark_def split: list.splits)

lemma utf8Prefix_encode:
  assumes "list_all scalar cs" "no_mark cs" "p = [] \<or> (scalar c \<and> partial_of c p)"
  shows "utf8Prefix (utf8_encode cs @ p) = (cs, length (utf8_encode cs))"
proof -
  let ?bs = "utf8_encode cs @ p"
  have fail: "fatal_decode (take (length ?bs - trim) ?bs) = None" if "trim < length p" for trim
  proof -
    have "take (length ?bs - trim) ?bs = utf8_encode cs @ take (length p - trim) p" using that by simp
    moreover have "utf8_decode (take (length p - trim) p) = None"
      using assms(3) that by (intro decode_partial [of c]) auto
    ultimately show ?thesis using utf8_decode_text [OF assms(1)] by (simp add: fatal_decode_def)
  qed
  have hit: "fatal_decode (take (length ?bs - length p) ?bs) = Some cs"
    using fatal_decode_encode [OF assms(1,2)] by simp
  have "length p \<le> 3" using assms(3) partial_short [of c p] by auto
  then have "length p = 0 \<or> length p = 1 \<or> length p = 2 \<or> length p = 3" by linarith
  then show ?thesis
    using hit fail [of 0] fail [of 1] fail [of 2] unfolding utf8Prefix_def prefix_from.simps
    by (elim disjE) simp_all
qed

lemma decode_one_valid: "decode_one bs = Some (c, t) \<Longrightarrow> \<exists>u. bs = u @ t \<and> u \<noteq> [] \<and> list_all (\<lambda>b. b \<le> 0xF4) u"
  unfolding decode_one_def
  by (auto split: list.splits if_splits)

lemma utf8_decode_valid: "utf8_decode bs = Some cs \<Longrightarrow> list_all (\<lambda>b. b \<le> 0xF4) bs"
proof (induction bs arbitrary: cs rule: utf8_decode.induct)
  case (1 bs)
  show ?case
  proof (cases "bs = []")
    case False
    with "1.prems" obtain c t ds where "decode_one bs = Some (c, t)" "utf8_decode t = Some ds"
      by (subst (asm) utf8_decode.simps) (auto split: option.splits)
    with decode_one_valid [of bs c t] "1.IH" [OF False, of "(c, t)" c t ds] show ?thesis by auto
  qed simp
qed

lemma utf8_decode_continuation: "continuation (hd bs) \<Longrightarrow> bs \<noteq> [] \<Longrightarrow> utf8_decode bs = None"
  by (subst utf8_decode.simps) (cases bs; auto simp: decode_one_def split: list.splits)

lemma prefix_from_none:
  assumes "\<And>k. k \<in> set ks \<Longrightarrow> k < length bs \<Longrightarrow> utf8_decode (take (length bs - k) bs) = None"
  shows "prefix_from bs ks = ([], 0)"
  using assms
proof (induction ks)
  case (Cons k ks)
  have IH: "prefix_from bs ks = ([], 0)" using Cons by simp
  consider "k < length bs" | "k = length bs" | "k > length bs" by linarith
  then show ?case
  proof cases
    case 1
    with Cons.prems have "fatal_decode (take (length bs - k) bs) = None" by (simp add: fatal_decode_def)
    with IH 1 show ?thesis by simp
  qed (simp_all add: fatal_decode_def)
qed simp

text \<open>Bytes that no trimming of three bytes repairs.\<close>

lemma utf8Prefix_stuck:
  assumes "(bs \<noteq> [] \<and> continuation (hd bs)) \<or> (\<exists>i. i + 3 < length bs \<and> bs ! i > 0xF4)"
  shows "utf8Prefix bs = ([], 0)"
  unfolding utf8Prefix_def
proof (rule prefix_from_none)
  fix k assume k: "k \<in> set [0, 1, 2, 3 :: nat]" "k < length bs"
  let ?t = "take (length bs - k) bs"
  from assms show "utf8_decode ?t = None"
  proof
    assume "bs \<noteq> [] \<and> continuation (hd bs)"
    then show ?thesis using k by (intro utf8_decode_continuation) simp_all
  next
    assume "\<exists>i. i + 3 < length bs \<and> bs ! i > 0xF4"
    then obtain i where i: "i + 3 < length bs" "bs ! i > 0xF4" by blast
    moreover have "i < length ?t" using i(1) k by auto
    ultimately have "\<not> list_all (\<lambda>b. b \<le> 0xF4) ?t"
      by (auto simp: list_all_length not_le intro!: exI [of _ i])
    then show ?thesis using utf8_decode_valid by (cases "utf8_decode ?t") auto
  qed
qed

end
