(* ===== verification/SshRemote.thy ===== *)
theory SshRemote
  imports SshHosts Utf8
begin

text \<open>
  What one operation does on a remote host: \<open>runSshExec\<close>, \<open>runBoundedSftp\<close> and the SFTP helpers of
  \<open>apps/ssh-mcp-worker/src/operations.ts\<close>. The SSH library is a parameter: every call the code
  awaits is a value of a world record, \<open>Inl\<close> when it throws. The timer of a run fires during one
  await (\<open>fires\<close>, numbered in program order from 0) or not at all; what the abandoned run does
  afterwards is modelled too. The text of a reply is a list of UTF-16 code units.
\<close>

section \<open>Capturing output\<close>

definition MAX_CAPTURE_BYTES :: nat where "MAX_CAPTURE_BYTES = 4 * 1024"

definition high_surrogate :: "nat \<Rightarrow> bool" where "high_surrogate u \<longleftrightarrow> 0xD800 \<le> u \<and> u \<le> 0xDBFF"
definition low_surrogate :: "nat \<Rightarrow> bool" where "low_surrogate u \<longleftrightarrow> 0xDC00 \<le> u \<and> u \<le> 0xDFFF"

fun code_points :: "nat list \<Rightarrow> nat list" where
  \<comment> \<open>the scalar values of a string; a lone surrogate becomes U+FFFD\<close>
  "code_points [] = []"
| "code_points [u] = [if high_surrogate u \<or> low_surrogate u then 0xFFFD else u]"
| "code_points (u # v # us) =
     (if high_surrogate u \<and> low_surrogate v
      then (0x10000 + (u - 0xD800) * 0x400 + (v - 0xDC00)) # code_points us
      else (if high_surrogate u \<or> low_surrogate u then 0xFFFD else u) # code_points (v # us))"

definition encode16 :: "nat list \<Rightarrow> nat list" where
  \<comment> \<open>\<open>TextEncoder.encode\<close>\<close>
  "encode16 us = utf8_encode (code_points us)"

record bounded_text =
  bt_value :: "nat list"
  bt_bytes :: nat
  bt_truncated :: bool

function drop_units :: "nat \<Rightarrow> nat list \<Rightarrow> nat list" where
  \<comment> \<open>the loop \<open>value = value.slice(0, -1)\<close>\<close>
  "drop_units limit v = (if length (encode16 v) > limit then drop_units limit (butlast v) else v)"
  by pat_completeness auto
termination
  by (relation "measure (\<lambda>(_, v). length v)") (auto simp: encode16_def intro!: diff_less Nat.gr0I)

declare drop_units.simps [simp del]

definition bounded :: "(nat list \<Rightarrow> nat list) \<Rightarrow> nat list \<Rightarrow> nat \<Rightarrow> bounded_text" where
  \<comment> \<open>the replacing decoder is the platform's\<close>
  "bounded decode_lossy t limit =
    (let bytes = encode16 t
     in if length bytes \<le> limit then \<lparr>bt_value = t, bt_bytes = length bytes, bt_truncated = False\<rparr>
        else let v = drop_units limit (decode_lossy (take limit bytes))
             in \<lparr>bt_value = v, bt_bytes = length (encode16 v), bt_truncated = True\<rparr>)"

fun keep_chunks :: "nat \<Rightarrow> nat list list \<Rightarrow> nat \<Rightarrow> bool \<Rightarrow> nat list \<Rightarrow> nat list \<times> bool" where
  \<comment> \<open>the loop of \<open>readBounded\<close>: chunks to come, bytes kept, whether some were dropped, the bytes\<close>
  "keep_chunks maximum [] kept truncated bytes = (bytes, truncated)"
| "keep_chunks maximum (c # cs) kept truncated bytes =
     (let keep = min (length c) (maximum - kept)
      in keep_chunks maximum cs (kept + keep) (truncated \<or> keep < length c) (bytes @ take keep c))"

definition readBounded :: "(nat list \<Rightarrow> nat list) \<Rightarrow> nat list list \<Rightarrow> nat \<Rightarrow> nat list \<times> bool" where
  "readBounded decode_lossy chunks maximum =
    (let (bytes, truncated) = keep_chunks maximum chunks 0 False [] in (decode_lossy bytes, truncated))"

lemma drop_units_bound: "length (encode16 (drop_units limit v)) \<le> limit"
  by (induction limit v rule: drop_units.induct) (subst drop_units.simps, simp)

lemma bounded_fits: "length (encode16 (bt_value (bounded dl t limit))) \<le> limit"
  by (simp add: bounded_def Let_def drop_units_bound)

lemma keep_chunks_spec:
  "length bytes = kept \<Longrightarrow> kept \<le> maximum \<Longrightarrow>
   keep_chunks maximum cs kept tr bytes =
     (take maximum (bytes @ concat cs), tr \<or> maximum < length (bytes @ concat cs))"
proof (induction maximum cs kept tr bytes rule: keep_chunks.induct)
  case (2 maximum c cs kept tr bytes)
  let ?keep = "min (length c) (maximum - kept)"
  have "keep_chunks maximum cs (kept + ?keep) (tr \<or> ?keep < length c) (bytes @ take ?keep c) =
    (take maximum ((bytes @ take ?keep c) @ concat cs),
     (tr \<or> ?keep < length c) \<or> maximum < length ((bytes @ take ?keep c) @ concat cs))"
    by (rule "2.IH") (use "2.prems" in \<open>simp_all\<close>)
  moreover have "take maximum ((bytes @ take ?keep c) @ concat cs) = take maximum (bytes @ concat (c # cs))"
    using "2.prems" by (cases "length c \<le> maximum - kept") simp_all
  moreover have "(tr \<or> ?keep < length c) \<or> maximum < length ((bytes @ take ?keep c) @ concat cs) \<longleftrightarrow>
      tr \<or> maximum < length (bytes @ concat (c # cs))"
    using "2.prems" by (cases "length c \<le> maximum - kept") auto
  ultimately show ?case by (simp add: Let_def)
qed simp

section \<open>Running a command\<close>

datatype status = Admitted | Running | Completed | Failed | Unknown | Live | Closing | Closed | Lost

record exec_reply =
  ex_status :: status
  ex_stdout :: "nat list option"
  ex_stderr :: "nat list option"
  ex_exit_code :: "int option option"  \<comment> \<open>Some None is null\<close>
  ex_truncated :: bool
  ex_error :: "string option"

definition exec_error :: "status \<Rightarrow> string \<Rightarrow> exec_reply" where
  "exec_error st e = \<lparr>ex_status = st, ex_stdout = None, ex_stderr = None, ex_exit_code = None,
     ex_truncated = False, ex_error = Some e\<rparr>"

record exec_world =
  w_credentials :: "thrown + ssh_host_credentials"
  w_resolve :: "string \<Rightarrow> thrown + string"
  w_connect :: "ssh_host_credentials \<Rightarrow> string \<Rightarrow> thrown + unit"
  w_spawn :: "thrown + unit"
  w_end :: "thrown + unit"
  w_result :: "thrown + (nat list list \<times> nat list list \<times> int option)"  \<comment> \<open>stdout, stderr, exit code\<close>
  w_fires :: "nat option"
  w_left :: "nat \<Rightarrow> int"  \<comment> \<open>milliseconds to the deadline after an await\<close>

definition expired :: "nat option \<Rightarrow> nat \<Rightarrow> bool" where
  "expired fires n \<longleftrightarrow> (case fires of None \<Rightarrow> False | Some k \<Rightarrow> k \<le> n)"

definition ensureTime :: "nat option \<Rightarrow> (nat \<Rightarrow> int) \<Rightarrow> string \<Rightarrow> nat \<Rightarrow> thrown + unit" where
  \<comment> \<open>after the await with the number\<close>
  "ensureTime fires left message n = checkE (\<not> expired fires n \<and> left n > 0) (JsError message)"

definition check_target :: "ssh_host_credentials \<Rightarrow> thrown + unit" where
  "check_target saved =
    (if \<not> FINGERPRINT (shc_fingerprint saved) then Inl (HostError HostUntrusted)
     else case safe_int (Some (shc_port saved)) of
       Some n \<Rightarrow> if n = 25 \<or> n < 1 \<or> n > 65535 then Inl (HostError InvalidTarget) else Inr ()
     | None \<Rightarrow> Inl (HostError InvalidTarget))"

text \<open>
  What a run does, in order: the calls whose promises it awaits, and the statement that sets
  \<open>dispatchStarted\<close>. A run that throws ends with the await that it did not get past.
\<close>

datatype exec_act = ReadCredentials | ResolveTarget | Connect | SetDispatchStarted | CallSpawn | CallEnd | AwaitStreams

definition is_await :: "exec_act \<Rightarrow> bool" where
  "is_await a \<longleftrightarrow> a \<noteq> SetDispatchStarted"

record 'a exec_run =
  xr_acts :: "exec_act list"
  xr_outcome :: "thrown + 'a"

definition doing :: "exec_act \<Rightarrow> 'a exec_run \<Rightarrow> 'a exec_run" where
  "doing a r = r\<lparr>xr_acts := a # xr_acts r\<rparr>"

definition awaiting :: "exec_act \<Rightarrow> thrown + 'b \<Rightarrow> ('b \<Rightarrow> 'a exec_run) \<Rightarrow> 'a exec_run" where
  \<comment> \<open>one await, with the checks after it as part of its result\<close>
  "awaiting a r k = (case r of Inl e \<Rightarrow> \<lparr>xr_acts = [a], xr_outcome = Inl e\<rparr> | Inr x \<Rightarrow> doing a (k x))"

definition perform_exec :: "(nat list \<Rightarrow> nat list) \<Rightarrow> exec_world \<Rightarrow> exec_reply exec_run" where
  "perform_exec decode_lossy w =
    (let ensure = ensureTime (w_fires w) (w_left w) ''exec_timeout''; limit1 = MAX_CAPTURE_BYTES * 3 div 4;
         limit2 = MAX_CAPTURE_BYTES div 4
     in awaiting ReadCredentials (bindE (w_credentials w) (\<lambda>saved. bindE (ensure 0) (\<lambda>_.
          bindE (check_target saved) (\<lambda>_. Inr saved)))) (\<lambda>saved.
        awaiting ResolveTarget (bindE (w_resolve w (shc_host saved)) (\<lambda>ip. bindE (ensure 1) (\<lambda>_. Inr ip))) (\<lambda>ip.
        awaiting Connect (bindE (w_connect w saved ip) (\<lambda>_. ensure 2)) (\<lambda>_.
        doing SetDispatchStarted (
        awaiting CallSpawn (bindE (w_spawn w) (\<lambda>_. checkE (\<not> expired (w_fires w) 3) (JsError ''exec_timeout''))) (\<lambda>_.
        awaiting CallEnd (bindE (w_end w) (\<lambda>_. ensure 4)) (\<lambda>_.
        awaiting AwaitStreams (bindE (w_result w) (\<lambda>r. bindE (ensure 5) (\<lambda>_. Inr r))) (\<lambda>(out, err, ecode).
          let (out_text, out_cut) = readBounded decode_lossy out limit1;
              (err_text, err_cut) = readBounded decode_lossy err limit2;
              stdout = bounded decode_lossy out_text limit1; stderr = bounded decode_lossy err_text limit2
          in \<lparr>xr_acts = [], xr_outcome = Inr \<lparr>ex_status = Completed,
               ex_stdout = Some (bt_value stdout), ex_stderr = Some (bt_value stderr), ex_exit_code = Some ecode,
               ex_truncated = bt_truncated stdout \<or> bt_truncated stderr \<or> out_cut \<or> err_cut,
               ex_error = None\<rparr>\<rparr>))))))))"

text \<open>
  What the race sees of a run: its outcome, the last await it enters, and its flag at the end.
\<close>

record 'a run =
  run_last :: nat
  run_dispatched :: bool
  run_outcome :: "thrown + 'a"

fun before_await :: "nat \<Rightarrow> exec_act list \<Rightarrow> exec_act list" where
  \<comment> \<open>what has been done when the await with the number is entered\<close>
  "before_await n [] = []"
| "before_await n (a # as) = (if is_await a then (case n of 0 \<Rightarrow> [] | Suc m \<Rightarrow> a # before_await m as)
     else a # before_await n as)"

definition dispatchStarted :: "exec_act list \<Rightarrow> bool" where
  "dispatchStarted acts \<longleftrightarrow> SetDispatchStarted \<in> set acts"

definition seen_run :: "'a exec_run \<Rightarrow> 'a run" where
  "seen_run r = \<lparr>run_last = length (filter is_await (xr_acts r)) - 1, run_dispatched = dispatchStarted (xr_acts r),
     run_outcome = xr_outcome r\<rparr>"

definition race :: "nat option \<Rightarrow> (nat \<Rightarrow> bool) \<Rightarrow> string \<Rightarrow> 'a run \<Rightarrow> (thrown + 'a) \<times> bool" where
  \<comment> \<open>\<open>Promise.race([perform(), deadlineReached])\<close>, with the flag as it is when the race is decided;
    \<open>flag n\<close> is its value during an await\<close>
  "race fires flag message r =
    (case fires of
       Some n \<Rightarrow> if n \<le> run_last r then (Inl (JsError message), flag n) else (run_outcome r, run_dispatched r)
     | None \<Rightarrow> (run_outcome r, run_dispatched r))"

definition runSshExec :: "(nat list \<Rightarrow> nat list) \<Rightarrow> exec_world \<Rightarrow> exec_reply \<times> bool" where
  \<comment> \<open>the reply, and whether \<open>spawn\<close> is ever called, by the run that the timer abandoned if there is one\<close>
  "runSshExec decode_lossy w =
    (let r = perform_exec decode_lossy w;
         (outcome, started) = race (w_fires w) (\<lambda>n. dispatchStarted (before_await n (xr_acts r))) ''exec_timeout''
           (seen_run r)
     in (case outcome of
           Inr reply \<Rightarrow> reply
         | Inl e \<Rightarrow>
             if e = JsError ''exec_timeout''
             then (if started then exec_error Unknown ''unknown_outcome'' else exec_error Failed ''host_unreachable'')
             else if started \<and> e \<noteq> SshAuthenticationError \<and> e \<noteq> SshHostKeyError
             then exec_error Unknown ''unknown_outcome''
             else exec_error Failed (errorCode e),
         CallSpawn \<in> set (xr_acts r)))"

section \<open>SFTP\<close>

definition stage :: "nat \<Rightarrow> bool \<Rightarrow> thrown + 'b \<Rightarrow> ('b \<Rightarrow> 'a run) \<Rightarrow> 'a run" where
  \<comment> \<open>one await and the checks after it\<close>
  "stage n d r k = (case r of Inl e \<Rightarrow> \<lparr>run_last = n, run_dispatched = d, run_outcome = Inl e\<rparr> | Inr x \<Rightarrow> k x)"

record sftp_codes =
  noSuchFile :: nat
  permissionDenied :: nat
  failure :: nat
  badMessage :: nat
  unsupported :: nat

text \<open>
  An operation on an open SFTP session: how the flag \<open>mutating\<close> stands during each of its awaits, how
  it stands at the end, and the outcome.
\<close>

record 'a sftp_run =
  sr_awaits :: "bool list"
  sr_mutating :: bool
  sr_outcome :: "thrown + 'a"

datatype sftp_effect = EffectCompleted "nat option" | EffectFailed string | EffectUnknown string bool

definition definitiveSftpStatus :: "sftp_codes \<Rightarrow> thrown \<Rightarrow> bool" where
  "definitiveSftpStatus st e =
    (case e of
       SftpError n \<Rightarrow> n = noSuchFile st \<or> n = permissionDenied st \<or> n = failure st \<or> n = badMessage st \<or>
         n = unsupported st \<or> n = 11
     | _ \<Rightarrow> False)"

definition existenceConflict :: "sftp_codes \<Rightarrow> thrown \<Rightarrow> bool" where
  "existenceConflict st e = (case e of SftpError n \<Rightarrow> n = failure st \<or> n = 11 | _ \<Rightarrow> False)"

definition one_call :: "sftp_codes \<Rightarrow> thrown + unit \<Rightarrow> sftp_effect sftp_run" where
  \<comment> \<open>mark, one server call, and the classification of its error\<close>
  "one_call st r =
    (case r of
       Inr _ \<Rightarrow> \<lparr>sr_awaits = [True], sr_mutating = True, sr_outcome = Inr (EffectCompleted None)\<rparr>
     | Inl e \<Rightarrow> \<lparr>sr_awaits = [True], sr_mutating = \<not> definitiveSftpStatus st e,
         sr_outcome = Inl (if existenceConflict st e then JsError ''sftp_conflict'' else e)\<rparr>)"

definition POSIX_RENAME :: string where "POSIX_RENAME = ''posix-rename@openssh.com''"

definition renameRemote :: "sftp_codes \<Rightarrow> string list \<Rightarrow> bool \<Rightarrow> (bool \<Rightarrow> thrown + unit) \<Rightarrow> sftp_effect sftp_run" where
  \<comment> \<open>the server's extensions, overwrite, and what \<open>rename\<close> does with or without replacing\<close>
  "renameRemote st extensions overwrite rename =
    (if overwrite \<and> \<not> list_ex (\<lambda>x. x = POSIX_RENAME) extensions
     then \<lparr>sr_awaits = [], sr_mutating = False, sr_outcome = Inl (JsError ''sftp_unsupported'')\<rparr>
     else one_call st (rename overwrite))"

definition deleteRemote :: "sftp_codes \<Rightarrow> bool \<Rightarrow> thrown + unit \<Rightarrow> thrown + unit \<Rightarrow> sftp_effect sftp_run" where
  \<comment> \<open>a file or an empty directory\<close>
  "deleteRemote st is_file remove removeDirectory = one_call st (if is_file then remove else removeDirectory)"

definition makeRemoteDirectory :: "sftp_codes \<Rightarrow> thrown + unit \<Rightarrow> sftp_effect sftp_run" where
  "makeRemoteDirectory st makeDirectory = one_call st makeDirectory"

definition SFTP_WRITE_MAX_BYTES :: nat where "SFTP_WRITE_MAX_BYTES = 64 * 1024"

definition definitive_open :: "sftp_codes \<Rightarrow> thrown \<Rightarrow> bool" where
  "definitive_open st e =
    (case e of
       SftpError n \<Rightarrow> n = noSuchFile st \<or> n = permissionDenied st \<or> n = failure st \<or> n = unsupported st \<or> n = 11
     | _ \<Rightarrow> False)"

definition writeUtf8Text ::
  "sftp_codes \<Rightarrow> nat \<Rightarrow> bool \<Rightarrow> (bool \<Rightarrow> thrown + unit) \<Rightarrow> thrown + unit \<Rightarrow> thrown + unit \<Rightarrow> sftp_effect sftp_run" where
  \<comment> \<open>number of bytes, overwrite; what open (exclusive unless overwriting), write and the first close do\<close>
  "writeUtf8Text st size_bytes overwrite open_file write close =
    (if size_bytes > SFTP_WRITE_MAX_BYTES
     then \<lparr>sr_awaits = [], sr_mutating = False, sr_outcome = Inl (JsError ''sftp_invalid'')\<rparr>
     else case open_file overwrite of
       Inl e \<Rightarrow> \<lparr>sr_awaits = [True], sr_mutating = \<not> definitive_open st e,
         sr_outcome = Inl (if \<not> overwrite \<and> existenceConflict st e then JsError ''sftp_conflict'' else e)\<rparr>
     | Inr _ \<Rightarrow>
         let written = (if size_bytes > 0 then write else Inr ()); n = (if size_bytes > 0 then 1 else 0)
         in case written of
              Inl e \<Rightarrow> \<lparr>sr_awaits = True # replicate n True @ [True], sr_mutating = True, sr_outcome = Inl e\<rparr>
            | Inr _ \<Rightarrow>
                (case close of
                   Inl e \<Rightarrow> \<lparr>sr_awaits = True # replicate n True @ [True, True], sr_mutating = True, sr_outcome = Inl e\<rparr>
                 | Inr _ \<Rightarrow> \<lparr>sr_awaits = True # replicate n True @ [True], sr_mutating = True,
                     sr_outcome = Inr (EffectCompleted (Some size_bytes))\<rparr>))"

record sftp_entry =
  se_name :: string
  se_type :: "string option"
  se_size :: "js_int option"

record sftp_entry_view =
  sv_name :: string
  sv_type :: string
  sv_size :: "int option"

definition SFTP_LIST_MAX_ENTRIES :: nat where "SFTP_LIST_MAX_ENTRIES = 100"

definition sftpEntryType :: "string option \<Rightarrow> string" where
  "sftpEntryType t =
    (case t of Some x \<Rightarrow> if x \<in> {''file'', ''directory'', ''symlink''} then x else ''other'' | None \<Rightarrow> ''other'')"

definition entry_view :: "sftp_entry \<Rightarrow> sftp_entry_view" where
  "entry_view e =
    \<lparr>sv_name = se_name e, sv_type = sftpEntryType (se_type e),
     sv_size = (case se_size e of Some (IntegerNumber n) \<Rightarrow> if safe_number (IntegerNumber n) then Some n else None
       | _ \<Rightarrow> None)\<rparr>"

datatype sftp_reply =
    ListReply "sftp_entry_view list" bool
  | ReadReply "nat list" nat  \<comment> \<open>text (code points) and bytes\<close>
  | ReadTruncated bool nat
  | SftpFailed string
  | Effect sftp_effect

definition readDirectory :: "thrown + sftp_entry list \<Rightarrow> sftp_reply sftp_run" where
  "readDirectory list_entries =
    \<lparr>sr_awaits = [False], sr_mutating = False,
     sr_outcome = bindE list_entries (\<lambda>entries.
       Inr (ListReply (map entry_view (take SFTP_LIST_MAX_ENTRIES entries)) (length entries > SFTP_LIST_MAX_ENTRIES)))\<rparr>"

definition SFTP_READ_MAX_BYTES :: nat where "SFTP_READ_MAX_BYTES = 64 * 1024"

function read_loop ::
  "(nat \<Rightarrow> nat \<Rightarrow> thrown + nat list) \<Rightarrow> nat list \<Rightarrow> nat \<Rightarrow> (thrown + (nat list + nat)) \<times> nat" where
  \<comment> \<open>the bytes so far and the number of reads; at the end all bytes, or the size beyond the limit\<close>
  "read_loop read bytes reads =
    (if length bytes > SFTP_READ_MAX_BYTES then (Inr (Inl bytes), reads)
     else case read (length bytes) (min (32 * 1024) (SFTP_READ_MAX_BYTES + 1 - length bytes)) of
       Inl e \<Rightarrow> (Inl e, Suc reads)
     | Inr chunk \<Rightarrow>
         if chunk = [] then (Inr (Inl bytes), Suc reads)
         else if length bytes + length chunk > SFTP_READ_MAX_BYTES
         then (Inr (Inr (length bytes + length chunk)), Suc reads)
         else read_loop read (bytes @ chunk) (Suc reads))"
  by pat_completeness auto
termination
  by (relation "measure (\<lambda>(_, bytes, _). Suc SFTP_READ_MAX_BYTES - length bytes)") (auto simp flip: length_greater_0_conv)

declare read_loop.simps [simp del]

definition readUtf8File :: "thrown + unit \<Rightarrow> (nat \<Rightarrow> nat \<Rightarrow> thrown + nat list) \<Rightarrow> sftp_reply sftp_run" where
  "readUtf8File open_file read =
    (case open_file of
       Inl e \<Rightarrow> \<lparr>sr_awaits = [False], sr_mutating = False, sr_outcome = Inl e\<rparr>
     | Inr _ \<Rightarrow>
         let (outcome, reads) = read_loop read [] 0
         in \<lparr>sr_awaits = replicate (Suc (Suc reads)) False, sr_mutating = False,
             sr_outcome = bindE outcome (\<lambda>r. Inr (case r of
               Inr n \<Rightarrow> ReadTruncated True n
             | Inl bytes \<Rightarrow>
                 (case fatal_decode bytes of
                    None \<Rightarrow> ReadTruncated False (length bytes)
                  | Some t \<Rightarrow> ReadReply t (length bytes))))\<rparr>)"

record 'a sftp_world =
  v_credentials :: "thrown + ssh_host_credentials"
  v_resolve :: "string \<Rightarrow> thrown + string"
  v_connect :: "ssh_host_credentials \<Rightarrow> string \<Rightarrow> thrown + unit"
  v_open :: "thrown + unit"
  v_operation :: "'a sftp_run"
  v_fires :: "nat option"
  v_left :: "nat \<Rightarrow> int"

definition perform_sftp :: "'a sftp_world \<Rightarrow> 'a run" where
  \<comment> \<open>here \<open>run_dispatched\<close> is the flag \<open>mutating\<close> at the end of the run\<close>
  "perform_sftp w =
    (let ensure = ensureTime (v_fires w) (v_left w) ''sftp_timeout'' in
     stage 0 False (bindE (v_credentials w) (\<lambda>saved. bindE (ensure 0) (\<lambda>_.
       bindE (check_target saved) (\<lambda>_. Inr saved)))) (\<lambda>saved.
     stage 1 False (bindE (v_resolve w (shc_host saved)) (\<lambda>ip. bindE (ensure 1) (\<lambda>_. Inr ip))) (\<lambda>ip.
     stage 2 False (bindE (v_connect w saved ip) (\<lambda>_. ensure 2)) (\<lambda>_.
     stage 3 False (bindE (v_open w) (\<lambda>_. ensure 3)) (\<lambda>_.
       \<lparr>run_last = 3 + length (sr_awaits (v_operation w)), run_dispatched = sr_mutating (v_operation w),
        run_outcome = sr_outcome (v_operation w)\<rparr>)))))"

definition mutating_during :: "'a sftp_world \<Rightarrow> nat \<Rightarrow> bool" where
  "mutating_during w n \<longleftrightarrow>
     4 \<le> n \<and> n - 4 < length (sr_awaits (v_operation w)) \<and> sr_awaits (v_operation w) ! (n - 4)"

definition runBoundedSftp :: "'a sftp_world \<Rightarrow> (thrown \<Rightarrow> bool \<Rightarrow> 'a) \<Rightarrow> 'a" where
  \<comment> \<open>\<open>classify\<close> sees the flag as it is when the race is decided\<close>
  "runBoundedSftp w classify =
    (let (outcome, mutating) = race (v_fires w) (mutating_during w) ''sftp_timeout'' (perform_sftp w)
     in case outcome of Inr r \<Rightarrow> r | Inl e \<Rightarrow> classify e mutating)"

definition read_only_error :: "thrown \<Rightarrow> bool \<Rightarrow> sftp_reply" where
  "read_only_error e mutating = SftpFailed (errorCode e)"

definition classifyMutationError :: "bool \<Rightarrow> thrown \<Rightarrow> bool \<Rightarrow> sftp_effect" where
  "classifyMutationError partialWrite e mutating =
    (if mutating then EffectUnknown ''unknown_outcome'' partialWrite
     else if e = JsError ''sftp_conflict'' then EffectFailed ''conflict''
     else if e = JsError ''sftp_unsupported'' then EffectFailed ''unsupported_ssh_runtime''
     else EffectFailed (errorCode e))"

section \<open>What a reply tells\<close>

lemma stage_simps [simp]:
  "stage n d (Inl e) k = \<lparr>run_last = n, run_dispatched = d, run_outcome = Inl e\<rparr>"
  "stage n d (Inr x) k = k x"
  by (simp_all add: stage_def)

lemma ensureTime_Inr: "ensureTime fires left message n = Inr u \<longleftrightarrow> \<not> expired fires n \<and> left n > 0"
  by (simp add: ensureTime_def)

lemma expired_mono: "expired fires n \<Longrightarrow> n \<le> m \<Longrightarrow> expired fires m"
  by (auto simp: expired_def split: option.splits)

lemma doing_simps [simp]: "xr_acts (doing a r) = a # xr_acts r" "xr_outcome (doing a r) = xr_outcome r"
  by (simp_all add: doing_def)

lemma awaitingI:
  assumes "\<And>e. r = Inl e \<Longrightarrow> P \<lparr>xr_acts = [a], xr_outcome = Inl e\<rparr>"
    and "\<And>x. r = Inr x \<Longrightarrow> P (doing a (k x))"
  shows "P (awaiting a r k)"
  using assms by (cases r) (simp_all add: awaiting_def)

text \<open>A run that calls spawn has got through the three awaits before it with the timer quiet, and has set
  the flag just before the call.\<close>

definition spawns_marked :: "nat option \<Rightarrow> 'a exec_run \<Rightarrow> bool" where
  "spawns_marked fires r \<longleftrightarrow> CallSpawn \<in> set (xr_acts r) \<longrightarrow> \<not> expired fires 2 \<and>
     (\<exists>rest. xr_acts r = [ReadCredentials, ResolveTarget, Connect, SetDispatchStarted, CallSpawn] @ rest)"

lemma perform_exec_marked: "spawns_marked (w_fires w) (perform_exec dl w)"
  unfolding perform_exec_def Let_def
  by (auto simp: spawns_marked_def awaiting_def bindE_Inr_iff ensureTime_Inr split_beta split: sum.splits)

lemma perform_exec_outcome:
  "(\<exists>e. xr_outcome (perform_exec dl w) = Inl e) \<or>
   (\<exists>r. xr_outcome (perform_exec dl w) = Inr r \<and> ex_status r = Completed \<and> CallSpawn \<in> set (xr_acts (perform_exec dl w)))"
  unfolding perform_exec_def Let_def
  by (auto simp: awaiting_def split_beta split: sum.splits)

lemma race_cases:
  assumes "race fires flag m r = (out, fl)"
  obtains (timer) n where "fires = Some n" "n \<le> run_last r" "out = Inl (JsError m)" "fl = flag n"
  | (own) "out = run_outcome r" "fl = run_dispatched r"
  using assms by (auto simp: race_def split: option.splits if_splits)

lemma error_reply_status [simp]: "ex_status (exec_error st e) = st"
  by (simp add: exec_error_def)

lemma marked_flag:
  assumes "spawns_marked fires r" "CallSpawn \<in> set (xr_acts r)"
  shows "dispatchStarted (xr_acts r)" "fires = Some n \<Longrightarrow> dispatchStarted (before_await n (xr_acts r))"
proof -
  obtain rest where r: "xr_acts r = [ReadCredentials, ResolveTarget, Connect, SetDispatchStarted, CallSpawn] @ rest"
    and "\<not> expired fires 2"
    using assms by (auto simp: spawns_marked_def)
  then show "dispatchStarted (xr_acts r)" by (simp add: dispatchStarted_def)
  assume "fires = Some n"
  with \<open>\<not> expired fires 2\<close> obtain m where "n = Suc (Suc (Suc m))"
    by (cases n rule: nat.exhaust [case_product nat.exhaust]) (auto simp: expired_def not_le numeral_2_eq_2 dest!: less_imp_Suc_add)
  with r show "dispatchStarted (before_await n (xr_acts r))" by (simp add: dispatchStarted_def is_await_def)
qed

text \<open>C12: The reply of an exec tells the truth about the command: failed means that spawn was never
  called, not even by the run that the timer abandoned, unless the run was refused with an
  authentication or host key error; completed means that it was called; every other case is unknown.
\<close>
theorem runSshExec_honest:
  "case runSshExec dl w of (reply, spawn_called) \<Rightarrow>
     (ex_status reply = Failed \<and>
       (spawn_called = False \<or> xr_outcome (perform_exec dl w) \<in> {Inl SshAuthenticationError, Inl SshHostKeyError})) \<or>
     (ex_status reply = Completed \<and> spawn_called) \<or>
     (ex_status reply = Unknown \<and> ex_error reply = Some ''unknown_outcome'')"
proof -
  let ?r = "perform_exec dl w"
  note marked = marked_flag [OF perform_exec_marked [of w dl]]
  obtain out fl where race: "race (w_fires w) (\<lambda>n. dispatchStarted (before_await n (xr_acts ?r))) ''exec_timeout''
      (seen_run ?r) = (out, fl)" by fastforce
  then show ?thesis
  proof (cases rule: race_cases)
    case (timer n)
    with race marked(2) [of n] show ?thesis
      by (auto simp: runSshExec_def Let_def exec_error_def)
  next
    case own
    with race marked(1) perform_exec_outcome [of dl w] show ?thesis
      by (auto simp: runSshExec_def Let_def exec_error_def seen_run_def split: if_splits)
  qed
qed

text \<open>The captured output of a completed command is within the limits, 3072 bytes of standard
  output and 1024 bytes of standard error when encoded again, and truncated is set whenever the
  streams had more bytes than that.
\<close>
theorem runSshExec_output_bounds:
  assumes "fst (runSshExec dl w) = reply" "ex_status reply = Completed" "w_result w = Inr (out, err, ecode)"
  shows "\<exists>o1 e1. ex_stdout reply = Some o1 \<and> ex_stderr reply = Some e1 \<and> length (encode16 o1) \<le> 3072 \<and>
    length (encode16 e1) \<le> 1024 \<and> ex_exit_code reply = Some ecode \<and>
    (length (concat out) > 3072 \<or> length (concat err) > 1024 \<longrightarrow> ex_truncated reply)"
proof -
  have "xr_outcome (perform_exec dl w) = Inr reply"
    using assms(1,2) by (auto simp: runSshExec_def Let_def race_def exec_error_def seen_run_def
      split: option.splits sum.splits if_splits)
  then show ?thesis
    using assms(3) bounded_fits [of dl _ 3072] bounded_fits [of dl _ 1024]
    unfolding perform_exec_def Let_def
    by (auto simp: awaiting_def bindE_Inr_iff split_beta readBounded_def keep_chunks_spec MAX_CAPTURE_BYTES_def
        split: sum.splits)
qed

text \<open>The four mutations, with what the server does on each call.\<close>

datatype mutation =
    Rename "string list" bool "bool \<Rightarrow> thrown + unit"
  | Delete bool "thrown + unit" "thrown + unit"
  | MakeDirectory "thrown + unit"
  | Write nat bool "bool \<Rightarrow> thrown + unit" "thrown + unit" "thrown + unit"

fun run_mutation :: "sftp_codes \<Rightarrow> mutation \<Rightarrow> sftp_effect sftp_run" where
  "run_mutation st (Rename exts overwrite rename) = renameRemote st exts overwrite rename"
| "run_mutation st (Delete is_file remove removeDirectory) = deleteRemote st is_file remove removeDirectory"
| "run_mutation st (MakeDirectory r) = makeRemoteDirectory st r"
| "run_mutation st (Write n overwrite open_file write close) = writeUtf8Text st n overwrite open_file write close"

fun partial_write :: "mutation \<Rightarrow> bool" where
  "partial_write (Write n overwrite open_file write close) \<longleftrightarrow> True"
| "partial_write _ \<longleftrightarrow> False"

fun first_call :: "mutation \<Rightarrow> thrown + unit" where
  "first_call (Rename exts overwrite rename) = rename overwrite"
| "first_call (Delete is_file remove removeDirectory) = (if is_file then remove else removeDirectory)"
| "first_call (MakeDirectory r) = r"
| "first_call (Write n overwrite open_file write close) = open_file overwrite"

lemmas mutation_defs = renameRemote_def deleteRemote_def makeRemoteDirectory_def writeUtf8Text_def one_call_def

lemma mutation_awaits_marked: "list_all id (sr_awaits (run_mutation st m))"
  by (cases m) (auto simp: mutation_defs Let_def list_all_iff split: sum.splits)

lemma mutation_outcome: "sr_outcome (run_mutation st m) = Inr r \<Longrightarrow> \<exists>n. r = EffectCompleted n"
  by (cases m) (auto simp: mutation_defs Let_def split: sum.splits if_splits)

lemma mutation_unmarked:
  assumes "\<not> sr_mutating (run_mutation st m)"
  shows "sr_awaits (run_mutation st m) = [] \<or> (\<exists>e. first_call m = Inl e \<and> definitiveSftpStatus st e)"
  using assms
  by (cases m) (auto simp: mutation_defs Let_def definitiveSftpStatus_def definitive_open_def
      split: sum.splits if_splits thrown.splits)

lemma perform_sftp_late: "4 \<le> run_last (perform_sftp w) \<longrightarrow> \<not> expired (v_fires w) 3 \<and>
    run_last (perform_sftp w) = 3 + length (sr_awaits (v_operation w)) \<and>
    run_dispatched (perform_sftp w) = sr_mutating (v_operation w) \<and>
    run_outcome (perform_sftp w) = sr_outcome (v_operation w)"
  unfolding perform_sftp_def Let_def
  by (auto simp: stage_def ensureTime_def bindE_Inr_iff split: sum.splits)

text \<open>An SFTP mutation whose reply is failed had no effect on the host: none of its calls was ever
  made (not even by a run that the timer abandoned), or the first one was refused by the server
  with a definitive status. A timeout during a call, a lost connection and every other error are
  reported as unknown.
\<close>
theorem sftp_failed_means_refused:
  assumes "v_operation w = run_mutation st m"
    and "runBoundedSftp w (classifyMutationError (partial_write m)) = EffectFailed reason"
  shows "run_last (perform_sftp w) < 4 \<or> (\<exists>e. first_call m = Inl e \<and> definitiveSftpStatus st e)"
proof (rule ccontr)
  assume not: "\<not> ?thesis"
  then have late: "4 \<le> run_last (perform_sftp w)" by auto
  with perform_sftp_late [of w] have ran: "\<not> expired (v_fires w) 3" "sr_awaits (v_operation w) \<noteq> []"
    "run_last (perform_sftp w) = 3 + length (sr_awaits (v_operation w))"
    "run_dispatched (perform_sftp w) = sr_mutating (v_operation w)"
    "run_outcome (perform_sftp w) = sr_outcome (v_operation w)" by auto
  with not assms(1) mutation_unmarked [of st m] have marked: "sr_mutating (v_operation w)" by auto
  obtain out fl where race: "race (v_fires w) (mutating_during w) ''sftp_timeout'' (perform_sftp w) = (out, fl)"
    by fastforce
  then show False
  proof (cases rule: race_cases)
    case (timer n)
    with ran late have "4 \<le> n" "n - 4 < length (sr_awaits (v_operation w))" by (auto simp: expired_def)
    with assms(1) mutation_awaits_marked [of st m] have "mutating_during w n"
      by (simp add: mutating_during_def list_all_length)
    with timer race assms(2) show False
      by (simp add: runBoundedSftp_def classifyMutationError_def)
  next
    case own
    with race ran marked assms mutation_outcome [of st m] show False
      by (auto simp: runBoundedSftp_def classifyMutationError_def split: sum.splits)
  qed
qed

definition sample_codes :: sftp_codes where
  "sample_codes = \<lparr>noSuchFile = 2, permissionDenied = 3, failure = 4, badMessage = 5, unsupported = 8\<rparr>"

definition sample_credentials :: ssh_host_credentials where
  "sample_credentials = \<lparr>shc_id = [], shc_host = ''h'', shc_port = JNum (Finite ''22''), shc_username = ''u'',
     shc_authMethod = ''password'', shc_password = Some ''p'', shc_privateKey = None, shc_passphrase = None,
     shc_fingerprint = ''SHA256:'' @ replicate 43 (CHR ''a'')\<rparr>"

definition sample_sftp :: "mutation \<Rightarrow> sftp_effect sftp_world" where
  "sample_sftp m = \<lparr>v_credentials = Inr sample_credentials, v_resolve = (\<lambda>_. Inr ''8.8.4.4''),
     v_connect = (\<lambda>_ _. Inr ()), v_open = Inr (), v_operation = run_mutation sample_codes m, v_fires = None,
     v_left = (\<lambda>_. 1)\<rparr>"

lemma sample_target: "check_target sample_credentials = Inr ()"
proof -
  have "FINGERPRINT (shc_fingerprint sample_credentials)" by code_simp
  then show ?thesis
    by (simp add: check_target_def sample_credentials_def safe_int_def int_of_text_def digits_val_def
        char_class_defs MAX_SAFE_INTEGER_def)
qed

lemma sample_fires: "v_fires (sample_sftp m) = None"
  by (simp add: sample_sftp_def)

lemma sample_sftp_performs:
  "run_last (perform_sftp (sample_sftp m)) = 3 + length (sr_awaits (run_mutation sample_codes m))"
  "run_dispatched (perform_sftp (sample_sftp m)) = sr_mutating (run_mutation sample_codes m)"
  "run_outcome (perform_sftp (sample_sftp m)) = sr_outcome (run_mutation sample_codes m)"
  by (simp_all add: perform_sftp_def sample_sftp_def Let_def ensureTime_def expired_def sample_target checkE_def)

lemma sftp_failed_means_refused_witness:
  "runBoundedSftp (sample_sftp (MakeDirectory (Inl (SftpError 4)))) (classifyMutationError False) = EffectFailed ''conflict'' \<and>
   (\<exists>e. first_call (MakeDirectory (Inl (SftpError 4))) = Inl e \<and> definitiveSftpStatus sample_codes e)"
proof -
  let ?m = "MakeDirectory (Inl (SftpError 4))"
  have failed: "runBoundedSftp (sample_sftp ?m) (classifyMutationError (partial_write ?m)) = EffectFailed ''conflict''"
    by (simp add: runBoundedSftp_def race_def sample_fires sample_sftp_performs mutation_defs
        definitiveSftpStatus_def existenceConflict_def sample_codes_def classifyMutationError_def)
  have "v_operation (sample_sftp ?m) = run_mutation sample_codes ?m" by (simp add: sample_sftp_def)
  from sftp_failed_means_refused [OF this failed] failed show ?thesis
    by (simp add: sample_sftp_performs mutation_defs)
qed

definition sample_exec :: exec_world where
  "sample_exec = \<lparr>w_credentials = Inr sample_credentials, w_resolve = (\<lambda>_. Inr ''8.8.4.4''),
     w_connect = (\<lambda>_ _. Inr ()), w_spawn = Inr (), w_end = Inr (), w_result = Inr ([[104, 105], [10]], [], Some 0),
     w_fires = None, w_left = (\<lambda>_. 1)\<rparr>"

lemma runSshExec_output_bounds_witness:
  "\<exists>o1 e1. ex_stdout (fst (runSshExec id sample_exec)) = Some o1 \<and> ex_stderr (fst (runSshExec id sample_exec)) = Some e1 \<and>
    length (encode16 o1) \<le> 3072 \<and> length (encode16 e1) \<le> 1024 \<and> o1 = [104, 105, 10]"
proof -
  have "ex_status (fst (runSshExec id sample_exec)) = Completed"
    "ex_stdout (fst (runSshExec id sample_exec)) = Some [104, 105, 10]"
    by (simp_all add: runSshExec_def race_def seen_run_def awaiting_def perform_exec_def sample_exec_def Let_def ensureTime_def expired_def
        sample_target checkE_def readBounded_def bounded_def MAX_CAPTURE_BYTES_def encode16_def high_surrogate_def
        low_surrogate_def utf8_encode_one_def)
  with runSshExec_output_bounds [OF refl this(1), of "[[104, 105], [10]]" "[]" "Some 0"] show ?thesis
    by (auto simp: sample_exec_def)
qed

section \<open>Reading a file\<close>

text \<open>C30: Reading a file always ends: whatever the server returns, with more data than asked for
  or never an end of file, the loop stops after at most one read per byte of the limit and one
  more, and a reply never carries more than 64 KiB of text.
\<close>
theorem readUtf8File_terminates:
  "length (sr_awaits (readUtf8File f rd)) \<le> SFTP_READ_MAX_BYTES + 3 \<and>
   (case sr_outcome (readUtf8File f rd) of Inr (ReadReply t n) \<Rightarrow> n \<le> SFTP_READ_MAX_BYTES | _ \<Rightarrow> True)"
proof -
  have loop: "snd (read_loop rd bytes k) \<le> k + (Suc SFTP_READ_MAX_BYTES - length bytes) \<and>
    (length bytes \<le> SFTP_READ_MAX_BYTES \<longrightarrow>
      (\<forall>bs. fst (read_loop rd bytes k) = Inr (Inl bs) \<longrightarrow> length bs \<le> SFTP_READ_MAX_BYTES))" for bytes k
  proof (induction rd bytes k rule: read_loop.induct)
    case (1 rd bytes k)
    show ?case
    proof (cases "length bytes > SFTP_READ_MAX_BYTES")
      case False
      let ?r = "rd (length bytes) (min (32 * 1024) (SFTP_READ_MAX_BYTES + 1 - length bytes))"
      show ?thesis
      proof (cases ?r)
        case (Inr chunk)
        show ?thesis
        proof (cases "chunk = [] \<or> length bytes + length chunk > SFTP_READ_MAX_BYTES")
          case True
          with False Inr show ?thesis by (subst (1 2) read_loop.simps) auto
        next
          case go: False
          then have eq: "read_loop rd bytes k = read_loop rd (bytes @ chunk) (Suc k)"
            using False Inr by (subst read_loop.simps) simp
          have pos: "0 < length chunk" "length bytes + length chunk \<le> SFTP_READ_MAX_BYTES" using go by simp_all
          have "snd (read_loop rd (bytes @ chunk) (Suc k)) \<le>
              Suc k + (Suc SFTP_READ_MAX_BYTES - (length bytes + length chunk))"
            "\<forall>bs. fst (read_loop rd (bytes @ chunk) (Suc k)) = Inr (Inl bs) \<longrightarrow> length bs \<le> SFTP_READ_MAX_BYTES"
            using "1.IH" [OF False Inr] go by simp_all
          with pos show ?thesis unfolding eq by (intro conjI impI) (linarith, blast)
        qed
      qed (use False in \<open>subst (1 2) read_loop.simps, simp\<close>)
    qed (subst (1 2) read_loop.simps, simp)
  qed
  show ?thesis
  proof (cases f)
    case (Inr u)
    have fin: "snd (read_loop rd [] 0) \<le> Suc SFTP_READ_MAX_BYTES" "\<And>bs. fst (read_loop rd [] 0) = Inr (Inl bs) \<Longrightarrow>
        length bs \<le> SFTP_READ_MAX_BYTES"
      using loop [of "[]" 0] by auto
    then show ?thesis using Inr
      by (auto simp: readUtf8File_def Let_def split_beta bindE_def split: sum.splits option.splits)
  qed (simp add: readUtf8File_def SFTP_READ_MAX_BYTES_def)
qed

text \<open>A server that returns parts of one file.\<close>

definition serves :: "nat list \<Rightarrow> (nat \<Rightarrow> nat \<Rightarrow> thrown + nat list) \<Rightarrow> bool" where
  "serves content rd \<longleftrightarrow>
     (\<forall>p n. 0 < n \<longrightarrow> (\<exists>m. m \<le> n \<and> rd p n = Inr (take m (drop p content)) \<and> (m = 0 \<longrightarrow> length content \<le> p)))"

lemma read_loop_serves:
  assumes "serves content rd" "bytes = take (length bytes) content" "length bytes \<le> SFTP_READ_MAX_BYTES"
  shows "fst (read_loop rd bytes k) =
    Inr (if length content \<le> SFTP_READ_MAX_BYTES then Inl content else Inr (SFTP_READ_MAX_BYTES + 1))"
  using assms
proof (induction rd bytes k rule: read_loop.induct)
  case (1 rd bytes k)
  let ?n = "min (32 * 1024) (SFTP_READ_MAX_BYTES + 1 - length bytes)"
  have pos: "0 < ?n" using "1.prems"(3) by simp
  with "1.prems"(1) obtain m where m: "m \<le> ?n" "rd (length bytes) ?n = Inr (take m (drop (length bytes) content))"
    "m = 0 \<longrightarrow> length content \<le> length bytes" unfolding serves_def by blast
  let ?chunk = "take m (drop (length bytes) content)"
  have within: "length bytes \<le> length content" using "1.prems"(2) by (metis length_take min.cobounded1 min_def)
  have not_over: "\<not> length bytes > SFTP_READ_MAX_BYTES" using "1.prems"(3) by simp
  have more: "length ?chunk \<le> SFTP_READ_MAX_BYTES + 1 - length bytes"
    using m(1) length_take [of m "drop (length bytes) content"] by linarith
  consider "?chunk = []" | "?chunk \<noteq> []" "length bytes + length ?chunk > SFTP_READ_MAX_BYTES"
    | "?chunk \<noteq> []" "\<not> length bytes + length ?chunk > SFTP_READ_MAX_BYTES" by blast
  then show ?case
  proof cases
    case 1
    with m(3) within have "length bytes = length content" by auto
    with "1.prems" have "bytes = content" by simp
    with 1 m(2) "1.prems"(3) show ?thesis by (subst read_loop.simps) simp
  next
    case 2
    with more "1.prems"(3) have len: "length bytes + length ?chunk = SFTP_READ_MAX_BYTES + 1" by linarith
    have "length ?chunk \<le> length content - length bytes" by simp
    with len within have "SFTP_READ_MAX_BYTES < length content" by linarith
    with 2 len m(2) "1.prems"(3) show ?thesis by (subst read_loop.simps) simp
  next
    case 3
    have "bytes @ ?chunk = take (length (bytes @ ?chunk)) content"
      using "1.prems"(2) by (metis append_eq_conv_conj append_take_drop_id length_append take_add take_drop)
    with "1.IH" [OF not_over m(2) 3(1,2) "1.prems"(1)] 3 not_over m(2)
    show ?thesis by (subst read_loop.simps) simp
  qed
qed

text \<open>Reading a file returns the file: when the server returns parts of one content (of any size
  up to the one asked for, empty only at the end), the reply has the decoded content and its
  size if it is UTF-8 of at most 64 KiB, and otherwise says which of the two failed, with
  exactly one byte more than the limit read.
\<close>
theorem readUtf8File_whole:
  assumes "serves content rd"
  shows "sr_outcome (readUtf8File (Inr ()) rd) = Inr
    (if length content \<le> SFTP_READ_MAX_BYTES
     then (case fatal_decode content of
             Some t \<Rightarrow> ReadReply t (length content)
           | None \<Rightarrow> ReadTruncated False (length content))
     else ReadTruncated True (SFTP_READ_MAX_BYTES + 1))"
proof -
  have "fst (read_loop rd [] 0) =
      Inr (if length content \<le> SFTP_READ_MAX_BYTES then Inl content else Inr (SFTP_READ_MAX_BYTES + 1))"
    by (rule read_loop_serves [OF assms]) simp_all
  then show ?thesis by (simp add: readUtf8File_def Let_def split_beta split: option.splits)
qed

definition sample_read :: "nat \<Rightarrow> nat \<Rightarrow> thrown + nat list" where
  "sample_read p n = Inr (take (min n 2) (drop p [104, 0xC3, 0xA9, 10]))"

lemma readUtf8File_whole_witness:
  "sr_outcome (readUtf8File (Inr ()) sample_read) = Inr (ReadReply [104, 0xE9, 10] 4)"
proof -
  have "serves [104, 0xC3, 0xA9, 10] sample_read"
    unfolding serves_def sample_read_def
  proof (intro allI impI)
    fix p n :: nat assume "0 < n"
    then show "\<exists>m \<le> n. Inr (take (min n 2) (drop p [104, 0xC3, 0xA9, 10])) =
        (Inr (take m (drop p [104, 0xC3, 0xA9, 10])) :: thrown + nat list) \<and> (m = 0 \<longrightarrow> length [104, 0xC3, 0xA9, 10 :: nat] \<le> p)"
      by (intro exI [of _ "min n 2"]) (simp add: min_def)
  qed
  from readUtf8File_whole [OF this] show ?thesis
    by (simp add: SFTP_READ_MAX_BYTES_def fatal_decode_def utf8_decode.simps decode_one_def)
qed

end
