(* ===== verification/OutputRing.thy ===== *)
theory OutputRing
  imports Prelude
begin

text \<open>
  The output buffer of a managed shell session (\<open>OutputRing\<close> and \<open>utf8Prefix\<close> of
  \<open>apps/ssh-mcp-worker/src/operations.ts\<close>). The buffer is refined against the list of all
  bytes that the session has produced. A byte is a natural number below 256; decoded text is the
  list of its code points.
\<close>

section \<open>The buffer\<close>

definition SESSION_RING_BYTES :: int where "SESSION_RING_BYTES = 256 * 1024"
definition SESSION_READ_BYTES :: int where "SESSION_READ_BYTES = 64 * 1024"

record chunk =
  ch_start :: int
  ch_data :: "nat list"

record output_ring =
  ring_chunks :: "chunk list"
  ring_start :: int
  ring_end :: int
  ring_evicted :: bool

definition empty_ring :: output_ring where
  "empty_ring = \<lparr>ring_chunks = [], ring_start = 0, ring_end = 0, ring_evicted = False\<rparr>"

definition chunk_end :: "chunk \<Rightarrow> int" where
  "chunk_end c = ch_start c + int (length (ch_data c))"

fun shift_chunks :: "int \<Rightarrow> chunk list \<Rightarrow> bool \<Rightarrow> chunk list \<times> bool" where
  \<comment> \<open>the loop that drops the chunks before \<open>retainFrom\<close>\<close>
  "shift_chunks retainFrom [] evicted = ([], evicted)"
| "shift_chunks retainFrom (c # cs) evicted =
     (if chunk_end c \<le> retainFrom then shift_chunks retainFrom cs True else (c # cs, evicted))"

fun cut_first :: "int \<Rightarrow> chunk list \<Rightarrow> bool \<Rightarrow> chunk list \<times> bool" where
  "cut_first retainFrom [] evicted = ([], evicted)"
| "cut_first retainFrom (c # cs) evicted =
     (if ch_start c < retainFrom
      then (\<lparr>ch_start = retainFrom, ch_data = drop (nat (retainFrom - ch_start c)) (ch_data c)\<rparr> # cs, True)
      else (c # cs, evicted))"

definition append_ring :: "nat list \<Rightarrow> output_ring \<Rightarrow> output_ring" where
  "append_ring bytes r =
    (if bytes = [] then r
     else
       let e = ring_end r + int (length bytes);
           retainFrom = e - SESSION_RING_BYTES;
           (cs, ev) = shift_chunks retainFrom
             (ring_chunks r @ [\<lparr>ch_start = ring_end r, ch_data = bytes\<rparr>]) (ring_evicted r);
           (ds, ev') = cut_first retainFrom cs ev
       in \<lparr>ring_chunks = ds, ring_start = (case ds of [] \<Rightarrow> e | d # _ \<Rightarrow> ch_start d), ring_end = e,
           ring_evicted = ev'\<rparr>)"

definition set_at :: "nat list \<Rightarrow> nat \<Rightarrow> nat list \<Rightarrow> nat list" where
  \<comment> \<open>\<open>bytes.set(data, offset)\<close>\<close>
  "set_at bytes k xs = take k bytes @ xs @ drop (k + length xs) bytes"

primrec copy_chunks :: "chunk list \<Rightarrow> int \<Rightarrow> nat \<Rightarrow> nat \<Rightarrow> nat list \<Rightarrow> nat list" where
  \<comment> \<open>the loop of \<open>read\<close>: chunks, cursor, bytes written, size, the result so far\<close>
  "copy_chunks [] cursor written want bytes = bytes"
| "copy_chunks (c # cs) cursor written want bytes =
     (if chunk_end c \<le> cursor \<or> written = want then copy_chunks cs cursor written want bytes
      else
        let begin_at = nat (max 0 (cursor - ch_start c));
            copy = min (length (ch_data c) - begin_at) (want - written)
        in copy_chunks cs (cursor + int copy) (written + copy) want
             (set_at bytes written (take copy (drop begin_at (ch_data c)))))"

record ring_slice =
  sl_bytes :: "nat list"
  sl_offset :: int
  sl_truncated :: bool

definition read_ring :: "output_ring \<Rightarrow> int \<Rightarrow> int \<Rightarrow> ring_slice" where
  "read_ring r from_at maxBytes =
    (let offset = max from_at (ring_start r);
         available = max 0 (ring_end r - offset);
         want = nat (min (max 0 maxBytes) available)
     in \<lparr>sl_bytes = copy_chunks (ring_chunks r) offset 0 want (replicate want 0), sl_offset = offset,
         sl_truncated = from_at < ring_start r \<or> int want < available\<rparr>)"

section \<open>The bytes the buffer stands for\<close>

fun contiguous :: "int \<Rightarrow> chunk list \<Rightarrow> bool" where
  "contiguous k [] \<longleftrightarrow> True"
| "contiguous k (c # cs) \<longleftrightarrow> ch_start c = k \<and> ch_data c \<noteq> [] \<and> contiguous (chunk_end c) cs"

definition chunk_bytes :: "chunk list \<Rightarrow> nat list" where
  "chunk_bytes cs = concat (map ch_data cs)"

lemma chunk_bytes_simps [simp]:
  "chunk_bytes [] = []" "chunk_bytes (c # cs) = ch_data c @ chunk_bytes cs"
  "chunk_bytes (cs @ ds) = chunk_bytes cs @ chunk_bytes ds"
  by (simp_all add: chunk_bytes_def)

definition holds :: "output_ring \<Rightarrow> nat list \<Rightarrow> bool" where
  \<comment> \<open>the buffer holds the last bytes of the log\<close>
  "holds r log \<longleftrightarrow>
     ring_end r = int (length log) \<and> ring_start r = max 0 (int (length log) - SESSION_RING_BYTES) \<and>
     contiguous (ring_start r) (ring_chunks r) \<and>
     chunk_bytes (ring_chunks r) = drop (nat (ring_start r)) log \<and>
     (ring_evicted r \<longleftrightarrow> ring_start r > 0)"

lemma holds_empty [simp]: "holds empty_ring []"
  by (simp add: holds_def empty_ring_def SESSION_RING_BYTES_def)

lemma contiguous_append:
  "contiguous k (cs @ ds) \<longleftrightarrow> contiguous k cs \<and> contiguous (k + int (length (chunk_bytes cs))) ds"
  by (induction cs arbitrary: k) (auto simp: chunk_end_def algebra_simps)

text \<open>Dropping whole chunks and cutting the first one drops the bytes before the position.\<close>

lemma shift_cut:
  assumes "contiguous k cs" "shift_chunks m cs ev = (ds, ev')" "cut_first m ds ev' = (es, ev'')"
    "m < k + int (length (chunk_bytes cs))"
  shows "contiguous (max k m) es \<and> chunk_bytes es = drop (nat (m - k)) (chunk_bytes cs) \<and>
    (ev'' \<longleftrightarrow> ev \<or> (cs \<noteq> [] \<and> k < m)) \<and> (cs \<noteq> [] \<longrightarrow> es \<noteq> [])"
  using assms
proof (induction m cs ev arbitrary: k rule: shift_chunks.induct)
  case (2 m c cs ev)
  show ?case
  proof (cases "chunk_end c \<le> m")
    case True
    have "contiguous (max (chunk_end c) m) es \<and> chunk_bytes es = drop (nat (m - chunk_end c)) (chunk_bytes cs) \<and>
      (ev'' \<longleftrightarrow> True \<or> (cs \<noteq> [] \<and> chunk_end c < m)) \<and> (cs \<noteq> [] \<longrightarrow> es \<noteq> [])"
      using 2 True by (intro "2.IH") (auto simp: chunk_end_def)
    moreover have "cs \<noteq> []" using "2.prems"(1,4) True by (auto simp: chunk_end_def)
    moreover have c: "ch_start c = k" "length (ch_data c) > 0" using "2.prems"(1) by auto
    moreover have "nat (m - chunk_end c) = nat (m - k) - length (ch_data c)" "k < m" "length (ch_data c) \<le> nat (m - k)"
      using c True unfolding chunk_end_def by linarith+
    ultimately show ?thesis using True by simp
  next
    case False
    then have "ds = c # cs" "ev' = ev" using "2.prems" by auto
    then show ?thesis using False "2.prems" by (auto simp: chunk_end_def add.commute split: if_splits)
  qed
qed simp

lemma holds_append:
  assumes "holds r log"
  shows "holds (append_ring bytes r) (log @ bytes)"
proof (cases "bytes = []")
  case False
  let ?e = "ring_end r + int (length bytes)"
  let ?m = "?e - SESSION_RING_BYTES"
  let ?cs = "ring_chunks r @ [\<lparr>ch_start = ring_end r, ch_data = bytes\<rparr>]"
  obtain cs ev where shift: "shift_chunks ?m ?cs (ring_evicted r) = (cs, ev)" by fastforce
  obtain es ev' where cut: "cut_first ?m cs ev = (es, ev')" by fastforce
  have start: "0 \<le> ring_start r" "nat (ring_start r) \<le> length log" and e: "ring_end r = int (length log)"
    and s: "ring_start r = max 0 (int (length log) - SESSION_RING_BYTES)"
    using assms by (auto simp: holds_def SESSION_RING_BYTES_def)
  have cont: "contiguous (ring_start r) ?cs"
    using assms False start by (auto simp: holds_def contiguous_append)
  have all: "chunk_bytes ?cs = drop (nat (ring_start r)) (log @ bytes)"
    using assms start by (simp add: holds_def)
  have "?m < ring_start r + int (length (chunk_bytes ?cs))"
    unfolding all using start e by (simp add: SESSION_RING_BYTES_def)
  from shift_cut [OF cont shift cut this, unfolded all drop_drop]
  have es: "contiguous (max (ring_start r) ?m) es" "es \<noteq> []" "ev' \<longleftrightarrow> ring_evicted r \<or> ring_start r < ?m"
    "chunk_bytes es = drop (nat (?m - ring_start r) + nat (ring_start r)) (log @ bytes)"
    by blast+
  note es = this
  have new: "max (ring_start r) ?m = max 0 (int (length (log @ bytes)) - SESSION_RING_BYTES)"
    using s e by simp
  have first: "(case es of [] \<Rightarrow> ?e | d # _ \<Rightarrow> ch_start d) = max (ring_start r) ?m"
    using es(1,2) by (cases es) auto
  have sum: "nat (?m - ring_start r) + nat (ring_start r) = nat (max (ring_start r) ?m)"
    using start by linarith
  have evicted: "ev' \<longleftrightarrow> 0 < max (ring_start r) ?m"
  proof -
    have "ring_evicted r \<longleftrightarrow> 0 < ring_start r" using assms by (simp add: holds_def)
    then show ?thesis unfolding es(3) using start(1) by linarith
  qed
  have "holds \<lparr>ring_chunks = es, ring_start = max (ring_start r) ?m, ring_end = ?e,
      ring_evicted = ev'\<rparr> (log @ bytes)"
    unfolding holds_def output_ring.simps
    by (intro conjI) (use es(1,4) e new evicted sum in simp_all)
  then show ?thesis using False shift cut first by (simp add: append_ring_def Let_def)
qed (use assms in \<open>simp add: append_ring_def\<close>)

text \<open>What \<open>read\<close> copies is the part of the held bytes from the cursor on.\<close>

lemma copy_done: "copy_chunks cs cursor want want bytes = bytes"
  by (induction cs) simp_all

lemma set_at_length: "k + length xs \<le> length bytes \<Longrightarrow> length (set_at bytes k xs) = length bytes"
  by (simp add: set_at_def)

lemma copy_chunks_slice:
  assumes "contiguous k cs" "k \<le> cursor" "w \<le> want" "want \<le> length bytes"
  defines "part \<equiv> take (want - w) (drop (nat (cursor - k)) (chunk_bytes cs))"
  shows "copy_chunks cs cursor w want bytes = take w bytes @ part @ drop (w + length part) bytes"
  using assms(1-4) unfolding part_def
proof (induction cs arbitrary: k cursor w bytes)
  case (Cons c cs)
  have k: "ch_start c = k" "contiguous (chunk_end c) cs" using Cons.prems by auto
  consider "chunk_end c \<le> cursor" | "w = want" | "cursor < chunk_end c" "w < want" using Cons.prems by linarith
  then show ?case
  proof cases
    case 1
    have "drop (nat (cursor - k)) (chunk_bytes (c # cs)) = drop (nat (cursor - chunk_end c)) (chunk_bytes cs)"
    proof -
      have "nat (cursor - k) = length (ch_data c) + nat (cursor - chunk_end c)"
        using 1 k unfolding chunk_end_def by linarith
      then show ?thesis by simp
    qed
    with Cons.IH [OF k(2) 1 Cons.prems(3,4)] 1 show ?thesis by simp
  next
    case 2
    then show ?thesis by (simp add: copy_done)
  next
    case 3
    define b where "b = nat (cursor - k)"
    define n where "n = min (length (ch_data c) - b) (want - w)"
    define piece where "piece = take n (drop b (ch_data c))"
    define new where "new = set_at bytes w piece"
    have b: "nat (max 0 (cursor - ch_start c)) = b" "b < length (ch_data c)"
      using 3 k Cons.prems unfolding chunk_end_def b_def by simp_all
    have piece: "length piece = n" "w + n \<le> want"
      using b(2) 3 by (simp_all add: piece_def n_def)
    have len: "length new = length bytes"
      unfolding new_def by (rule set_at_length) (use piece Cons.prems in simp)
    have step: "copy_chunks (c # cs) cursor w want bytes = copy_chunks cs (cursor + int n) (w + n) want new"
      using 3 unfolding copy_chunks.simps Let_def b(1) n_def [symmetric] piece_def [symmetric] new_def [symmetric]
      by simp
    have pre: "take (w + n) new = take w bytes @ piece" "drop (w + n + j) new = drop (w + n + j) bytes" for j
      using Cons.prems piece by (simp_all add: new_def set_at_def add.commute [of j])
    show ?thesis
    proof (cases "length (ch_data c) - b \<le> want - w")
      case True
      then have n: "n = length (ch_data c) - b" by (simp add: n_def)
      have at: "cursor + int n = chunk_end c"
        using n b(2) k Cons.prems(2) unfolding chunk_end_def b_def by simp
      define rest where "rest = take (want - (w + n)) (chunk_bytes cs)"
      have "copy_chunks cs (chunk_end c) (w + n) want new = take (w + n) new @ rest @ drop (w + n + length rest) new"
        using Cons.IH [OF k(2) order_refl piece(2), of new] len Cons.prems(4) by (simp add: rest_def)
      moreover have "take (want - w) (drop b (chunk_bytes (c # cs))) = piece @ rest"
        using True b(2) by (simp add: piece_def rest_def n)
      ultimately show ?thesis unfolding step at pre b_def [symmetric] using piece by (simp add: add.assoc)
    next
      case False
      then have n: "n = want - w" "w + n = want" using 3 by (simp_all add: n_def)
      have "take (want - w) (drop b (chunk_bytes (c # cs))) = piece"
        using False b(2) by (simp add: piece_def n(1))
      then show ?thesis unfolding step n(2) copy_done b_def [symmetric] using piece by (simp add: new_def set_at_def)
    qed
  qed
qed simp

theorem read_ring_slice:
  assumes "holds r log" "0 \<le> from_at"
  defines "offset \<equiv> max from_at (ring_start r)"
  shows "read_ring r from_at n =
    \<lparr>sl_bytes = take (nat n) (drop (nat offset) log), sl_offset = offset,
     sl_truncated = from_at < ring_start r \<or> nat n < length log - nat offset\<rparr>"
proof -
  let ?size = "nat (min (max 0 n) (max 0 (ring_end r - offset)))"
  have start: "0 \<le> ring_start r" "ring_end r = int (length log)" "contiguous (ring_start r) (ring_chunks r)"
    "chunk_bytes (ring_chunks r) = drop (nat (ring_start r)) log"
    using assms(1) by (auto simp: holds_def)
  have off: "ring_start r \<le> offset" "nat (offset - ring_start r) + nat (ring_start r) = nat offset"
    using start(1) unfolding offset_def by linarith+
  have rest: "drop (nat (offset - ring_start r)) (chunk_bytes (ring_chunks r)) = drop (nat offset) log"
    unfolding start(4) drop_drop off(2) ..
  have avail: "max 0 (ring_end r - offset) = int (length log - nat offset)"
    using start(1,2) off(1) by linarith
  have size: "?size = min (nat n) (length log - nat offset)" unfolding avail by linarith
  then have bound: "?size \<le> length log - nat offset" by simp
  have copied: "copy_chunks (ring_chunks r) offset 0 ?size (replicate ?size 0) = take (nat n) (drop (nat offset) log)"
  proof -
    have "copy_chunks (ring_chunks r) offset 0 m (replicate m 0) = take m (drop (nat offset) log)"
      if "m \<le> length log - nat offset" for m
      using copy_chunks_slice [OF start(3) off(1), of 0 m "replicate m 0"] that by (simp add: rest)
    from this [OF bound]
    have "copy_chunks (ring_chunks r) offset 0 ?size (replicate ?size 0) = take ?size (drop (nat offset) log)" .
    also have "\<dots> = take (nat n) (drop (nat offset) log)"
      unfolding size by (cases "nat n \<le> length log - nat offset") (simp_all add: min_absorb1 min_absorb2)
    finally show ?thesis .
  qed
  have "int ?size < int (length log - nat offset) \<longleftrightarrow> nat n < length log - nat offset"
    unfolding size of_nat_less_iff min_less_iff_disj by blast
  then show ?thesis
    unfolding read_ring_def Let_def offset_def [symmetric] copied by (simp only: avail)
qed

end
