(* ===== verification/SessionOutput.thy ===== *)
theory SessionOutput
  imports OutputRing Utf8
begin

text \<open>
  What a client reads of a session's output: the part of \<open>readSessionOutput\<close>
  (\<open>apps/ssh-mcp-worker/src/operations.ts\<close>) that works on a live session's buffer, and a client
  that follows \<open>next_offset\<close>.
\<close>

record output_view =
  ov_output :: "nat list"
  ov_output_offset :: int
  ov_next_offset :: int
  ov_truncated :: bool

definition session_output :: "output_ring \<Rightarrow> int option \<Rightarrow> int option \<Rightarrow> output_view" where
  "session_output r offset limit =
    (let from_at = (case offset of Some n \<Rightarrow> n | None \<Rightarrow> 0);
         n = min (case limit of Some l \<Rightarrow> l | None \<Rightarrow> SESSION_READ_BYTES) SESSION_READ_BYTES;
         slice = read_ring r from_at n;
         (decoded, consumed) = utf8Prefix (sl_bytes slice)
     in \<lparr>ov_output = decoded, ov_output_offset = sl_offset slice,
         ov_next_offset = sl_offset slice + int consumed,
         ov_truncated = sl_truncated slice \<or> consumed < length (sl_bytes slice)\<rparr>)"

fun follow :: "nat \<Rightarrow> output_ring \<Rightarrow> int option \<Rightarrow> int \<Rightarrow> nat list" where
  \<comment> \<open>so many calls, each from the \<open>next_offset\<close> of the one before\<close>
  "follow 0 r limit offset = []"
| "follow (Suc n) r limit offset =
     (let v = session_output r (Some offset) limit in ov_output v @ follow n r limit (ov_next_offset v))"

section \<open>The buffer as an interface\<close>

text \<open>
  What the reader relies on: a store of bytes that holds a suffix of the log, appended to at its
  end and read by position.
\<close>

locale byte_log =
  fixes holds_log :: "'r \<Rightarrow> nat list \<Rightarrow> bool"
    and empty_log :: 'r
    and append_log :: "nat list \<Rightarrow> 'r \<Rightarrow> 'r"
    and first_at :: "'r \<Rightarrow> int"
    and read_log :: "'r \<Rightarrow> int \<Rightarrow> int \<Rightarrow> ring_slice"
  assumes log_empty: "holds_log empty_log []"
    and log_append: "holds_log r log \<Longrightarrow> holds_log (append_log bytes r) (log @ bytes)"
    and log_read: "holds_log r log \<Longrightarrow> 0 \<le> k \<Longrightarrow>
      sl_bytes (read_log r k n) = take (nat n) (drop (nat (max k (first_at r))) log) \<and>
      sl_offset (read_log r k n) = max k (first_at r) \<and>
      (sl_truncated (read_log r k n) \<longleftrightarrow> k < first_at r \<or> nat n < length log - nat (max k (first_at r)))"
begin

lemma appended: "holds_log (fold append_log chunks empty_log) (concat chunks)"
proof -
  have "holds_log r log \<Longrightarrow> holds_log (fold append_log chunks r) (log @ concat chunks)" for r log
  proof (induction chunks arbitrary: r log)
    case (Cons c chunks)
    from Cons.IH [OF log_append [OF Cons.prems]] show ?case by simp
  qed simp
  from this [OF log_empty] show ?thesis by simp
qed

lemma read_appended:
  assumes "0 \<le> k" "r = fold append_log chunks empty_log"
  shows "sl_bytes (read_log r k n) = take (nat n) (drop (nat (max k (first_at r))) (concat chunks))"
    "sl_offset (read_log r k n) = max k (first_at r)"
    "sl_truncated (read_log r k n) \<longleftrightarrow>
       k < first_at r \<or> nat n < length (concat chunks) - nat (max k (first_at r))"
  using log_read [OF appended assms(1)] assms(2) by blast+

end

interpretation ring: byte_log holds empty_ring append_ring ring_start read_ring
  by unfold_locales (simp_all add: holds_append read_ring_slice)

text \<open>C14: The buffer refines the log of the session's output: after any sequence of chunks, a read
  returns the bytes of the log at the position it reports, which is the requested one or the start
  of the last 256 KiB, and says truncated exactly when it skipped evicted bytes or stopped
  before the end.
\<close>
theorem output_ring_refines_log:
  assumes "0 \<le> k"
  shows "read_ring (fold append_ring chunks empty_ring) k n =
    (let log = concat chunks; offset = max k (int (length log) - SESSION_RING_BYTES)
     in \<lparr>sl_bytes = take (nat n) (drop (nat offset) log), sl_offset = offset,
         sl_truncated = k < int (length log) - SESSION_RING_BYTES \<or> nat n < length log - nat offset\<rparr>)"
proof -
  let ?r = "fold append_ring chunks empty_ring" and ?log = "concat chunks"
  have "ring_start ?r = max 0 (int (length ?log) - SESSION_RING_BYTES)"
    using ring.appended [of chunks] by (simp add: holds_def)
  then have "max k (ring_start ?r) = max k (int (length ?log) - SESSION_RING_BYTES)"
    "k < ring_start ?r \<longleftrightarrow> k < int (length ?log) - SESSION_RING_BYTES" using assms by linarith+
  with ring.read_appended [OF assms refl] show ?thesis by (simp add: Let_def)
qed

lemma output_ring_refines_log_witness:
  "read_ring (fold append_ring [[72, 105], [33], []] empty_ring) 1 5 =
     \<lparr>sl_bytes = [105, 33], sl_offset = 1, sl_truncated = False\<rparr>"
  using output_ring_refines_log [of 1 "[[72, 105], [33], []]" 5] by (simp add: SESSION_RING_BYTES_def)

section \<open>Following the output\<close>

lemma session_output_slice:
  assumes "holds r log" "0 \<le> k" "0 \<le> n"
  defines "bytes \<equiv> take (nat (min n SESSION_READ_BYTES)) (drop (nat (max k (ring_start r))) log)"
  shows "ov_output (session_output r (Some k) (Some n)) = fst (utf8Prefix bytes)"
    "ov_next_offset (session_output r (Some k) (Some n)) = max k (ring_start r) + int (snd (utf8Prefix bytes))"
  using read_ring_slice [OF assms(1,2)] by (simp_all add: session_output_def Let_def bytes_def split_beta)

lemma follow_text:
  assumes "holds r (utf8_encode (done @ rest))" "ring_start r = 0" "4 \<le> n"
    "list_all scalar (done @ rest)" "no_mark (done @ rest)" "length rest \<le> fuel"
  shows "follow fuel r (Some n) (int (length (utf8_encode done))) = rest"
  using assms
proof (induction fuel arbitrary: "done" rest)
  case (Suc fuel)
  let ?k = "int (length (utf8_encode done))" and ?m = "nat (min n SESSION_READ_BYTES)"
  let ?bytes = "take ?m (drop (nat (max ?k (ring_start r))) (utf8_encode (done @ rest)))"
  let ?take = "min ?m (length (utf8_encode rest))"
  have "?bytes = take ?m (utf8_encode rest)" using Suc.prems(2) by simp
  also have "\<dots> = take ?take (utf8_encode rest)" by (simp add: min_def)
  finally have bytes: "?bytes = take ?take (utf8_encode rest)" .
  obtain m p where p: "take ?take (utf8_encode rest) = utf8_encode (take m rest) @ p" "m \<le> length rest"
    "p = [] \<or> (m < length rest \<and> partial_of (rest ! m) p)" "4 \<le> ?take \<longrightarrow> 0 < m"
    using take_encode [of ?take rest] by auto
  have sc: "list_all scalar (take m rest)" "no_mark (take m rest)"
    using Suc.prems(4,5) by (auto simp: list_all_iff no_mark_def dest: in_set_takeD)
  have "p = [] \<or> (scalar (rest ! m) \<and> partial_of (rest ! m) p)"
    using p(3) Suc.prems(4) by (auto simp: list_all_iff)
  from utf8Prefix_encode [OF sc this] p(1) bytes
  have pre: "utf8Prefix ?bytes = (take m rest, length (utf8_encode (take m rest)))" by simp
  from session_output_slice [OF Suc.prems(1), of ?k n] pre Suc.prems(2,3)
  have out: "ov_output (session_output r (Some ?k) (Some n)) = take m rest"
    "ov_next_offset (session_output r (Some ?k) (Some n)) = int (length (utf8_encode (done @ take m rest)))"
    by simp_all
  have "rest = [] \<or> 0 < m"
  proof (cases "m = 0 \<and> rest \<noteq> []")
    case True
    have "?take < 4" using p(4) True by linarith
    moreover have "4 \<le> ?m" using Suc.prems(3) by (simp add: SESSION_READ_BYTES_def)
    ultimately have "take ?take (utf8_encode rest) = utf8_encode rest" by simp
    with p(1) True have "utf8_encode rest = p" by simp
    moreover have "length p < length (utf8_encode_one (rest ! 0))"
      using p(3) True encode_one_length(1) [of "rest ! 0"] by (auto simp: partial_of_def)
    moreover have "length (utf8_encode_one (rest ! 0)) \<le> length (utf8_encode rest)"
      using True by (cases rest) simp_all
    ultimately show ?thesis by simp
  qed blast
  then have "length (drop m rest) \<le> fuel" using Suc.prems(6) by auto
  with Suc.IH [of "done @ take m rest" "drop m rest"] Suc.prems(1-5)
  have "follow fuel r (Some n) (int (length (utf8_encode (done @ take m rest)))) = drop m rest" by simp
  with out show ?case by (simp add: Let_def)
qed simp

text \<open>C29: When the output of a session is the UTF-8 encoding of a text without a byte order mark
  (the decoder drops one in front of a slice) that fits in the buffer, so that nothing has been
  evicted, a client that follows next_offset with a read limit of at least four bytes (the longest
  character) reads that text exactly: no character is lost, repeated or split, wherever the chunks
  were cut, and it is done after as many calls as the text has characters. The request check also
  admits the limits 1, 2 and 3, for which this does not hold (small_limit_stuck).
\<close>
theorem follow_reads_text:
  assumes "list_all scalar cs" "no_mark cs" "4 \<le> n" "concat chunks = utf8_encode cs"
    "int (length (utf8_encode cs)) \<le> SESSION_RING_BYTES"
  shows "follow (length cs) (fold append_ring chunks empty_ring) (Some n) 0 = cs"
proof -
  have holds: "holds (fold append_ring chunks empty_ring) (utf8_encode ([] @ cs))"
    using ring.appended [of chunks] assms(4) by simp
  then have "ring_start (fold append_ring chunks empty_ring) = 0" using assms(5) by (simp add: holds_def)
  from follow_text [OF holds this assms(3)] assms(1,2) show ?thesis by simp
qed

lemma follow_reads_text_witness:
  "follow 3 (fold append_ring [[72, 0xE2, 0x82], [0xAC, 33]] empty_ring) (Some 4) 0 = [72, 0x20AC, 33]"
proof -
  have three: "length [72, 0x20AC, 33 :: nat] = 3" by simp
  show ?thesis
    using follow_reads_text [of "[72, 0x20AC, 33]" 4 "[[72, 0xE2, 0x82], [0xAC, 33]]", unfolded three]
    by (simp add: scalar_def no_mark_def utf8_encode_def utf8_encode_one_def SESSION_RING_BYTES_def
        del: follow.simps fold_simps)
qed

text \<open>With a limit below the length of the next character the call returns no text and the offset it
  started from, for every number of calls.\<close>

lemma small_limit_stuck:
  assumes "n = 1 \<or> n = 2 \<or> n = 3"
  shows "follow calls (append_ring (utf8_encode [0x1F600]) empty_ring) (Some n) 0 = []"
proof -
  define log where "log = utf8_encode [0x1F600]"
  have holds: "holds (append_ring log empty_ring) log"
    using holds_append [OF holds_empty, of log] by simp
  then have start: "ring_start (append_ring log empty_ring) = 0"
    by (simp add: log_def holds_def SESSION_RING_BYTES_def utf8_encode_def utf8_encode_one_def)
  have cut: "utf8Prefix (take (nat (min n SESSION_READ_BYTES)) log) = ([], 0)"
    unfolding log_def using assms by (elim disjE; simp only:; code_simp)
  have out: "ov_output (session_output (append_ring log empty_ring) (Some 0) (Some n)) = []"
    "ov_next_offset (session_output (append_ring log empty_ring) (Some 0) (Some n)) = 0"
    using session_output_slice [OF holds, of 0 n] start cut assms by auto
  show ?thesis unfolding log_def [symmetric] by (induction calls) (simp_all add: Let_def out)
qed

text \<open>A client that follows next_offset can stay at one position: when the slice begins
  inside a character, as the start of the buffer does once an eviction has cut one, or has a
  byte that UTF-8 never uses before its last three, the call returns no text and the offset it
  started from, for every number of calls.
\<close>
theorem follow_stays:
  assumes "holds r log" "ring_start r \<le> k" "0 \<le> k" "0 \<le> n"
    "bytes = take (nat (min n SESSION_READ_BYTES)) (drop (nat k) log)"
    "(bytes \<noteq> [] \<and> continuation (hd bytes)) \<or> (\<exists>i. i + 3 < length bytes \<and> bytes ! i > 0xF4)"
  shows "ov_next_offset (session_output r (Some k) (Some n)) = k \<and> follow calls r (Some n) k = []"
proof -
  have "max k (ring_start r) = k" using assms(2) by simp
  then have out: "ov_output (session_output r (Some k) (Some n)) = []"
    "ov_next_offset (session_output r (Some k) (Some n)) = k"
    using session_output_slice [OF assms(1,3,4)] utf8Prefix_stuck [OF assms(6)] assms(5) by simp_all
  have "follow calls r (Some n) k = []"
    by (induction calls) (simp_all add: Let_def out)
  with out show ?thesis by simp
qed

lemma follow_stays_witness:
  "follow 1000 (append_ring [104, 105, 0xFF, 10, 111, 107, 10] empty_ring) (Some 100) 0 = []"
proof -
  let ?log = "[104, 105, 0xFF, 10, 111, 107, 10 :: nat]"
  have holds: "holds (append_ring ?log empty_ring) ?log"
    using holds_append [OF holds_empty, of ?log] by simp
  then have start: "ring_start (append_ring ?log empty_ring) \<le> 0"
    by (simp add: holds_def SESSION_RING_BYTES_def)
  have bad: "\<exists>i. i + 3 < length ?log \<and> ?log ! i > 0xF4"
    by (rule exI [of _ 2]) simp
  have slice: "take (nat (min 100 SESSION_READ_BYTES)) (drop (nat 0) ?log) = ?log"
    by (simp add: SESSION_READ_BYTES_def)
  show ?thesis
    by (rule follow_stays [OF holds start _ _ slice [symmetric], THEN conjunct2]) (simp, simp, rule disjI2, rule bad)
qed

end
