(* ===== verification/SshStore.thy ===== *)
theory SshStore
  imports SshRemote SessionOutput
begin

text \<open>
  The state of the durable object \<open>SshOperationsDO\<close>
  (\<open>apps/ssh-mcp-worker/src/operations.ts\<close>) and its synchronous parts: the three tables, the
  claim of an operation with its connection lease, and the ways a receipt is written. A storage
  call that throws is an argument (\<open>ok\<close>, False when it throws); a transaction that throws changes
  nothing. What leaves the object is recorded in \<open>do_effects\<close>, which the code does not read.
\<close>

section \<open>Replies and receipts\<close>

record reply =
  rp_operation_id :: "string option"
  rp_session_id :: "string option"
  rp_status :: status
  rp_error :: "string option"
  rp_stdout :: "nat list option"
  rp_stderr :: "nat list option"
  rp_exit_code :: "int option option"
  rp_truncated :: "bool option"
  rp_bytes :: "nat option"
  rp_partial_write :: bool
  rp_created_at :: "int option"
  rp_last_activity_at :: "int option"
  rp_idle_deadline_at :: "int option"
  rp_absolute_deadline_at :: "int option"
  rp_output_cursor :: "int option"
  rp_output_offset :: "int option"
  rp_next_offset :: "int option"
  rp_output :: "nat list option"
  rp_admitted :: "bool option"
  rp_write_accepted :: "bool option"
  rp_unverified :: bool
  rp_session_status :: "status option"
  rp_channel_close_attempted :: bool
  rp_transport_close_attempted :: bool
  rp_remote_descendants :: "string option"

definition bare :: "status \<Rightarrow> reply" where
  "bare st = \<lparr>rp_operation_id = None, rp_session_id = None, rp_status = st, rp_error = None, rp_stdout = None,
     rp_stderr = None, rp_exit_code = None, rp_truncated = None, rp_bytes = None, rp_partial_write = False,
     rp_created_at = None, rp_last_activity_at = None, rp_idle_deadline_at = None, rp_absolute_deadline_at = None,
     rp_output_cursor = None, rp_output_offset = None, rp_next_offset = None, rp_output = None, rp_admitted = None,
     rp_write_accepted = None, rp_unverified = False, rp_session_status = None,
     rp_channel_close_attempted = False, rp_transport_close_attempted = False, rp_remote_descendants = None\<rparr>"

definition op_reply :: "string \<Rightarrow> status \<Rightarrow> reply" where
  "op_reply op st = (bare st)\<lparr>rp_operation_id := Some op\<rparr>"

definition op_error :: "string \<Rightarrow> status \<Rightarrow> string \<Rightarrow> reply" where
  "op_error op st e = (op_reply op st)\<lparr>rp_error := Some e\<rparr>"

definition session_error :: "string \<Rightarrow> string \<Rightarrow> string \<Rightarrow> reply" where
  "session_error op session e = (op_error op Failed e)\<lparr>rp_session_id := Some session\<rparr>"

datatype arg_scalar = SStr string | SNum int | SBool bool | SNull

record intent =
  in_tool :: string
  in_hostId :: string
  in_sessionId :: "string option"
  in_args :: "arg_scalar list"

definition lower :: "string \<Rightarrow> string" where "lower s = map to_lower s"

definition canonicalOperationDigest :: "(intent \<Rightarrow> string) \<Rightarrow> intent \<Rightarrow> string" where
  \<comment> \<open>\<open>sha\<close>: the digest of the JSON text of the four fields\<close>
  "canonicalOperationDigest sha i =
    sha (i\<lparr>in_hostId := lower (in_hostId i), in_sessionId := map_option lower (in_sessionId i)\<rparr>)"

section \<open>The state\<close>

record op_row =
  op_id :: string
  op_digest :: string
  op_host :: string
  op_status :: status
  op_result :: "reply option"
  op_created :: int

record lease =
  ls_operation_id :: string
  ls_host :: string
  ls_created :: int

record managed =
  mg_session_id :: string
  mg_operation_id :: string
  mg_host :: string
  mg_status :: status
  mg_created :: int
  mg_last_activity :: int
  mg_absolute_deadline :: int

record live_session =
  lv_session_id :: string
  lv_operation_id :: string
  lv_host :: string
  lv_created :: int
  lv_last_activity :: int
  lv_absolute_deadline :: int
  lv_ring :: output_ring
  lv_security_digest :: string
  lv_release :: status
  lv_settled :: bool  \<comment> \<open>the promise \<open>settled\<close> exists\<close>

datatype effect =
    CommandStarted string
  | SftpMutation string
  | ShellOpened string
  | InputWritten string string string  \<comment> \<open>operation, session, input\<close>
  | ShellClosed string

record ssh_core =
  do_operations :: "op_row list"
  do_leases :: "lease list"
  do_managed :: "managed list"
  do_sessions :: "live_session list"
  do_unresolved :: "string list"
  do_alarm :: "int option"
  do_effects :: "effect list"

text \<open>
  The object as its handlers see it. The last field is not the object's: it is where an environment that
  cuts the run of a handler into segments keeps the state in which the running segment began and the
  finished segments, each with its first and last state. No handler reads or writes it.
\<close>

record ssh_do = ssh_core +
  do_segments :: "ssh_core \<times> (ssh_core \<times> ssh_core) list"

definition DAY :: int where "DAY = 24 * 60 * 60 * 1000"
definition RECEIPT_RETENTION_MS :: int where "RECEIPT_RETENTION_MS = 30 * DAY"
definition RECEIPT_CLEANUP_BATCH_SIZE :: nat where "RECEIPT_CLEANUP_BATCH_SIZE = 50"
definition SESSION_IDLE_MS :: int where "SESSION_IDLE_MS = 10 * 60 * 1000"
definition SESSION_MAX_AGE_MS :: int where "SESSION_MAX_AGE_MS = 60 * 60 * 1000"
definition HOST_CONNECTION_LIMIT :: nat where "HOST_CONNECTION_LIMIT = 2"
definition TOTAL_CONNECTION_LIMIT :: nat where "TOTAL_CONNECTION_LIMIT = 4"

definition operation_of :: "'z ssh_core_scheme \<Rightarrow> string \<Rightarrow> op_row option" where
  "operation_of s op = List.find (\<lambda>r. op_id r = op) (do_operations s)"

definition session_of :: "ssh_do \<Rightarrow> string \<Rightarrow> live_session option" where
  "session_of s i = List.find (\<lambda>v. lv_session_id v = i) (do_sessions s)"

definition sessionRow :: "ssh_do \<Rightarrow> string \<Rightarrow> managed option" where
  "sessionRow s i = List.find (\<lambda>r. mg_session_id r = i) (do_managed s)"

definition upd_operation :: "string \<Rightarrow> (op_row \<Rightarrow> op_row) \<Rightarrow> ssh_do \<Rightarrow> ssh_do" where
  "upd_operation op f s = s\<lparr>do_operations := upd_rows (\<lambda>r. op_id r = op) f (do_operations s)\<rparr>"

definition upd_session :: "string \<Rightarrow> (live_session \<Rightarrow> live_session) \<Rightarrow> ssh_do \<Rightarrow> ssh_do" where
  "upd_session i f s = s\<lparr>do_sessions := upd_rows (\<lambda>v. lv_session_id v = i) f (do_sessions s)\<rparr>"

definition upd_managed :: "(managed \<Rightarrow> bool) \<Rightarrow> (managed \<Rightarrow> managed) \<Rightarrow> ssh_do \<Rightarrow> ssh_do" where
  "upd_managed g f s = s\<lparr>do_managed := upd_rows g f (do_managed s)\<rparr>"

definition drop_lease :: "string \<Rightarrow> ssh_do \<Rightarrow> ssh_do" where
  "drop_lease op s = s\<lparr>do_leases := filter (\<lambda>l. ls_operation_id l \<noteq> op) (do_leases s)\<rparr>"

definition emit :: "effect \<Rightarrow> ssh_do \<Rightarrow> ssh_do" where
  "emit e s = s\<lparr>do_effects := do_effects s @ [e]\<rparr>"

section \<open>Start of the object\<close>

definition start_object :: "'z ssh_core_scheme \<Rightarrow> 'z ssh_core_scheme" where
  \<comment> \<open>the constructor: the fields in memory are new, the tables are kept\<close>
  "start_object s =
    s\<lparr>do_sessions := [], do_unresolved := [],
      do_managed := upd_rows (\<lambda>r. mg_status r \<in> {Live, Closing}) (\<lambda>r. r\<lparr>mg_status := Lost\<rparr>) (do_managed s),
      do_operations := upd_rows (\<lambda>r. op_status r \<in> {Admitted, Running})
        (\<lambda>r. r\<lparr>op_status := Unknown, op_result := None\<rparr>) (do_operations s),
      do_leases := []\<rparr>"

section \<open>Claiming an operation\<close>

datatype admission = Admission | Existing op_row | Capacity

definition prunable :: "int \<Rightarrow> op_row \<Rightarrow> bool" where
  "prunable now r \<longleftrightarrow> op_status r \<in> {Completed, Failed} \<and> op_created r \<le> now - RECEIPT_RETENTION_MS"

definition prune :: "string list \<Rightarrow> int \<Rightarrow> op_row list \<Rightarrow> op_row list" where
  \<comment> \<open>\<open>picked\<close>: the rows that the unordered SELECT with its LIMIT finds\<close>
  "prune picked now rows =
    filter (\<lambda>r. \<not> (prunable now r \<and> op_id r \<in> set (take RECEIPT_CLEANUP_BATCH_SIZE picked))) rows"

definition at_capacity :: "string \<Rightarrow> ssh_do \<Rightarrow> bool" where
  "at_capacity host s \<longleftrightarrow> length (do_leases s) \<ge> TOTAL_CONNECTION_LIMIT \<or>
     length (filter (\<lambda>l. ls_host l = host) (do_leases s)) \<ge> HOST_CONNECTION_LIMIT"

definition has_lease :: "string \<Rightarrow> ssh_do \<Rightarrow> bool" where
  "has_lease op s \<longleftrightarrow> list_ex (\<lambda>l. ls_operation_id l = op) (do_leases s)"

definition claimOperation ::
  "bool \<Rightarrow> string list \<Rightarrow> string \<Rightarrow> string \<Rightarrow> string \<Rightarrow> int \<Rightarrow> bool \<Rightarrow> ssh_do \<Rightarrow> admission option \<times> ssh_do" where
  \<comment> \<open>None: the transaction threw (a storage fault, or a lease of this operation that was never released)\<close>
  "claimOperation ok picked op host digest now reserve s =
    (if \<not> ok then (None, s)
     else
       let rows = prune picked now (do_operations s)
       in case List.find (\<lambda>r. op_id r = op) rows of
            Some r \<Rightarrow> (Some (Existing r), s\<lparr>do_operations := rows\<rparr>)
          | None \<Rightarrow>
              if reserve \<and> at_capacity host s then (Some Capacity, s\<lparr>do_operations := rows\<rparr>)
              else if reserve \<and> has_lease op s then (None, s)
              else (Some Admission, s\<lparr>do_operations := rows @ [\<lparr>op_id = op, op_digest = digest, op_host = host,
                       op_status = Admitted, op_result = None, op_created = now\<rparr>],
                     do_leases := do_leases s @
                       (if reserve then [\<lparr>ls_operation_id = op, ls_host = host, ls_created = now\<rparr>] else [])\<rparr>))"

definition reserveConnection :: "bool \<Rightarrow> string \<Rightarrow> string \<Rightarrow> int \<Rightarrow> ssh_do \<Rightarrow> bool option \<times> ssh_do" where
  \<comment> \<open>the lease id is random; Some False: capacity\<close>
  "reserveConnection ok lease_id host now s =
    (if \<not> ok then (None, s)
     else if at_capacity host s then (Some False, s)
     else if has_lease lease_id s then (None, s)
     else (Some True, s\<lparr>do_leases := do_leases s @
       [\<lparr>ls_operation_id = lease_id, ls_host = host, ls_created = now\<rparr>]\<rparr>))"

definition releaseLease :: "bool \<Rightarrow> bool \<Rightarrow> string \<Rightarrow> ssh_do \<Rightarrow> ssh_do" where
  \<comment> \<open>the two attempts\<close>
  "releaseLease ok1 ok2 op s = (if ok1 \<or> ok2 then drop_lease op s else s)"

section \<open>Writing a receipt\<close>

definition set_running :: "string \<Rightarrow> ssh_do \<Rightarrow> ssh_do" where
  "set_running op = upd_operation op (\<lambda>r. r\<lparr>op_status := Running\<rparr>)"

definition set_receipt :: "string \<Rightarrow> reply \<Rightarrow> ssh_do \<Rightarrow> ssh_do" where
  "set_receipt op r = upd_operation op (\<lambda>x. x\<lparr>op_status := rp_status r, op_result := Some r\<rparr>)"

definition resolve :: "string \<Rightarrow> ssh_do \<Rightarrow> ssh_do" where
  "resolve op s = s\<lparr>do_unresolved := removeAll op (do_unresolved s)\<rparr>"

definition persistUncertainOutcome :: "bool \<Rightarrow> bool \<Rightarrow> string \<Rightarrow> ssh_do \<Rightarrow> reply \<times> ssh_do" where
  "persistUncertainOutcome ok1 ok2 op s =
    (let r = op_error op Unknown ''unknown_outcome''
     in (r, if ok1 then resolve op (set_receipt op r s)
            else if ok2 then resolve op (upd_operation op (\<lambda>x. x\<lparr>op_status := Unknown\<rparr>) s)
            else s\<lparr>do_unresolved := List.insert op (do_unresolved s)\<rparr>))"

definition storeEffectResult :: "bool \<Rightarrow> bool \<Rightarrow> bool \<Rightarrow> string \<Rightarrow> reply \<Rightarrow> ssh_do \<Rightarrow> reply \<times> ssh_do" where
  "storeEffectResult ok ok1 ok2 op r s =
    (if ok then (r, resolve op (set_receipt op r s))
     else
       let (u, s') = persistUncertainOutcome ok1 ok2 op s
       in (r\<lparr>rp_operation_id := rp_operation_id u, rp_status := rp_status u, rp_error := rp_error u,
             rp_unverified := True, rp_write_accepted := None\<rparr>, s'))"

definition mutation_receipt :: "string \<Rightarrow> reply \<Rightarrow> reply" where
  "mutation_receipt op r =
    (op_reply op (rp_status r))\<lparr>rp_bytes := rp_bytes r, rp_error := rp_error r, rp_partial_write := rp_partial_write r\<rparr>"

definition persistMutationReceipt :: "bool \<Rightarrow> bool \<Rightarrow> bool \<Rightarrow> string \<Rightarrow> reply \<Rightarrow> bool \<Rightarrow> ssh_do \<Rightarrow> reply \<times> ssh_do" where
  "persistMutationReceipt ok ok1 ok2 op r partialWrite s =
    (let stored = mutation_receipt op r
     in if ok then (stored, set_receipt op stored s)
        else
          let (u, s') = persistUncertainOutcome ok1 ok2 op s;
              uncertainEffect = (rp_status r = Completed \<or> rp_status r = Unknown \<or> rp_partial_write r)
          in ((op_error op Unknown (case rp_error u of Some e \<Rightarrow> e | None \<Rightarrow> ''unknown_outcome''))
                \<lparr>rp_partial_write := partialWrite \<and> uncertainEffect\<rparr>, s'))"

section \<open>Answering from a receipt\<close>

definition existingMutationReply :: "string \<Rightarrow> string \<Rightarrow> op_row \<Rightarrow> bool \<Rightarrow> ssh_do \<Rightarrow> reply" where
  "existingMutationReply op digest r partialWrite s =
    (if op_digest r \<noteq> digest then op_error op Failed ''receipt_conflict''
     else if op \<in> set (do_unresolved s) \<or> op_status r = Unknown \<or> op_status r = Admitted
     then op_error op Unknown ''unknown_outcome''
     else case op_result r of
       Some x \<Rightarrow> x
     | None \<Rightarrow>
         if op_status r = Running then (op_error op Unknown ''unknown_outcome'')\<lparr>rp_partial_write := partialWrite\<rparr>
         else op_reply op (op_status r))"

definition existingStartReply :: "string \<Rightarrow> string \<Rightarrow> op_row \<Rightarrow> ssh_do \<Rightarrow> reply" where
  "existingStartReply op digest r s =
    (if op_digest r \<noteq> digest then op_error op Failed ''receipt_conflict''
     else if op \<in> set (do_unresolved s) \<or> op_status r = Unknown \<or> op_status r = Admitted
     then op_error op Unknown ''unknown_outcome''
     else case op_result r of Some x \<Rightarrow> x | None \<Rightarrow> op_reply op (op_status r))"

definition existingExecReply :: "string \<Rightarrow> string \<Rightarrow> string \<Rightarrow> op_row \<Rightarrow> reply" where
  \<comment> \<open>the branch of \<open>execute\<close>; the second digest is the legacy one\<close>
  "existingExecReply op digest legacy r =
    (if op_digest r \<noteq> digest \<and> op_digest r \<noteq> legacy then op_error op Failed ''receipt_conflict''
     else case op_result r of
       Some x \<Rightarrow> x
     | None \<Rightarrow> op_reply op (if op_status r = Admitted then Unknown else op_status r))"

end
