(* ===== verification/SshOperations.thy ===== *)
theory SshOperations
  imports SshStore
begin

text \<open>
  The handlers of \<open>SshOperationsDO\<close> (\<open>apps/ssh-mcp-worker/src/operations.ts\<close>) for commands, SFTP and
  the deadlines of sessions. A handler is one function; what other handlers do while it awaits is
  the function \<open>ev_aw\<close> of its environment, the result of each storage call is \<open>ev_ok\<close>, each reading
  of the clock is \<open>ev_clk\<close>, all three by their number in the handler. A part of a handler with
  an environment of its own takes the numbers from an offset (\<open>from_nr\<close>).
\<close>

section \<open>The environment of a handler\<close>

record env =
  ev_aw :: "nat \<Rightarrow> ssh_do \<Rightarrow> ssh_do"
  ev_ok :: "nat \<Rightarrow> bool"
  ev_clk :: "nat \<Rightarrow> int"

definition from_nr :: "nat \<Rightarrow> env \<Rightarrow> env" where
  "from_nr k e = \<lparr>ev_aw = (\<lambda>n. ev_aw e (n + k)), ev_ok = (\<lambda>n. ev_ok e (n + k)), ev_clk = (\<lambda>n. ev_clk e (n + k))\<rparr>"

lemma from_nr_simps [simp]:
  "ev_aw (from_nr k e) n = ev_aw e (n + k)" "ev_ok (from_nr k e) n = ev_ok e (n + k)"
  "ev_clk (from_nr k e) n = ev_clk e (n + k)"
  by (simp_all add: from_nr_def)

section \<open>Deadlines of sessions\<close>

definition session_deadline :: "live_session \<Rightarrow> int" where
  "session_deadline v = min (lv_last_activity v + SESSION_IDLE_MS) (lv_absolute_deadline v)"

definition next_deadline :: "live_session list \<Rightarrow> int option" where
  "next_deadline vs =
    (let ds = map session_deadline (filter (\<lambda>v. lv_release v = Live) vs)
     in case ds of [] \<Rightarrow> None | d # rest \<Rightarrow> Some (foldl min d rest))"

definition scheduleSessionAlarm :: "env \<Rightarrow> ssh_do \<Rightarrow> bool \<times> ssh_do" where
  \<comment> \<open>False: the alarm call threw\<close>
  "scheduleSessionAlarm e s =
    (case next_deadline (do_sessions s) of
       Some d \<Rightarrow> if ev_ok e 0 then (True, ev_aw e 0 (s\<lparr>do_alarm := Some d\<rparr>)) else (False, ev_aw e 0 s)
     | None \<Rightarrow>
         let s1 = ev_aw e 0 s
         in if do_alarm s1 = None then (ev_ok e 0, s1)
            else if ev_ok e 0 then (True, ev_aw e 1 (s1\<lparr>do_alarm := None\<rparr>)) else (False, ev_aw e 1 s1))"

definition release_rows :: "string \<Rightarrow> string \<Rightarrow> status \<Rightarrow> ssh_do \<Rightarrow> ssh_do" where
  \<comment> \<open>the transaction of \<open>finishSession\<close>: session, operation\<close>
  "release_rows i op st s =
    drop_lease op (upd_managed (\<lambda>r. mg_session_id r = i \<and> mg_status r \<in> {Live, Closing}) (\<lambda>r. r\<lparr>mg_status := st\<rparr>) s)"

definition finishSession :: "env \<Rightarrow> live_session \<Rightarrow> status \<Rightarrow> ssh_do \<Rightarrow> bool \<times> ssh_do" where
  "finishSession e v st s =
    (let i = lv_session_id v;
         s1 = (if ev_ok e 0 then upd_managed (\<lambda>r. mg_session_id r = i \<and> mg_status r = Live) (\<lambda>r. r\<lparr>mg_status := Closing\<rparr>) s
               else s);
         s2 = ev_aw e 0 (emit (ShellClosed i) s1);
         s3 = (if ev_ok e 1 \<or> ev_ok e 2 then release_rows i (lv_operation_id v) st s2 else s2)
     in scheduleSessionAlarm (from_nr 3 e) s3)"

definition settleSession :: "env \<Rightarrow> string \<Rightarrow> status \<Rightarrow> ssh_do \<Rightarrow> bool \<times> ssh_do" where
  \<comment> \<open>False: the returned promise rejects; one that exists already is awaited\<close>
  "settleSession e i st s =
    (case session_of s i of
       None \<Rightarrow> (True, s)
     | Some v \<Rightarrow>
         if lv_settled v then (ev_ok e 0, ev_aw e 0 s)
         else
           let s1 = upd_session i (\<lambda>x. x\<lparr>lv_release := (if lv_release x = Live then Closing else lv_release x),
                 lv_settled := True\<rparr>) s;
               (ok, s2) = finishSession (from_nr 1 e) v st s1
           in (ok, upd_session i (\<lambda>x. if lv_release x = Closing then x\<lparr>lv_release := st\<rparr> else x) s2))"

definition sessionExpired :: "live_session \<Rightarrow> int \<Rightarrow> bool" where
  "sessionExpired v now \<longleftrightarrow> now \<ge> lv_last_activity v + SESSION_IDLE_MS \<or> now \<ge> lv_absolute_deadline v"

definition forget_lost :: "env \<Rightarrow> managed \<Rightarrow> ssh_do \<Rightarrow> bool \<times> ssh_do" where
  \<comment> \<open>a row without a session in memory\<close>
  "forget_lost e r s =
    (if \<not> ev_ok e 0 then (False, s)
     else
       let s1 = upd_managed (\<lambda>x. mg_session_id x = mg_session_id r \<and> mg_status x \<in> {Live, Closing})
             (\<lambda>x. x\<lparr>mg_status := Lost\<rparr>) s
       in if \<not> ev_ok e 1 then (False, s1) else (True, drop_lease (mg_operation_id r) s1))"

definition expire_session :: "env \<Rightarrow> string \<Rightarrow> ssh_do \<Rightarrow> bool \<times> ssh_do" where
  \<comment> \<open>the queued task: it waits for the tasks before it and looks again\<close>
  "expire_session e i s =
    (let s1 = ev_aw e 0 s
     in case session_of s1 i of
          None \<Rightarrow> (True, s1)
        | Some v \<Rightarrow>
            if lv_release v \<noteq> Live \<or> \<not> sessionExpired v (ev_clk e 0) then (True, s1)
            else settleSession (from_nr 1 e) i Closed s1)"

definition sweep_row :: "env \<Rightarrow> int \<Rightarrow> managed \<Rightarrow> ssh_do \<Rightarrow> bool \<times> ssh_do" where
  "sweep_row e now r s =
    (case session_of s (mg_session_id r) of
       None \<Rightarrow> forget_lost e r s
     | Some v \<Rightarrow>
         if lv_release v \<noteq> Live then (True, s)
         else if sessionExpired v now then expire_session e (mg_session_id r) s else (True, s))"

primrec sweep_rows :: "env \<Rightarrow> int \<Rightarrow> managed list \<Rightarrow> ssh_do \<Rightarrow> bool \<times> ssh_do" where
  \<comment> \<open>an exception ends the loop\<close>
  "sweep_rows e now [] s = (True, s)"
| "sweep_rows e now (r # rs) s =
     (let (ok, s1) = sweep_row (from_nr (10 * length rs) e) now r s
      in if ok then sweep_rows e now rs s1 else (False, s1))"

definition sweepSessions :: "env \<Rightarrow> ssh_do \<Rightarrow> bool \<times> ssh_do" where
  "sweepSessions e s =
    (if \<not> ev_ok e 0 then (False, s)
     else
       let rows = filter (\<lambda>r. mg_status r \<in> {Live, Closing}) (do_managed s);
           (ok, s1) = sweep_rows (from_nr 10 e) (ev_clk e 0) rows s
       in if ok then scheduleSessionAlarm (from_nr 1 e) s1 else (False, s1))"

definition enforceSessionDeadlines :: "env \<Rightarrow> ssh_do \<Rightarrow> bool \<times> ssh_do" where
  \<comment> \<open>the sweeps run one after the other: the first pause is the wait for the one before\<close>
  "enforceSessionDeadlines e s = sweepSessions (from_nr 1 e) (ev_aw e 0 s)"

section \<open>Running a claimed operation\<close>

definition unavailable_reply :: "string \<Rightarrow> reply" where
  "unavailable_reply op = op_error op Failed ''receipt_store_unavailable''"

record claim_request =
  cr_op :: string
  cr_host :: string
  cr_digest :: string
  cr_picked :: "string list"
  cr_reserve :: bool

definition claim :: "env \<Rightarrow> claim_request \<Rightarrow> ssh_do \<Rightarrow> admission option \<times> ssh_do" where
  "claim e c s = claimOperation (ev_ok e 0) (cr_picked c) (cr_op c) (cr_host c) (cr_digest c) (ev_clk e 0) (cr_reserve c) s"

section \<open>Commands\<close>

record exec_request =
  er_hostId :: string
  er_operationId :: string
  er_command :: string
  er_timeoutMs :: int

definition exec_as_reply :: "string \<Rightarrow> exec_reply \<Rightarrow> reply" where
  "exec_as_reply op r =
    (op_reply op (ex_status r))\<lparr>rp_stdout := ex_stdout r, rp_stderr := ex_stderr r, rp_exit_code := ex_exit_code r,
      rp_truncated := (if ex_status r = Completed then Some (ex_truncated r) else None), rp_error := ex_error r\<rparr>"

definition exec_receipt :: "string \<Rightarrow> reply \<Rightarrow> reply" where
  \<comment> \<open>without the output\<close>
  "exec_receipt op r =
    (op_reply op (rp_status r))\<lparr>rp_exit_code := rp_exit_code r,
      rp_truncated := (if rp_truncated r = Some True then Some True else None), rp_error := rp_error r\<rparr>"

definition exec_intent :: "exec_request \<Rightarrow> intent" where
  "exec_intent q = \<lparr>in_tool = ''ssh_exec'', in_hostId = lower (er_hostId q), in_sessionId = None,
     in_args = [SStr (er_command q), SNum (er_timeoutMs q)]\<rparr>"

definition finish_exec :: "env \<Rightarrow> string \<Rightarrow> reply \<Rightarrow> ssh_do \<Rightarrow> reply \<times> ssh_do" where
  \<comment> \<open>store the receipt, release the lease\<close>
  "finish_exec e op r s =
    (let (r', s1) = (if ev_ok e 0 then (r, set_receipt op (exec_receipt op r) s)
                     else (op_error op Unknown ''unknown_outcome'', s))
     in (r', releaseLease (ev_ok e 1) (ev_ok e 2) op s1))"

definition run_exec :: "env \<Rightarrow> string \<Rightarrow> exec_reply \<times> bool \<Rightarrow> ssh_do \<Rightarrow> reply \<times> ssh_do" where
  \<comment> \<open>after the claim: mark, dispatch, store\<close>
  "run_exec e op outcome s =
    (if \<not> ev_ok e 1 then (unavailable_reply op, releaseLease (ev_ok e 2) (ev_ok e 3) op s)
     else
       let s1 = set_running op s;
           s2 = ev_aw e 0 (if snd outcome then emit (CommandStarted op) s1 else s1)
       in finish_exec (from_nr 4 e) op (exec_as_reply op (fst outcome)) s2)"

definition execute ::
  "(intent \<Rightarrow> string) \<Rightarrow> (exec_request \<Rightarrow> string) \<Rightarrow> env \<Rightarrow> string list \<Rightarrow> exec_request \<Rightarrow> exec_reply \<times> bool \<Rightarrow>
     ssh_do \<Rightarrow> reply \<times> ssh_do" where
  \<comment> \<open>\<open>outcome\<close>: what \<open>runSshExec\<close> gives in the world of this run\<close>
  "execute sha legacy e picked q outcome s =
    (let op = lower (er_operationId q); q' = q\<lparr>er_hostId := lower (er_hostId q)\<rparr>;
         (ok, s1) = enforceSessionDeadlines (from_nr 20 e) s
     in if \<not> ok then (unavailable_reply op, s1)
        else
          let digest = canonicalOperationDigest sha (exec_intent q');
              s2 = ev_aw e 0 s1;
              (admission, s3) = claim (from_nr 1 e) \<lparr>cr_op = op, cr_host = er_hostId q', cr_digest = digest,
                cr_picked = picked, cr_reserve = True\<rparr> s2
          in case admission of
               None \<Rightarrow> (unavailable_reply op, s3)
             | Some Capacity \<Rightarrow> (op_error op Failed ''capacity_reached'', s3)
             | Some (Existing r) \<Rightarrow>
                 (existingExecReply op digest (legacy q') r,
                  if op_digest r \<noteq> digest then ev_aw e 2 s3 else s3)
             | Some Admission \<Rightarrow> run_exec (from_nr 2 e) op outcome s3)"

definition getOperationStatus :: "env \<Rightarrow> string \<Rightarrow> ssh_do \<Rightarrow> reply option \<times> ssh_do" where
  "getOperationStatus e operationId s =
    (if \<not> UUID operationId then (None, s)
     else
       let op = lower operationId; (ok, s1) = enforceSessionDeadlines e s
       in if \<not> ok then (Some (unavailable_reply op), s1)
          else (case operation_of s1 op of
            None \<Rightarrow> None
          | Some r \<Rightarrow>
              Some (if op \<in> set (do_unresolved s1) then op_error op Unknown ''unknown_outcome''
                    else case op_result r of
                      Some x \<Rightarrow> x
                    | None \<Rightarrow> op_reply (op_id r) (if op_status r = Admitted then Unknown else op_status r)), s1))"

section \<open>SFTP\<close>

definition effect_as_reply :: "string \<Rightarrow> sftp_effect \<Rightarrow> reply" where
  "effect_as_reply op x =
    (case x of
       EffectCompleted n \<Rightarrow> (op_reply op Completed)\<lparr>rp_bytes := n\<rparr>
     | EffectFailed reason \<Rightarrow> op_error op Failed reason
     | EffectUnknown reason partial \<Rightarrow> (op_error op Unknown reason)\<lparr>rp_partial_write := partial\<rparr>)"

definition finish_mutation :: "env \<Rightarrow> string \<Rightarrow> bool \<Rightarrow> sftp_effect \<times> bool \<Rightarrow> ssh_do \<Rightarrow> reply \<times> ssh_do" where
  \<comment> \<open>after the claim: mark, run, store, release\<close>
  "finish_mutation e op partialWrite outcome s =
    (if \<not> ev_ok e 0 then (unavailable_reply op, releaseLease (ev_ok e 1) (ev_ok e 2) op s)
     else
       let s1 = set_running op s;
           s2 = ev_aw e 0 (if snd outcome then emit (SftpMutation op) s1 else s1);
           (r, s3) = persistMutationReceipt (ev_ok e 3) (ev_ok e 4) (ev_ok e 5) op (effect_as_reply op (fst outcome))
             partialWrite s2
       in (r, releaseLease (ev_ok e 6) (ev_ok e 7) op s3))"

definition runMutatingSftp ::
  "env \<Rightarrow> string list \<Rightarrow> string \<Rightarrow> string \<Rightarrow> string \<Rightarrow> bool \<Rightarrow> sftp_effect \<times> bool \<Rightarrow> ssh_do \<Rightarrow> reply \<times> ssh_do" where
  "runMutatingSftp e picked host op digest partialWrite outcome s =
    (let (admission, s1) = claim e \<lparr>cr_op = op, cr_host = host, cr_digest = digest, cr_picked = picked,
           cr_reserve = True\<rparr> s
     in case admission of
          None \<Rightarrow> (unavailable_reply op, s1)
        | Some Capacity \<Rightarrow> (op_error op Failed ''capacity_reached'', s1)
        | Some (Existing r) \<Rightarrow> (existingMutationReply op digest r partialWrite s1, s1)
        | Some Admission \<Rightarrow> finish_mutation (from_nr 1 e) op partialWrite outcome s1)"

definition mutation_handler ::
  "(intent \<Rightarrow> string) \<Rightarrow> env \<Rightarrow> string list \<Rightarrow> string option \<Rightarrow> string \<Rightarrow> intent \<Rightarrow> bool \<Rightarrow> sftp_effect \<times> bool \<Rightarrow>
     ssh_do \<Rightarrow> reply \<times> ssh_do" where
  \<comment> \<open>the common course of the four handlers: arguments, deadlines, digest, run\<close>
  "mutation_handler sha e picked invalid op i partialWrite outcome s =
    (case invalid of
       Some reason \<Rightarrow> (op_error op Failed reason, s)
     | None \<Rightarrow>
         let (ok, s1) = enforceSessionDeadlines (from_nr 20 e) s
         in if \<not> ok then (unavailable_reply op, s1)
            else runMutatingSftp (from_nr 1 e) picked (in_hostId i) op (canonicalOperationDigest sha i) partialWrite
                   outcome (ev_aw e 0 s1))"

definition sftp_intent :: "string \<Rightarrow> string \<Rightarrow> arg_scalar list \<Rightarrow> intent" where
  "sftp_intent tool host args = \<lparr>in_tool = tool, in_hostId = host, in_sessionId = None, in_args = args\<rparr>"

definition writeText ::
  "(intent \<Rightarrow> string) \<Rightarrow> env \<Rightarrow> string list \<Rightarrow> string \<Rightarrow> string \<Rightarrow> string \<Rightarrow> string \<Rightarrow> bool \<Rightarrow> js_int \<Rightarrow>
     sftp_effect \<times> bool \<Rightarrow> ssh_do \<Rightarrow> reply \<times> ssh_do" where
  "writeText sha e picked hostId operationId path contents overwrite timeoutMs outcome =
    mutation_handler sha e picked
      (validSftpWriteInput (lower hostId) (lower operationId) path contents (Some overwrite) timeoutMs)
      (lower operationId)
      (sftp_intent ''sftp_write'' (lower hostId) [SStr path, SStr contents, SBool overwrite]) True outcome"

definition renamePath ::
  "(intent \<Rightarrow> string) \<Rightarrow> env \<Rightarrow> string list \<Rightarrow> string \<Rightarrow> string \<Rightarrow> string \<Rightarrow> string \<Rightarrow> bool \<Rightarrow> js_int \<Rightarrow>
     sftp_effect \<times> bool \<Rightarrow> ssh_do \<Rightarrow> reply \<times> ssh_do" where
  "renamePath sha e picked hostId operationId oldPath newPath overwrite timeoutMs outcome =
    mutation_handler sha e picked
      (validSftpRenameInput (lower hostId) (lower operationId) oldPath newPath (Some overwrite) timeoutMs)
      (lower operationId)
      (sftp_intent ''sftp_rename'' (lower hostId) [SStr oldPath, SStr newPath, SBool overwrite]) False outcome"

definition deletePath ::
  "(intent \<Rightarrow> string) \<Rightarrow> env \<Rightarrow> string list \<Rightarrow> string \<Rightarrow> string \<Rightarrow> string \<Rightarrow> string \<Rightarrow> bool \<Rightarrow> js_int \<Rightarrow>
     sftp_effect \<times> bool \<Rightarrow> ssh_do \<Rightarrow> reply \<times> ssh_do" where
  "deletePath sha e picked hostId operationId path kind confirm timeoutMs outcome =
    mutation_handler sha e picked
      (validSftpDeleteInput (lower hostId) (lower operationId) path (Some kind) (Some confirm) None timeoutMs)
      (lower operationId)
      (sftp_intent ''sftp_delete'' (lower hostId) [SStr path, SStr kind, SBool True]) False outcome"

definition makeDirectory ::
  "(intent \<Rightarrow> string) \<Rightarrow> env \<Rightarrow> string list \<Rightarrow> string \<Rightarrow> string \<Rightarrow> string \<Rightarrow> js_int \<Rightarrow>
     sftp_effect \<times> bool \<Rightarrow> ssh_do \<Rightarrow> reply \<times> ssh_do" where
  "makeDirectory sha e picked hostId operationId path timeoutMs outcome =
    mutation_handler sha e picked
      (validSftpMkdirInput (lower hostId) (lower operationId) path timeoutMs) (lower operationId)
      (sftp_intent ''sftp_mkdir'' (lower hostId) [SStr path]) False outcome"

definition runSftp :: "env \<Rightarrow> string \<Rightarrow> string \<Rightarrow> string \<Rightarrow> js_int \<Rightarrow> sftp_reply \<Rightarrow> ssh_do \<Rightarrow> sftp_reply \<times> ssh_do" where
  \<comment> \<open>reading: a lease under a random id, no receipt\<close>
  "runSftp e lease_id hostId path timeoutMs outcome s =
    (case validSftpInput (lower hostId) path timeoutMs of
       Some reason \<Rightarrow> (SftpFailed reason, s)
     | None \<Rightarrow>
         let (ok, s1) = enforceSessionDeadlines (from_nr 20 e) s
         in if \<not> ok then (SftpFailed ''receipt_store_unavailable'', s1)
            else case reserveConnection (ev_ok e 0) lease_id (lower hostId) (ev_clk e 0) s1 of
              (None, s2) \<Rightarrow> (SftpFailed ''receipt_store_unavailable'', s2)
            | (Some False, s2) \<Rightarrow> (SftpFailed ''capacity_reached'', s2)
            | (Some True, s2) \<Rightarrow> (outcome, releaseLease (ev_ok e 1) (ev_ok e 2) lease_id (ev_aw e 0 s2)))"

definition listDirectory :: "env \<Rightarrow> string \<Rightarrow> string \<Rightarrow> string \<Rightarrow> js_int \<Rightarrow> sftp_reply sftp_world \<Rightarrow> ssh_do \<Rightarrow> sftp_reply \<times> ssh_do" where
  \<comment> \<open>the world's operation is \<open>readDirectory\<close> of what the server lists\<close>
  "listDirectory e lease_id hostId path timeoutMs w = runSftp e lease_id hostId path timeoutMs (runBoundedSftp w read_only_error)"

definition readText :: "env \<Rightarrow> string \<Rightarrow> string \<Rightarrow> string \<Rightarrow> js_int \<Rightarrow> sftp_reply sftp_world \<Rightarrow> ssh_do \<Rightarrow> sftp_reply \<times> ssh_do" where
  \<comment> \<open>the world's operation is \<open>readUtf8File\<close> of what the server returns\<close>
  "readText e lease_id hostId path timeoutMs w = runSftp e lease_id hostId path timeoutMs (runBoundedSftp w read_only_error)"

end
