(* ===== verification/SshSessions.thy ===== *)
theory SshSessions
  imports SshOperations
begin

text \<open>
  The managed shell sessions of \<open>SshOperationsDO\<close> (\<open>apps/ssh-mcp-worker/src/operations.ts\<close>): start,
  output, status, input, stop, and the end that a session comes to by itself.
\<close>

section \<open>Opening a shell\<close>

record shell_world =
  h_credentials :: "thrown + ssh_host_credentials"
  h_resolve :: "string \<Rightarrow> thrown + string"
  h_connect :: "ssh_host_credentials \<Rightarrow> string \<Rightarrow> thrown + unit"
  h_shell :: "thrown + unit"
  h_times_out :: bool  \<comment> \<open>the timer of 30 seconds fires first\<close>
  h_socket :: bool  \<comment> \<open>\<open>openSocket\<close> was called\<close>

definition openManagedShell ::
  "(ssh_host_credentials \<Rightarrow> string) \<Rightarrow> shell_world \<Rightarrow> thrown + string" where
  \<comment> \<open>the security digest of the opened shell\<close>
  "openManagedShell security w =
    bindE (h_credentials w) (\<lambda>saved.
    bindE (check_target saved) (\<lambda>_.
    bindE (h_resolve w (shc_host saved)) (\<lambda>ip.
    bindE (h_connect w saved ip) (\<lambda>_.
    if h_times_out w then Inl (JsError ''shell_timeout'')
    else bindE (h_shell w) (\<lambda>_.
      if \<not> h_socket w then Inl (JsError ''shell_observed'') else Inr (security saved))))))"

definition asks_shell :: "shell_world \<Rightarrow> bool" where
  \<comment> \<open>the request for a shell is sent\<close>
  "asks_shell w \<longleftrightarrow>
     (case h_credentials w of
        Inl _ \<Rightarrow> False
      | Inr saved \<Rightarrow> check_target saved = Inr () \<and>
          (case h_resolve w (shc_host saved) of Inl _ \<Rightarrow> False | Inr ip \<Rightarrow> h_connect w saved ip = Inr ()))"

section \<open>Views\<close>

definition sessionView :: "live_session \<Rightarrow> managed option \<Rightarrow> reply" where
  "sessionView v row =
    (op_reply (lv_operation_id v) (lv_release v))\<lparr>rp_session_id := Some (lv_session_id v),
      rp_created_at := Some (case row of Some r \<Rightarrow> mg_created r | None \<Rightarrow> lv_created v),
      rp_last_activity_at := Some (lv_last_activity v),
      rp_idle_deadline_at := Some (lv_last_activity v + SESSION_IDLE_MS),
      rp_absolute_deadline_at := Some (case row of Some r \<Rightarrow> mg_absolute_deadline r | None \<Rightarrow> lv_absolute_deadline v),
      rp_output_cursor := Some (ring_end (lv_ring v)), rp_truncated := Some (ring_evicted (lv_ring v))\<rparr>"

definition storedSessionView :: "managed \<Rightarrow> reply" where
  "storedSessionView r =
    (op_reply (mg_operation_id r) (mg_status r))\<lparr>rp_session_id := Some (mg_session_id r),
      rp_created_at := Some (mg_created r), rp_last_activity_at := Some (mg_last_activity r),
      rp_idle_deadline_at := Some (mg_last_activity r + SESSION_IDLE_MS),
      rp_absolute_deadline_at := Some (mg_absolute_deadline r),
      rp_truncated := Some (mg_status r = Lost)\<rparr>"

definition no_session :: "string \<Rightarrow> reply" where
  "no_session i = (bare Failed)\<lparr>rp_session_id := Some i, rp_error := Some ''session_not_found''\<rparr>"

section \<open>Start\<close>

definition start_intent :: "string \<Rightarrow> string \<Rightarrow> intent" where
  "start_intent host termType = \<lparr>in_tool = ''ssh_session_start'', in_hostId = host, in_sessionId = None,
     in_args = [SStr termType]\<rparr>"

definition insert_session :: "live_session \<Rightarrow> ssh_do \<Rightarrow> ssh_do" where
  \<comment> \<open>the transaction: the row of the session and the completed receipt\<close>
  "insert_session v s =
    set_receipt (lv_operation_id v)
      ((op_reply (lv_operation_id v) Completed)\<lparr>rp_session_id := Some (lv_session_id v)\<rparr>)
      (s\<lparr>do_managed := do_managed s @ [\<lparr>mg_session_id = lv_session_id v, mg_operation_id = lv_operation_id v,
        mg_host = lv_host v, mg_status = Live, mg_created = lv_created v, mg_last_activity = lv_created v,
        mg_absolute_deadline = lv_absolute_deadline v\<rparr>]\<rparr>)"

definition key_taken :: "live_session \<Rightarrow> ssh_do \<Rightarrow> bool" where
  \<comment> \<open>\<open>session_id\<close> is the primary key of the table, \<open>operation_id\<close> is unique\<close>
  "key_taken v s \<longleftrightarrow>
     list_ex (\<lambda>r. mg_session_id r = lv_session_id v \<or> mg_operation_id r = lv_operation_id v) (do_managed s)"

definition start_failed :: "env \<Rightarrow> string \<Rightarrow> thrown \<Rightarrow> ssh_do \<Rightarrow> reply \<times> ssh_do" where
  \<comment> \<open>the catch block after the shell, if any, is closed\<close>
  "start_failed e op x s =
    (let failed = op_error op Failed (errorCode x)
     in if x \<noteq> JsError ''shell_observed'' \<and> ev_ok e 0
        then (failed, releaseLease (ev_ok e 1) (ev_ok e 2) op (set_receipt op failed s))
        else
          let (r, s1) = persistUncertainOutcome (ev_ok e 3) (ev_ok e 4) op s
          in (r, releaseLease (ev_ok e 1) (ev_ok e 2) op s1))"

definition started_session :: "string \<Rightarrow> string \<Rightarrow> string \<Rightarrow> string \<Rightarrow> int \<Rightarrow> live_session" where
  "started_session i op host digest now = \<lparr>lv_session_id = i, lv_operation_id = op, lv_host = host, lv_created = now,
     lv_last_activity = now, lv_absolute_deadline = now + SESSION_MAX_AGE_MS, lv_ring = empty_ring,
     lv_security_digest = digest, lv_release = Live, lv_settled = False\<rparr>"

definition open_session ::
  "env \<Rightarrow> string \<Rightarrow> string \<Rightarrow> string \<Rightarrow> thrown + string \<Rightarrow> bool \<Rightarrow> ssh_do \<Rightarrow> reply \<times> ssh_do" where
  \<comment> \<open>after the claim; the session id is random\<close>
  "open_session e session_id host op opened asked s =
    (if \<not> ev_ok e 0 then (unavailable_reply op, releaseLease (ev_ok e 1) (ev_ok e 2) op s)
     else
       let s1 = set_running op s;
           s2 = ev_aw e 0 (if asked then emit (ShellOpened op) s1 else s1)
       in case opened of
            Inl x \<Rightarrow> start_failed (from_nr 10 e) op x s2
          | Inr digest \<Rightarrow>
              let v = started_session session_id op host digest (ev_clk e 0)
              in if \<not> ev_ok e 3 \<or> key_taken v s2
                 then
                   let s3 = releaseLease (ev_ok e 1) (ev_ok e 2) op (ev_aw e 1 (emit (ShellClosed session_id) s2))
                   in persistUncertainOutcome (ev_ok e 4) (ev_ok e 5) op s3
                 else
                   let s3 = insert_session v s2;
                       (ok, s4) = scheduleSessionAlarm (from_nr 6 e) (s3\<lparr>do_sessions := do_sessions s3 @ [v]\<rparr>)
                   in if ok then (sessionView (case session_of s4 session_id of Some x \<Rightarrow> x | None \<Rightarrow> v) None, s4)
                      else start_failed (from_nr 10 e) op (JsError ''alarm'')
                             (ev_aw e 2 (emit (ShellClosed session_id) s4)))"

definition startSession ::
  "(intent \<Rightarrow> string) \<Rightarrow> env \<Rightarrow> string list \<Rightarrow> string \<Rightarrow> string \<Rightarrow> string \<Rightarrow> string option \<Rightarrow> thrown + string \<Rightarrow> bool \<Rightarrow>
     ssh_do \<Rightarrow> reply \<times> ssh_do" where
  "startSession sha e picked session_id hostId operationId termType opened asked s =
    (let host = lower hostId; op = lower operationId;
         tt = (case termType of Some t \<Rightarrow> t | None \<Rightarrow> ''xterm-256color'');
         (ok, s1) = enforceSessionDeadlines (from_nr 30 e) s
     in if \<not> ok then (unavailable_reply op, s1)
        else
          let digest = canonicalOperationDigest sha (start_intent host tt);
              (admission, s2) = claim (from_nr 1 e) \<lparr>cr_op = op, cr_host = host, cr_digest = digest,
                cr_picked = picked, cr_reserve = True\<rparr> (ev_aw e 0 s1)
          in case admission of
               None \<Rightarrow> (unavailable_reply op, s2)
             | Some Capacity \<Rightarrow> (op_error op Failed ''capacity_reached'', s2)
             | Some (Existing r) \<Rightarrow> (existingStartReply op digest r s2, s2)
             | Some Admission \<Rightarrow> open_session (from_nr 2 e) session_id host op opened asked s2)"

section \<open>Output and status\<close>

definition readSessionOutput :: "env \<Rightarrow> string \<Rightarrow> int option \<Rightarrow> int option \<Rightarrow> ssh_do \<Rightarrow> reply option \<times> ssh_do" where
  \<comment> \<open>None: the exception of the deadlines is passed on\<close>
  "readSessionOutput e session_id offset limit s =
    (let i = lower session_id; (ok, s1) = enforceSessionDeadlines e s
     in if \<not> ok then (None, s1)
        else (Some (case (session_of s1 i, sessionRow s1 i) of
            (None, None) \<Rightarrow> no_session i
          | (None, Some r) \<Rightarrow> (storedSessionView r)\<lparr>rp_output := Some [], rp_output_offset := Some 0,
              rp_next_offset := Some 0, rp_truncated := Some True\<rparr>
          | (Some v, row) \<Rightarrow>
              let o1 = session_output (lv_ring v) offset limit
              in (sessionView v row)\<lparr>rp_output := Some (ov_output o1), rp_output_offset := Some (ov_output_offset o1),
                  rp_next_offset := Some (ov_next_offset o1), rp_truncated := Some (ov_truncated o1)\<rparr>), s1))"

definition readSessionStatus :: "env \<Rightarrow> string \<Rightarrow> ssh_do \<Rightarrow> reply option \<times> ssh_do" where
  "readSessionStatus e session_id s =
    (let i = lower session_id
     in case session_of s i of
          Some v \<Rightarrow>
            if lv_release v = Closing then (Some (sessionView v None), s)
            else
              let (ok, s1) = enforceSessionDeadlines e s
              in if \<not> ok then (None, s1)
                 else (Some (case session_of s1 i of
                     Some v1 \<Rightarrow> sessionView v1 (sessionRow s1 i)
                   | None \<Rightarrow> no_session i), s1)
        | None \<Rightarrow>
            let (ok, s1) = enforceSessionDeadlines e s
            in if \<not> ok then (None, s1)
               else (Some (case (session_of s1 i, sessionRow s1 i) of
                   (Some v, row) \<Rightarrow> sessionView v row
                 | (None, Some r) \<Rightarrow> storedSessionView r
                 | (None, None) \<Rightarrow> no_session i), s1))"

definition session_alarm :: "env \<Rightarrow> ssh_do \<Rightarrow> bool \<times> ssh_do" where
  "session_alarm e s = enforceSessionDeadlines e s"

definition pump_chunk :: "string \<Rightarrow> nat list \<Rightarrow> ssh_do \<Rightarrow> ssh_do" where
  \<comment> \<open>a chunk of either stream; an empty one is ignored\<close>
  "pump_chunk i bytes = upd_session i (\<lambda>v. v\<lparr>lv_ring := append_ring bytes (lv_ring v)\<rparr>)"

definition observed_end :: "env \<Rightarrow> string \<Rightarrow> ssh_do \<Rightarrow> ssh_do" where
  \<comment> \<open>the channel exits, the socket closes, or standard output ends\<close>
  "observed_end e i s = snd (settleSession e i Lost s)"

section \<open>Input\<close>

record input_world =
  iw_credentials :: "thrown + ssh_host_credentials"  \<comment> \<open>of the host, read again\<close>
  iw_security :: "ssh_host_credentials \<Rightarrow> string"
  iw_accepts :: bool  \<comment> \<open>the channel takes the write\<close>

definition session_effect :: "string \<Rightarrow> string \<Rightarrow> string \<Rightarrow> arg_scalar list \<Rightarrow> intent" where
  "session_effect tool host i args = \<lparr>in_tool = tool, in_hostId = host, in_sessionId = Some i, in_args = args\<rparr>"

definition changed_code :: "host_error_code \<Rightarrow> string" where
  "changed_code c = (if c = HostNotFound then ''host_not_found'' else if c = HostUntrusted then ''host_untrusted''
     else ''host_changed'')"

definition rejectInputIfTargetChanged ::
  "env \<Rightarrow> input_world \<Rightarrow> live_session \<Rightarrow> ssh_do \<Rightarrow> string option \<times> ssh_do" where
  \<comment> \<open>the error of the reply\<close>
  "rejectInputIfTargetChanged e w v s =
    (let s1 = ev_aw e 0 s; i = lv_session_id v
     in case iw_credentials w of
          Inr saved \<Rightarrow>
            let s2 = ev_aw e 1 s1
            in if iw_security w saved = lv_security_digest v then (None, s2)
               else (Some ''host_changed'', snd (settleSession (from_nr 2 e) i Closed s2))
        | Inl (HostError c) \<Rightarrow> (Some (changed_code c), snd (settleSession (from_nr 2 e) i Closed s1))
        | Inl _ \<Rightarrow> (Some ''host_catalog_unavailable'', s1))"

definition is_live :: "ssh_do \<Rightarrow> string \<Rightarrow> bool" where
  "is_live s i \<longleftrightarrow> (case session_of s i of Some v \<Rightarrow> lv_release v = Live | None \<Rightarrow> False)"

definition input_refused :: "string \<Rightarrow> string \<Rightarrow> string \<Rightarrow> reply" where
  "input_refused op i reason =
    (session_error op i reason)\<lparr>rp_admitted := Some True, rp_write_accepted := Some False\<rparr>"

definition input_accepted :: "string \<Rightarrow> string \<Rightarrow> reply" where
  "input_accepted op i =
    (op_reply op Completed)\<lparr>rp_session_id := Some i, rp_admitted := Some True, rp_write_accepted := Some True\<rparr>"

definition touch_session :: "env \<Rightarrow> string \<Rightarrow> ssh_do \<Rightarrow> ssh_do" where
  \<comment> \<open>the activity of an accepted write: in memory, in the row, in the alarm\<close>
  "touch_session e i s =
    (let now = ev_clk e 0; s1 = upd_session i (\<lambda>v. v\<lparr>lv_last_activity := now\<rparr>) s
     in if ev_ok e 0
        then snd (scheduleSessionAlarm (from_nr 1 e)
               (upd_managed (\<lambda>r. mg_session_id r = i) (\<lambda>r. r\<lparr>mg_last_activity := now\<rparr>) s1))
        else s1)"

definition write_input :: "env \<Rightarrow> input_world \<Rightarrow> string \<Rightarrow> string \<Rightarrow> string \<Rightarrow> ssh_do \<Rightarrow> reply \<times> ssh_do" where
  \<comment> \<open>\<open>await owned.channel.write(input)\<close> and what follows\<close>
  "write_input e w i op text s =
    (let s1 = ev_aw e 0 (emit (InputWritten op i text) s)
     in if \<not> iw_accepts w
        then persistUncertainOutcome (ev_ok e 0) (ev_ok e 1) op
               (if is_live s1 i then snd (settleSession (from_nr 10 e) i Lost s1) else s1)
        else storeEffectResult (ev_ok e 2) (ev_ok e 3) (ev_ok e 4) op (input_accepted op i)
               (touch_session (from_nr 20 e) i s1))"

definition admitted_input :: "env \<Rightarrow> input_world \<Rightarrow> string \<Rightarrow> string \<Rightarrow> string \<Rightarrow> ssh_do \<Rightarrow> reply \<times> ssh_do" where
  \<comment> \<open>after the claim\<close>
  "admitted_input e w i op text s =
    (if \<not> ev_ok e 0 then persistUncertainOutcome (ev_ok e 1) (ev_ok e 2) op s
     else
       let s1 = set_running op s; store = storeEffectResult (ev_ok e 3) (ev_ok e 4) (ev_ok e 5) op
       in case session_of s1 i of
            None \<Rightarrow> store (input_refused op i ''session_not_live'') s1
          | Some v \<Rightarrow>
              if lv_release v \<noteq> Live then store (input_refused op i ''session_not_live'') s1
              else
                let (rejected, s2) = rejectInputIfTargetChanged (from_nr 10 e) w v s1
                in case rejected of
                     Some reason \<Rightarrow> store (input_refused op i reason) s2
                   | None \<Rightarrow>
                       if \<not> is_live s2 i then store (input_refused op i ''session_not_live'') s2
                       else write_input (from_nr 30 e) w i op text s2)"

definition session_host :: "live_session option \<Rightarrow> managed option \<Rightarrow> string" where
  \<comment> \<open>one of the two is there\<close>
  "session_host v row =
    (case v of Some x \<Rightarrow> lv_host x | None \<Rightarrow> (case row of Some r \<Rightarrow> mg_host r | None \<Rightarrow> []))"

definition settle_if_expired :: "env \<Rightarrow> string \<Rightarrow> ssh_do \<Rightarrow> bool \<times> ssh_do" where
  "settle_if_expired e i s =
    (case session_of s i of
       Some v \<Rightarrow> if lv_release v = Live \<and> sessionExpired v (ev_clk e 0) then settleSession e i Closed s else (True, s)
     | None \<Rightarrow> (True, s))"

definition performInput ::
  "(intent \<Rightarrow> string) \<Rightarrow> env \<Rightarrow> string list \<Rightarrow> input_world \<Rightarrow> string \<Rightarrow> string \<Rightarrow> string \<Rightarrow> ssh_do \<Rightarrow> reply \<times> ssh_do" where
  "performInput sha e picked w i op text s =
    (let v = session_of s i; row = sessionRow s i
     in if \<not> ev_ok e 0 then (session_error op i ''receipt_store_unavailable'', s)
        else if v = None \<and> row = None then (session_error op i ''session_not_found'', s)
        else
          let (ok, s1) = settle_if_expired (from_nr 10 e) i s
          in if \<not> ok then (session_error op i ''receipt_store_unavailable'', s1)
             else
               let host = session_host v row;
                   digest = canonicalOperationDigest sha (session_effect ''ssh_session_input'' host i [SStr text]);
                   (admission, s2) = claim (from_nr 1 e) \<lparr>cr_op = op, cr_host = host, cr_digest = digest,
                     cr_picked = picked, cr_reserve = False\<rparr> (ev_aw e 0 s1)
               in case admission of
                    None \<Rightarrow> (session_error op i ''receipt_store_unavailable'', s2)
                  | Some Capacity \<Rightarrow> (session_error op i ''capacity_reached'', s2)
                  | Some (Existing r) \<Rightarrow> (existingStartReply op digest r s2, s2)
                  | Some Admission \<Rightarrow> admitted_input (from_nr 20 e) w i op text s2)"

definition inputSession ::
  "(intent \<Rightarrow> string) \<Rightarrow> env \<Rightarrow> string list \<Rightarrow> input_world \<Rightarrow> string \<Rightarrow> string \<Rightarrow> string \<Rightarrow> ssh_do \<Rightarrow> reply \<times> ssh_do" where
  \<comment> \<open>the first pause of the task is the wait for the tasks before it\<close>
  "inputSession sha e picked w sessionId operationId text s =
    (let i = lower sessionId; op = lower operationId; (ok, s1) = enforceSessionDeadlines (from_nr 100 e) s
     in if \<not> ok then (session_error op i ''receipt_store_unavailable'', s1)
        else performInput sha (from_nr 1 e) picked w i op text (ev_aw e 0 s1))"

section \<open>Stop\<close>

definition stop_reply :: "string \<Rightarrow> string \<Rightarrow> bool \<Rightarrow> ssh_do \<Rightarrow> reply" where
  "stop_reply op i uncertain s =
    (op_reply op (if uncertain then Unknown else Completed))\<lparr>rp_session_id := Some i,
      rp_error := (if uncertain then Some ''unknown_outcome'' else None), rp_unverified := uncertain,
      rp_session_status := Some (case session_of s i of
          Some v \<Rightarrow> if lv_release v = Live then Unknown else lv_release v | None \<Rightarrow> Unknown),
      rp_channel_close_attempted := True, rp_transport_close_attempted := True,
      rp_remote_descendants := Some ''not_observed''\<rparr>"

definition stop_intent :: "string \<Rightarrow> string \<Rightarrow> intent" where
  "stop_intent host i = session_effect ''ssh_session_stop'' host i []"

definition emergencyStop ::
  "(intent \<Rightarrow> string) \<Rightarrow> env \<Rightarrow> string list \<Rightarrow> string \<Rightarrow> string \<Rightarrow> ssh_do \<Rightarrow> reply \<times> ssh_do" where
  "emergencyStop sha e picked op i s =
    (case session_of s i of
       None \<Rightarrow> (session_error op i ''session_not_live'', s)
     | Some v \<Rightarrow>
         if lv_release v \<noteq> Live then (session_error op i ''session_not_live'', s)
         else
           let s1 = snd (settleSession (from_nr 10 e) i Closed s);
               r = stop_reply op i True s1;
               digest = canonicalOperationDigest sha (stop_intent (lv_host v) i);
               (admission, s2) = claim e \<lparr>cr_op = op, cr_host = lv_host v, cr_digest = digest, cr_picked = picked,
                 cr_reserve = False\<rparr> (ev_aw e 0 s1)
           in (r, if admission = Some Admission
                  then snd (storeEffectResult (ev_ok e 1) (ev_ok e 2) (ev_ok e 3) op r s2) else s2))"

definition admitted_stop :: "env \<Rightarrow> string \<Rightarrow> string \<Rightarrow> ssh_do \<Rightarrow> reply \<times> ssh_do" where
  \<comment> \<open>after the claim\<close>
  "admitted_stop e i op s =
    (let store = storeEffectResult (ev_ok e 0) (ev_ok e 1) (ev_ok e 2) op
     in if \<not> is_live s i
        then store ((session_error op i ''session_not_live'')\<lparr>rp_admitted := Some True\<rparr>) s
        else
          let runningStored = ev_ok e 3;
              (closed, s1) = settleSession (from_nr 10 e) i Closed (if runningStored then set_running op s else s)
          in store ((stop_reply op i (\<not> closed \<or> \<not> runningStored) s1)\<lparr>rp_admitted := Some True\<rparr>) s1)"

definition performStop ::
  "(intent \<Rightarrow> string) \<Rightarrow> env \<Rightarrow> string list \<Rightarrow> string \<Rightarrow> string \<Rightarrow> ssh_do \<Rightarrow> reply \<times> ssh_do" where
  "performStop sha e picked i op s =
    (if \<not> ev_ok e 0 then emergencyStop sha (from_nr 20 e) picked op i s
     else
       let v = session_of s i; row = sessionRow s i
       in if v = None \<and> row = None then (session_error op i ''session_not_found'', s)
          else
            let host = session_host v row; digest = canonicalOperationDigest sha (stop_intent host i);
                (admission, s1) = claim (from_nr 1 e) \<lparr>cr_op = op, cr_host = host, cr_digest = digest,
                  cr_picked = picked, cr_reserve = False\<rparr> (ev_aw e 0 s)
            in case admission of
                 None \<Rightarrow> emergencyStop sha (from_nr 20 e) picked op i s1
               | Some (Existing r) \<Rightarrow> (existingStartReply op digest r s1, s1)
               | Some Capacity \<Rightarrow> (session_error op i ''capacity_reached'', s1)
               | Some Admission \<Rightarrow> admitted_stop (from_nr 40 e) i op s1)"

definition stopSession ::
  "(intent \<Rightarrow> string) \<Rightarrow> env \<Rightarrow> string list \<Rightarrow> string \<Rightarrow> string \<Rightarrow> ssh_do \<Rightarrow> reply \<times> ssh_do" where
  \<comment> \<open>an exception of the deadlines is ignored\<close>
  "stopSession sha e picked sessionId operationId s =
    performStop sha (from_nr 1 e) picked (lower sessionId) (lower operationId)
      (ev_aw e 0 (snd (enforceSessionDeadlines (from_nr 100 e) s)))"

end
