(* ===== verification/SshEvolves.thy ===== *)
theory SshEvolves
  imports SshSessions
begin

text \<open>
  What every handler of \<open>SshOperationsDO\<close> guarantees while other handlers run in its pauses:
  a reflexive and transitive relation between states (\<open>ssh_evolves\<close>) that each synchronous part and
  each handler keeps when its pauses keep it, and well-nested runs of handlers: whole handlers, one after
  the other or inside the pauses of another. Interleavings that are not nested, and restarts in the
  middle of a handler, are the subject of \<open>SshSegments\<close>.
\<close>

section \<open>What a step keeps\<close>

definition recent :: "int \<Rightarrow> string \<Rightarrow> 'z ssh_core_scheme \<Rightarrow> bool" where
  \<comment> \<open>the operation has a row that no claim before time T removes\<close>
  "recent T op s \<longleftrightarrow> (\<exists>r. operation_of s op = Some r \<and> T - RECEIPT_RETENTION_MS < op_created r)"

definition digest_of :: "string \<Rightarrow> 'z ssh_core_scheme \<Rightarrow> string option" where
  "digest_of op s = map_option op_digest (operation_of s op)"

fun starts_op :: "string \<Rightarrow> effect \<Rightarrow> bool" where
  "starts_op op (CommandStarted x) \<longleftrightarrow> x = op"
| "starts_op op (SftpMutation x) \<longleftrightarrow> x = op"
| "starts_op op (ShellOpened x) \<longleftrightarrow> x = op"
| "starts_op op _ \<longleftrightarrow> False"

definition starts :: "string \<Rightarrow> 'z ssh_core_scheme \<Rightarrow> nat" where
  "starts op s = length (filter (starts_op op) (do_effects s))"

definition leases_bounded :: "'z ssh_core_scheme \<Rightarrow> bool" where
  "leases_bounded s \<longleftrightarrow> length (do_leases s) \<le> TOTAL_CONNECTION_LIMIT \<and>
     (\<forall>h. length (filter (\<lambda>l. ls_host l = h) (do_leases s)) \<le> HOST_CONNECTION_LIMIT)"

definition live_rows :: "ssh_do \<Rightarrow> bool" where
  \<comment> \<open>a live session has a live row, and has not been settled\<close>
  "live_rows s \<longleftrightarrow> (\<forall>i. is_live s i \<longrightarrow> map_option mg_status (sessionRow s i) = Some Live) \<and>
     (\<forall>i v. session_of s i = Some v \<and> lv_settled v \<longrightarrow> lv_release v \<noteq> Live)"

definition claims_evolve :: "int \<Rightarrow> string \<Rightarrow> 'y ssh_core_scheme \<Rightarrow> 'z ssh_core_scheme \<Rightarrow> bool" where
  "claims_evolve T op s s' \<longleftrightarrow>
     (if recent T op s then recent T op s' \<and> digest_of op s' = digest_of op s \<and> starts op s' = starts op s
      else starts op s' = starts op s \<or> starts op s' = Suc (starts op s) \<and> recent T op s')"

definition ended_row :: "string \<Rightarrow> ssh_do \<Rightarrow> status option" where
  \<comment> \<open>the final status of a stored session\<close>
  "ended_row i s = (case sessionRow s i of
     Some r \<Rightarrow> if mg_status r \<in> {Live, Closing} then None else Some (mg_status r) | None \<Rightarrow> None)"

definition store_evolves :: "int \<Rightarrow> ssh_do \<Rightarrow> ssh_do \<Rightarrow> bool" where
  "store_evolves T s s' \<longleftrightarrow>
     (leases_bounded s \<longrightarrow> leases_bounded s') \<and> (live_rows s \<longrightarrow> live_rows s') \<and>
     (\<forall>op. claims_evolve T op s s') \<and> (\<forall>i st. ended_row i s = Some st \<longrightarrow> ended_row i s' = Some st)"

definition live_evolves :: "live_session \<Rightarrow> live_session \<Rightarrow> bool" where
  "live_evolves v v' \<longleftrightarrow>
     lv_session_id v' = lv_session_id v \<and> lv_operation_id v' = lv_operation_id v \<and> lv_host v' = lv_host v \<and>
     lv_created v' = lv_created v \<and> lv_absolute_deadline v' = lv_absolute_deadline v \<and>
     lv_security_digest v' = lv_security_digest v \<and> (lv_release v \<noteq> Live \<longrightarrow> lv_release v' \<noteq> Live) \<and>
     (lv_settled v \<longrightarrow> lv_settled v') \<and> (lv_settled v' \<longrightarrow> lv_settled v \<or> lv_release v' \<noteq> Live)"

definition ssh_evolves :: "int \<Rightarrow> ssh_do \<Rightarrow> ssh_do \<Rightarrow> bool" where
  "ssh_evolves T s s' \<longleftrightarrow> store_evolves T s s' \<and>
     (\<forall>i v. session_of s i = Some v \<longrightarrow> (\<exists>v'. session_of s' i = Some v' \<and> live_evolves v v'))"

named_theorems evo
named_theorems after  \<comment> \<open>one more step behind a run\<close>

lemma claims_evolve_refl [simp]: "claims_evolve T op s s"
  by (simp add: claims_evolve_def)

lemma claims_evolve_trans: "claims_evolve T op s t \<Longrightarrow> claims_evolve T op t u \<Longrightarrow> claims_evolve T op s u"
  by (auto simp: claims_evolve_def split: if_splits)

lemma claims_evolve_cong:
  assumes "claims_evolve T op s t" "operation_of u op = operation_of t op" "starts op u = starts op t"
  shows "claims_evolve T op s u"
proof -
  have "recent T op u = recent T op t" "digest_of op u = digest_of op t"
    using assms(2) by (simp_all add: recent_def digest_of_def)
  with assms(1,3) show ?thesis by (simp add: claims_evolve_def)
qed

lemma live_evolves_refl [simp]: "live_evolves v v"
  by (simp add: live_evolves_def)

lemma live_evolves_trans: "live_evolves v w \<Longrightarrow> live_evolves w x \<Longrightarrow> live_evolves v x"
  by (auto simp: live_evolves_def)

lemma ssh_evolves_refl [simp, intro]: "ssh_evolves T s s"
  by (auto simp: ssh_evolves_def store_evolves_def)

lemma store_evolves_trans: "store_evolves T s t \<Longrightarrow> store_evolves T t u \<Longrightarrow> store_evolves T s u"
  unfolding store_evolves_def by (blast intro: claims_evolve_trans)

lemma ssh_evolves_trans [trans]: "ssh_evolves T s t \<Longrightarrow> ssh_evolves T t u \<Longrightarrow> ssh_evolves T s u"
  unfolding ssh_evolves_def by (meson store_evolves_trans live_evolves_trans)

lemma ssh_evolves_store: "ssh_evolves T s t \<Longrightarrow> store_evolves T s t"
  by (simp add: ssh_evolves_def)

section \<open>The synchronous parts\<close>

lemma ssh_evolves_claims:
  assumes "do_leases s' = do_leases s" "do_managed s' = do_managed s" "do_sessions s' = do_sessions s"
    "\<And>op. claims_evolve T op s s'"
  shows "ssh_evolves T s s'"
  using assms by (auto simp: ssh_evolves_def store_evolves_def leases_bounded_def live_rows_def is_live_def
      session_of_def sessionRow_def ended_row_def)

lemma ssh_evolves_same:
  assumes "do_leases s' = do_leases s" "do_managed s' = do_managed s" "do_sessions s' = do_sessions s"
    "do_operations s' = do_operations s" "do_effects s' = do_effects s"
  shows "ssh_evolves T s s'"
  using assms
  by (intro ssh_evolves_claims) (auto simp: claims_evolve_def recent_def operation_of_def digest_of_def starts_def)

lemma operation_of_upd:
  assumes "\<And>r. op_id (f r) = op_id r"
  shows "operation_of (upd_operation op f s) x = map_option (\<lambda>r. if op_id r = op then f r else r) (operation_of s x)"
  using assms by (simp add: operation_of_def upd_operation_def find_upd_rows [where k = op_id])

lemma ssh_evolves_upd_operation:
  assumes "\<And>r. op_id (f r) = op_id r \<and> op_digest (f r) = op_digest r \<and> op_created (f r) = op_created r"
  shows "ssh_evolves T s (upd_operation op f s)"
proof (rule ssh_evolves_claims)
  fix x
  have "recent T x (upd_operation op f s) \<longleftrightarrow> recent T x s" "digest_of x (upd_operation op f s) = digest_of x s"
    using assms by (cases "operation_of s x"; force simp: recent_def digest_of_def operation_of_upd)+
  then show "claims_evolve T x s (upd_operation op f s)"
    by (simp add: claims_evolve_def starts_def upd_operation_def)
qed (simp_all add: upd_operation_def)

lemma ssh_evolves_set_running [evo]: "ssh_evolves T s (set_running op s)"
  unfolding set_running_def by (rule ssh_evolves_upd_operation) simp

lemma ssh_evolves_set_receipt [evo]: "ssh_evolves T s (set_receipt op r s)"
  unfolding set_receipt_def by (rule ssh_evolves_upd_operation) simp

lemma ssh_evolves_resolve [evo]: "ssh_evolves T s (resolve op s)"
  by (rule ssh_evolves_same) (simp_all add: resolve_def)

lemma ssh_evolves_unresolved [evo]: "ssh_evolves T s (s\<lparr>do_unresolved := xs\<rparr>)"
  by (rule ssh_evolves_same) simp_all

lemma ssh_evolves_alarm [evo]: "ssh_evolves T s (s\<lparr>do_alarm := a\<rparr>)"
  by (rule ssh_evolves_same) simp_all

lemma ssh_evolves_emit:
  assumes "\<And>op. \<not> starts_op op x"
  shows "ssh_evolves T s (emit x s)"
  using assms
  by (intro ssh_evolves_claims) (auto simp: emit_def claims_evolve_def recent_def operation_of_def digest_of_def starts_def)

lemma ssh_evolves_persist [evo]: "ssh_evolves T s (snd (persistUncertainOutcome ok1 ok2 op s))"
proof -
  have "ssh_evolves T s (upd_operation op (\<lambda>x. x\<lparr>op_status := Unknown\<rparr>) s)"
    by (rule ssh_evolves_upd_operation) simp
  then show ?thesis
    by (auto simp: persistUncertainOutcome_def Let_def intro: ssh_evolves_trans evo)
qed

lemma ssh_evolves_store_effect [evo]: "ssh_evolves T s (snd (storeEffectResult ok ok1 ok2 op r s))"
  using ssh_evolves_persist [of T s ok1 ok2 op]
  by (auto simp: storeEffectResult_def split_beta intro: ssh_evolves_trans evo)

lemma ssh_evolves_persist_mutation [evo]: "ssh_evolves T s (snd (persistMutationReceipt ok ok1 ok2 op r p s))"
  using ssh_evolves_persist [of T s ok1 ok2 op]
  by (auto simp: persistMutationReceipt_def Let_def split_beta intro: ssh_evolves_trans evo)

lemma leases_bounded_filter: "leases_bounded s \<Longrightarrow> do_leases s' = filter p (do_leases s) \<Longrightarrow> leases_bounded s'"
proof -
  assume s: "leases_bounded s" and s': "do_leases s' = filter p (do_leases s)"
  have "length (filter q (filter p ls)) \<le> length (filter q ls)" for q :: "lease \<Rightarrow> bool" and ls
    by (induction ls) auto
  with s show ?thesis
    unfolding leases_bounded_def s' by (meson length_filter_le order_trans)
qed

lemma ssh_evolves_leases:
  assumes "leases_bounded s \<Longrightarrow> leases_bounded s'" "do_managed s' = do_managed s" "do_sessions s' = do_sessions s"
    "\<And>op. claims_evolve T op s s'"
  shows "ssh_evolves T s s'"
  using assms by (auto simp: ssh_evolves_def store_evolves_def live_rows_def is_live_def
      session_of_def sessionRow_def ended_row_def)

lemma claims_evolve_same:
  assumes "do_operations s' = do_operations s" "do_effects s' = do_effects s"
  shows "claims_evolve T op s s'"
  using assms by (auto simp: claims_evolve_def recent_def operation_of_def digest_of_def starts_def)

lemma ssh_evolves_drop_lease [evo]: "ssh_evolves T s (drop_lease op s)"
  by (rule ssh_evolves_leases) (auto simp: drop_lease_def intro: claims_evolve_same leases_bounded_filter)

lemma ssh_evolves_release [evo]: "ssh_evolves T s (releaseLease ok1 ok2 op s)"
  by (auto simp: releaseLease_def intro: evo)

lemma leases_bounded_snoc:
  assumes "leases_bounded s" "\<not> at_capacity (ls_host l) s" "do_leases s' = do_leases s @ [l]"
  shows "leases_bounded s'"
  using assms by (auto simp: leases_bounded_def at_capacity_def)

lemma ssh_evolves_reserve [evo]: "ssh_evolves T s (snd (reserveConnection ok l host now s))"
proof -
  have "leases_bounded s \<Longrightarrow> \<not> at_capacity host s \<Longrightarrow>
      leases_bounded (s\<lparr>do_leases := do_leases s @ [\<lparr>ls_operation_id = l, ls_host = host, ls_created = now\<rparr>]\<rparr>)"
    by (rule leases_bounded_snoc) simp_all
  then show ?thesis
    by (auto simp: reserveConnection_def intro!: ssh_evolves_leases claims_evolve_same)
qed

section \<open>A claim\<close>

definition in_window :: "int \<Rightarrow> int \<Rightarrow> env \<Rightarrow> bool" where
  \<comment> \<open>the clock of the run stays in a window shorter than the retention of receipts\<close>
  "in_window T0 T e \<longleftrightarrow> T < T0 + RECEIPT_RETENTION_MS \<and> (\<forall>n. T0 \<le> ev_clk e n \<and> ev_clk e n \<le> T)"

lemma in_window_from [simp]: "in_window T0 T e \<Longrightarrow> in_window T0 T (from_nr k e)"
  by (simp add: in_window_def)

lemma prune_keeps:
  assumes "now \<le> T" "List.find (\<lambda>r. op_id r = op) rows = Some r" "T - RECEIPT_RETENTION_MS < op_created r"
  shows "List.find (\<lambda>r. op_id r = op) (prune picked now rows) = Some r"
  using assms(2)
proof (induction rows)
  case (Cons a rows)
  show ?case
  proof (cases "op_id a = op")
    case True
    with Cons.prems assms(1,3) show ?thesis by (auto simp: prune_def prunable_def)
  next
    case False
    with Cons show ?thesis by (auto simp: prune_def)
  qed
qed simp

lemma prune_recent:
  assumes "now \<le> T" "recent T op s" "do_operations s' = prune picked now (do_operations s)"
  shows "recent T op s' \<and> digest_of op s' = digest_of op s"
  using assms prune_keeps [of now T op "do_operations s"]
  by (auto simp: recent_def digest_of_def operation_of_def)

lemma claims_evolve_prune:
  assumes "now \<le> T" "do_operations s' = prune picked now (do_operations s)" "do_effects s' = do_effects s"
  shows "claims_evolve T op s s'"
  using assms prune_recent [of now T op s s' picked] by (auto simp: claims_evolve_def starts_def)

lemma claimed:
  assumes "in_window T0 T e" "claim e c s = (a, s')"
  shows "ssh_evolves T s s' \<and> starts (cr_op c) s' = starts (cr_op c) s \<and>
    (a = Some Admission \<longrightarrow> \<not> recent T (cr_op c) s \<and> recent T (cr_op c) s') \<and>
    (recent T (cr_op c) s \<longrightarrow> ev_ok e 0 \<longrightarrow>
       (\<exists>r. a = Some (Existing r) \<and> operation_of s (cr_op c) = Some r))"
proof -
  let ?now = "ev_clk e 0" and ?op = "cr_op c" and ?rows = "prune (cr_picked c) (ev_clk e 0) (do_operations s)"
  have now: "?now \<le> T" "T - RECEIPT_RETENTION_MS < ?now"
    using assms(1) by (auto simp: in_window_def) (metis add.commute diff_less_eq less_le_trans)
  show ?thesis
  proof (cases "ev_ok e 0")
    case False
    with assms(2) show ?thesis by (auto simp: claim_def claimOperation_def)
  next
    case ok: True
    show ?thesis
    proof (cases "List.find (\<lambda>r. op_id r = ?op) ?rows")
      case (Some r)
      with assms(2) ok have s': "s' = s\<lparr>do_operations := ?rows\<rparr>" and a: "a = Some (Existing r)"
        by (auto simp: claim_def claimOperation_def Let_def)
      have "ssh_evolves T s s'"
        unfolding s' by (rule ssh_evolves_claims) (simp_all, rule claims_evolve_prune [OF now(1)], simp_all)
      moreover have "operation_of s ?op = Some r" if "recent T ?op s"
        using that prune_keeps [OF now(1), of ?op "do_operations s" _ "cr_picked c"] Some
        by (auto simp: recent_def operation_of_def)
      ultimately show ?thesis using a by (auto simp: s' starts_def)
    next
      case None
      have fresh: "\<not> recent T ?op s"
        using prune_keeps [OF now(1), of ?op "do_operations s" _ "cr_picked c"] None
        by (auto simp: recent_def operation_of_def)
      show ?thesis
      proof (cases "a = Some Admission")
        case True
        let ?row = "\<lparr>op_id = ?op, op_digest = cr_digest c, op_host = cr_host c, op_status = Admitted,
          op_result = None, op_created = ?now\<rparr>"
        let ?ls = "do_leases s @ (if cr_reserve c
          then [\<lparr>ls_operation_id = ?op, ls_host = cr_host c, ls_created = ?now\<rparr>] else [])"
        from True assms(2) ok None have s': "s' = s\<lparr>do_operations := ?rows @ [?row], do_leases := ?ls\<rparr>"
          and room: "cr_reserve c \<Longrightarrow> \<not> at_capacity (cr_host c) s"
          by (auto simp: claim_def claimOperation_def Let_def split: if_splits)
        have row: "operation_of s' ?op = Some ?row"
          using None by (simp add: s' operation_of_def find_snoc_row)
        then have new: "recent T ?op s'" using now(2) by (simp add: recent_def)
        have "claims_evolve T x s s'" for x
        proof (cases "x = ?op")
          case True
          with fresh show ?thesis by (simp add: claims_evolve_def starts_def s')
        next
          case False
          let ?s1 = "s\<lparr>do_operations := ?rows\<rparr>"
          have "operation_of s' x = operation_of ?s1 x"
            using False by (simp add: s' operation_of_def find_snoc_row split: option.splits)
          moreover have "claims_evolve T x s ?s1" by (rule claims_evolve_prune [OF now(1)]) simp_all
          ultimately show ?thesis
            by (intro claims_evolve_cong [of T x s ?s1 s']) (assumption | simp add: starts_def s')+
        qed
        moreover have "leases_bounded s \<Longrightarrow> leases_bounded s'"
          using room leases_bounded_snoc [of s _ s'] by (cases "cr_reserve c") (auto simp: s' leases_bounded_def at_capacity_def)
        ultimately have "ssh_evolves T s s'" by (intro ssh_evolves_leases) (simp_all add: s')
        with fresh new show ?thesis by (simp add: starts_def s')
      next
        case False
        with assms(2) ok None have "s' = s\<lparr>do_operations := ?rows\<rparr> \<or> s' = s"
          by (auto simp: claim_def claimOperation_def Let_def split: if_splits)
        moreover have "ssh_evolves T s (s\<lparr>do_operations := ?rows\<rparr>)"
          by (rule ssh_evolves_claims) (simp_all, rule claims_evolve_prune [OF now(1)], simp_all)
        ultimately show ?thesis using fresh False by (auto simp: starts_def)
      qed
    qed
  qed
qed

lemma ssh_evolvesD:
  assumes "ssh_evolves T s t"
  shows "leases_bounded s \<Longrightarrow> leases_bounded t" "live_rows s \<Longrightarrow> live_rows t" "claims_evolve T op s t"
    "ended_row i s = Some st \<Longrightarrow> ended_row i t = Some st"
    "session_of s i = Some v \<Longrightarrow> \<exists>v'. session_of t i = Some v' \<and> live_evolves v v'"
  using assms by (auto simp only: ssh_evolves_def store_evolves_def)

lemma ssh_evolves_other:
  assumes "ssh_evolves T s t" "do_leases u = do_leases t" "do_managed u = do_managed t"
    "do_sessions u = do_sessions t" "\<And>op. claims_evolve T op s u"
  shows "ssh_evolves T s u"
proof -
  have same: "leases_bounded u = leases_bounded t" "live_rows u = live_rows t"
    "ended_row i u = ended_row i t" "session_of u i = session_of t i" for i
    using assms(2-4)
    by (simp_all add: leases_bounded_def live_rows_def is_live_def session_of_def sessionRow_def ended_row_def)
  show ?thesis
    unfolding ssh_evolves_def store_evolves_def same
    by (intro conjI allI impI assms(5) ssh_evolvesD(1,2,4,5) [OF assms(1)])
qed

lemma ssh_evolves_start:
  assumes "in_window T0 T e" "claim e c s = (Some Admission, s')" "starts_op (cr_op c) x"
    "\<And>op. starts_op op x \<Longrightarrow> op = cr_op c"
  shows "ssh_evolves T s (emit x (set_running (cr_op c) s'))"
proof -
  let ?op = "cr_op c" and ?s1 = "set_running (cr_op c) s'"
  have c: "ssh_evolves T s s'" "starts ?op s' = starts ?op s" "\<not> recent T ?op s" "recent T ?op s'"
    using claimed [OF assms(1,2)] by blast+
  have s1: "ssh_evolves T s' ?s1" by (rule evo)
  with c(1) have s: "ssh_evolves T s ?s1" by (rule ssh_evolves_trans)
  have r: "recent T ?op ?s1" "starts ?op ?s1 = starts ?op s"
    using ssh_evolvesD(3) [OF s1, of ?op] c(2,4) by (simp_all add: claims_evolve_def)
  have claims: "claims_evolve T y s (emit x ?s1)" for y
  proof (cases "y = ?op")
    case True
    have "recent T ?op (emit x ?s1)" "starts ?op (emit x ?s1) = Suc (starts ?op ?s1)"
      using r(1) assms(3) by (simp_all add: recent_def operation_of_def emit_def starts_def)
    with True r(2) c(3) show ?thesis by (simp add: claims_evolve_def)
  next
    case False
    then have "starts y (emit x ?s1) = starts y ?s1" using assms(4) by (auto simp: starts_def emit_def)
    then show ?thesis
      by (intro claims_evolve_cong [OF ssh_evolvesD(3) [OF s, of y]]) (simp_all add: operation_of_def emit_def)
  qed
  show ?thesis by (rule ssh_evolves_other [OF s _ _ _ claims]) (simp_all add: emit_def)
qed

section \<open>Sessions\<close>

definition not_live :: "ssh_do \<Rightarrow> string \<Rightarrow> bool" where
  \<comment> \<open>a session in memory that has ended or is ending\<close>
  "not_live s i \<longleftrightarrow> (\<exists>v. session_of s i = Some v \<and> lv_release v \<noteq> Live)"

lemma not_live_evolves: "not_live s i \<Longrightarrow> ssh_evolves T s t \<Longrightarrow> not_live t i"
  unfolding not_live_def by (meson ssh_evolvesD(5) live_evolves_def)

lemma not_live_is_live: "not_live s i \<Longrightarrow> \<not> is_live s i"
  by (auto simp: not_live_def is_live_def)

lemma session_of_upd:
  assumes "\<And>v. lv_session_id (f v) = lv_session_id v"
  shows "session_of (upd_session i f s) j = map_option (\<lambda>v. if lv_session_id v = i then f v else v) (session_of s j)"
  using assms by (simp add: session_of_def upd_session_def find_upd_rows [where k = lv_session_id])

lemma session_of_id: "session_of s i = Some v \<Longrightarrow> lv_session_id v = i"
  by (auto simp: session_of_def find_Some_iff)

lemma sessionRow_id: "sessionRow s i = Some r \<Longrightarrow> mg_session_id r = i"
  by (auto simp: sessionRow_def find_Some_iff)

lemma sessionRow_upd:
  assumes "\<And>r. mg_session_id (f r) = mg_session_id r"
  shows "sessionRow (upd_managed g f s) j = map_option (\<lambda>r. if g r then f r else r) (sessionRow s j)"
  using assms by (simp add: sessionRow_def upd_managed_def find_upd_rows [where k = mg_session_id])

lemma upd_fields [simp]:
  "do_operations (upd_session i f s) = do_operations s" "do_effects (upd_session i f s) = do_effects s"
  "do_leases (upd_session i f s) = do_leases s" "do_managed (upd_session i f s) = do_managed s"
  "do_operations (upd_managed g h s) = do_operations s" "do_effects (upd_managed g h s) = do_effects s"
  "do_leases (upd_managed g h s) = do_leases s" "do_sessions (upd_managed g h s) = do_sessions s"
  by (simp_all add: upd_session_def upd_managed_def)

lemma ssh_evolvesI:
  assumes "leases_bounded s \<Longrightarrow> leases_bounded t" "live_rows s \<Longrightarrow> live_rows t" "\<And>op. claims_evolve T op s t"
    "\<And>i st. ended_row i s = Some st \<Longrightarrow> ended_row i t = Some st"
    "\<And>i v. session_of s i = Some v \<Longrightarrow> \<exists>v'. session_of t i = Some v' \<and> live_evolves v v'"
  shows "ssh_evolves T s t"
  using assms by (simp only: ssh_evolves_def store_evolves_def simp_thms) blast

lemma ssh_evolves_upd_session:
  assumes f: "\<And>v. live_evolves v (f v)"
  shows "ssh_evolves T s (upd_session i f s)"
proof -
  have ids: "lv_session_id (f v) = lv_session_id v" for v using f [of v] by (simp add: live_evolves_def)
  note so = session_of_upd [of f, OF ids]
  show ?thesis
  proof (rule ssh_evolvesI)
    have "is_live (upd_session i f s) j \<Longrightarrow> is_live s j" for j
      using f by (auto simp: is_live_def so live_evolves_def split: option.splits if_splits)
    moreover have "sessionRow (upd_session i f s) j = sessionRow s j" for j by (simp add: sessionRow_def)
    moreover have "lv_release x \<noteq> Live" if "session_of (upd_session i f s) j = Some x" "lv_settled x"
      "\<forall>j v. session_of s j = Some v \<and> lv_settled v \<longrightarrow> lv_release v \<noteq> Live" for j x
      using that f by (fastforce simp: so live_evolves_def split: if_splits)
    ultimately show "live_rows s \<Longrightarrow> live_rows (upd_session i f s)" unfolding live_rows_def by (metis (no_types))
    show "session_of s j = Some v \<Longrightarrow> \<exists>v'. session_of (upd_session i f s) j = Some v' \<and> live_evolves v v'" for j v
      using f by (simp add: so)
    show "ended_row j s = Some st \<Longrightarrow> ended_row j (upd_session i f s) = Some st" for j st
      by (simp add: ended_row_def sessionRow_def)
  qed (simp_all add: leases_bounded_def claims_evolve_same)
qed

lemma ssh_evolves_upd_managed:
  assumes f: "\<And>r. mg_session_id (f r) = mg_session_id r"
    and g: "\<And>r. g r \<Longrightarrow> mg_status (f r) = mg_status r \<or> mg_status r \<in> {Live, Closing} \<and> \<not> is_live s (mg_session_id r)"
  shows "ssh_evolves T s (upd_managed g f s)"
proof (rule ssh_evolvesI)
  note row = sessionRow_upd [of f, OF f]
  have live: "is_live (upd_managed g f s) j = is_live s j" for j by (simp add: is_live_def session_of_def)
  show "live_rows (upd_managed g f s)" if lr: "live_rows s"
    unfolding live_rows_def live
  proof (intro allI impI conjI)
    show "session_of (upd_managed g f s) i = Some v \<and> lv_settled v \<Longrightarrow> lv_release v \<noteq> Live" for i v
      using lr by (simp add: live_rows_def session_of_def) blast
    fix i assume i: "is_live s i"
    with lr obtain r where r: "sessionRow s i = Some r" "mg_status r = Live" by (auto simp: live_rows_def)
    with i g [of r] sessionRow_id [of s i r] show "map_option mg_status (sessionRow (upd_managed g f s) i) = Some Live"
      by (auto simp: row)
  qed
  show "ended_row i (upd_managed g f s) = Some st" if "ended_row i s = Some st" for i st
  proof -
    from that obtain r where r: "sessionRow s i = Some r" "mg_status r \<notin> {Live, Closing}" "mg_status r = st"
      by (auto simp: ended_row_def split: option.splits if_splits)
    with g [of r] show ?thesis by (auto simp: ended_row_def row)
  qed
qed (simp_all add: leases_bounded_def claims_evolve_same session_of_def)

lemma ssh_evolves_insert [evo]:
  assumes "\<not> key_taken v s" "lv_release v = Live" "\<not> lv_settled v"
  shows "ssh_evolves T s ((insert_session v s)\<lparr>do_sessions := do_sessions (insert_session v s) @ [v]\<rparr>)"
proof -
  let ?i = "lv_session_id v"
  let ?r = "\<lparr>mg_session_id = ?i, mg_operation_id = lv_operation_id v, mg_host = lv_host v, mg_status = Live,
    mg_created = lv_created v, mg_last_activity = lv_created v, mg_absolute_deadline = lv_absolute_deadline v\<rparr>"
  let ?s1 = "s\<lparr>do_managed := do_managed s @ [?r], do_sessions := do_sessions s @ [v]\<rparr>"
  let ?p = "(op_reply (lv_operation_id v) Completed)\<lparr>rp_session_id := Some ?i\<rparr>"
  have eq: "(insert_session v s)\<lparr>do_sessions := do_sessions (insert_session v s) @ [v]\<rparr> = set_receipt (lv_operation_id v) ?p ?s1"
    by (simp add: insert_session_def set_receipt_def upd_operation_def)
  have none: "sessionRow s ?i = None"
    using assms(1) by (auto simp: key_taken_def sessionRow_def find_None_iff list_ex_iff)
  have row: "sessionRow ?s1 j = (case sessionRow s j of None \<Rightarrow> if j = ?i then Some ?r else None | x \<Rightarrow> x)" for j
    by (auto simp: sessionRow_def find_snoc_row split: option.splits)
  have so: "session_of ?s1 j = (case session_of s j of None \<Rightarrow> if j = ?i then Some v else None | x \<Rightarrow> x)" for j
    by (auto simp: session_of_def find_snoc_row split: option.splits)
  have "ssh_evolves T s ?s1"
  proof (rule ssh_evolvesI)
    show "live_rows ?s1" if "live_rows s"
      unfolding live_rows_def
    proof (intro allI impI conjI)
      show "session_of ?s1 j = Some x \<and> lv_settled x \<Longrightarrow> lv_release x \<noteq> Live" for j x
        using that assms(3) by (auto simp: so live_rows_def split: option.splits if_splits)
      fix j assume j: "is_live ?s1 j"
      show "map_option mg_status (sessionRow ?s1 j) = Some Live"
      proof (cases "j = ?i")
        case True then show ?thesis by (simp add: row none)
      next
        case False
        with j have "is_live s j" by (auto simp: is_live_def so split: option.splits)
        with that False show ?thesis by (auto simp: live_rows_def row split: option.splits)
      qed
    qed
    show "ended_row j s = Some st \<Longrightarrow> ended_row j ?s1 = Some st" for j st
      by (auto simp: ended_row_def row split: option.splits)
    show "session_of s j = Some x \<Longrightarrow> \<exists>v'. session_of ?s1 j = Some v' \<and> live_evolves x v'" for j x
      by (simp add: so)
  qed (simp_all add: leases_bounded_def claims_evolve_same)
  then show ?thesis unfolding eq by (rule ssh_evolves_trans) (rule evo)
qed

section \<open>Ending a session\<close>

lemma from_nr_from [simp]: "from_nr j (from_nr k e) = from_nr (j + k) e"
  by (simp add: from_nr_def add.assoc)

definition pauses :: "int \<Rightarrow> env \<Rightarrow> bool" where
  "pauses T e \<longleftrightarrow> (\<forall>n s. ssh_evolves T s (ev_aw e n s))"

lemma pauses_from [simp]: "pauses T e \<Longrightarrow> pauses T (from_nr k e)"
  by (simp add: pauses_def)

lemma ssh_evolves_pause: "pauses T e \<Longrightarrow> ssh_evolves T s t \<Longrightarrow> ssh_evolves T s (ev_aw e n t)"
  unfolding pauses_def by (blast intro: ssh_evolves_trans)

lemma pausesD: "pauses T e \<Longrightarrow> ssh_evolves T s (ev_aw e n s)"
  by (simp add: pauses_def)

lemma ssh_evolves_schedule [evo]: "pauses T e \<Longrightarrow> ssh_evolves T s (snd (scheduleSessionAlarm e s))"
  by (auto simp: scheduleSessionAlarm_def Let_def split: option.splits
      intro: evo pausesD ssh_evolves_trans [OF ssh_evolves_alarm] ssh_evolves_trans [OF pausesD]
        ssh_evolves_trans [OF pausesD ssh_evolves_trans [OF ssh_evolves_alarm]])

lemmas schedule_after [after] = ssh_evolves_trans [OF _ ssh_evolves_schedule]

lemma ssh_evolves_closing:
  assumes "not_live s i" "\<And>r. g r \<Longrightarrow> mg_session_id r = i \<and> mg_status r \<in> {Live, Closing}"
  shows "ssh_evolves T s (upd_managed g (\<lambda>r. r\<lparr>mg_status := st\<rparr>) s)"
  using assms not_live_is_live [OF assms(1)] by (intro ssh_evolves_upd_managed) auto

lemma ssh_evolves_release_rows: "not_live s i \<Longrightarrow> ssh_evolves T s (release_rows i op st s)"
  unfolding release_rows_def by (rule ssh_evolves_trans [OF ssh_evolves_closing ssh_evolves_drop_lease]) auto

lemma ssh_evolves_shell_closed [evo]: "ssh_evolves T s (emit (ShellClosed i) s)"
  by (rule ssh_evolves_emit) simp

lemma ssh_evolves_finish:
  assumes p: "pauses T e" and i: "not_live s (lv_session_id v)"
  shows "ssh_evolves T s (snd (finishSession e v st s))"
proof -
  let ?i = "lv_session_id v"
  define s1 where "s1 = (if ev_ok e 0
    then upd_managed (\<lambda>r. mg_session_id r = ?i \<and> mg_status r = Live) (\<lambda>r. r\<lparr>mg_status := Closing\<rparr>) s else s)"
  define s2 where "s2 = ev_aw e 0 (emit (ShellClosed ?i) s1)"
  define s3 where "s3 = (if ev_ok e 1 \<or> ev_ok e 2 then release_rows ?i (lv_operation_id v) st s2 else s2)"
  have s1: "ssh_evolves T s s1" unfolding s1_def by (auto intro!: ssh_evolves_closing [OF i])
  have s2: "ssh_evolves T s s2"
    unfolding s2_def by (rule ssh_evolves_pause [OF p ssh_evolves_trans [OF s1 ssh_evolves_shell_closed]])
  have s3: "ssh_evolves T s s3"
    unfolding s3_def using s2 ssh_evolves_trans [OF s2 ssh_evolves_release_rows [OF not_live_evolves [OF i s2]]] by simp
  have "finishSession e v st s = scheduleSessionAlarm (from_nr 3 e) s3"
    by (simp add: finishSession_def Let_def s1_def s2_def s3_def)
  with ssh_evolves_trans [OF s3 ssh_evolves_schedule [OF pauses_from [OF p]]] show ?thesis by simp
qed

lemma ssh_evolves_settle [evo]:
  assumes p: "pauses T e" and st: "st \<noteq> Live"
  shows "ssh_evolves T s (snd (settleSession e i st s))"
proof (cases "session_of s i")
  case (Some v)
  show ?thesis
  proof (cases "lv_settled v")
    case True
    with Some pausesD [OF p] show ?thesis by (simp add: settleSession_def)
  next
    case False
    define mark :: "live_session \<Rightarrow> live_session" where "mark = (\<lambda>x. x\<lparr>lv_release := (if lv_release x = Live then Closing else lv_release x), lv_settled := True\<rparr>)"
    define s1 where "s1 = upd_session i mark s"
    define s2 where "s2 = snd (finishSession (from_nr 1 e) v st s1)"
    have s1: "ssh_evolves T s s1"
      unfolding s1_def mark_def by (rule ssh_evolves_upd_session) (simp add: live_evolves_def)
    have "not_live s1 i"
      using Some session_of_id [OF Some] by (simp add: not_live_def s1_def mark_def session_of_upd)
    then have s2: "ssh_evolves T s s2"
      unfolding s2_def using session_of_id [OF Some] by (intro ssh_evolves_trans [OF s1 ssh_evolves_finish]) (simp_all add: p)
    have "ssh_evolves T s2 (upd_session i (\<lambda>x. if lv_release x = Closing then x\<lparr>lv_release := st\<rparr> else x) s2)"
      by (rule ssh_evolves_upd_session) (simp add: live_evolves_def st)
    with s2 have "ssh_evolves T s (upd_session i (\<lambda>x. if lv_release x = Closing then x\<lparr>lv_release := st\<rparr> else x) s2)"
      by (rule ssh_evolves_trans)
    then show ?thesis using Some False
      by (simp add: settleSession_def Let_def split_beta s2_def s1_def mark_def)
  qed
qed (simp add: settleSession_def)

lemma ssh_evolves_forget:
  assumes "session_of s (mg_session_id r) = None"
  shows "ssh_evolves T s (snd (forget_lost e r s))"
proof -
  have "\<not> is_live s (mg_session_id r)" using assms by (simp add: is_live_def)
  then have "ssh_evolves T s (upd_managed (\<lambda>x. mg_session_id x = mg_session_id r \<and> mg_status x \<in> {Live, Closing})
      (\<lambda>x. x\<lparr>mg_status := Lost\<rparr>) s)"
    by (intro ssh_evolves_upd_managed) auto
  then show ?thesis by (auto simp: forget_lost_def Let_def intro: ssh_evolves_trans evo)
qed

lemmas settle_after [after] = ssh_evolves_trans [OF _ ssh_evolves_settle]
lemmas pause_after [after] = ssh_evolves_pause

lemma ssh_evolves_expire: "pauses T e \<Longrightarrow> ssh_evolves T s (snd (expire_session e i s))"
  by (auto simp: expire_session_def Let_def split: option.splits intro!: after)

lemma ssh_evolves_sweep_row: "pauses T e \<Longrightarrow> ssh_evolves T s (snd (sweep_row e now r s))"
  by (auto simp: sweep_row_def split: option.splits intro: ssh_evolves_forget ssh_evolves_expire)

lemma ssh_evolves_sweep_rows: "pauses T e \<Longrightarrow> ssh_evolves T s (snd (sweep_rows e now rs s))"
proof (induction rs arbitrary: s)
  case (Cons r rs)
  have "ssh_evolves T s (snd (sweep_row (from_nr (10 * length rs) e) now r s))"
    using Cons.prems by (intro ssh_evolves_sweep_row) simp
  with Cons show ?case by (auto simp: split_beta intro: ssh_evolves_trans)
qed simp

lemma ssh_evolves_sweep: "pauses T e \<Longrightarrow> ssh_evolves T s (snd (sweepSessions e s))"
  by (auto simp: sweepSessions_def Let_def split_beta intro!: ssh_evolves_trans [OF _ ssh_evolves_sweep_rows] schedule_after)

lemma ssh_evolves_enforce [evo]: "pauses T e \<Longrightarrow> ssh_evolves T s (snd (enforceSessionDeadlines e s))"
  unfolding enforceSessionDeadlines_def by (rule ssh_evolves_trans [OF pausesD ssh_evolves_sweep]) simp_all

section \<open>The handlers\<close>

lemmas synchronous_after [after] =
  ssh_evolves_trans [OF _ ssh_evolves_set_running] ssh_evolves_trans [OF _ ssh_evolves_set_receipt]
  ssh_evolves_trans [OF _ ssh_evolves_release] ssh_evolves_trans [OF _ ssh_evolves_persist]
  ssh_evolves_trans [OF _ ssh_evolves_store_effect] ssh_evolves_trans [OF _ ssh_evolves_persist_mutation]
  ssh_evolves_trans [OF _ ssh_evolves_shell_closed] ssh_evolves_trans [OF _ ssh_evolves_reserve]

lemmas enforce_after [after] = ssh_evolves_trans [OF _ ssh_evolves_enforce]

lemma ssh_evolves_claim: "in_window T0 T e \<Longrightarrow> ssh_evolves T s (snd (claim e c s))"
  using claimed [of T0 T e c s "fst (claim e c s)" "snd (claim e c s)"] by simp

lemmas claim_after [after] = ssh_evolves_trans [OF _ ssh_evolves_claim]

lemma started_after:
  \<comment> \<open>the claim, the mark and what is started\<close>
  assumes "in_window T0 T e" "claim e c s = (Some Admission, s')" "ssh_evolves T r s" "starts_op (cr_op c) x"
    "\<And>op. starts_op op x \<Longrightarrow> op = cr_op c"
  shows "ssh_evolves T r (if b then emit x (set_running (cr_op c) s') else set_running (cr_op c) s')"
proof -
  have "ssh_evolves T s s'" using claimed [OF assms(1,2)] by blast
  then have "ssh_evolves T s (set_running (cr_op c) s')" by (rule after)
  with ssh_evolves_start [OF assms(1,2,4,5)] show ?thesis
    using ssh_evolves_trans [OF assms(3)] by simp
qed

lemma ssh_evolves_run_exec:
  assumes "in_window T0 T e'" "claim e' c s = (Some Admission, s')" "pauses T e" "ssh_evolves T r s" "op = cr_op c"
  shows "ssh_evolves T r (snd (run_exec e op outcome s'))"
proof -
  have s': "ssh_evolves T r s'" using claimed [OF assms(1,2)] assms(4) by (blast intro: ssh_evolves_trans)
  define s2 where "s2 = ev_aw e 0 (if snd outcome then emit (CommandStarted op) (set_running op s') else set_running op s')"
  have "ssh_evolves T r s2" unfolding s2_def
    unfolding assms(5) by (rule ssh_evolves_pause [OF assms(3)], rule started_after [OF assms(1,2,4)]) simp_all
  then show ?thesis using s'
    by (auto simp: run_exec_def finish_exec_def Let_def s2_def [symmetric] intro!: synchronous_after)
qed

lemma ssh_evolves_execute:
  assumes "in_window T0 T e" "pauses T e"
  shows "ssh_evolves T s (snd (execute sha legacy e picked q outcome s))"
proof -
  let ?op = "lower (er_operationId q)" and ?q = "q\<lparr>er_hostId := lower (er_hostId q)\<rparr>"
  define s1 where "s1 = snd (enforceSessionDeadlines (from_nr 20 e) s)"
  define s2 where "s2 = ev_aw e 0 s1"
  define c where "c = \<lparr>cr_op = ?op, cr_host = lower (er_hostId q), cr_digest = canonicalOperationDigest sha (exec_intent ?q),
    cr_picked = picked, cr_reserve = True\<rparr>"
  obtain a s3 where claim: "claim (from_nr 1 e) c s2 = (a, s3)" by fastforce
  have s1: "ssh_evolves T s s1" unfolding s1_def using assms by (intro ssh_evolves_enforce) simp
  then have s2: "ssh_evolves T s s2" unfolding s2_def by (rule ssh_evolves_pause [OF assms(2)])
  have s3: "ssh_evolves T s s3"
    using claimed [OF in_window_from [OF assms(1)] claim] s2 by (blast intro: ssh_evolves_trans)
  have run: "ssh_evolves T s (snd (run_exec (from_nr 2 e) ?op outcome s3))" if "a = Some Admission"
    using ssh_evolves_run_exec [OF in_window_from [OF assms(1)], of 1 c s2 s3 "from_nr 2 e" s] claim that s2 assms(2)
    by (simp add: c_def)
  show ?thesis
    using s1 s3 run claim ssh_evolves_pause [OF assms(2) s3]
    by (simp add: execute_def Let_def split_beta s1_def [symmetric] s2_def [symmetric] c_def [symmetric]
        split: option.splits admission.splits)
qed

lemma ssh_evolves_finish_mutation:
  assumes "in_window T0 T e'" "claim e' c s = (Some Admission, s')" "pauses T e" "ssh_evolves T r s" "op = cr_op c"
  shows "ssh_evolves T r (snd (finish_mutation e op p outcome s'))"
proof -
  have s': "ssh_evolves T r s'" using claimed [OF assms(1,2)] assms(4) by (blast intro: ssh_evolves_trans)
  define s2 where "s2 = ev_aw e 0 (if snd outcome then emit (SftpMutation op) (set_running op s') else set_running op s')"
  have "ssh_evolves T r s2" unfolding s2_def
    unfolding assms(5) by (rule ssh_evolves_pause [OF assms(3)], rule started_after [OF assms(1,2,4)]) simp_all
  then show ?thesis using s'
    by (auto simp: finish_mutation_def Let_def split_beta s2_def [symmetric] intro!: synchronous_after)
qed

lemma ssh_evolves_mutation:
  assumes "in_window T0 T e" "pauses T e"
  shows "ssh_evolves T s (snd (mutation_handler sha e picked invalid op i p outcome s))"
proof (cases invalid)
  case None
  define s1 where "s1 = snd (enforceSessionDeadlines (from_nr 20 e) s)"
  define s2 where "s2 = ev_aw e 0 s1"
  define c where "c = \<lparr>cr_op = op, cr_host = in_hostId i, cr_digest = canonicalOperationDigest sha i,
    cr_picked = picked, cr_reserve = True\<rparr>"
  obtain a s3 where claim: "claim (from_nr 1 e) c s2 = (a, s3)" by fastforce
  have s1: "ssh_evolves T s s1" unfolding s1_def using assms by (intro ssh_evolves_enforce) simp
  then have s2: "ssh_evolves T s s2" unfolding s2_def by (rule ssh_evolves_pause [OF assms(2)])
  have s3: "ssh_evolves T s s3"
    using claimed [OF in_window_from [OF assms(1)] claim] s2 by (blast intro: ssh_evolves_trans)
  have run: "ssh_evolves T s (snd (finish_mutation (from_nr 1 (from_nr 1 e)) op p outcome s3))" if "a = Some Admission"
    using ssh_evolves_finish_mutation [OF in_window_from [OF assms(1)], of 1 c s2 s3 "from_nr 1 (from_nr 1 e)" s]
      claim that s2 assms(2) by (simp add: c_def)
  show ?thesis
    using None s1 s3 run claim
    by (simp add: mutation_handler_def runMutatingSftp_def Let_def split_beta s1_def [symmetric] s2_def [symmetric]
        c_def [symmetric] split: option.splits admission.splits)
qed (simp add: mutation_handler_def)

lemma ssh_evolves_run_sftp:
  assumes "pauses T e"
  shows "ssh_evolves T s (snd (runSftp e l host path timeoutMs outcome s))"
proof -
  define s1 where "s1 = snd (enforceSessionDeadlines (from_nr 20 e) s)"
  obtain a s2 where res: "reserveConnection (ev_ok e 0) l (lower host) (ev_clk e 0) s1 = (a, s2)" by fastforce
  have s1: "ssh_evolves T s s1" using assms by (auto simp: s1_def intro: evo)
  have s2: "ssh_evolves T s s2"
    using ssh_evolves_trans [OF s1 ssh_evolves_reserve [of T s1 "ev_ok e 0" l "lower host" "ev_clk e 0"]] res by simp
  have "ssh_evolves T s (releaseLease (ev_ok e 1) (ev_ok e 2) l (ev_aw e 0 s2))"
    using assms s2 by (intro after)
  with s1 s2 res show ?thesis
    by (simp add: runSftp_def Let_def split_beta s1_def [symmetric] split: option.splits bool.splits)
qed

lemma ssh_evolves_status: "pauses T e \<Longrightarrow> ssh_evolves T s (snd (getOperationStatus e op s))"
  by (auto simp: getOperationStatus_def Let_def split_beta split: option.splits intro: evo)

lemma ssh_evolves_read_output: "pauses T e \<Longrightarrow> ssh_evolves T s (snd (readSessionOutput e i offset limit s))"
  by (auto simp: readSessionOutput_def Let_def split_beta intro: evo)

lemma ssh_evolves_read_status: "pauses T e \<Longrightarrow> ssh_evolves T s (snd (readSessionStatus e i s))"
  by (auto simp: readSessionStatus_def Let_def split_beta split: option.splits intro: evo)

lemma ssh_evolves_pump: "ssh_evolves T s (pump_chunk i bytes s)"
  unfolding pump_chunk_def by (rule ssh_evolves_upd_session) (simp add: live_evolves_def)

section \<open>Starting a session\<close>

lemma ssh_evolves_start_failed [after]:
  assumes "ssh_evolves T r s"
  shows "ssh_evolves T r (snd (start_failed e op x s))"
  using assms by (auto simp: start_failed_def Let_def split_beta intro!: synchronous_after)

lemma ssh_evolves_open_session:
  assumes "in_window T0 T e'" "claim e' c s = (Some Admission, s')" "pauses T e" "ssh_evolves T r s" "op = cr_op c"
  shows "ssh_evolves T r (snd (open_session e i host op opened asked s'))"
proof -
  have s': "ssh_evolves T r s'" using claimed [OF assms(1,2)] assms(4) by (blast intro: ssh_evolves_trans)
  define s2 where "s2 = ev_aw e 0 (if asked then emit (ShellOpened op) (set_running op s') else set_running op s')"
  have s2: "ssh_evolves T r s2" unfolding s2_def
    unfolding assms(5) by (rule ssh_evolves_pause [OF assms(3)], rule started_after [OF assms(1,2,4)]) simp_all
  show ?thesis
  proof (cases "ev_ok e 0")
    case False
    with s' show ?thesis by (auto simp: open_session_def intro!: synchronous_after)
  next
    case ok: True
    show ?thesis
    proof (cases opened)
      case (Inl x)
      with ok s2 show ?thesis
        by (simp add: open_session_def Let_def s2_def [symmetric] ssh_evolves_start_failed)
    next
      case (Inr digest)
      define v where "v = started_session i op host digest (ev_clk e 0)"
      define s3 where "s3 = (insert_session v s2)\<lparr>do_sessions := do_sessions (insert_session v s2) @ [v]\<rparr>"
      define s4 where "s4 = snd (scheduleSessionAlarm (from_nr 6 e) s3)"
      have "ssh_evolves T r s4" if "\<not> key_taken v s2"
      proof -
        have "ssh_evolves T s2 s3" unfolding s3_def using that by (intro evo) (simp_all add: v_def started_session_def)
        with s2 have "ssh_evolves T r s3" by (rule ssh_evolves_trans)
        then show ?thesis unfolding s4_def by (rule after) (simp add: assms(3))
      qed
      moreover from this have "ssh_evolves T r (ev_aw e 2 (emit (ShellClosed i) s4))" if "\<not> key_taken v s2"
        using that assms(3) by (intro after) simp_all
      moreover have "ssh_evolves T r (ev_aw e 1 (emit (ShellClosed i) s2))" using s2 assms(3) by (intro after)
      ultimately show ?thesis using Inr ok
        by (auto simp: open_session_def Let_def split_beta s2_def [symmetric] v_def [symmetric]
            s3_def [symmetric] s4_def [symmetric] intro!: synchronous_after ssh_evolves_start_failed)
    qed
  qed
qed

lemma ssh_evolves_start_session:
  assumes "in_window T0 T e" "pauses T e"
  shows "ssh_evolves T s (snd (startSession sha e picked i hostId operationId termType opened asked s))"
proof -
  let ?op = "lower operationId"
  define s1 where "s1 = snd (enforceSessionDeadlines (from_nr 30 e) s)"
  define s2 where "s2 = ev_aw e 0 s1"
  define tt where "tt = (case termType of Some t \<Rightarrow> t | None \<Rightarrow> ''xterm-256color'')"
  define c where "c = \<lparr>cr_op = ?op, cr_host = lower hostId,
    cr_digest = canonicalOperationDigest sha (start_intent (lower hostId) tt), cr_picked = picked, cr_reserve = True\<rparr>"
  obtain a s3 where claim: "claim (from_nr 1 e) c s2 = (a, s3)" by fastforce
  have s1: "ssh_evolves T s s1" unfolding s1_def using assms by (intro ssh_evolves_enforce) simp
  then have s2: "ssh_evolves T s s2" unfolding s2_def by (rule ssh_evolves_pause [OF assms(2)])
  have s3: "ssh_evolves T s s3"
    using claimed [OF in_window_from [OF assms(1)] claim] s2 by (blast intro: ssh_evolves_trans)
  have run: "ssh_evolves T s (snd (open_session (from_nr 2 e) i (lower hostId) ?op opened asked s3))" if "a = Some Admission"
    using ssh_evolves_open_session [OF in_window_from [OF assms(1)], of 1 c s2 s3 "from_nr 2 e" s] claim that s2 assms(2)
    by (simp add: c_def)
  show ?thesis
    using s1 s3 run claim
    by (simp add: startSession_def Let_def split_beta tt_def [symmetric] s1_def [symmetric] s2_def [symmetric] c_def [symmetric]
        split: option.splits admission.splits)
qed

section \<open>Input and stop\<close>

lemma ssh_evolves_reject:
  assumes "pauses T e" "ssh_evolves T r s"
  shows "ssh_evolves T r (snd (rejectInputIfTargetChanged e w v s))"
  using assms by (auto simp: rejectInputIfTargetChanged_def Let_def split: sum.splits thrown.splits
      intro!: settle_after pause_after)

lemma ssh_evolves_touch:
  assumes "pauses T e" "ssh_evolves T r s"
  shows "ssh_evolves T r (touch_session e i s)"
proof -
  let ?s1 = "upd_session i (\<lambda>v. v\<lparr>lv_last_activity := ev_clk e 0\<rparr>) s"
  have s1: "ssh_evolves T r ?s1"
    by (rule ssh_evolves_trans [OF assms(2) ssh_evolves_upd_session]) (simp add: live_evolves_def)
  have "ssh_evolves T r (upd_managed (\<lambda>r. mg_session_id r = i) (\<lambda>r. r\<lparr>mg_last_activity := ev_clk e 0\<rparr>) ?s1)"
    by (rule ssh_evolves_trans [OF s1 ssh_evolves_upd_managed]) simp_all
  then have "ssh_evolves T r (snd (scheduleSessionAlarm (from_nr 1 e)
      (upd_managed (\<lambda>r. mg_session_id r = i) (\<lambda>r. r\<lparr>mg_last_activity := ev_clk e 0\<rparr>) ?s1)))"
    using assms(1) by (intro schedule_after) simp_all
  with s1 show ?thesis by (simp add: touch_session_def Let_def)
qed

lemma ssh_evolves_write_input:
  assumes "pauses T e" "ssh_evolves T r s"
  shows "ssh_evolves T r (snd (write_input e w i op text s))"
proof -
  define s1 where "s1 = ev_aw e 0 (emit (InputWritten op i text) s)"
  have "ssh_evolves T s (emit (InputWritten op i text) s)" by (rule ssh_evolves_emit) simp
  then have s1: "ssh_evolves T r s1" unfolding s1_def by (intro pause_after assms ssh_evolves_trans [OF assms(2)])
  have "ssh_evolves T r (snd (settleSession (from_nr 10 e) i Lost s1))" using s1 assms(1) by (intro settle_after) simp_all
  moreover have "ssh_evolves T r (touch_session (from_nr 20 e) i s1)" using s1 assms(1) by (intro ssh_evolves_touch) simp_all
  ultimately show ?thesis using s1
    by (auto simp: write_input_def s1_def [symmetric] Let_def intro!: synchronous_after)
qed

lemma ssh_evolves_admitted_input:
  assumes "pauses T e" "ssh_evolves T r s"
  shows "ssh_evolves T r (snd (admitted_input e w i op text s))"
proof -
  let ?s1 = "set_running op s"
  have s1: "ssh_evolves T r ?s1" using assms(2) by (intro synchronous_after)
  have s2: "ssh_evolves T r (snd (rejectInputIfTargetChanged (from_nr 10 e) w v ?s1))" for v
    using s1 assms(1) by (intro ssh_evolves_reject) simp_all
  have "ssh_evolves T r (snd (write_input (from_nr 30 e) w i op text
      (snd (rejectInputIfTargetChanged (from_nr 10 e) w v ?s1))))" for v
    using s2 assms(1) by (intro ssh_evolves_write_input) simp_all
  with s1 s2 assms(2) show ?thesis
    by (auto simp: admitted_input_def Let_def split_beta split: option.splits intro!: synchronous_after)
qed

lemma ssh_evolves_settle_if_expired:
  assumes "pauses T e" "ssh_evolves T r s"
  shows "ssh_evolves T r (snd (settle_if_expired e i s))"
  using assms by (auto simp: settle_if_expired_def split: option.splits intro!: settle_after)

lemma ssh_evolves_perform_input:
  assumes "in_window T0 T e" "pauses T e" "ssh_evolves T r s"
  shows "ssh_evolves T r (snd (performInput sha e picked w i op text s))"
proof -
  define s1 where "s1 = snd (settle_if_expired (from_nr 10 e) i s)"
  have s1: "ssh_evolves T r s1" unfolding s1_def using assms by (intro ssh_evolves_settle_if_expired) simp_all
  have s2: "ssh_evolves T r (snd (claim (from_nr 1 e) c (ev_aw e 0 s1)))" for c
    by (intro claim_after [OF _ in_window_from [OF assms(1)]] pause_after s1 assms(2))
  have s3: "ssh_evolves T r (snd (admitted_input (from_nr 20 e) w i op text (snd (claim (from_nr 1 e) c (ev_aw e 0 s1)))))" for c
    using s2 assms(2) by (intro ssh_evolves_admitted_input) simp_all
  show ?thesis using s1 s2 s3 assms(3)
    by (auto simp: performInput_def Let_def split_beta s1_def [symmetric] split: option.splits admission.splits)
qed

lemma ssh_evolves_input:
  assumes "in_window T0 T e" "pauses T e"
  shows "ssh_evolves T s (snd (inputSession sha e picked w i op text s))"
proof -
  have s1: "ssh_evolves T s (snd (enforceSessionDeadlines (from_nr 100 e) s))" using assms by (intro ssh_evolves_enforce) simp
  have "ssh_evolves T s (snd (performInput sha (from_nr 1 e) picked w (lower i) (lower op) text
      (ev_aw e 0 (snd (enforceSessionDeadlines (from_nr 100 e) s)))))"
    by (intro ssh_evolves_perform_input [OF in_window_from [OF assms(1)]] pauses_from pause_after s1 assms(2))
  with s1 show ?thesis by (simp add: inputSession_def Let_def split_beta)
qed

lemma ssh_evolves_emergency:
  assumes "in_window T0 T e" "pauses T e" "ssh_evolves T r s"
  shows "ssh_evolves T r (snd (emergencyStop sha e picked op i s))"
proof -
  define s1 where "s1 = snd (settleSession (from_nr 10 e) i Closed s)"
  have s1: "ssh_evolves T r s1" unfolding s1_def using assms by (intro settle_after) simp_all
  have s2: "ssh_evolves T r (snd (claim e c (ev_aw e 0 s1)))" for c
    using s1 assms by (intro claim_after pause_after) auto
  show ?thesis using s2 assms(3)
    by (auto simp: emergencyStop_def Let_def split_beta s1_def [symmetric] split: option.splits intro!: synchronous_after)
qed

lemma ssh_evolves_admitted_stop:
  assumes "pauses T e" "ssh_evolves T r s"
  shows "ssh_evolves T r (snd (admitted_stop e i op s))"
  using assms by (auto simp: admitted_stop_def Let_def split_beta intro!: synchronous_after settle_after)

lemma ssh_evolves_stop:
  assumes "in_window T0 T e" "pauses T e"
  shows "ssh_evolves T s (snd (stopSession sha e picked i op s))"
proof -
  define s1 where "s1 = ev_aw e 0 (snd (enforceSessionDeadlines (from_nr 100 e) s))"
  have s1: "ssh_evolves T s s1" unfolding s1_def using assms by (intro pause_after ssh_evolves_enforce) simp_all
  have claim: "ssh_evolves T s (snd (claim (from_nr k e) c (ev_aw e n s1)))" for c k n
    by (intro claim_after [OF _ in_window_from [OF assms(1)]] pause_after s1 assms(2))
  have emergency: "ssh_evolves T s (snd (emergencyStop sha (from_nr k e) picked x j t))" if "ssh_evolves T s t" for t x j k
    by (intro ssh_evolves_emergency [OF in_window_from [OF assms(1)]] pauses_from that assms(2))
  have "ssh_evolves T s (snd (admitted_stop (from_nr k e) j x t))" if "ssh_evolves T s t" for t x j k
    by (intro ssh_evolves_admitted_stop pauses_from that assms(2))
  with s1 claim emergency show ?thesis
    by (auto simp: stopSession_def performStop_def Let_def split_beta s1_def [symmetric] from_nr_from
        split: option.splits admission.splits)
qed

section \<open>Runs\<close>

inductive handler :: "(env \<Rightarrow> ssh_do \<Rightarrow> ssh_do) \<Rightarrow> bool" where
  \<comment> \<open>the entry points of the object, with their arguments and what the remote side does\<close>
  exec: "handler (\<lambda>e s. snd (execute sha legacy e picked q outcome s))"
| status: "handler (\<lambda>e s. snd (getOperationStatus e op s))"
| list_directory: "handler (\<lambda>e s. snd (listDirectory e l host path timeout sw s))"
| read_text: "handler (\<lambda>e s. snd (readText e l host path timeout sw s))"
| write_text: "handler (\<lambda>e s. snd (writeText sha e picked host op path contents overwrite timeout result s))"
| rename: "handler (\<lambda>e s. snd (renamePath sha e picked host op path new_path overwrite timeout result s))"
| delete: "handler (\<lambda>e s. snd (deletePath sha e picked host op path kind confirm timeout result s))"
| mkdir: "handler (\<lambda>e s. snd (makeDirectory sha e picked host op path timeout result s))"
| start: "handler (\<lambda>e s. snd (startSession sha e picked i host op term opened asked s))"
| read_output: "handler (\<lambda>e s. snd (readSessionOutput e i offset limit s))"
| session_status: "handler (\<lambda>e s. snd (readSessionStatus e i s))"
| input: "handler (\<lambda>e s. snd (inputSession sha e picked w i op text s))"
| stop: "handler (\<lambda>e s. snd (stopSession sha e picked i op s))"
| alarm: "handler (\<lambda>e s. snd (session_alarm e s))"
| ended: "handler (\<lambda>e s. observed_end e i s)"
| chunk: "handler (\<lambda>e s. pump_chunk i bytes s)"

lemmas thin_handlers = listDirectory_def readText_def writeText_def renamePath_def deletePath_def makeDirectory_def
  session_alarm_def observed_end_def

lemma handler_evolves: "handler h \<Longrightarrow> in_window T0 T e \<Longrightarrow> pauses T e \<Longrightarrow> ssh_evolves T s (h e s)"
  by (cases rule: handler.cases)
    (auto simp: thin_handlers intro: ssh_evolves_execute ssh_evolves_status ssh_evolves_run_sftp
      ssh_evolves_mutation ssh_evolves_start_session ssh_evolves_read_output ssh_evolves_read_status
      ssh_evolves_input ssh_evolves_stop ssh_evolves_enforce ssh_evolves_pump ssh_evolves_settle)

inductive ssh_run :: "int \<Rightarrow> int \<Rightarrow> ssh_do \<Rightarrow> ssh_do \<Rightarrow> bool" for T0 T where
  \<comment> \<open>well-nested runs: whole handlers in sequence, each pause of a handler a run itself\<close>
  idle: "ssh_run T0 T s s"
| next_step: "ssh_run T0 T s t \<Longrightarrow> ssh_run T0 T t u \<Longrightarrow> ssh_run T0 T s u"
| handle: "in_window T0 T e \<Longrightarrow> (\<And>n x. ssh_run T0 T x (ev_aw e n x)) \<Longrightarrow> handler h \<Longrightarrow> ssh_run T0 T s (h e s)"

lemma run_evolves: "ssh_run T0 T s t \<Longrightarrow> ssh_evolves T s t"
proof (induction rule: ssh_run.induct)
  case (next_step s t u)
  then show ?case by (blast intro: ssh_evolves_trans)
next
  case (handle e h s)
  then show ?case by (intro handler_evolves) (auto simp: pauses_def)
qed auto

inductive ssh_history :: "int \<Rightarrow> int \<Rightarrow> ssh_do \<Rightarrow> ssh_do \<Rightarrow> bool" for T0 T where
  \<comment> \<open>well-nested runs, and restarts of the object between them\<close>
  fresh: "ssh_history T0 T s s"
| running: "ssh_history T0 T s t \<Longrightarrow> ssh_run T0 T t u \<Longrightarrow> ssh_history T0 T s u"
| restart: "ssh_history T0 T s t \<Longrightarrow> ssh_history T0 T s (start_object t)"

end
