(* ===== verification/SshHistory.thy ===== *)
theory SshHistory
  imports SshEvolves
begin

text \<open>
  Histories of \<open>SshOperationsDO\<close>: well-nested runs of handlers and restarts of the object between them,
  and the properties of stored operations and sessions that follow.
\<close>

section \<open>Histories\<close>

lemma operation_of_restart:
  "operation_of (start_object s) op =
    map_option (\<lambda>r. if op_status r \<in> {Admitted, Running} then r\<lparr>op_status := Unknown, op_result := None\<rparr> else r)
      (operation_of s op)"
  by (simp add: operation_of_def start_object_def find_upd_rows [where k = op_id])

lemma sessionRow_restart:
  "sessionRow (start_object s) i =
    map_option (\<lambda>r. if mg_status r \<in> {Live, Closing} then r\<lparr>mg_status := Lost\<rparr> else r) (sessionRow s i)"
  by (simp add: sessionRow_def start_object_def find_upd_rows [where k = mg_session_id])

lemma restart_evolves: "store_evolves T s (start_object s)"
proof -
  have "recent T op (start_object s) = recent T op s" "digest_of op (start_object s) = digest_of op s" for op
    by (cases "operation_of s op"; force simp: recent_def digest_of_def operation_of_restart)+
  then have "claims_evolve T op s (start_object s)" for op
    by (simp add: claims_evolve_def starts_def start_object_def)
  moreover have "leases_bounded (start_object s)" by (simp add: leases_bounded_def start_object_def)
  moreover have "live_rows (start_object s)"
    by (simp add: live_rows_def is_live_def session_of_def start_object_def)
  moreover have "ended_row i s = Some st \<Longrightarrow> ended_row i (start_object s) = Some st" for i st
    by (auto simp: ended_row_def sessionRow_restart split: option.splits if_splits)
  ultimately show ?thesis by (simp add: store_evolves_def)
qed

lemma history_evolves: "ssh_history T0 T s t \<Longrightarrow> store_evolves T s t"
proof (induction rule: ssh_history.induct)
  case (fresh s)
  then show ?case using ssh_evolves_refl ssh_evolves_store by blast
next
  case (running s t u)
  then show ?case by (blast intro: store_evolves_trans ssh_evolves_store run_evolves)
next
  case (restart s t)
  then show ?case by (blast intro: store_evolves_trans restart_evolves)
qed

section \<open>Receipts, leases and final states\<close>

definition first_core :: ssh_core where
  "first_core = \<lparr>do_operations = [], do_leases = [], do_managed = [], do_sessions = [], do_unresolved = [],
     do_alarm = None, do_effects = []\<rparr>"

definition first_ssh_do :: ssh_do where
  "first_ssh_do = \<lparr>do_operations = [], do_leases = [], do_managed = [], do_sessions = [], do_unresolved = [],
     do_alarm = None, do_effects = [], do_segments = (first_core, [])\<rparr>"

definition quiet_env :: env where
  \<comment> \<open>nothing happens in the pauses, storage works, the clock stands\<close>
  "quiet_env = \<lparr>ev_aw = (\<lambda>n s. s), ev_ok = (\<lambda>n. True), ev_clk = (\<lambda>n. 0)\<rparr>"

definition sample_exec_request :: exec_request where
  "sample_exec_request = \<lparr>er_hostId = ''h'', er_operationId = ''a'', er_command = ''ls'', er_timeoutMs = 1000\<rparr>"

definition sample_exec_reply :: exec_reply where
  "sample_exec_reply = \<lparr>ex_status = Completed, ex_stdout = Some [104], ex_stderr = Some [], ex_exit_code = Some (Some 0),
     ex_truncated = False, ex_error = None\<rparr>"

definition sample_execute :: "ssh_do \<Rightarrow> reply \<times> ssh_do" where
  "sample_execute = execute in_tool er_command quiet_env [] sample_exec_request (sample_exec_reply, True)"

lemma quiet_window: "in_window 0 10 quiet_env"
  by (simp add: in_window_def quiet_env_def RECEIPT_RETENTION_MS_def DAY_def)

lemma quiet_pauses: "ssh_run 0 10 x (ev_aw quiet_env n x)"
  by (simp add: quiet_env_def ssh_run.idle)

lemma sample_execute_run: "ssh_run 0 10 s (snd (sample_execute s))"
  unfolding sample_execute_def by (rule ssh_run.handle [OF quiet_window quiet_pauses handler.exec])

lemma sample_execute_history: "ssh_history 0 10 s (start_object (snd (sample_execute s)))"
  by (rule ssh_history.restart [OF ssh_history.running [OF ssh_history.fresh sample_execute_run]])

lemma sample_lower: "lower ''a'' = ''a''" "lower ''h'' = ''h''"
  by code_simp+

lemmas sample_execute_defs = sample_execute_def execute_def sample_exec_request_def sample_exec_reply_def quiet_env_def
  enforceSessionDeadlines_def sweepSessions_def scheduleSessionAlarm_def next_deadline_def from_nr_def
  claim_def claimOperation_def prune_def at_capacity_def has_lease_def TOTAL_CONNECTION_LIMIT_def
  HOST_CONNECTION_LIMIT_def run_exec_def finish_exec_def set_running_def set_receipt_def upd_operation_def
  releaseLease_def drop_lease_def emit_def canonicalOperationDigest_def exec_intent_def sample_lower

lemma sample_execute_starts: "starts ''a'' (snd (sample_execute first_ssh_do)) = 1"
  by (simp add: sample_execute_defs first_ssh_do_def starts_def Let_def)

text \<open>A stored session that is closed or lost keeps that status for ever.
\<close>
theorem ended_session_is_final:
  assumes "ssh_history T0 T s t" "ended_row i s = Some st"
  shows "ended_row i t = Some st"
  using history_evolves [OF assms(1)] assms(2) by (simp add: store_evolves_def)

definition sample_lost :: ssh_do where
  "sample_lost = first_ssh_do\<lparr>do_managed := [\<lparr>mg_session_id = ''s'', mg_operation_id = ''a'', mg_host = ''h'',
     mg_status = Lost, mg_created = 0, mg_last_activity = 0, mg_absolute_deadline = 0\<rparr>]\<rparr>"

lemma ended_session_is_final_witness: "ended_row ''s'' (start_object (snd (sample_execute sample_lost))) = Some Lost"
proof -
  have "ended_row ''s'' sample_lost = Some Lost" by (simp add: ended_row_def sample_lost_def sessionRow_def)
  then show ?thesis by (rule ended_session_is_final [OF sample_execute_history])
qed

section \<open>A retry\<close>

lemma to_lower_idem: "to_lower (to_lower c) = to_lower c"
proof (cases "is_upper c")
  case True
  then have "code (char_of (code c + 32)) = code c + 32" by (auto simp: code_def is_upper_def)
  with True have "\<not> is_upper (char_of (code c + 32))" by (auto simp: is_upper_def)
  with True show ?thesis by (simp add: to_lower_def)
qed (simp add: to_lower_def)

lemma lower_lower: "lower (lower x) = lower x"
  by (induction x) (simp_all add: lower_def to_lower_idem)

text \<open>C16: A request with an operation id that has a receipt starts nothing, and its reply is that
  the store is unavailable or the answer from the row that the store has for the id when the
  request reaches the claim, which still has the digest of the first request: a conflict when that
  digest is neither the new nor the legacy one of this request, else the stored result, or the status
  as long as there is none (admitted is reported as unknown).
\<close>
theorem retry_answered_from_receipt:
  assumes "in_window T0 T e" "\<forall>n x. ssh_run T0 T x (ev_aw e n x)" "op = lower (er_operationId q)"
    "recent T op s" "digest_of op s = Some d" "execute sha legacy e picked q outcome s = (r, t)"
  shows "starts op t = starts op s \<and> (r = unavailable_reply op \<or>
    (\<exists>x. operation_of (ev_aw e 0 (snd (enforceSessionDeadlines (from_nr 20 e) s))) op = Some x \<and> op_digest x = d \<and>
    r = (if d \<notin> {canonicalOperationDigest sha (exec_intent q), legacy (q\<lparr>er_hostId := lower (er_hostId q)\<rparr>)}
         then op_error op Failed ''receipt_conflict''
         else case op_result x of
           Some first \<Rightarrow> first
         | None \<Rightarrow> op_reply op (if op_status x = Admitted then Unknown else op_status x))))"
proof -
  let ?q = "q\<lparr>er_hostId := lower (er_hostId q)\<rparr>"
  define s1 where "s1 = snd (enforceSessionDeadlines (from_nr 20 e) s)"
  define s2 where "s2 = ev_aw e 0 s1"
  define c where "c = \<lparr>cr_op = op, cr_host = lower (er_hostId q), cr_digest = canonicalOperationDigest sha (exec_intent ?q),
    cr_picked = picked, cr_reserve = True\<rparr>"
  have p: "pauses T e" using assms(2) by (auto simp: pauses_def intro: run_evolves)
  have "ssh_evolves T s t" using ssh_evolves_execute [OF assms(1) p, of s sha legacy picked q outcome] assms(6) by simp
  then have starts: "starts op t = starts op s"
    using ssh_evolvesD(3) [of T s t op] assms(4) by (simp add: claims_evolve_def)
  have "ssh_evolves T s s1" unfolding s1_def using p by (intro ssh_evolves_enforce) simp
  then have "ssh_evolves T s s2" unfolding s2_def by (rule ssh_evolves_pause [OF p])
  then have s2: "recent T op s2" "digest_of op s2 = Some d"
    using ssh_evolvesD(3) [of T s s2 op] assms(4,5) by (simp_all add: claims_evolve_def)
  obtain a s3 where claim: "claim (from_nr 1 e) c s2 = (a, s3)" by fastforce
  have digest: "canonicalOperationDigest sha (exec_intent ?q) = canonicalOperationDigest sha (exec_intent q)"
    by (simp add: exec_intent_def canonicalOperationDigest_def lower_lower)
  show ?thesis
  proof (cases "fst (enforceSessionDeadlines (from_nr 20 e) s) \<and> ev_ok (from_nr 1 e) 0")
    case True
    then obtain x where x: "a = Some (Existing x)" "operation_of s2 op = Some x"
      using claimed [OF in_window_from [OF assms(1)] claim] s2(1) by (auto simp: c_def)
    have "op_digest x = d" using s2(2) x(2) by (simp add: digest_of_def)
    moreover have "r = existingExecReply op (canonicalOperationDigest sha (exec_intent ?q)) (legacy ?q) x"
      using assms(6) True claim x(1)
      by (simp add: execute_def Let_def split_beta s1_def [symmetric] s2_def [symmetric] assms(3) [symmetric]
          c_def [symmetric])
    ultimately show ?thesis using starts digest x(2) by (auto simp: s1_def s2_def existingExecReply_def)
  next
    case False
    then have "a = None" if "fst (enforceSessionDeadlines (from_nr 20 e) s)"
      using claim that by (auto simp: claim_def claimOperation_def)
    then have "r = unavailable_reply op"
      using assms(6) claim
      by (auto simp: execute_def Let_def split_beta s1_def [symmetric] s2_def [symmetric] assms(3) [symmetric]
          c_def [symmetric] split: if_splits)
    with starts show ?thesis by simp
  qed
qed

lemma sample_execute_row:
  "recent 10 ''a'' (snd (sample_execute first_ssh_do)) \<and> digest_of ''a'' (snd (sample_execute first_ssh_do)) = Some ''ssh_exec''"
  by (simp add: sample_execute_defs first_ssh_do_def recent_def digest_of_def operation_of_def Let_def
      RECEIPT_RETENTION_MS_def DAY_def)

lemma sample_exec_op: "lower (er_operationId sample_exec_request) = ''a''"
  by (simp add: sample_exec_request_def sample_lower)

lemma retry_answered_from_receipt_witness:
  "starts ''a'' (snd (sample_execute (snd (sample_execute first_ssh_do)))) = 1"
  using retry_answered_from_receipt [OF quiet_window, of "''a''" sample_exec_request "snd (sample_execute first_ssh_do)"
      "''ssh_exec''" in_tool er_command "[]" "(sample_exec_reply, True)"
      "fst (sample_execute (snd (sample_execute first_ssh_do)))" "snd (sample_execute (snd (sample_execute first_ssh_do)))"]
    sample_execute_row sample_execute_starts quiet_pauses
  by (simp add: sample_execute_def [symmetric] sample_exec_op)

section \<open>What ending a session leaves alone\<close>

definition awaits_keep :: "(ssh_do \<Rightarrow> ssh_do \<Rightarrow> bool) \<Rightarrow> env \<Rightarrow> bool" where
  "awaits_keep R e \<longleftrightarrow> (\<forall>n s. R s (ev_aw e n s))"

lemma awaits_keep_from [simp]: "awaits_keep R e \<Longrightarrow> awaits_keep R (from_nr k e)"
  by (simp add: awaits_keep_def)

locale session_frame =
  fixes R :: "ssh_do \<Rightarrow> ssh_do \<Rightarrow> bool"
  assumes same: "R s s" and trans: "R s t \<Longrightarrow> R t u \<Longrightarrow> R s u"
    and alarm: "R s (s\<lparr>do_alarm := a\<rparr>)" and managed: "R s (upd_managed g f s)"
    and sessions: "R s (upd_session i h s)" and lease: "R s (drop_lease op s)" and closed: "R s (emit (ShellClosed i) s)"
begin

lemmas behind = trans [OF _ alarm] trans [OF _ managed] trans [OF _ sessions] trans [OF _ lease] trans [OF _ closed]

lemma pause: "awaits_keep R e \<Longrightarrow> R r s \<Longrightarrow> R r (ev_aw e n s)"
  unfolding awaits_keep_def by (blast intro: trans)

lemma schedule: "awaits_keep R e \<Longrightarrow> R r s \<Longrightarrow> R r (snd (scheduleSessionAlarm e s))"
  by (auto simp: scheduleSessionAlarm_def Let_def split: option.splits intro!: behind pause)

lemma finish: "awaits_keep R e \<Longrightarrow> R r s \<Longrightarrow> R r (snd (finishSession e v st s))"
  by (auto simp: finishSession_def release_rows_def Let_def intro!: schedule behind pause)

lemma settle: "awaits_keep R e \<Longrightarrow> R r s \<Longrightarrow> R r (snd (settleSession e i st s))"
  by (auto simp: settleSession_def split_beta Let_def split: option.splits intro!: pause finish behind)

lemma sweep_one: "awaits_keep R e \<Longrightarrow> R r s \<Longrightarrow> R r (snd (sweep_row e now x s))"
  by (auto simp: sweep_row_def expire_session_def forget_lost_def Let_def split: option.splits
      intro!: pause settle behind)

lemma sweep_all: "awaits_keep R e \<Longrightarrow> R r s \<Longrightarrow> R r (snd (sweep_rows e now xs s))"
proof (induction xs arbitrary: s)
  case (Cons x xs)
  then have "R r (snd (sweep_row (from_nr (10 * length xs) e) now x s))" by (intro sweep_one) simp_all
  with Cons show ?case by (auto simp: split_beta)
qed simp

lemma enforce: "awaits_keep R e \<Longrightarrow> R r s \<Longrightarrow> R r (snd (enforceSessionDeadlines e s))"
  by (auto simp: enforceSessionDeadlines_def sweepSessions_def Let_def split_beta intro!: pause schedule sweep_all)

end

definition same_receipt :: "string \<Rightarrow> ssh_do \<Rightarrow> ssh_do \<Rightarrow> bool" where
  "same_receipt op s t \<longleftrightarrow> operation_of t op = operation_of s op"

fun is_input :: "string \<Rightarrow> effect \<Rightarrow> bool" where
  "is_input op (InputWritten x i t) \<longleftrightarrow> x = op"
| "is_input op _ \<longleftrightarrow> False"

definition inputs :: "string \<Rightarrow> ssh_do \<Rightarrow> nat" where
  "inputs op s = length (filter (is_input op) (do_effects s))"

definition same_inputs :: "string \<Rightarrow> ssh_do \<Rightarrow> ssh_do \<Rightarrow> bool" where
  "same_inputs op s t \<longleftrightarrow> inputs op t = inputs op s"

interpretation receipts: session_frame "same_receipt op"
  by unfold_locales (auto simp: same_receipt_def operation_of_def upd_managed_def upd_session_def drop_lease_def emit_def)

interpretation writes: session_frame "same_inputs op"
  by unfold_locales (auto simp: same_inputs_def inputs_def upd_managed_def upd_session_def drop_lease_def emit_def)

section \<open>The receipt of a command\<close>

lemma operation_of_lease [simp]: "operation_of (drop_lease x s) op = operation_of s op"
  by (simp add: operation_of_def drop_lease_def)

lemma operation_of_sessions [simp]:
  "operation_of (s\<lparr>do_sessions := vs\<rparr>) op = operation_of s op" "operation_of (s\<lparr>do_managed := rs\<rparr>) op = operation_of s op"
  by (simp_all add: operation_of_def)

lemma operation_of_release [simp]: "operation_of (releaseLease a b x s) op = operation_of s op"
  by (simp add: releaseLease_def)

lemma operation_of_id: "operation_of s op = Some r \<Longrightarrow> op_id r = op"
  by (auto simp: operation_of_def find_Some_iff)

lemma operation_of_running [simp]:
  "operation_of (set_running op s) op = map_option (\<lambda>r. r\<lparr>op_status := Running\<rparr>) (operation_of s op)"
  by (cases "operation_of s op") (simp_all add: set_running_def operation_of_upd operation_of_id)

lemma operation_of_receipt [simp]:
  "operation_of (set_receipt op x s) op =
    map_option (\<lambda>r. r\<lparr>op_status := rp_status x, op_result := Some x\<rparr>) (operation_of s op)"
  by (cases "operation_of s op") (simp_all add: set_receipt_def operation_of_upd operation_of_id)

lemma operation_of_emit [simp]: "operation_of (emit x s) op = operation_of s op"
  by (simp add: operation_of_def emit_def)

lemma claim_new:
  assumes "claim e c s = (Some Admission, t)"
  shows "\<exists>r. operation_of t (cr_op c) = Some r \<and> op_digest r = cr_digest c \<and> op_created r = ev_clk e 0"
  using assms by (auto simp: claim_def claimOperation_def Let_def operation_of_def find_snoc_row
      split: if_splits option.splits)

lemma claim_old:
  assumes "operation_of s (cr_op c) = Some r" "ev_clk e 0 - RECEIPT_RETENTION_MS < op_created r"
  shows "fst (claim e c s) \<in> {None, Some (Existing r)}"
  using prune_keeps [of "ev_clk e 0" "ev_clk e 0" "cr_op c" "do_operations s" r "cr_picked c"] assms
  by (auto simp: claim_def claimOperation_def Let_def operation_of_def)

lemma claim_absent:
  assumes "operation_of s (cr_op c) = None"
  shows "fst (claim e c s) \<noteq> Some (Existing r)"
proof -
  have "List.find (\<lambda>r. op_id r = cr_op c) (prune (cr_picked c) (ev_clk e 0) (do_operations s)) = None"
    using assms by (auto simp: operation_of_def prune_def find_None_iff)
  then show ?thesis by (simp add: claim_def claimOperation_def Let_def)
qed

lemma exec_digest:
  "canonicalOperationDigest sha (exec_intent (q\<lparr>er_hostId := lower (er_hostId q)\<rparr>)) =
   canonicalOperationDigest sha (exec_intent q)"
  by (simp add: exec_intent_def canonicalOperationDigest_def lower_lower)

text \<open>What \<open>execute\<close> replies after the deadlines, over the state \<open>s2\<close> in which it claims.\<close>

definition exec_claim :: "(intent \<Rightarrow> string) \<Rightarrow> string list \<Rightarrow> exec_request \<Rightarrow> claim_request" where
  "exec_claim sha picked q = \<lparr>cr_op = lower (er_operationId q), cr_host = lower (er_hostId q),
     cr_digest = canonicalOperationDigest sha (exec_intent q), cr_picked = picked, cr_reserve = True\<rparr>"

lemma execute_cases:
  assumes "awaits_keep (same_receipt (lower (er_operationId q))) e"
    and "execute sha legacy e picked q outcome s = (r, t)"
  obtains (unavailable) "r = unavailable_reply (lower (er_operationId q))"
  | (claimed) s2 a s3 where "operation_of s2 (lower (er_operationId q)) = operation_of s (lower (er_operationId q))"
      "claim (from_nr 1 e) (exec_claim sha picked q) s2 = (Some a, s3)"
      "a = Capacity \<Longrightarrow> r = op_error (lower (er_operationId q)) Failed ''capacity_reached''"
      "\<And>x. a = Existing x \<Longrightarrow> r = existingExecReply (lower (er_operationId q)) (cr_digest (exec_claim sha picked q))
         (legacy (q\<lparr>er_hostId := lower (er_hostId q)\<rparr>)) x"
      "a = Admission \<Longrightarrow> run_exec (from_nr 2 e) (lower (er_operationId q)) outcome s3 = (r, t)"
proof -
  let ?op = "lower (er_operationId q)" and ?q = "q\<lparr>er_hostId := lower (er_hostId q)\<rparr>"
  define s1 where "s1 = snd (enforceSessionDeadlines (from_nr 20 e) s)"
  define s2 where "s2 = ev_aw e 0 s1"
  have "same_receipt ?op s s1" unfolding s1_def
    using assms(1) by (intro receipts.enforce receipts.same) simp
  then have "same_receipt ?op s s2" unfolding s2_def by (rule receipts.pause [OF assms(1)])
  then have s2: "operation_of s2 ?op = operation_of s ?op" by (simp add: same_receipt_def)
  obtain a s3 where claim: "claim (from_nr 1 e) (exec_claim sha picked q) s2 = (a, s3)" by fastforce
  note unfold = execute_def Let_def split_beta s1_def [symmetric] s2_def [symmetric] exec_digest
  show thesis
  proof (cases "fst (enforceSessionDeadlines (from_nr 20 e) s) \<and> a \<noteq> None")
    case True
    then obtain b where b: "a = Some b" by auto
    show thesis
      by (rule claimed [of s2 b s3])
        (use s2 claim b assms(2) True in \<open>simp_all add: unfold exec_claim_def\<close>)
  next
    case False
    show thesis
      by (rule unavailable)
        (use claim assms(2) False in \<open>auto simp: unfold exec_claim_def split: if_splits\<close>)
  qed
qed

lemma run_exec_receipt:
  assumes "awaits_keep (same_receipt op) e" "run_exec e op outcome s = (r, t)" "rp_status r = Completed"
    "operation_of s op = Some x"
  shows "\<exists>y. operation_of t op = Some y \<and> op_digest y = op_digest x \<and> op_created y = op_created x \<and>
    op_result y = Some (exec_receipt op r)"
proof -
  define s1 where "s1 = (if snd outcome then emit (CommandStarted op) (set_running op s) else set_running op s)"
  have "same_receipt op s1 (ev_aw e 0 s1)" using assms(1) by (simp add: awaits_keep_def)
  then have "operation_of (ev_aw e 0 s1) op = Some (x\<lparr>op_status := Running\<rparr>)"
    using assms(4) by (simp add: same_receipt_def s1_def)
  with assms(2,3) show ?thesis
    by (auto simp: run_exec_def finish_exec_def Let_def s1_def [symmetric] unavailable_reply_def op_error_def
        op_reply_def bare_def split: if_splits)
qed

text \<open>C15: The receipt of a completed command answers every retry within the retention time: the
  reply of the retry is the first reply without the output, or that the store is unavailable.
\<close>
theorem completed_command_replayed:
  assumes "op = lower (er_operationId q)" "operation_of s op = None"
    "awaits_keep (same_receipt op) e" "awaits_keep (same_receipt op) e'"
    "execute sha legacy e picked q outcome s = (r, t)" "rp_status r = Completed" "same_receipt op t u"
    "ev_clk e' 1 - RECEIPT_RETENTION_MS < ev_clk e 1"
  shows "fst (execute sha legacy e' picked' q outcome' u) \<in> {unavailable_reply op, exec_receipt op r}"
proof -
  note first = assms(3) [unfolded assms(1)] and again = assms(4) [unfolded assms(1)]
  have "\<exists>y. operation_of t op = Some y \<and> op_digest y = cr_digest (exec_claim sha picked q) \<and> op_created y = ev_clk e 1 \<and>
      op_result y = Some (exec_receipt op r)"
    using first assms(5)
  proof (cases rule: execute_cases)
    case unavailable
    with assms(6) show ?thesis by (simp add: unavailable_reply_def op_error_def op_reply_def bare_def)
  next
    case (claimed s2 a s3)
    have "operation_of s2 (cr_op (exec_claim sha picked q)) = None"
      using claimed(1) assms(1,2) by (simp add: exec_claim_def)
    from claim_absent [OF this, of "from_nr 1 e"] claimed(2,3) assms(6) have a: "a = Admission"
      by (cases a) (auto simp: op_error_def op_reply_def bare_def)
    with claim_new [of "from_nr 1 e"] claimed(2) obtain x where "operation_of s3 op = Some x"
      "op_digest x = cr_digest (exec_claim sha picked q)" "op_created x = ev_clk e 1"
      using assms(1) by (fastforce simp: exec_claim_def)
    with run_exec_receipt [of op "from_nr 2 e" outcome s3 r t x] claimed(5) a assms(1,3,6) show ?thesis by simp
  qed
  then obtain y where y: "operation_of u op = Some y" "op_digest y = canonicalOperationDigest sha (exec_intent q)"
    "op_created y = ev_clk e 1" "op_result y = Some (exec_receipt op r)"
    using assms(7) by (auto simp: same_receipt_def exec_claim_def)
  obtain r' t' where run: "execute sha legacy e' picked' q outcome' u = (r', t')" by fastforce
  from again run have "r' \<in> {unavailable_reply op, exec_receipt op r}"
  proof (cases rule: execute_cases)
    case unavailable
    with assms(1) show ?thesis by simp
  next
    case (claimed s2 a s3)
    have "operation_of s2 (cr_op (exec_claim sha picked' q)) = Some y"
      using claimed(1) y(1) assms(1) by (simp add: exec_claim_def)
    from claim_old [OF this, of "from_nr 1 e'"] claimed(2) y(3) assms(8) have "a = Existing y" by auto
    with claimed(4) y assms(1) show ?thesis by (simp add: existingExecReply_def exec_claim_def)
  qed
  with run show ?thesis by simp
qed

lemma quiet_keeps: "(\<And>s. R s s) \<Longrightarrow> awaits_keep R quiet_env"
  by (simp add: awaits_keep_def quiet_env_def)

lemma completed_command_replayed_witness:
  "fst (sample_execute (snd (sample_execute first_ssh_do))) \<in>
     {unavailable_reply ''a'', exec_receipt ''a'' (fst (sample_execute first_ssh_do))}"
proof -
  have keep: "awaits_keep (same_receipt ''a'') quiet_env" by (rule quiet_keeps) (simp add: same_receipt_def)
  have "rp_status (fst (sample_execute first_ssh_do)) = Completed"
    by (simp add: sample_execute_defs first_ssh_do_def Let_def exec_as_reply_def op_reply_def bare_def)
  moreover have "execute in_tool er_command quiet_env [] sample_exec_request (sample_exec_reply, True) first_ssh_do =
      (fst (sample_execute first_ssh_do), snd (sample_execute first_ssh_do))"
    by (simp add: sample_execute_def)
  moreover have "ev_clk quiet_env 1 - RECEIPT_RETENTION_MS < ev_clk quiet_env 1"
    by (simp add: RECEIPT_RETENTION_MS_def DAY_def)
  moreover have "operation_of first_ssh_do ''a'' = None" by (simp add: operation_of_def first_ssh_do_def)
  ultimately have "fst (execute in_tool er_command quiet_env [] sample_exec_request (sample_exec_reply, True)
      (snd (sample_execute first_ssh_do))) \<in> {unavailable_reply ''a'', exec_receipt ''a'' (fst (sample_execute first_ssh_do))}"
    by (intro completed_command_replayed [OF sample_exec_op [symmetric] _ keep keep]) (simp_all add: same_receipt_def)
  then show ?thesis by (simp only: sample_execute_def)
qed

section \<open>Deadlines\<close>

lemma settle_not_live:
  assumes "live_rows s" "pauses T e" "st \<noteq> Live"
  shows "\<not> is_live (snd (settleSession e i st s)) i"
proof (cases "session_of s i")
  case (Some v)
  show ?thesis
  proof (cases "lv_settled v")
    case True
    with Some assms(1) have "not_live s i" by (auto simp: live_rows_def not_live_def)
    with not_live_evolves [OF this ssh_evolves_settle [OF assms(2,3)]] show ?thesis by (rule_tac not_live_is_live) simp
  next
    case False
    define s1 where "s1 = upd_session i (\<lambda>x. x\<lparr>lv_release := (if lv_release x = Live then Closing else lv_release x),
      lv_settled := True\<rparr>) s"
    define s2 where "s2 = snd (finishSession (from_nr 1 e) v st s1)"
    have s1: "not_live s1 i"
      using Some session_of_id [OF Some] by (simp add: not_live_def s1_def session_of_upd)
    have "ssh_evolves T s1 s2" unfolding s2_def
      using s1 session_of_id [OF Some] assms(2) by (intro ssh_evolves_finish) simp_all
    then have "not_live s2 i" by (rule not_live_evolves [OF s1])
    then obtain x where "session_of s2 i = Some x" "lv_release x \<noteq> Live" by (auto simp: not_live_def)
    then have "not_live (upd_session i (\<lambda>x. if lv_release x = Closing then x\<lparr>lv_release := st\<rparr> else x) s2) i"
      using assms(3) by (cases "lv_release x = Closing") (simp_all add: not_live_def session_of_upd)
    then have "\<not> is_live (upd_session i (\<lambda>x. if lv_release x = Closing then x\<lparr>lv_release := st\<rparr> else x) s2) i"
      by (rule not_live_is_live)
    moreover have "snd (settleSession e i st s) =
        upd_session i (\<lambda>x. if lv_release x = Closing then x\<lparr>lv_release := st\<rparr> else x) s2"
      using Some False by (simp add: settleSession_def Let_def split_beta s2_def s1_def)
    ultimately show ?thesis by simp
  qed
qed (simp add: settleSession_def is_live_def)

definition due :: "env \<Rightarrow> ssh_do \<Rightarrow> string \<Rightarrow> bool" where
  \<comment> \<open>the absolute deadline of the session lies before every reading of the clock\<close>
  "due e s i \<longleftrightarrow> (\<exists>v. session_of s i = Some v \<and> (\<forall>n. lv_absolute_deadline v \<le> ev_clk e n))"

lemma due_evolves:
  assumes "due e s i" "ssh_evolves T s t"
  shows "due e t i"
proof -
  from assms(1) obtain v where v: "session_of s i = Some v" "\<forall>n. lv_absolute_deadline v \<le> ev_clk e n"
    by (auto simp: due_def)
  from ssh_evolvesD(5) [OF assms(2) v(1)] obtain w where "session_of t i = Some w" "live_evolves v w" by blast
  with v(2) show ?thesis by (simp add: due_def live_evolves_def)
qed

lemma due_from: "due e s i \<Longrightarrow> due (from_nr k e) s i"
  by (auto simp: due_def)

lemma expire_due:
  assumes "live_rows s" "pauses T e" "due e s i"
  shows "\<not> is_live (snd (expire_session e i s)) i"
proof -
  let ?s1 = "ev_aw e 0 s"
  have s1: "ssh_evolves T s ?s1" by (rule pausesD [OF assms(2)])
  then obtain v where v: "session_of ?s1 i = Some v" "lv_absolute_deadline v \<le> ev_clk e 0"
    using due_evolves [OF assms(3) s1] by (auto simp: due_def)
  show ?thesis
  proof (cases "lv_release v = Live")
    case True
    have "\<not> is_live (snd (settleSession (from_nr 1 e) i Closed ?s1)) i"
      by (rule settle_not_live [OF ssh_evolvesD(2) [OF s1 assms(1)] pauses_from [OF assms(2)]]) simp
    with v True show ?thesis by (simp add: expire_session_def Let_def sessionExpired_def)
  next
    case False
    with v show ?thesis by (simp add: expire_session_def Let_def is_live_def)
  qed
qed

lemma sweep_row_due:
  assumes "live_rows s" "pauses T e" "due e s i" "mg_session_id r = i" "\<And>v. session_of s i = Some v \<Longrightarrow> lv_absolute_deadline v \<le> now"
  shows "\<not> is_live (snd (sweep_row e now r s)) i"
proof -
  obtain v where v: "session_of s i = Some v" using assms(3) by (auto simp: due_def)
  with assms(5) have "sessionExpired v now" by (simp add: sessionExpired_def)
  with v expire_due [OF assms(1-3)] assms(4) show ?thesis by (auto simp: sweep_row_def is_live_def)
qed

lemma sweep_rows_due:
  assumes "live_rows s" "pauses T e" "due e s i" "fst (sweep_rows e now rs s)" "r \<in> set rs" "mg_session_id r = i"
    "\<And>v. session_of s i = Some v \<Longrightarrow> lv_absolute_deadline v \<le> now"
  shows "\<not> is_live (snd (sweep_rows e now rs s)) i"
  using assms(1,3-5,7)
proof (induction rs arbitrary: s)
  case (Cons x rs)
  let ?e = "from_nr (10 * length rs) e"
  define s1 where "s1 = snd (sweep_row ?e now x s)"
  have p: "pauses T ?e" using assms(2) by simp
  have s1: "ssh_evolves T s s1" unfolding s1_def by (rule ssh_evolves_sweep_row [OF p])
  have rest: "fst (sweep_rows e now rs s1)" "snd (sweep_rows e now (x # rs) s) = snd (sweep_rows e now rs s1)"
    using Cons.prems(3) by (auto simp: split_beta s1_def split: if_splits)
  show ?case
  proof (cases "x = r")
    case True
    have "\<not> is_live s1 i" unfolding s1_def
      using Cons.prems(1,2,5) assms(6) True by (intro sweep_row_due [OF _ p due_from]) simp_all
    moreover obtain v where "session_of s1 i = Some v" using due_evolves [OF Cons.prems(2) s1] by (auto simp: due_def)
    ultimately have "not_live s1 i" by (simp add: not_live_def is_live_def)
    then have "not_live (snd (sweep_rows e now rs s1)) i"
      by (rule not_live_evolves) (rule ssh_evolves_sweep_rows [OF assms(2)])
    then show ?thesis unfolding rest(2) by (rule not_live_is_live)
  next
    case False
    have "lv_absolute_deadline v \<le> now" if "session_of s1 i = Some v" for v
    proof -
      from Cons.prems(2) obtain u where u: "session_of s i = Some u" by (auto simp: due_def)
      with ssh_evolvesD(5) [OF s1 u] that have "lv_absolute_deadline v = lv_absolute_deadline u"
        by (auto simp: live_evolves_def)
      with Cons.prems(5) [OF u] show ?thesis by simp
    qed
    then have "\<not> is_live (snd (sweep_rows e now rs s1)) i"
      using Cons.prems(2,4) False rest(1) ssh_evolvesD(2) [OF s1 Cons.prems(1)]
      by (intro Cons.IH due_evolves [OF _ s1]) auto
    then show ?thesis unfolding rest(2) .
  qed
qed simp

lemma sweep_due:
  assumes "live_rows s" "pauses T e" "due e s i" "sweepSessions e s = (True, t)"
  shows "not_live t i"
proof -
  define rows where "rows = filter (\<lambda>r. mg_status r \<in> {Live, Closing}) (do_managed s)"
  define swept where "swept = sweep_rows (from_nr 10 e) (ev_clk e 0) rows s"
  have run: "fst swept" "scheduleSessionAlarm (from_nr 1 e) (snd swept) = (True, t)"
    using assms(4) by (auto simp: sweepSessions_def Let_def split_beta rows_def swept_def split: if_splits)
  obtain u where u: "session_of s i = Some u" "\<forall>n. lv_absolute_deadline u \<le> ev_clk e n"
    using assms(3) by (auto simp: due_def)
  have "\<not> is_live (snd swept) i"
  proof (cases "is_live s i")
    case True
    with assms(1) obtain r where "sessionRow s i = Some r" "mg_status r = Live" by (auto simp: live_rows_def)
    then have "r \<in> set rows" "mg_session_id r = i"
      by (auto simp: rows_def sessionRow_def find_Some_iff)
    then show ?thesis unfolding swept_def
      using assms(1,2) due_from [OF assms(3)] run(1) [unfolded swept_def] u
      by (intro sweep_rows_due [where r = r and T = T]) auto
  next
    case False
    with u have "not_live s i" by (simp add: not_live_def is_live_def)
    then show ?thesis unfolding swept_def
      by (intro not_live_is_live not_live_evolves [OF _ ssh_evolves_sweep_rows [OF pauses_from [OF assms(2)]]])
  qed
  moreover have "ssh_evolves T s (snd swept)" unfolding swept_def
    by (rule ssh_evolves_sweep_rows [OF pauses_from [OF assms(2)]])
  from due_evolves [OF assms(3) this] obtain w where "session_of (snd swept) i = Some w" by (auto simp: due_def)
  ultimately have "not_live (snd swept) i" by (simp add: not_live_def is_live_def)
  from not_live_evolves [OF this ssh_evolves_schedule [OF pauses_from [OF assms(2)]], of 1] run(2) show ?thesis by simp
qed

text \<open>C17: When the enforcement of deadlines returns without an exception, a session whose absolute
  deadline has passed is not live any more, whatever the other handlers do in between.
\<close>
theorem absolute_deadline_enforced:
  assumes "\<forall>n x. ssh_run T0 T x (ev_aw e n x)" "live_rows s" "session_of s i = Some v"
    "\<forall>n. lv_absolute_deadline v \<le> ev_clk e n" "enforceSessionDeadlines e s = (True, t)"
  shows "\<not> is_live t i"
proof -
  have p: "pauses T e" using assms(1) by (auto simp: pauses_def intro: run_evolves)
  have s1: "ssh_evolves T s (ev_aw e 0 s)" by (rule pausesD [OF p])
  have "due e s i" using assms(3,4) by (auto simp: due_def)
  from due_from [OF due_evolves [OF this s1]] have "due (from_nr 1 e) (ev_aw e 0 s) i" .
  from sweep_due [OF ssh_evolvesD(2) [OF s1 assms(2)] pauses_from [OF p] this] assms(5) show ?thesis
    by (simp add: enforceSessionDeadlines_def not_live_is_live)
qed

definition sample_due :: ssh_do where
  "sample_due = first_ssh_do\<lparr>do_managed := [\<lparr>mg_session_id = ''s'', mg_operation_id = ''a'', mg_host = ''h'',
     mg_status = Live, mg_created = -3600000, mg_last_activity = -10, mg_absolute_deadline = 0\<rparr>],
     do_sessions := [(started_session ''s'' ''a'' ''h'' ''d'' (-3600000))\<lparr>lv_last_activity := -10\<rparr>]\<rparr>"

lemma absolute_deadline_enforced_witness: "\<not> is_live (snd (enforceSessionDeadlines quiet_env sample_due)) ''s''"
proof -
  have row: "session_of sample_due ''s'' = Some ((started_session ''s'' ''a'' ''h'' ''d'' (-3600000))\<lparr>lv_last_activity := -10\<rparr>)"
    by (simp add: session_of_def sample_due_def started_session_def)
  have other: "session_of sample_due j = None" if "j \<noteq> ''s''" for j
    using that by (simp add: session_of_def sample_due_def started_session_def)
  have "live_rows sample_due"
    unfolding live_rows_def
  proof (intro conjI allI impI)
    show "is_live sample_due j \<Longrightarrow> map_option mg_status (sessionRow sample_due j) = Some Live" for j
      using other [of j] by (cases "j = ''s''") (simp_all add: is_live_def sessionRow_def sample_due_def)
    show "session_of sample_due j = Some v \<and> lv_settled v \<Longrightarrow> lv_release v \<noteq> Live" for j v
      using other [of j] row by (cases "j = ''s''") (auto simp: started_session_def)
  qed
  note rows = this
  have ok: "fst (enforceSessionDeadlines quiet_env sample_due)"
    by (simp add: enforceSessionDeadlines_def sweepSessions_def Let_def split_beta quiet_env_def from_nr_def sample_due_def
        first_ssh_do_def started_session_def sweep_row_def session_of_def expire_session_def settleSession_def
        finishSession_def scheduleSessionAlarm_def next_deadline_def sessionExpired_def SESSION_MAX_AGE_MS_def
        upd_session_def release_rows_def drop_lease_def upd_managed_def emit_def)
  show ?thesis
    by (rule absolute_deadline_enforced [OF _ rows row])
      (use ok quiet_pauses in \<open>auto simp: started_session_def SESSION_MAX_AGE_MS_def quiet_env_def prod_eq_iff\<close>)
qed

section \<open>Input to a host that has changed\<close>

lemma effects_kept [simp]:
  "do_effects (snd (claim e c s)) = do_effects s" "do_effects (set_running op s) = do_effects s"
  "do_effects (snd (persistUncertainOutcome ok1 ok2 op s)) = do_effects s"
  "do_effects (snd (storeEffectResult ok ok1 ok2 op r s)) = do_effects s"
  by (simp_all add: claim_def claimOperation_def Let_def set_running_def upd_operation_def persistUncertainOutcome_def
      resolve_def set_receipt_def storeEffectResult_def split_beta split: option.splits)

lemma same_inputs_effects:
  "same_inputs op r (snd (claim e c s)) = same_inputs op r s"
  "same_inputs op r (set_running x s) = same_inputs op r s"
  "same_inputs op r (snd (persistUncertainOutcome ok1 ok2 x s)) = same_inputs op r s"
  "same_inputs op r (snd (storeEffectResult ok ok1 ok2 x p s)) = same_inputs op r s"
  by (simp_all add: same_inputs_def inputs_def)

definition target_changed :: "input_world \<Rightarrow> live_session \<Rightarrow> bool" where
  \<comment> \<open>the host is not in the catalog as it was when the session was opened, or cannot be read\<close>
  "target_changed w v \<longleftrightarrow>
     (case iw_credentials w of Inr saved \<Rightarrow> iw_security w saved \<noteq> lv_security_digest v | Inl _ \<Rightarrow> True)"

lemma changed_rejected: "target_changed w v \<Longrightarrow> fst (rejectInputIfTargetChanged e w v s) \<noteq> None"
  by (auto simp: target_changed_def rejectInputIfTargetChanged_def Let_def split: sum.splits thrown.splits)

lemma same_inputs_reject:
  "awaits_keep (same_inputs op) e \<Longrightarrow> same_inputs op r s \<Longrightarrow>
     same_inputs op r (snd (rejectInputIfTargetChanged e w v s))"
  by (auto simp: rejectInputIfTargetChanged_def Let_def split: sum.splits thrown.splits
      intro!: writes.settle writes.pause)

lemma admitted_input_changed:
  assumes "awaits_keep (same_inputs op) e" "same_inputs op r s" "\<And>v. session_of s i = Some v \<Longrightarrow> target_changed w v"
  shows "same_inputs op r (snd (admitted_input e w i op text s))"
proof -
  let ?s1 = "set_running op s"
  have so: "session_of ?s1 i = session_of s i" by (simp add: session_of_def set_running_def upd_operation_def)
  have s1: "same_inputs op r ?s1" using assms(2) by (simp add: same_inputs_effects)
  have s2: "same_inputs op r (snd (rejectInputIfTargetChanged (from_nr 10 e) w v ?s1))" for v
    using s1 assms(1) by (intro same_inputs_reject) simp_all
  show ?thesis
  proof (cases "session_of s i")
    case None
    with assms(2) s1 show ?thesis by (simp add: admitted_input_def Let_def so same_inputs_effects)
  next
    case (Some v)
    with changed_rejected [OF assms(3) [OF Some], of "from_nr 10 e" ?s1] obtain reason
      where "fst (rejectInputIfTargetChanged (from_nr 10 e) w v ?s1) = Some reason" by auto
    with Some assms(2) s1 s2 [of v] show ?thesis
      by (simp add: admitted_input_def Let_def split_beta so same_inputs_effects)
  qed
qed

lemma perform_input_changed:
  assumes "in_window T0 T e" "pauses T e" "awaits_keep (same_inputs op) e" "same_inputs op r s"
    "\<And>t v. ssh_evolves T s t \<Longrightarrow> session_of t i = Some v \<Longrightarrow> target_changed w v"
  shows "same_inputs op r (snd (performInput sha e picked w i op text s))"
proof -
  define s1 where "s1 = snd (settle_if_expired (from_nr 10 e) i s)"
  have s1: "ssh_evolves T s s1" "same_inputs op r s1"
    unfolding s1_def using assms(2-4)
    by (auto simp: settle_if_expired_def split: option.splits intro!: ssh_evolves_settle writes.settle)
  have s2: "ssh_evolves T s (snd (claim (from_nr 1 e) c (ev_aw e 0 s1)))"
    "same_inputs op r (snd (claim (from_nr 1 e) c (ev_aw e 0 s1)))" for c
    using ssh_evolves_trans [OF ssh_evolves_pause [OF assms(2) s1(1)] ssh_evolves_claim [OF in_window_from [OF assms(1)]]]
      writes.pause [OF assms(3) s1(2)] by (simp_all add: same_inputs_effects)
  have s3: "same_inputs op r (snd (admitted_input (from_nr 20 e) w i op text (snd (claim (from_nr 1 e) c (ev_aw e 0 s1)))))" for c
    using s2 assms(5) [OF s2(1)] assms(3) by (intro admitted_input_changed) simp_all
  show ?thesis
    using assms(4) s1(2) s2(2) s3
    by (simp add: performInput_def Let_def split_beta s1_def [symmetric] split: option.splits admission.splits)
qed

text \<open>C18: When the host of a session cannot be read from the catalog or has another security
  digest than when the session was opened, an input request writes nothing to the channel.
\<close>
theorem changed_target_gets_no_input:
  assumes "in_window T0 T e" "\<forall>n x. ssh_run T0 T x (ev_aw e n x)" "op = lower operationId"
    "awaits_keep (same_inputs op) e" "session_of s (lower i) = Some v" "target_changed w v"
  shows "inputs op (snd (inputSession sha e picked w i operationId text s)) = inputs op s"
proof -
  have p: "pauses T e" using assms(2) by (auto simp: pauses_def intro: run_evolves)
  define s1 where "s1 = snd (enforceSessionDeadlines (from_nr 100 e) s)"
  define s2 where "s2 = ev_aw e 0 s1"
  have s1: "ssh_evolves T s s1" "same_inputs op s s1"
    using p assms(4) by (auto simp: s1_def intro: ssh_evolves_enforce writes.enforce writes.same)
  have s2: "ssh_evolves T s s2" "same_inputs op s s2"
    unfolding s2_def by (intro ssh_evolves_pause [OF p] s1) (intro writes.pause assms(4) s1)
  have "target_changed w u" if "ssh_evolves T s2 t" "session_of t (lower i) = Some u" for t u
  proof -
    from ssh_evolvesD(5) [OF ssh_evolves_trans [OF s2(1) that(1)] assms(5)] that(2)
    have "lv_security_digest u = lv_security_digest v" by (auto simp: live_evolves_def)
    with assms(6) show ?thesis by (simp add: target_changed_def split: sum.splits)
  qed
  then have "same_inputs op s (snd (performInput sha (from_nr 1 e) picked w (lower i) op text s2))"
    using p assms(4) s2(2) by (intro perform_input_changed [OF in_window_from [OF assms(1)]]) simp_all
  with s1(2) have "same_inputs op s (snd (inputSession sha e picked w i operationId text s))"
    by (simp add: inputSession_def Let_def split_beta s1_def [symmetric] s2_def [symmetric] assms(3) [symmetric])
  then show ?thesis by (simp add: same_inputs_def)
qed

lemma changed_target_gets_no_input_witness:
  "inputs ''a'' (snd (inputSession in_tool quiet_env [] \<lparr>iw_credentials = Inl (HostError HostNotFound),
     iw_security = shc_host, iw_accepts = True\<rparr> ''s'' ''a'' ''ls'' sample_due)) = 0"
proof -
  have lower: "lower ''s'' = ''s''" by code_simp
  have "session_of sample_due (lower ''s'') = Some ((started_session ''s'' ''a'' ''h'' ''d'' (-3600000))\<lparr>lv_last_activity := -10\<rparr>)"
    by (simp add: lower session_of_def sample_due_def started_session_def)
  from changed_target_gets_no_input [OF quiet_window _ sample_lower(1) [symmetric] _ this] show ?thesis
    using quiet_pauses by (simp add: quiet_keeps same_inputs_def target_changed_def inputs_def sample_due_def first_ssh_do_def)
qed

section \<open>A start that cannot set its alarm\<close>

text \<open>When the alarm of a new session cannot be set, the shell has been opened and its session
  is in memory, but the reply and the receipt say that the start failed, and the connection has no lease.
\<close>
theorem start_failed_after_opening:
  assumes "\<forall>n x. ev_aw e n x = x" "ev_ok e 0" "ev_ok e 3" "\<not> ev_ok e 6" "ev_ok e 10" "ev_ok e 11"
    "session_of s i = None" "sessionRow s i = None" "\<forall>r \<in> set (do_managed s). mg_operation_id r \<noteq> op"
    "operation_of s op = Some x"
  shows "case open_session e i host op (Inr digest) True s of (r, t) \<Rightarrow>
    rp_status r = Failed \<and> map_option op_result (operation_of t op) = Some (Some r) \<and>
    starts op t = Suc (starts op s) \<and> is_live t i \<and> \<not> has_lease op t"
proof -
  define s2 where "s2 = emit (ShellOpened op) (set_running op s)"
  define v where "v = started_session i op host digest (ev_clk e 0)"
  define s3 where "s3 = (insert_session v s2)\<lparr>do_sessions := do_sessions (insert_session v s2) @ [v]\<rparr>"
  define s4 where "s4 = emit (ShellClosed i) s3"
  define failed where "failed = op_error op Failed (errorCode (JsError ''alarm''))"
  define t where "t = drop_lease op (set_receipt op failed s4)"
  have v: "lv_session_id v = i" "lv_operation_id v = op" "lv_release v = Live" by (simp_all add: v_def started_session_def)
  have fresh: "\<not> key_taken v s2"
    using assms(8,9) v by (auto simp: key_taken_def list_ex_iff s2_def emit_def set_running_def upd_operation_def
        sessionRow_def find_None_iff)
  have mem: "do_sessions s3 = do_sessions s @ [v]"
    by (simp add: s3_def s2_def insert_session_def set_receipt_def set_running_def upd_operation_def emit_def)
  have "next_deadline (do_sessions s3) \<noteq> None"
    by (simp add: mem next_deadline_def v Let_def split: list.splits)
  then have alarm: "scheduleSessionAlarm (from_nr 6 e) s3 = (False, s3)"
    using assms(1,4) by (auto simp: scheduleSessionAlarm_def)
  have run: "open_session e i host op (Inr digest) True s = (failed, t)"
    using assms(1,2,3,5,6) fresh alarm
    by (simp add: open_session_def Let_def split_beta s2_def [symmetric] v_def [symmetric] s3_def [symmetric]
        s4_def [symmetric] start_failed_def failed_def [symmetric] t_def releaseLease_def)
  have "operation_of s3 op \<noteq> None"
    using assms(10) by (simp add: s3_def insert_session_def v s2_def)
  then have "map_option op_result (operation_of t op) = Some (Some failed)"
    by (auto simp: t_def s4_def)
  moreover have "starts op t = Suc (starts op s)"
    by (simp add: t_def s4_def s3_def s2_def insert_session_def set_receipt_def set_running_def upd_operation_def
        drop_lease_def emit_def starts_def)
  moreover have "do_sessions t = do_sessions s @ [v]"
    by (simp add: t_def s4_def mem drop_lease_def set_receipt_def upd_operation_def emit_def)
  then have "is_live t i" using assms(7) v by (simp add: is_live_def session_of_def find_snoc_row)
  moreover have "\<not> has_lease op t" by (auto simp: has_lease_def t_def drop_lease_def list_ex_iff)
  ultimately show ?thesis by (simp add: run failed_def op_error_def op_reply_def bare_def)
qed

definition sample_claimed :: ssh_do where
  "sample_claimed = first_ssh_do\<lparr>do_operations := [\<lparr>op_id = ''a'', op_digest = ''d'', op_host = ''h'', op_status = Admitted,
     op_result = None, op_created = 0\<rparr>], do_leases := [\<lparr>ls_operation_id = ''a'', ls_host = ''h'', ls_created = 0\<rparr>]\<rparr>"

lemma start_failed_after_opening_witness:
  "rp_status (fst (open_session (quiet_env\<lparr>ev_ok := (\<lambda>n. n \<noteq> 6)\<rparr>) ''s'' ''h'' ''a'' (Inr ''d'') True sample_claimed)) = Failed"
  using start_failed_after_opening [of "quiet_env\<lparr>ev_ok := (\<lambda>n. n \<noteq> 6)\<rparr>" sample_claimed "''s''" "''a''" _ "''h''" "''d''"]
  by (simp add: quiet_env_def sample_claimed_def first_ssh_do_def session_of_def sessionRow_def operation_of_def split_beta)

end
