(* ===== verification/SshSegments.thy ===== *)
theory SshSegments
  imports SshHistory
begin

text \<open>
  Interleavings of the handlers of \<open>SshOperationsDO\<close> segment by segment. A handler runs without interruption
  from one pause (an await) to the next; between two of its segments any number of segments of other
  handlers may run, in any order, and the object may be restarted, which ends the handlers that are
  under way where they stand. Nothing is assumed of the state in which a handler goes on.
\<close>

section \<open>The segments of a handler\<close>

definition core :: "ssh_do \<Rightarrow> ssh_core" where
  "core s = \<lparr>do_operations = do_operations s, do_leases = do_leases s, do_managed = do_managed s,
     do_sessions = do_sessions s, do_unresolved = do_unresolved s, do_alarm = do_alarm s, do_effects = do_effects s\<rparr>"

definition goes_on :: "(ssh_core \<times> ssh_core) list \<Rightarrow> ssh_core \<Rightarrow> ssh_do" where
  \<comment> \<open>a segment begins, after these\<close>
  "goes_on finished c = \<lparr>do_operations = do_operations c, do_leases = do_leases c, do_managed = do_managed c,
     do_sessions = do_sessions c, do_unresolved = do_unresolved c, do_alarm = do_alarm c, do_effects = do_effects c,
     do_segments = (c, finished)\<rparr>"

definition segments_of :: "ssh_do \<Rightarrow> (ssh_core \<times> ssh_core) list" where
  "segments_of s = snd (do_segments s) @ [(fst (do_segments s), core s)]"

definition segmented :: "(nat \<Rightarrow> ssh_core) \<Rightarrow> (nat \<Rightarrow> bool) \<Rightarrow> (nat \<Rightarrow> int) \<Rightarrow> env" where
  \<comment> \<open>the handler goes on in the state \<open>resume k\<close> after its k-th segment, whatever that state is\<close>
  "segmented resume ok clk =
     \<lparr>ev_aw = (\<lambda>n s. goes_on (segments_of s) (resume (length (segments_of s)))), ev_ok = ok, ev_clk = clk\<rparr>"

inductive segmented_run :: "int \<Rightarrow> int \<Rightarrow> (ssh_core \<times> ssh_core) list \<Rightarrow> bool" for T0 T where
  \<comment> \<open>the segments of one run of a handler, with the first and last state of each\<close>
  segmented_runI: "handler h \<Longrightarrow> in_window T0 T (segmented resume ok clk) \<Longrightarrow>
    segmented_run T0 T (segments_of (h (segmented resume ok clk) (goes_on [] (resume 0))))"

section \<open>Interleavings\<close>

type_synonym pool = "ssh_core \<times> (ssh_core \<times> ssh_core) list list"

inductive interleaved :: "int \<Rightarrow> int \<Rightarrow> pool \<Rightarrow> pool \<Rightarrow> bool" for T0 T where
  \<comment> \<open>the state, and the segments that each handler under way has left; a segment runs when the state is
    the one that it begins in, and a restart ends all handlers\<close>
  still: "interleaved T0 T p p"
| arrive: "interleaved T0 T p (c, hs) \<Longrightarrow> segmented_run T0 T segs \<Longrightarrow> interleaved T0 T p (c, segs # hs)"
| segment: "interleaved T0 T p (c, hs) \<Longrightarrow> i < length hs \<Longrightarrow> hs ! i = (c, c') # rest \<Longrightarrow>
    interleaved T0 T p (c', hs[i := rest])"
| restart: "interleaved T0 T p (c, hs) \<Longrightarrow> interleaved T0 T p (start_object c, [])"

section \<open>What a segment keeps\<close>

definition segment_ok :: "int \<Rightarrow> ssh_core \<Rightarrow> ssh_core \<Rightarrow> bool" where
  "segment_ok T c d \<longleftrightarrow> (\<forall>op. claims_evolve T op c d) \<and> (leases_bounded c \<longrightarrow> leases_bounded d)"

lemma segment_ok_refl [simp]: "segment_ok T c c"
  by (simp add: segment_ok_def)

lemma segment_ok_trans: "segment_ok T c d \<Longrightarrow> segment_ok T d f \<Longrightarrow> segment_ok T c f"
  unfolding segment_ok_def by (blast intro: claims_evolve_trans)

definition keeping :: "int \<Rightarrow> ssh_do \<Rightarrow> bool" where
  \<comment> \<open>every segment so far, the one under way included\<close>
  "keeping T s \<longleftrightarrow> (\<forall>(c, d) \<in> set (segments_of s). segment_ok T c d)"

lemma core_fields [simp]:
  "do_operations (core s) = do_operations s" "do_leases (core s) = do_leases s" "do_effects (core s) = do_effects s"
  by (simp_all add: core_def)

lemma core_operation [simp]: "operation_of (core s) op = operation_of s op"
  by (simp add: operation_of_def)

lemma core_views [simp]:
  "recent T op (core s) = recent T op s" "digest_of op (core s) = digest_of op s" "starts op (core s) = starts op s"
  "leases_bounded (core s) = leases_bounded s"
  by (simp_all add: recent_def digest_of_def starts_def leases_bounded_def)

lemma core_claims: "claims_evolve T op (core s) (core t) = claims_evolve T op s t"
  by (simp add: claims_evolve_def)

lemma goes_on_core [simp]: "core (goes_on f c) = c" "do_segments (goes_on f c) = (c, f)"
  by (simp_all add: core_def goes_on_def)

lemma keeping_goes_on: "keeping T s \<Longrightarrow> keeping T (goes_on (segments_of s) c)"
  by (simp add: keeping_def segments_of_def [of "goes_on f d" for f d])

lemma keeping_first: "keeping T (goes_on [] c)"
  by (simp add: keeping_def segments_of_def)

text \<open>A synchronous part that does what \<open>ssh_evolves\<close> asks of operations and leases keeps the segment.\<close>

lemma keeping_step:
  assumes "keeping T s" "do_segments t = do_segments s" "\<And>op. claims_evolve T op s t"
    "leases_bounded s \<Longrightarrow> leases_bounded t"
  shows "keeping T t"
proof -
  have "segment_ok T (core s) (core t)" using assms(3,4) by (simp add: segment_ok_def core_claims)
  with assms(1,2) show ?thesis
    by (auto simp: keeping_def segments_of_def intro: segment_ok_trans)
qed

lemma keeping_evolves: "keeping T s \<Longrightarrow> ssh_evolves T s t \<Longrightarrow> do_segments t = do_segments s \<Longrightarrow> keeping T t"
  by (rule keeping_step [of T s t]) (auto dest: ssh_evolvesD)

lemma keeping_same:
  "keeping T s \<Longrightarrow> do_segments t = do_segments s \<Longrightarrow> do_operations t = do_operations s \<Longrightarrow>
     do_effects t = do_effects s \<Longrightarrow> do_leases t = do_leases s \<Longrightarrow> keeping T t"
  by (rule keeping_step [of T s t]) (simp_all add: claims_evolve_same leases_bounded_def)

lemma segments_kept [simp]:
  "do_segments (upd_operation op f s) = do_segments s" "do_segments (upd_session i g s) = do_segments s"
  "do_segments (upd_managed p m s) = do_segments s" "do_segments (drop_lease op s) = do_segments s"
  "do_segments (emit x s) = do_segments s" "do_segments (resolve op s) = do_segments s"
  "do_segments (set_running op s) = do_segments s" "do_segments (set_receipt op r s) = do_segments s"
  "do_segments (releaseLease ok1 ok2 op s) = do_segments s" "do_segments (release_rows i op st s) = do_segments s"
  "do_segments (snd (persistUncertainOutcome ok1 ok2 op s)) = do_segments s"
  "do_segments (snd (storeEffectResult ok ok1 ok2 op r s)) = do_segments s"
  "do_segments (snd (persistMutationReceipt ok ok1 ok2 op r p' s)) = do_segments s"
  "do_segments (snd (reserveConnection ok l host now s)) = do_segments s"
  "do_segments (snd (claim e c s)) = do_segments s" "do_segments (insert_session v s) = do_segments s"
  by (simp_all add: upd_operation_def upd_session_def upd_managed_def drop_lease_def emit_def resolve_def
      set_running_def set_receipt_def releaseLease_def release_rows_def persistUncertainOutcome_def
      storeEffectResult_def persistMutationReceipt_def reserveConnection_def claim_def claimOperation_def
      insert_session_def Let_def split_beta split: option.split)

definition carries :: "int \<Rightarrow> ssh_do \<Rightarrow> ssh_do \<Rightarrow> bool" where
  "carries T s t \<longleftrightarrow> (keeping T s \<longrightarrow> keeping T t)"

lemma carries_refl [simp]: "carries T s s"
  by (simp add: carries_def)

lemma carries_trans: "carries T s t \<Longrightarrow> carries T t u \<Longrightarrow> carries T s u"
  by (simp add: carries_def)

lemma carries_evolves: "carries T r s \<Longrightarrow> ssh_evolves T s t \<Longrightarrow> do_segments t = do_segments s \<Longrightarrow> carries T r t"
  using keeping_evolves by (auto simp: carries_def)

lemma carries_same:
  "carries T r s \<Longrightarrow> do_segments t = do_segments s \<Longrightarrow> do_operations t = do_operations s \<Longrightarrow>
     do_effects t = do_effects s \<Longrightarrow> do_leases t = do_leases s \<Longrightarrow> carries T r t"
  using keeping_same by (auto simp: carries_def)

interpretation carried: session_frame "carries T" for T
proof unfold_locales
  show "carries T s (upd_managed g f s)" "carries T s (upd_session i h s)" for s g f i h
    by (rule carries_same [OF carries_refl]; simp)+
  show "carries T s (drop_lease op s)" "carries T s (emit (ShellClosed i) s)" for s op i
    by (rule carries_evolves [OF carries_refl]; (rule evo)?; simp)+
  show "carries T s u" if "carries T s t" "carries T t u" for s t u
    using that by (rule carries_trans)
  show "carries T s (s\<lparr>do_alarm := a\<rparr>)" for s a
    by (rule carries_same [OF carries_refl]) simp_all
qed simp

lemmas carried_parts =
  carries_evolves [OF _ ssh_evolves_set_running] carries_evolves [OF _ ssh_evolves_set_receipt]
  carries_evolves [OF _ ssh_evolves_release] carries_evolves [OF _ ssh_evolves_persist]
  carries_evolves [OF _ ssh_evolves_store_effect] carries_evolves [OF _ ssh_evolves_persist_mutation]
  carries_evolves [OF _ ssh_evolves_shell_closed] carries_evolves [OF _ ssh_evolves_reserve]

lemmas carried_after = carried.pause carried.schedule carried.settle carried.enforce

lemma carries_claim: "in_window T0 T e \<Longrightarrow> carries T r s \<Longrightarrow> carries T r (snd (claim e c s))"
  by (rule carries_evolves [OF _ ssh_evolves_claim]) simp_all

lemma carries_started:
  \<comment> \<open>the claim, the mark and what is started, all in one segment\<close>
  assumes "in_window T0 T e" "claim e c s = (Some Admission, s')" "carries T r s" "starts_op (cr_op c) x"
    "\<And>op. starts_op op x \<Longrightarrow> op = cr_op c"
  shows "carries T r (if b then emit x (set_running (cr_op c) s') else set_running (cr_op c) s')"
proof -
  have s': "ssh_evolves T s s'" using claimed [OF assms(1,2)] by blast
  have seg: "do_segments s' = do_segments s" using segments_kept(15) [of e c s] assms(2) by simp
  have "ssh_evolves T s (set_running (cr_op c) s')" by (rule ssh_evolves_trans [OF s' ssh_evolves_set_running])
  then show ?thesis
    using ssh_evolves_start [OF assms(1,2,4,5)] carries_evolves [OF assms(3)] seg by simp
qed

section \<open>The handlers\<close>

lemma carries_run_exec:
  assumes "in_window T0 T e'" "claim e' c s = (Some Admission, s')" "awaits_keep (carries T) e" "carries T r s" "op = cr_op c"
  shows "carries T r (snd (run_exec e op outcome s'))"
proof -
  have s': "carries T r s'" using carries_claim [OF assms(1,4), of c] assms(2) by simp
  define s2 where "s2 = ev_aw e 0 (if snd outcome then emit (CommandStarted op) (set_running op s') else set_running op s')"
  have "carries T r s2" unfolding s2_def
    unfolding assms(5) by (rule carried.pause [OF assms(3)], rule carries_started [OF assms(1,2,4)]) simp_all
  then show ?thesis using s'
    by (auto simp: run_exec_def finish_exec_def Let_def s2_def [symmetric] intro!: carried_parts)
qed

lemma carries_execute:
  assumes "in_window T0 T e" "awaits_keep (carries T) e"
  shows "carries T s (snd (execute sha legacy e picked q outcome s))"
proof -
  let ?op = "lower (er_operationId q)" and ?q = "q\<lparr>er_hostId := lower (er_hostId q)\<rparr>"
  define s1 where "s1 = snd (enforceSessionDeadlines (from_nr 20 e) s)"
  define s2 where "s2 = ev_aw e 0 s1"
  define c where "c = \<lparr>cr_op = ?op, cr_host = lower (er_hostId q), cr_digest = canonicalOperationDigest sha (exec_intent ?q),
    cr_picked = picked, cr_reserve = True\<rparr>"
  obtain a s3 where claim: "claim (from_nr 1 e) c s2 = (a, s3)" by fastforce
  have s1: "carries T s s1" unfolding s1_def using assms by (intro carried.enforce) simp_all
  then have s2: "carries T s s2" unfolding s2_def by (rule carried.pause [OF assms(2)])
  have s3: "carries T s s3" using carries_claim [OF in_window_from [OF assms(1)] s2, of 1 c] claim by simp
  have run: "carries T s (snd (run_exec (from_nr 2 e) ?op outcome s3))" if "a = Some Admission"
    using carries_run_exec [OF in_window_from [OF assms(1)], of 1 c s2 s3 "from_nr 2 e" s] claim that s2 assms(2)
    by (simp add: c_def)
  show ?thesis
    using s1 s3 run claim carried.pause [OF assms(2) s3]
    by (simp add: execute_def Let_def split_beta s1_def [symmetric] s2_def [symmetric] c_def [symmetric]
        split: option.splits admission.splits)
qed

lemma carries_mutation:
  assumes "in_window T0 T e" "awaits_keep (carries T) e"
  shows "carries T s (snd (mutation_handler sha e picked invalid op i p outcome s))"
proof (cases invalid)
  case None
  define s1 where "s1 = snd (enforceSessionDeadlines (from_nr 20 e) s)"
  define s2 where "s2 = ev_aw e 0 s1"
  define c where "c = \<lparr>cr_op = op, cr_host = in_hostId i, cr_digest = canonicalOperationDigest sha i,
    cr_picked = picked, cr_reserve = True\<rparr>"
  define e2 where "e2 = from_nr 1 (from_nr 1 e)"
  obtain a s3 where claim: "claim (from_nr 1 e) c s2 = (a, s3)" by fastforce
  have s1: "carries T s s1" unfolding s1_def using assms by (intro carried.enforce) simp_all
  then have s2: "carries T s s2" unfolding s2_def by (rule carried.pause [OF assms(2)])
  have s3: "carries T s s3" using carries_claim [OF in_window_from [OF assms(1)] s2, of 1 c] claim by simp
  have run: "carries T s (snd (finish_mutation e2 op p outcome s3))" if "a = Some Admission"
  proof -
    have e2: "awaits_keep (carries T) e2" using assms(2) by (simp add: e2_def)
    define s4 where "s4 = ev_aw e2 0 (if snd outcome then emit (SftpMutation op) (set_running op s3) else set_running op s3)"
    have "carries T s (if b then emit (SftpMutation op) (set_running (cr_op c) s3) else set_running (cr_op c) s3)" for b
      by (rule carries_started [OF in_window_from [OF assms(1)] claim [unfolded that] s2]) (simp_all add: c_def)
    from carried.pause [OF e2 this, of 0 "snd outcome"] have "carries T s s4" by (simp add: s4_def c_def split: if_splits)
    then show ?thesis using s3
      by (auto simp: finish_mutation_def Let_def split_beta s4_def [symmetric] intro!: carried_parts)
  qed
  show ?thesis
    using None s1 s3 run [unfolded e2_def] claim
    by (simp add: mutation_handler_def runMutatingSftp_def Let_def split_beta s1_def [symmetric] s2_def [symmetric]
        c_def [symmetric] split: option.splits admission.splits)
qed (simp add: mutation_handler_def)

lemma carries_run_sftp:
  assumes "awaits_keep (carries T) e"
  shows "carries T s (snd (runSftp e l host path timeoutMs outcome s))"
proof -
  define s1 where "s1 = snd (enforceSessionDeadlines (from_nr 20 e) s)"
  obtain a s2 where res: "reserveConnection (ev_ok e 0) l (lower host) (ev_clk e 0) s1 = (a, s2)" by fastforce
  have s1: "carries T s s1" using assms by (auto simp: s1_def intro: carried.enforce)
  have s2: "carries T s s2"
    using carries_evolves [OF s1 ssh_evolves_reserve [of T s1 "ev_ok e 0" l "lower host" "ev_clk e 0"] segments_kept(14)]
      res by simp
  have "carries T s (releaseLease (ev_ok e 1) (ev_ok e 2) l (ev_aw e 0 s2))"
    using assms s2 by (intro carried_parts carried.pause) simp_all
  with s1 s2 res show ?thesis
    by (simp add: runSftp_def Let_def split_beta s1_def [symmetric] split: option.splits bool.splits)
qed

lemma carries_reads:
  assumes "awaits_keep (carries T) e"
  shows "carries T s (snd (getOperationStatus e op s))" "carries T s (snd (readSessionOutput e i offset limit s))"
    "carries T s (snd (readSessionStatus e i s))"
  using carried.enforce [OF assms carries_refl, of s]
  by (auto simp: getOperationStatus_def readSessionOutput_def readSessionStatus_def Let_def split_beta split: option.splits)

lemma carries_start_failed: "carries T r s \<Longrightarrow> carries T r (snd (start_failed e op x s))"
  by (auto simp: start_failed_def Let_def split_beta intro!: carried_parts)

lemma carries_insert:
  assumes "carries T r s"
  shows "carries T r ((insert_session v s)\<lparr>do_sessions := vs\<rparr>)"
proof -
  define row where "row = \<lparr>mg_session_id = lv_session_id v, mg_operation_id = lv_operation_id v, mg_host = lv_host v,
    mg_status = Live, mg_created = lv_created v, mg_last_activity = lv_created v,
    mg_absolute_deadline = lv_absolute_deadline v\<rparr>"
  have "carries T r (s\<lparr>do_managed := do_managed s @ [row]\<rparr>)" by (rule carries_same [OF assms]) simp_all
  then have "carries T r (insert_session v s)" unfolding insert_session_def row_def by (intro carried_parts) simp_all
  then show ?thesis by (rule carries_same) simp_all
qed

lemma carries_open_session:
  assumes "in_window T0 T e'" "claim e' c s = (Some Admission, s')" "awaits_keep (carries T) e" "carries T r s" "op = cr_op c"
  shows "carries T r (snd (open_session e i host op opened asked s'))"
proof -
  have s': "carries T r s'" using carries_claim [OF assms(1,4), of c] assms(2) by simp
  define s2 where "s2 = ev_aw e 0 (if asked then emit (ShellOpened op) (set_running op s') else set_running op s')"
  have s2: "carries T r s2" unfolding s2_def
    unfolding assms(5) by (rule carried.pause [OF assms(3)], rule carries_started [OF assms(1,2,4)]) simp_all
  show ?thesis
  proof (cases "ev_ok e 0")
    case False
    with s' show ?thesis by (auto simp: open_session_def intro!: carried_parts)
  next
    case ok: True
    show ?thesis
    proof (cases opened)
      case (Inl x)
      with ok s2 show ?thesis
        by (simp add: open_session_def Let_def s2_def [symmetric] carries_start_failed)
    next
      case (Inr digest)
      define v where "v = started_session i op host digest (ev_clk e 0)"
      define s3 where "s3 = (insert_session v s2)\<lparr>do_sessions := do_sessions (insert_session v s2) @ [v]\<rparr>"
      define s4 where "s4 = snd (scheduleSessionAlarm (from_nr 6 e) s3)"
      have "carries T r s4" unfolding s4_def s3_def
        by (intro carried.schedule carries_insert s2) (simp add: assms(3))
      moreover from this have "carries T r (ev_aw e 2 (emit (ShellClosed i) s4))"
        by (intro carried.pause carried_parts assms(3)) simp_all
      moreover have "carries T r (ev_aw e 1 (emit (ShellClosed i) s2))"
        using s2 by (intro carried.pause carried_parts assms(3)) simp_all
      ultimately show ?thesis using Inr ok
        by (auto simp: open_session_def Let_def split_beta s2_def [symmetric] v_def [symmetric]
            s3_def [symmetric] s4_def [symmetric] intro!: carried_parts carries_start_failed)
    qed
  qed
qed

lemma carries_start_session:
  assumes "in_window T0 T e" "awaits_keep (carries T) e"
  shows "carries T s (snd (startSession sha e picked i hostId operationId termType opened asked s))"
proof -
  let ?op = "lower operationId"
  define s1 where "s1 = snd (enforceSessionDeadlines (from_nr 30 e) s)"
  define s2 where "s2 = ev_aw e 0 s1"
  define tt where "tt = (case termType of Some t \<Rightarrow> t | None \<Rightarrow> ''xterm-256color'')"
  define c where "c = \<lparr>cr_op = ?op, cr_host = lower hostId,
    cr_digest = canonicalOperationDigest sha (start_intent (lower hostId) tt), cr_picked = picked, cr_reserve = True\<rparr>"
  obtain a s3 where claim: "claim (from_nr 1 e) c s2 = (a, s3)" by fastforce
  have s1: "carries T s s1" unfolding s1_def using assms by (intro carried.enforce) simp_all
  then have s2: "carries T s s2" unfolding s2_def by (rule carried.pause [OF assms(2)])
  have s3: "carries T s s3" using carries_claim [OF in_window_from [OF assms(1)] s2, of 1 c] claim by simp
  have run: "carries T s (snd (open_session (from_nr 2 e) i (lower hostId) ?op opened asked s3))" if "a = Some Admission"
    using carries_open_session [OF in_window_from [OF assms(1)], of 1 c s2 s3 "from_nr 2 e" s] claim that s2 assms(2)
    by (simp add: c_def)
  show ?thesis
    using s1 s3 run claim
    by (simp add: startSession_def Let_def split_beta tt_def [symmetric] s1_def [symmetric] s2_def [symmetric] c_def [symmetric]
        split: option.splits admission.splits)
qed

lemma carries_reject:
  assumes "awaits_keep (carries T) e" "carries T r s"
  shows "carries T r (snd (rejectInputIfTargetChanged e w v s))"
  using assms by (auto simp: rejectInputIfTargetChanged_def Let_def split: sum.splits thrown.splits
      intro!: carried.settle carried.pause)

lemma carries_touch:
  assumes "awaits_keep (carries T) e" "carries T r s"
  shows "carries T r (touch_session e i s)"
  using assms by (auto simp: touch_session_def Let_def intro!: carried.schedule carried.behind)

lemma carries_write_input:
  assumes "awaits_keep (carries T) e" "carries T r s"
  shows "carries T r (snd (write_input e w i op text s))"
proof -
  define s1 where "s1 = ev_aw e 0 (emit (InputWritten op i text) s)"
  have "ssh_evolves T s (emit (InputWritten op i text) s)" by (rule ssh_evolves_emit) simp
  from carries_evolves [OF assms(2) this] have s1: "carries T r s1"
    unfolding s1_def by (intro carried.pause assms(1)) simp
  have "carries T r (snd (settleSession (from_nr 10 e) i Lost s1))" "carries T r (touch_session (from_nr 20 e) i s1)"
    using s1 assms(1) by (auto intro: carried.settle carries_touch)
  with s1 show ?thesis
    by (auto simp: write_input_def s1_def [symmetric] Let_def intro!: carried_parts)
qed

lemma carries_admitted_input:
  assumes "awaits_keep (carries T) e" "carries T r s"
  shows "carries T r (snd (admitted_input e w i op text s))"
proof -
  let ?s1 = "set_running op s"
  have s1: "carries T r ?s1" using assms(2) by (intro carried_parts) simp_all
  have s2: "carries T r (snd (rejectInputIfTargetChanged (from_nr 10 e) w v ?s1))" for v
    using s1 assms(1) by (intro carries_reject) simp_all
  have "carries T r (snd (write_input (from_nr 30 e) w i op text
      (snd (rejectInputIfTargetChanged (from_nr 10 e) w v ?s1))))" for v
    using s2 assms(1) by (intro carries_write_input) simp_all
  with s1 s2 assms(2) show ?thesis
    by (auto simp: admitted_input_def Let_def split_beta split: option.splits intro!: carried_parts)
qed

lemma carries_perform_input:
  assumes "in_window T0 T e" "awaits_keep (carries T) e" "carries T r s"
  shows "carries T r (snd (performInput sha e picked w i op text s))"
proof -
  define s1 where "s1 = snd (settle_if_expired (from_nr 10 e) i s)"
  have s1: "carries T r s1"
    unfolding s1_def settle_if_expired_def using assms by (auto split: option.splits intro!: carried.settle)
  have s2: "carries T r (snd (claim (from_nr 1 e) c (ev_aw e 0 s1)))" for c
    by (intro carries_claim [OF in_window_from [OF assms(1)]] carried.pause s1 assms(2))
  have s3: "carries T r (snd (admitted_input (from_nr 20 e) w i op text (snd (claim (from_nr 1 e) c (ev_aw e 0 s1)))))" for c
    using s2 assms(2) by (intro carries_admitted_input) simp_all
  show ?thesis using s1 s2 s3 assms(3)
    by (auto simp: performInput_def Let_def split_beta s1_def [symmetric] split: option.splits admission.splits)
qed

lemma carries_input:
  assumes "in_window T0 T e" "awaits_keep (carries T) e"
  shows "carries T s (snd (inputSession sha e picked w i op text s))"
proof -
  have s1: "carries T s (snd (enforceSessionDeadlines (from_nr 100 e) s))" using assms by (intro carried.enforce) simp_all
  have "carries T s (snd (performInput sha (from_nr 1 e) picked w (lower i) (lower op) text
      (ev_aw e 0 (snd (enforceSessionDeadlines (from_nr 100 e) s)))))"
    using assms by (intro carries_perform_input [OF in_window_from [OF assms(1)]] carried.pause s1) simp_all
  with s1 show ?thesis by (simp add: inputSession_def Let_def split_beta)
qed

lemma carries_emergency:
  assumes "in_window T0 T e" "awaits_keep (carries T) e" "carries T r s"
  shows "carries T r (snd (emergencyStop sha e picked op i s))"
proof -
  define s1 where "s1 = snd (settleSession (from_nr 10 e) i Closed s)"
  have s1: "carries T r s1" unfolding s1_def using assms by (intro carried.settle) simp_all
  have s2: "carries T r (snd (claim e c (ev_aw e 0 s1)))" for c
    using s1 assms by (intro carries_claim carried.pause) auto
  show ?thesis using s2 assms(3)
    by (auto simp: emergencyStop_def Let_def split_beta s1_def [symmetric] split: option.splits intro!: carried_parts)
qed

lemma carries_admitted_stop:
  assumes "awaits_keep (carries T) e" "carries T r s"
  shows "carries T r (snd (admitted_stop e i op s))"
  using assms by (auto simp: admitted_stop_def Let_def split_beta intro!: carried_parts carried.settle)

lemma carries_stop:
  assumes "in_window T0 T e" "awaits_keep (carries T) e"
  shows "carries T s (snd (stopSession sha e picked i op s))"
proof -
  define s1 where "s1 = ev_aw e 0 (snd (enforceSessionDeadlines (from_nr 100 e) s))"
  have s1: "carries T s s1" unfolding s1_def using assms by (intro carried.pause carried.enforce) simp_all
  have claim: "carries T s (snd (claim (from_nr k e) c (ev_aw e n s1)))" for c k n
    by (intro carries_claim [OF in_window_from [OF assms(1)]] carried.pause s1 assms(2))
  have emergency: "carries T s (snd (emergencyStop sha (from_nr k e) picked x j t))" if "carries T s t" for t x j k
    using assms(2) by (intro carries_emergency [OF in_window_from [OF assms(1)]] that) simp
  have "carries T s (snd (admitted_stop (from_nr k e) j x t))" if "carries T s t" for t x j k
    using assms(2) by (intro carries_admitted_stop that) simp
  with s1 claim emergency show ?thesis
    by (auto simp: stopSession_def performStop_def Let_def split_beta s1_def [symmetric] from_nr_from
        split: option.splits admission.splits)
qed

lemma handler_carries:
  assumes "handler h" "in_window T0 T e" "awaits_keep (carries T) e"
  shows "carries T s (h e s)"
  using assms
  by (cases rule: handler.cases)
    (auto simp: thin_handlers pump_chunk_def intro: carries_execute carries_reads carries_run_sftp carries_mutation
      carries_start_session carries_input carries_stop carried.enforce carried.settle carried.behind)

section \<open>Every interleaving\<close>

lemma segmented_keeps: "awaits_keep (carries T) (segmented resume ok clk)"
  using keeping_goes_on by (simp add: awaits_keep_def carries_def segmented_def)

lemma segments_ok:
  assumes "segmented_run T0 T segs" "(c, d) \<in> set segs"
  shows "segment_ok T c d"
  using assms(1)
proof cases
  case (segmented_runI h resume ok clk)
  have "keeping T (h (segmented resume ok clk) (goes_on [] (resume 0)))"
    using handler_carries [OF segmented_runI(2,3) segmented_keeps, of "goes_on [] (resume 0)"] keeping_first
    by (simp add: carries_def)
  with segmented_runI(1) assms(2) show ?thesis by (auto simp: keeping_def)
qed

lemma segment_ok_restart: "segment_ok T c (start_object c)"
proof -
  have "operation_of (start_object c) op =
      map_option (\<lambda>r. if op_status r \<in> {Admitted, Running} then r\<lparr>op_status := Unknown, op_result := None\<rparr> else r)
        (operation_of c op)" for op
    by (simp add: operation_of_def start_object_def find_upd_rows [where k = op_id])
  then have "recent T op (start_object c) = recent T op c" "digest_of op (start_object c) = digest_of op c" for op
    by (cases "operation_of c op"; force simp: recent_def digest_of_def)+
  then show ?thesis
    by (simp add: segment_ok_def claims_evolve_def starts_def start_object_def leases_bounded_def)
qed

lemma interleaved_ok:
  assumes "interleaved T0 T p p'" "\<forall>segs \<in> set (snd p). \<forall>(c, d) \<in> set segs. segment_ok T c d"
  shows "segment_ok T (fst p) (fst p') \<and> (\<forall>segs \<in> set (snd p'). \<forall>(c, d) \<in> set segs. segment_ok T c d)"
  using assms
proof (induction rule: interleaved.induct)
  case (arrive p c hs segs)
  then show ?case using segments_ok by auto
next
  case (segment p c hs i c' rest)
  then have ok: "segment_ok T (fst p) c" "\<forall>segs \<in> set hs. \<forall>(c, d) \<in> set segs. segment_ok T c d" by auto
  moreover have "hs ! i \<in> set hs" using segment.hyps(2) by simp
  ultimately have "segment_ok T c c'" "\<forall>(c, d) \<in> set rest. segment_ok T c d"
    using segment.hyps(3) by fastforce+
  moreover from this have "\<forall>segs \<in> set (hs[i := rest]). \<forall>(c, d) \<in> set segs. segment_ok T c d"
    using ok(2) set_update_subset_insert [of hs i rest] by blast
  ultimately show ?case using ok(1) by (auto intro: segment_ok_trans)
next
  case (restart p c hs)
  then show ?case using segment_ok_restart by (auto intro: segment_ok_trans)
qed auto

text \<open>C1: In every interleaving of the segments of any handlers, with restarts of the object at any point,
  also in the middle of handlers, and whatever storage calls fail, an operation id starts at most one
  command, SFTP mutation or shell within the retention time of receipts, and none at all when a receipt of
  it exists at the beginning. A command counts as started from the segment that hands it to the remote side.
\<close>
theorem operation_started_once:
  assumes "interleaved T0 T (c, []) (c', hs)"
  shows "starts op c' \<le> starts op c + (if recent T op c then 0 else 1)"
  using interleaved_ok [OF assms] by (auto simp: segment_ok_def claims_evolve_def split: if_splits)

text \<open>C8: The object never has more than four connection leases, nor more than two for one host, in any
  interleaving of the segments of its handlers and with restarts at any point.
\<close>
theorem leases_never_exceed:
  assumes "interleaved T0 T (c, []) (c', hs)" "do_leases c = []"
  shows "length (do_leases c') \<le> 4 \<and> (\<forall>h. length (filter (\<lambda>l. ls_host l = h) (do_leases c')) \<le> 2)"
proof -
  have "leases_bounded c" using assms(2) by (simp add: leases_bounded_def)
  with interleaved_ok [OF assms(1)] have "leases_bounded c'" by (simp add: segment_ok_def)
  then show ?thesis by (simp add: leases_bounded_def TOTAL_CONNECTION_LIMIT_def HOST_CONNECTION_LIMIT_def)
qed

section \<open>Two requests that overlap\<close>

text \<open>The same request twice, the second arriving while the first is under way: their segments alternate, and
  the one that started first is also finished first. The second finds the row that the first has
  written and starts nothing. Then the object is restarted.\<close>

definition overlap :: "(nat \<Rightarrow> ssh_core) \<Rightarrow> (ssh_core \<times> ssh_core) list" where
  \<comment> \<open>the segments of the request, for the states in which it goes on\<close>
  "overlap resume = segments_of (snd (execute in_tool er_command (segmented resume (\<lambda>n. True) (\<lambda>n. 0)) []
     sample_exec_request (sample_exec_reply, True) (goes_on [] (resume 0))))"

lemma overlap_run: "segmented_run 0 10 (overlap resume)"
  unfolding overlap_def
  by (rule segmented_runI [OF handler.exec]) (simp add: in_window_def segmented_def RECEIPT_RETENTION_MS_def DAY_def)

fun play :: "nat list \<Rightarrow> pool \<Rightarrow> pool option" where
  \<comment> \<open>which handler runs its next segment\<close>
  "play [] p = Some p"
| "play (i # is) (c, hs) =
    (if i < length hs
     then case hs ! i of
            (d, d') # rest \<Rightarrow> if d = c then play is (d', hs[i := rest]) else None
          | [] \<Rightarrow> None
     else None)"

lemma play_interleaved: "play is p = Some p' \<Longrightarrow> interleaved T0 T q p \<Longrightarrow> interleaved T0 T q p'"
  by (induction "is" p rule: play.induct)
    (auto split: if_splits list.splits prod.splits, metis interleaved.segment)

definition begun_core :: ssh_core where
  \<comment> \<open>the command of the first request runs\<close>
  "begun_core = snd (overlap (\<lambda>k. first_core) ! 3)"

definition first_request :: "(ssh_core \<times> ssh_core) list" where
  "first_request = overlap (\<lambda>k. if k < 4 then first_core else begun_core)"

definition second_request :: "(ssh_core \<times> ssh_core) list" where
  "second_request = overlap (\<lambda>k. if k < 3 then first_core else begun_core)"

definition done_core :: ssh_core where
  "done_core = snd (last first_request)"

lemma requests_overlap: "interleaved 0 10 (first_core, []) (start_object done_core, [])"
proof -
  have "interleaved 0 10 (first_core, []) (first_core, [first_request, second_request])"
    unfolding first_request_def second_request_def by (intro interleaved.arrive interleaved.still overlap_run)
  moreover have "play [0, 1, 0, 1, 0, 1, 0, 1, 0] (first_core, [first_request, second_request]) =
      Some (done_core, [[], []])"
    by code_simp
  ultimately have "interleaved 0 10 (first_core, []) (done_core, [[], []])" by (blast intro: play_interleaved)
  then show ?thesis by (rule interleaved.restart)
qed

lemma operation_started_once_witness: "starts ''a'' (start_object done_core) \<le> 1 \<and> starts ''a'' (start_object done_core) = 1"
proof -
  have "starts ''a'' (start_object done_core) = 1" by code_simp
  moreover have "\<not> recent 10 ''a'' first_core" "starts ''a'' first_core = 0"
    by (simp_all add: recent_def operation_of_def starts_def first_core_def)
  ultimately show ?thesis using operation_started_once [OF requests_overlap, of "''a''"] by simp
qed

lemma leases_never_exceed_witness: "length (do_leases (start_object done_core)) \<le> 4"
  using leases_never_exceed [OF requests_overlap] by (simp add: first_core_def)

end
