(* ===== verification/PlanExpr.thy ===== *)
theory PlanExpr
  imports Complex_Main WebTypes "HOL-Library.List_Lexorder" "HOL-Library.Char_ord"
begin

text \<open>
  The expression language of workflow plans (\<open>apps/workflow-mcp-worker/src/plan.ts\<close>): the static
  check of an expression, its evaluation, and the canonical form that digests are taken of.

  A value is a JavaScript value as the YAML and JSON parsers produce it, and undefined. A number
  is a rational (every finite double is one) or not finite. An object is the list of its own
  properties in enumeration order. An object is compared by identity (\<open>===\<close>); an evaluated value
  therefore carries the identity of the object in the context that it was read from, if any; which
  places of a context hold the same object is a field of the context.
\<close>

section \<open>Values\<close>

datatype jsnum = Fin rat | PInf | NInf | NaN

datatype jsv =
    VUndef
  | VNull
  | VBool bool
  | VNum jsnum
  | VStr string
  | VArr "jsv list"
  | VObj "(string \<times> jsv) list"

fun num_less :: "jsnum \<Rightarrow> jsnum \<Rightarrow> bool" where
  "num_less (Fin a) (Fin b) = (a < b)"
| "num_less (Fin a) PInf = True"
| "num_less NInf (Fin b) = True"
| "num_less NInf PInf = True"
| "num_less _ _ = False"

definition num_same :: "jsnum \<Rightarrow> jsnum \<Rightarrow> bool" where
  "num_same a b \<longleftrightarrow> a \<noteq> NaN \<and> a = b"

definition is_object :: "jsv \<Rightarrow> bool" where
  \<comment> \<open>an object that is neither null nor an array\<close>
  "is_object v \<longleftrightarrow> (case v of VObj _ \<Rightarrow> True | _ \<Rightarrow> False)"

definition array_index :: "string \<Rightarrow> nat option" where
  "array_index p = (if p \<noteq> [] \<and> list_all is_digit p \<and> nat_str (digits_val p) = p then Some (digits_val p) else None)"

definition own_property :: "string \<Rightarrow> jsv \<Rightarrow> jsv option" where
  \<comment> \<open>\<open>Object.hasOwn(value,p)\<close> and \<open>value[p]\<close>\<close>
  "own_property p v =
    (case v of
       VObj kvs \<Rightarrow> map_of kvs p
     | VArr xs \<Rightarrow>
         if p = ''length'' then Some (VNum (Fin (of_nat (length xs))))
         else (case array_index p of Some i \<Rightarrow> if i < length xs then Some (xs ! i) else None | None \<Rightarrow> None)
     | _ \<Rightarrow> None)"

definition typeOf :: "jsv \<Rightarrow> string" where
  "typeOf v = (case v of VNull \<Rightarrow> ''null'' | VArr _ \<Rightarrow> ''array'' | VUndef \<Rightarrow> ''undefined'' | VBool _ \<Rightarrow> ''boolean''
     | VNum _ \<Rightarrow> ''number'' | VStr _ \<Rightarrow> ''string'' | VObj _ \<Rightarrow> ''object'')"

section \<open>The static check\<close>

type_synonym plan_error = "string \<times> string"  \<comment> \<open>message, path\<close>

record step_ref =
  sr_id :: string
  sr_needs :: "string list"

definition id_start :: "char \<Rightarrow> bool" where
  "id_start c \<longleftrightarrow> is_upper c \<or> is_lower c"

definition id_part :: "char \<Rightarrow> bool" where
  "id_part c \<longleftrightarrow> id_start c \<or> is_digit c \<or> c = CHR ''_'' \<or> c = CHR ''-''"

definition SAFE_ID :: "string \<Rightarrow> bool" where
  "SAFE_ID s \<longleftrightarrow> (case s of [] \<Rightarrow> False | c # cs \<Rightarrow> id_start c \<and> list_all id_part cs \<and> length cs \<le> 63)"

definition RESERVED :: "string set" where
  "RESERVED = {''eval'', ''javascript'', ''script'', ''code'', ''shell'', ''endpoint'', ''url'', ''command'', ''function''}"

definition proto_names :: "string set" where
  "proto_names = {''__proto__'', ''constructor'', ''prototype''}"

definition refCheck :: "string \<Rightarrow> step_ref option \<Rightarrow> bool \<Rightarrow> string \<Rightarrow> plan_error + unit" where
  "refCheck r st allowItem path =
    (let parts = split_char (CHR ''.'') r
     in if length parts < 2 \<or> list_ex (\<lambda>p. \<not> SAFE_ID p \<or> p \<in> proto_names) (tl parts)
        then Inl (''invalid_reference'', path)
        else if parts ! 0 = ''inputs'' then Inr ()
        else if allowItem \<and> parts ! 0 = ''item'' \<and> parts ! 1 \<in> {''value'', ''index''} \<and>
          (parts ! 1 = ''value'' \<or> length parts = 2) then Inr ()
        else (case st of
            Some s \<Rightarrow>
              if parts ! 0 = ''steps'' \<and> parts ! 1 \<in> set (sr_needs s) \<and> length parts \<ge> 3 \<and>
                parts ! 2 \<in> {''status'', ''output''}
              then Inr () else Inl (''invalid_step_reference'', path)
          | None \<Rightarrow> Inl (''invalid_step_reference'', path)))"

definition operator_names :: "string set" where
  "operator_names = {''eq'', ''ne'', ''gt'', ''lt'', ''and'', ''or'', ''not''}"

definition arity_ok :: "string \<Rightarrow> nat \<Rightarrow> bool" where
  "arity_ok k n \<longleftrightarrow> (if k \<in> {''and'', ''or''} then 1 \<le> n \<and> n \<le> 16 else n = 2)"

definition member_path :: "string \<Rightarrow> string \<Rightarrow> string" where
  "member_path path k =
    (if k \<in> {''data'', ''arguments'', ''inputs'', ''notification''} then path @ ''/'' @ k else path)"

fun expression :: "step_ref option \<Rightarrow> bool \<Rightarrow> bool \<Rightarrow> nat \<Rightarrow> string \<Rightarrow> jsv \<Rightarrow> plan_error + unit"
  and expression_items :: "step_ref option \<Rightarrow> bool \<Rightarrow> bool \<Rightarrow> nat \<Rightarrow> string \<Rightarrow> nat \<Rightarrow> jsv list \<Rightarrow> plan_error + unit"
  and expression_members :: "step_ref option \<Rightarrow> bool \<Rightarrow> bool \<Rightarrow> nat \<Rightarrow> string \<Rightarrow> (string \<times> jsv) list \<Rightarrow> plan_error + unit" where
  \<comment> \<open>step, opaque keys, item allowed, depth, path\<close>
  "expression st oq ai d path v =
    (if d > 15 then Inl (''expression_too_deep'', path)
     else case v of
       VUndef \<Rightarrow> Inl (''invalid_expression'', path)
     | VArr xs \<Rightarrow>
         if length xs > 100 then Inl (''expression_too_large'', path)
         else expression_items st oq ai (d + 1) path 0 xs
     | VObj kvs \<Rightarrow>
         (case kvs of
            [(k, x)] \<Rightarrow>
              if k = ''ref'' then
                (case x of VStr r \<Rightarrow> refCheck r st ai (path @ ''/ref'') | _ \<Rightarrow> Inl (''invalid_reference'', path @ ''/ref''))
              else if k = ''not'' then expression st oq ai (d + 1) (path @ ''/not'') x
              else if k \<in> operator_names then
                (case x of
                   VArr ys \<Rightarrow>
                     if arity_ok k (length ys) then expression_items st oq ai (d + 1) (path @ ''/'' @ k) 0 ys
                     else Inl (''invalid_operator'', path @ ''/'' @ k)
                 | _ \<Rightarrow> Inl (''invalid_operator'', path @ ''/'' @ k))
              else expression_members st oq ai (d + 1) path kvs
          | _ \<Rightarrow> expression_members st oq ai (d + 1) path kvs)
     | _ \<Rightarrow> Inr ())"
| "expression_items st oq ai d path i [] = Inr ()"
| "expression_items st oq ai d path i (x # xs) =
    bindE (expression st oq ai d (path @ ''/'' @ nat_str i) x) (\<lambda>_. expression_items st oq ai d path (Suc i) xs)"
| "expression_members st oq ai d path [] = Inr ()"
| "expression_members st oq ai d path ((k, x) # kvs) =
    (if k \<in> proto_names then Inl (''invalid_argument_key'', path)
     else if \<not> oq \<and> map to_lower k \<in> RESERVED then Inl (''unsafe_expression'', path)
     else bindE (expression st oq ai d (member_path path k) x) (\<lambda>_. expression_members st oq ai d path kvs))"

declare expression.simps [simp del]

section \<open>Evaluation\<close>

datatype eval_error =
    TypeError
  | NonBoolean  \<comment> \<open>\<open>PlanError('non_boolean_condition')\<close>\<close>

record eval_ctx =
  cx_inputs :: jsv
  cx_steps :: jsv
  cx_item :: jsv  \<comment> \<open>undefined outside a loop\<close>
  cx_object :: "string list \<Rightarrow> nat"  \<comment> \<open>the identity of the object at a place\<close>

type_synonym located = "jsv \<times> nat option"

definition strict_eq :: "located \<Rightarrow> located \<Rightarrow> bool" where
  \<comment> \<open>\<open>===\<close>\<close>
  "strict_eq a b =
    (case (fst a, fst b) of
       (VNum m, VNum n) \<Rightarrow> num_same m n
     | (VArr _, VArr _) \<Rightarrow> snd a \<noteq> None \<and> snd a = snd b
     | (VObj _, VObj _) \<Rightarrow> snd a \<noteq> None \<and> snd a = snd b
     | (x, y) \<Rightarrow> x = y)"

definition compare_numbers :: "(jsnum \<Rightarrow> jsnum \<Rightarrow> bool) \<Rightarrow> jsv \<Rightarrow> jsv \<Rightarrow> bool" where
  "compare_numbers f a b = (case (a, b) of (VNum m, VNum n) \<Rightarrow> f m n | _ \<Rightarrow> False)"

fun walk :: "jsv \<Rightarrow> string list \<Rightarrow> jsv" where
  "walk v [] = v"
| "walk v (p # ps) = (case own_property p v of None \<Rightarrow> VUndef | Some w \<Rightarrow> walk w ps)"

definition read_ref :: "eval_ctx \<Rightarrow> string \<Rightarrow> located" where
  "read_ref c r =
    (let parts = split_char (CHR ''.'') r;
         root = (if hd parts = ''inputs'' then cx_inputs c else if hd parts = ''item'' then cx_item c
                 else if hd parts = ''steps'' then cx_steps c else VUndef)
     in (walk root (tl parts), Some (cx_object c parts)))"

definition entry :: "located list \<Rightarrow> nat \<Rightarrow> located" where
  \<comment> \<open>array destructuring\<close>
  "entry ys i = (if i < length ys then ys ! i else (VUndef, None))"

definition as_condition :: "eval_error + located \<Rightarrow> eval_error + bool" where
  "as_condition r = bindE r (\<lambda>v. case fst v of VBool b \<Rightarrow> Inr b | _ \<Rightarrow> Inl NonBoolean)"

definition binary :: "string \<Rightarrow> located \<Rightarrow> located \<Rightarrow> bool" where
  "binary k a b =
    (if k = ''eq'' then strict_eq a b
     else if k = ''ne'' then \<not> strict_eq a b
     else if k = ''gt'' then compare_numbers (\<lambda>m n. num_less n m) (fst a) (fst b)
     else compare_numbers num_less (fst a) (fst b))"

fun evaluateExpression :: "(jsv \<Rightarrow> string) \<Rightarrow> eval_ctx \<Rightarrow> jsv \<Rightarrow> eval_error + located"
  and evaluate_items :: "(jsv \<Rightarrow> string) \<Rightarrow> eval_ctx \<Rightarrow> jsv list \<Rightarrow> eval_error + located list"
  and evaluate_members :: "(jsv \<Rightarrow> string) \<Rightarrow> eval_ctx \<Rightarrow> (string \<times> jsv) list \<Rightarrow> eval_error + (string \<times> jsv) list"
  and every_condition :: "(jsv \<Rightarrow> string) \<Rightarrow> eval_ctx \<Rightarrow> jsv list \<Rightarrow> eval_error + bool"
  and some_condition :: "(jsv \<Rightarrow> string) \<Rightarrow> eval_ctx \<Rightarrow> jsv list \<Rightarrow> eval_error + bool" where
  \<comment> \<open>\<open>text\<close> is \<open>String(v)\<close> of a value that is not a string\<close>
  "evaluateExpression text c v =
    (case v of
       VArr xs \<Rightarrow> bindE (evaluate_items text c xs) (\<lambda>ys. Inr (VArr (map fst ys), None))
     | VObj kvs \<Rightarrow>
         (case kvs of
            [(k, x)] \<Rightarrow>
              if k = ''ref'' then Inr (read_ref c (case x of VStr r \<Rightarrow> r | _ \<Rightarrow> text x))
              else if k \<in> {''eq'', ''ne'', ''gt'', ''lt''} then
                (case x of
                   VArr xs \<Rightarrow> bindE (evaluate_items text c xs)
                     (\<lambda>ys. Inr (VBool (binary k (entry ys 0) (entry ys 1)), None))
                 | _ \<Rightarrow> Inl TypeError)
              else if k = ''and'' then
                (case x of VArr xs \<Rightarrow> bindE (every_condition text c xs) (\<lambda>b. Inr (VBool b, None)) | _ \<Rightarrow> Inl TypeError)
              else if k = ''or'' then
                (case x of VArr xs \<Rightarrow> bindE (some_condition text c xs) (\<lambda>b. Inr (VBool b, None)) | _ \<Rightarrow> Inl TypeError)
              else if k = ''not'' then
                bindE (as_condition (evaluateExpression text c x)) (\<lambda>b. Inr (VBool (\<not> b), None))
              else bindE (evaluate_members text c kvs) (\<lambda>ws. Inr (VObj ws, None))
          | _ \<Rightarrow> bindE (evaluate_members text c kvs) (\<lambda>ws. Inr (VObj ws, None)))
     | _ \<Rightarrow> Inr (v, None))"
| "evaluate_items text c [] = Inr []"
| "evaluate_items text c (x # xs) =
    bindE (evaluateExpression text c x) (\<lambda>y. bindE (evaluate_items text c xs) (\<lambda>ys. Inr (y # ys)))"
| "evaluate_members text c [] = Inr []"
| "evaluate_members text c ((k, x) # kvs) =
    bindE (evaluateExpression text c x) (\<lambda>y. bindE (evaluate_members text c kvs) (\<lambda>ws. Inr ((k, fst y) # ws)))"
| "every_condition text c [] = Inr True"
| "every_condition text c (x # xs) =
    bindE (as_condition (evaluateExpression text c x)) (\<lambda>b. if b then every_condition text c xs else Inr False)"
| "some_condition text c [] = Inr False"
| "some_condition text c (x # xs) =
    bindE (as_condition (evaluateExpression text c x)) (\<lambda>b. if b then Inr True else some_condition text c xs)"

declare evaluateExpression.simps [simp del]

definition evaluateCondition :: "(jsv \<Rightarrow> string) \<Rightarrow> eval_ctx \<Rightarrow> jsv \<Rightarrow> eval_error + bool" where
  "evaluateCondition text c v = as_condition (evaluateExpression text c v)"

section \<open>Checked expressions do not get stuck\<close>

lemma eval_simps [simp]:
  "evaluateExpression text c VUndef = Inr (VUndef, None)" "evaluateExpression text c VNull = Inr (VNull, None)"
  "evaluateExpression text c (VBool b) = Inr (VBool b, None)" "evaluateExpression text c (VNum n) = Inr (VNum n, None)"
  "evaluateExpression text c (VStr t) = Inr (VStr t, None)"
  "evaluateExpression text c (VArr xs) = bindE (evaluate_items text c xs) (\<lambda>ys. Inr (VArr (map fst ys), None))"
  by (simp_all add: evaluateExpression.simps)

definition comparisons :: "string set" where
  "comparisons = {''eq'', ''ne'', ''gt'', ''lt''}"

definition plain_object :: "(string \<times> jsv) list \<Rightarrow> bool" where
  \<comment> \<open>not an operator object: no member, several, or one whose name is no operator\<close>
  "plain_object kvs \<longleftrightarrow>
    (case kvs of [(k, x)] \<Rightarrow> k \<noteq> ''ref'' \<and> k \<notin> operator_names | _ \<Rightarrow> True)"

lemma eval_operators:
  "evaluateExpression text c (VObj [(''ref'', x)]) = Inr (read_ref c (case x of VStr r \<Rightarrow> r | _ \<Rightarrow> text x))"
  "evaluateExpression text c (VObj [(''not'', x)]) =
     bindE (as_condition (evaluateExpression text c x)) (\<lambda>b. Inr (VBool (\<not> b), None))"
  "evaluateExpression text c (VObj [(''and'', VArr xs)]) =
     bindE (every_condition text c xs) (\<lambda>b. Inr (VBool b, None))"
  "evaluateExpression text c (VObj [(''or'', VArr xs)]) =
     bindE (some_condition text c xs) (\<lambda>b. Inr (VBool b, None))"
  "k \<in> comparisons \<Longrightarrow> evaluateExpression text c (VObj [(k, VArr xs)]) =
     bindE (evaluate_items text c xs) (\<lambda>ys. Inr (VBool (binary k (entry ys 0) (entry ys 1)), None))"
  by (simp_all add: evaluateExpression.simps [where v = "VObj kvs" for kvs]) (auto simp: comparisons_def)

lemma eval_plain:
  "plain_object kvs \<Longrightarrow>
     evaluateExpression text c (VObj kvs) = bindE (evaluate_members text c kvs) (\<lambda>ws. Inr (VObj ws, None))"
  by (simp add: evaluateExpression.simps [where v = "VObj kvs"] plain_object_def operator_names_def
      del: evaluate_members.simps split: list.split_asm prod.split_asm list.split prod.split)

lemma object_cases:
  obtains (ref) x where "kvs = [(''ref'', x)]"
  | (negation) x where "kvs = [(''not'', x)]"
  | (operator) k x where "kvs = [(k, x)]" "k \<in> operator_names" "k \<noteq> ''not''"
  | (plain) "plain_object kvs"
proof (cases "plain_object kvs")
  case False
  then obtain k x where "kvs = [(k, x)]" "k = ''ref'' \<or> k \<in> operator_names"
    by (auto simp: plain_object_def split: list.splits)
  with ref negation operator show thesis by blast
qed (rule plain)

lemma expression_array:
  "expression st oq ai d path (VArr xs) = Inr () \<longleftrightarrow>
     d \<le> 15 \<and> length xs \<le> 100 \<and> expression_items st oq ai (d + 1) path 0 xs = Inr ()"
  by (simp add: expression.simps)

lemma expression_operators:
  "expression st oq ai d path (VObj [(''ref'', x)]) = Inr () \<longleftrightarrow>
     d \<le> 15 \<and> (\<exists>r. x = VStr r \<and> refCheck r st ai (path @ ''/ref'') = Inr ())"
  "expression st oq ai d path (VObj [(''not'', x)]) = Inr () \<longleftrightarrow>
     d \<le> 15 \<and> expression st oq ai (d + 1) (path @ ''/not'') x = Inr ()"
  "k \<in> operator_names \<Longrightarrow> k \<noteq> ''not'' \<Longrightarrow> expression st oq ai d path (VObj [(k, x)]) = Inr () \<longleftrightarrow>
     d \<le> 15 \<and> (\<exists>ys. x = VArr ys \<and> arity_ok k (length ys) \<and>
       expression_items st oq ai (d + 1) (path @ ''/'' @ k) 0 ys = Inr ())"
    apply (simp add: expression.simps [where v = "VObj kvs" for kvs] split: jsv.split)
   apply (simp add: expression.simps [where v = "VObj kvs" for kvs])
  apply (simp add: expression.simps [where v = "VObj kvs" for kvs] split: jsv.split)
  apply (auto simp: operator_names_def)
  done

lemma expression_plain:
  "plain_object kvs \<Longrightarrow> expression st oq ai d path (VObj kvs) = Inr () \<longleftrightarrow>
     d \<le> 15 \<and> expression_members st oq ai (d + 1) path kvs = Inr ()"
  by (simp add: expression.simps [where v = "VObj kvs"] plain_object_def
      del: expression_members.simps split: list.split_asm prod.split_asm list.split prod.split)
    (auto simp: operator_names_def simp del: expression_members.simps)

lemma as_condition_TypeError: "as_condition r = Inl TypeError \<longleftrightarrow> r = Inl TypeError"
proof (cases r)
  case (Inr a)
  then show ?thesis by (cases "fst a") (simp_all add: as_condition_def)
qed (simp add: as_condition_def)

lemma operator_cases:
  assumes "k \<in> operator_names" "k \<noteq> ''not''"
  obtains "k \<in> comparisons" | "k = ''and''" | "k = ''or''"
  using assms by (auto simp: operator_names_def comparisons_def)

lemma items_checked:
  "expression_items st oq ai d path i xs = Inr () \<Longrightarrow> x \<in> set xs \<Longrightarrow>
     \<exists>path'. expression st oq ai d path' x = Inr ()"
  by (induction xs arbitrary: i) auto

lemma members_checked:
  "expression_members st oq ai d path kvs = Inr () \<Longrightarrow> (k, x) \<in> set kvs \<Longrightarrow>
     k \<notin> proto_names \<and> (\<exists>path'. expression st oq ai d path' x = Inr ())"
proof (induction kvs)
  case (Cons kv kvs)
  obtain j y where kv: "kv = (j, y)" by (cases kv)
  from Cons.prems(1) have head: "j \<notin> proto_names" "expression st oq ai d (member_path path j) y = Inr ()"
    and tail: "expression_members st oq ai d path kvs = Inr ()"
    by (auto simp: kv split: if_splits)
  show ?case
  proof (cases "(k, x) = kv")
    case True
    with head kv show ?thesis by blast
  next
    case False
    with Cons.prems(2) Cons.IH [OF tail] show ?thesis by simp
  qed
qed simp

lemma size_element: "x \<in> set xs \<Longrightarrow> size x < size (VArr xs)"
  using size_list_estimation' [of x xs "size x" size] by simp

lemma size_member: "(k, x) \<in> set kvs \<Longrightarrow> size x < size (VObj kvs)"
  using size_list_estimation' [of "(k, x)" kvs "size x" "size_prod (\<lambda>_. 0) size"] by simp

lemma checked_induct [consumes 1, case_names scalar array ref negation operator plain]:
  assumes "expression st oq ai d path v = Inr ()"
    and scalar: "\<And>v. (\<forall>xs. v \<noteq> VArr xs) \<Longrightarrow> (\<forall>kvs. v \<noteq> VObj kvs) \<Longrightarrow> P v"
    and array: "\<And>xs. (\<And>x. x \<in> set xs \<Longrightarrow> P x) \<Longrightarrow> P (VArr xs)"
    and ref: "\<And>r path. refCheck r st ai path = Inr () \<Longrightarrow> P (VObj [(''ref'', VStr r)])"
    and negation: "\<And>x. P x \<Longrightarrow> P (VObj [(''not'', x)])"
    and operator: "\<And>k ys. k \<in> operator_names \<Longrightarrow> k \<noteq> ''not'' \<Longrightarrow> (\<And>y. y \<in> set ys \<Longrightarrow> P y) \<Longrightarrow>
      P (VObj [(k, VArr ys)])"
    and plain: "\<And>kvs. plain_object kvs \<Longrightarrow> (\<And>k x. (k, x) \<in> set kvs \<Longrightarrow> P x) \<Longrightarrow> P (VObj kvs)"
  shows "P v"
  using assms(1)
proof (induction v arbitrary: d path rule: measure_induct_rule [where f = size])
  case (less v)
  have items: "P x" if "expression_items st oq ai e q i xs = Inr ()" "x \<in> set xs" "size (VArr xs) \<le> size v" for e q i xs x
    using items_checked [OF that(1,2)] less.IH [OF less_le_trans [OF size_element [OF that(2)] that(3)]] by blast
  show ?case
  proof (cases v)
    case (VArr xs)
    with less.prems have "expression_items st oq ai (d + 1) path 0 xs = Inr ()" by (simp add: expression_array)
    from items [OF this] show ?thesis by (simp add: VArr array)
  next
    case (VObj kvs)
    have inner: "size x < size v" if "(k, x) \<in> set kvs" for k x
      using size_member [OF that] by (simp add: VObj)
    show ?thesis
    proof (cases kvs rule: object_cases)
      case (ref x)
      with less.prems show ?thesis by (auto simp: VObj expression_operators intro: assms(4))
    next
      case (negation x)
      with less inner show ?thesis by (auto simp: VObj expression_operators intro: assms(5))
    next
      case (operator k x)
      with less.prems obtain ys where x: "x = VArr ys"
        and ys: "expression_items st oq ai (d + 1) (path @ ''/'' @ k) 0 ys = Inr ()"
        by (auto simp: VObj expression_operators)
      from items [OF ys] inner [of k x] show ?thesis
        by (simp add: VObj operator(1) x assms(6) [OF operator(2,3)])
    next
      case plain
      with less.prems have kvs: "expression_members st oq ai (d + 1) path kvs = Inr ()"
        by (simp add: VObj expression_plain)
      have "P x" if "(k, x) \<in> set kvs" for k x
        using members_checked [OF kvs that] less.IH inner [OF that] by blast
      with plain show ?thesis by (auto simp: VObj intro: assms(7))
    qed
  qed (auto intro: scalar)
qed

lemma items_not_stuck:
  "(\<And>x. x \<in> set xs \<Longrightarrow> evaluateExpression text c x \<noteq> Inl TypeError) \<Longrightarrow>
     evaluate_items text c xs \<noteq> Inl TypeError \<and> every_condition text c xs \<noteq> Inl TypeError \<and>
     some_condition text c xs \<noteq> Inl TypeError"
  by (induction xs) (simp_all add: bindE_Inl_iff as_condition_TypeError)

lemma members_not_stuck:
  "(\<And>k x. (k, x) \<in> set kvs \<Longrightarrow> evaluateExpression text c x \<noteq> Inl TypeError) \<Longrightarrow>
     evaluate_members text c kvs \<noteq> Inl TypeError"
proof (induction kvs)
  case (Cons kv kvs)
  obtain k x where kv: "kv = (k, x)" by (cases kv)
  have "evaluateExpression text c x \<noteq> Inl TypeError" using Cons.prems [of k x] by (simp add: kv)
  moreover have "evaluate_members text c kvs \<noteq> Inl TypeError"
    using Cons.IH Cons.prems by (metis list.set_intros(2))
  ultimately show ?case by (auto simp: kv bindE_Inl_iff)
qed simp

lemma checked_not_stuck:
  assumes "expression st oq ai d path v = Inr ()"
  shows "evaluateExpression text c v \<noteq> Inl TypeError"
  using assms
proof (induction rule: checked_induct)
  case (scalar v)
  then show ?case by (cases v) auto
next
  case (operator k ys)
  from operator(1,2) items_not_stuck [of ys] operator(3) show ?case
    by (cases rule: operator_cases) (auto simp: eval_operators bindE_Inl_iff)
next
  case (plain kvs)
  then show ?case using members_not_stuck [of kvs] by (simp add: eval_plain bindE_Inl_iff)
qed (use items_not_stuck in \<open>auto simp: eval_operators bindE_Inl_iff as_condition_TypeError\<close>)

section \<open>What a checked expression can read\<close>

definition same_reads :: "step_ref option \<Rightarrow> bool \<Rightarrow> eval_ctx \<Rightarrow> eval_ctx \<Rightarrow> bool" where
  \<comment> \<open>agreement on the inputs, on the item in a loop, and on the state of the declared needs\<close>
  "same_reads st ai c c' \<longleftrightarrow>
    cx_inputs c = cx_inputs c' \<and>
    (ai \<longrightarrow> walk (cx_item c) [''value''] = walk (cx_item c') [''value''] \<and>
      walk (cx_item c) [''index''] = walk (cx_item c') [''index'']) \<and>
    (\<forall>s. st = Some s \<longrightarrow> (\<forall>n \<in> set (sr_needs s). \<forall>f \<in> {''status'', ''output''}.
      walk (cx_steps c) [n, f] = walk (cx_steps c') [n, f])) \<and>
    (\<forall>p. hd p = ''inputs'' \<or> ai \<and> hd p = ''item'' \<or>
      (\<exists>s. st = Some s \<and> hd p = ''steps'' \<and> p ! 1 \<in> set (sr_needs s)) \<longrightarrow> cx_object c p = cx_object c' p)"

lemma walk_undefined [simp]: "walk VUndef ps = VUndef"
  by (cases ps) (simp_all add: own_property_def)

lemma walk_append: "walk v (ps @ qs) = walk (walk v ps) qs"
  by (induction ps arbitrary: v) (simp_all split: option.split)

lemma walk_prefix:
  assumes "walk v (take n ps) = walk w (take n ps)"
  shows "walk v ps = walk w ps"
  using assms walk_append [of _ "take n ps" "drop n ps"] by (metis append_take_drop_id)

lemma refCheck_cases:
  assumes "refCheck r st ai path = Inr ()" "parts = split_char (CHR ''.'') r"
  obtains (inputs) "hd parts = ''inputs''"
  | (item) f where "ai" "hd parts = ''item''" "f \<in> {''value'', ''index''}" "take 1 (tl parts) = [f]"
  | (step) s n f where "st = Some s" "hd parts = ''steps''" "n \<in> set (sr_needs s)" "f \<in> {''status'', ''output''}"
      "take 2 (tl parts) = [n, f]" "parts ! 1 = n"
proof -
  have long: "2 \<le> length parts"
    using assms by (auto simp: refCheck_def Let_def split: if_splits)
  obtain a b rest where parts: "parts = a # b # rest"
    using long by (cases parts; cases "tl parts") auto
  have "a = ''inputs'' \<or> ai \<and> a = ''item'' \<and> b \<in> {''value'', ''index''} \<or>
    (\<exists>s. st = Some s \<and> a = ''steps'' \<and> b \<in> set (sr_needs s) \<and> rest \<noteq> [] \<and> hd rest \<in> {''status'', ''output''})"
    using assms(1) unfolding refCheck_def assms(2) [symmetric] Let_def parts
    by (cases rest) (simp_all split: if_splits option.splits)
  then show thesis
  proof (elim disjE exE conjE)
    fix s assume "st = Some s" "a = ''steps''" "b \<in> set (sr_needs s)" "rest \<noteq> []" "hd rest \<in> {''status'', ''output''}"
    then show thesis using step [of s b "hd rest"] by (cases rest) (simp_all add: parts)
  qed (use inputs item [of b] parts in simp_all)
qed

lemma read_ref_agrees:
  assumes "refCheck r st ai path = Inr ()" "same_reads st ai c c'"
  shows "read_ref c r = read_ref c' r"
proof -
  define parts where "parts = split_char (CHR ''.'') r"
  from assms(1) parts_def show ?thesis
  proof (cases rule: refCheck_cases)
    case inputs
    with assms(2) show ?thesis by (simp add: read_ref_def same_reads_def Let_def flip: parts_def)
  next
    case (item f)
    with assms(2) have "walk (cx_item c) (take 1 (tl parts)) = walk (cx_item c') (take 1 (tl parts))"
      "cx_object c parts = cx_object c' parts"
      unfolding same_reads_def by auto
    from walk_prefix [OF this(1)] this(2) item(2) show ?thesis
      by (simp add: read_ref_def Let_def flip: parts_def)
  next
    case (step s n f)
    with assms(2) have "walk (cx_steps c) (take 2 (tl parts)) = walk (cx_steps c') (take 2 (tl parts))"
      "cx_object c parts = cx_object c' parts"
      unfolding same_reads_def step(5) by blast+
    from walk_prefix [OF this(1)] this(2) step(2) show ?thesis
      by (simp add: read_ref_def Let_def flip: parts_def)
  qed
qed

lemma items_agree:
  "(\<And>x. x \<in> set xs \<Longrightarrow> evaluateExpression text c x = evaluateExpression text c' x) \<Longrightarrow>
     evaluate_items text c xs = evaluate_items text c' xs \<and> every_condition text c xs = every_condition text c' xs \<and>
     some_condition text c xs = some_condition text c' xs"
  by (induction xs) (simp_all cong: if_cong)

lemma members_agree:
  "(\<And>k x. (k, x) \<in> set kvs \<Longrightarrow> evaluateExpression text c x = evaluateExpression text c' x) \<Longrightarrow>
     evaluate_members text c kvs = evaluate_members text c' kvs"
proof (induction kvs)
  case (Cons kv kvs)
  obtain k x where "kv = (k, x)" by (cases kv)
  with Cons show ?case by (metis evaluate_members.simps(2) list.set_intros)
qed simp

lemma checked_reads:
  assumes "expression st oq ai d path v = Inr ()" "same_reads st ai c c'"
  shows "evaluateExpression text c v = evaluateExpression text c' v"
  using assms(1)
proof (induction rule: checked_induct)
  case (scalar v)
  then show ?case by (cases v) auto
next
  case (operator k ys)
  from operator(1,2) items_agree [OF operator(3)] show ?case
    by (cases rule: operator_cases) (auto simp: eval_operators)
next
  case (array xs)
  from items_agree [OF array] show ?case by simp
next
  case (plain kvs)
  from plain(1) members_agree [OF plain(2)] show ?case by (simp add: eval_plain)
next
  case (ref r path)
  from read_ref_agrees [OF ref assms(2)] show ?case by (simp add: eval_operators)
next
  case (negation x)
  then show ?case by (simp add: eval_operators)
qed

section \<open>Properties\<close>

definition witness_context :: eval_ctx where
  "witness_context = \<lparr>cx_inputs = VObj [(''mode'', VStr ''fast'')],
     cx_steps = VObj [(''a'', VObj [(''status'', VStr ''succeeded''), (''output'', VNull)])],
     cx_item = VUndef, cx_object = (\<lambda>p. length p)\<rparr>"

definition witness_condition :: jsv where
  "witness_condition = VObj [(''and'', VArr [VObj [(''eq'', VArr [VObj [(''ref'', VStr ''steps.a.status'')], VStr ''succeeded''])],
     VObj [(''not'', VObj [(''ref'', VStr ''inputs.dry'')])]])]"

text \<open>C31: Type soundness of plan expressions: an expression that passes the compiler's check never
  makes the evaluator throw a TypeError at run time; its evaluation returns a value, or rejects a
  condition that is not a boolean.
\<close>

theorem checked_expression_sound:
  assumes "expression st oq ai d path v = Inr ()"
  shows "evaluateExpression text c v = Inl NonBoolean \<or> (\<exists>w l. evaluateExpression text c v = Inr (w, l))"
  using checked_not_stuck [OF assms] by (cases "evaluateExpression text c v"; cases "projl (evaluateExpression text c v)") auto

theorem checked_expression_sound_witness:
  "evaluateExpression (\<lambda>_. []) witness_context witness_condition = Inl NonBoolean \<or>
   (\<exists>w l. evaluateExpression (\<lambda>_. []) witness_context witness_condition = Inr (w, l))"
  by (rule checked_expression_sound [of "Some \<lparr>sr_id = ''b'', sr_needs = [''a'']\<rparr>" False False 0 "''/''"]) code_simp

text \<open>C32: A checked expression reads only the run's inputs, the current item where one is allowed, and
  the status and output of the steps that its step declares in needs: two contexts that agree on those
  give the same result, whatever else they hold.
\<close>

theorem checked_expression_reads:
  assumes "expression st oq ai d path v = Inr ()" "same_reads st ai c c'"
  shows "evaluateExpression text c v = evaluateExpression text c' v"
  using assms by (rule checked_reads)

lemma other_steps_unread:
  "same_reads (Some \<lparr>sr_id = ''b'', sr_needs = [''a'']\<rparr>) False witness_context
     (witness_context\<lparr>cx_steps := VObj [(''z'', VStr ''secret''),
       (''a'', VObj [(''status'', VStr ''succeeded''), (''output'', VNull)])]\<rparr>)"
  by (simp add: same_reads_def witness_context_def own_property_def)

theorem checked_expression_reads_witness:
  "evaluateExpression (\<lambda>_. []) witness_context witness_condition =
   evaluateExpression (\<lambda>_. []) (witness_context\<lparr>cx_steps := VObj [(''z'', VStr ''secret''),
       (''a'', VObj [(''status'', VStr ''succeeded''), (''output'', VNull)])]\<rparr>) witness_condition"
  by (rule checked_expression_reads [of "Some \<lparr>sr_id = ''b'', sr_needs = [''a'']\<rparr>" False False 0 "''/''",
    OF _ other_steps_unread]) code_simp

end
