(* ===== verification/PlanValues.thy ===== *)
theory PlanValues
  imports PlanExpr "HOL-Library.Multiset"
begin

text \<open>
  Checks and normal forms of plan values (\<open>plan.ts\<close>): the finite-number check, the canonical member
  order that digests are taken of, the literal HTTP body, and what is statically known of the output
  of a step.
\<close>

section \<open>Finite numbers\<close>

fun validateFiniteNumbers :: "nat \<Rightarrow> jsv \<Rightarrow> plan_error + unit"
  and validate_items :: "nat \<Rightarrow> jsv list \<Rightarrow> plan_error + unit"
  and validate_members :: "nat \<Rightarrow> (string \<times> jsv) list \<Rightarrow> plan_error + unit" where
  "validateFiniteNumbers d v =
    (if d > 32 then Inl (''definition_too_deep'', ''/'')
     else case v of
       VNum n \<Rightarrow> (case n of Fin _ \<Rightarrow> Inr () | _ \<Rightarrow> Inl (''non_finite_number'', ''/''))
     | VArr xs \<Rightarrow> validate_items (d + 1) xs
     | VObj kvs \<Rightarrow> validate_members (d + 1) kvs
     | _ \<Rightarrow> Inr ())"
| "validate_items d [] = Inr ()"
| "validate_items d (x # xs) = bindE (validateFiniteNumbers d x) (\<lambda>_. validate_items d xs)"
| "validate_members d [] = Inr ()"
| "validate_members d ((k, x) # kvs) = bindE (validateFiniteNumbers d x) (\<lambda>_. validate_members d kvs)"

section \<open>The canonical form\<close>

definition property_index :: "string \<Rightarrow> nat option" where
  "property_index p = (case array_index p of Some i \<Rightarrow> if i < 4294967295 then Some i else None | None \<Rightarrow> None)"

definition property_order :: "(string \<times> jsv) list \<Rightarrow> (string \<times> jsv) list" where
  \<comment> \<open>an object's own properties are enumerated with the array indices first, in numeric order\<close>
  "property_order kvs =
    sort_key (\<lambda>kv. the (property_index (fst kv))) [kv \<leftarrow> kvs. property_index (fst kv) \<noteq> None] @
    [kv \<leftarrow> kvs. property_index (fst kv) = None]"

fun canonical :: "jsv \<Rightarrow> jsv" where
  "canonical (VArr xs) = VArr (map canonical xs)"
| "canonical (VObj kvs) = VObj (property_order (map (\<lambda>(k, x). (k, canonical x)) (sort_key fst kvs)))"
| "canonical v = v"

section \<open>Literal HTTP bodies\<close>

fun assertLiteralHttpBody :: "nat \<Rightarrow> string \<Rightarrow> jsv \<Rightarrow> plan_error + unit"
  and literal_items :: "nat \<Rightarrow> string \<Rightarrow> jsv list \<Rightarrow> plan_error + unit"
  and literal_members :: "nat \<Rightarrow> string \<Rightarrow> (string \<times> jsv) list \<Rightarrow> plan_error + unit" where
  "assertLiteralHttpBody d path v =
    (if d > 15 then Inl (''http_body_too_deep'', path)
     else case v of
       VArr xs \<Rightarrow> literal_items (d + 1) path xs
     | VObj kvs \<Rightarrow>
         if length kvs = 1 \<and> (fst (kvs ! 0) = ''ref'' \<or> fst (kvs ! 0) \<in> operator_names)
         then Inl (''http_dynamic_body_unsupported'', path)
         else literal_members (d + 1) path kvs
     | _ \<Rightarrow> Inr ())"
| "literal_items d path [] = Inr ()"
| "literal_items d path (x # xs) = bindE (assertLiteralHttpBody d path x) (\<lambda>_. literal_items d path xs)"
| "literal_members d path [] = Inr ()"
| "literal_members d path ((k, x) # kvs) = bindE (assertLiteralHttpBody d path x) (\<lambda>_. literal_members d path kvs)"

section \<open>Statically known outputs\<close>

datatype known_output = Unknown | Known string

definition operator_object :: "jsv \<Rightarrow> bool" where
  "operator_object v \<longleftrightarrow>
    (case v of VObj kvs \<Rightarrow> length kvs = 1 \<and> (fst (kvs ! 0) = ''ref'' \<or> fst (kvs ! 0) \<in> operator_names) | _ \<Rightarrow> False)"

fun literalOutputAt :: "jsv \<Rightarrow> string list \<Rightarrow> string \<Rightarrow> plan_error + known_output" where
  "literalOutputAt v [] path = Inr (if operator_object v then Unknown else Known (typeOf v))"
| "literalOutputAt v (f # fs) path =
    (case v of
       VObj kvs \<Rightarrow>
         if operator_object v then Inr Unknown
         else (case map_of kvs f of
             None \<Rightarrow> Inl (''unknown_output_field'', path)
           | Some w \<Rightarrow> literalOutputAt w fs path)
     | _ \<Rightarrow> Inl (''unknown_output_field'', path))"

definition member :: "jsv \<Rightarrow> string \<Rightarrow> jsv" where
  \<comment> \<open>reading a property of an object\<close>
  "member v k = (case v of VObj kvs \<Rightarrow> (case map_of kvs k of Some w \<Rightarrow> w | None \<Rightarrow> VUndef) | _ \<Rightarrow> VUndef)"

definition declared_leaf :: "jsv \<Rightarrow> known_output" where
  "declared_leaf cur =
    (if \<not> is_object cur then Unknown
     else case member cur ''type'' of
       VStr t \<Rightarrow> Known t
     | _ \<Rightarrow> (case member cur ''enum'' of
         VArr (x # xs) \<Rightarrow> if \<forall>y \<in> set xs. typeOf y = typeOf x then Known (typeOf x) else Unknown
       | _ \<Rightarrow> Unknown))"

fun declaredOutputAt :: "jsv \<Rightarrow> string list \<Rightarrow> string \<Rightarrow> plan_error + known_output" where
  "declaredOutputAt cur [] path = Inr (declared_leaf cur)"
| "declaredOutputAt cur (f # fs) path =
    (if \<not> is_object cur \<or> member cur ''type'' \<noteq> VStr ''object'' \<or> \<not> is_object (member cur ''properties'') \<or>
        member cur ''additionalProperties'' \<noteq> VBool False then Inr Unknown
     else (case own_property f (member cur ''properties'') of
         None \<Rightarrow> Inl (''unknown_output_field'', path)
       | Some w \<Rightarrow> declaredOutputAt w fs path))"

section \<open>Literal bodies evaluate to themselves\<close>

lemma plain_iff: "plain_object kvs \<longleftrightarrow> \<not> operator_object (VObj kvs)"
  by (cases kvs; cases "tl kvs") (auto simp: plain_object_def operator_object_def)

lemma items_literal:
  "literal_items d path xs = Inr () \<Longrightarrow> x \<in> set xs \<Longrightarrow> assertLiteralHttpBody d path x = Inr ()"
  by (induction xs) auto

lemma members_literal:
  "literal_members d path kvs = Inr () \<Longrightarrow> (k, x) \<in> set kvs \<Longrightarrow> assertLiteralHttpBody d path x = Inr ()"
  by (induction kvs) auto

lemma items_self:
  "(\<And>x. x \<in> set xs \<Longrightarrow> evaluateExpression text c x = Inr (x, None)) \<Longrightarrow>
     evaluate_items text c xs = Inr (map (\<lambda>x. (x, None)) xs)"
  by (induction xs) simp_all

lemma members_self:
  "(\<And>k x. (k, x) \<in> set kvs \<Longrightarrow> evaluateExpression text c x = Inr (x, None)) \<Longrightarrow>
     evaluate_members text c kvs = Inr kvs"
proof (induction kvs)
  case (Cons kv kvs)
  obtain k x where kv: "kv = (k, x)" by (cases kv)
  have "evaluateExpression text c x = Inr (x, None)" using Cons.prems [of k x] by (simp add: kv)
  moreover have "evaluate_members text c kvs = Inr kvs"
    using Cons.IH Cons.prems by (metis list.set_intros(2))
  ultimately show ?case by (simp add: kv)
qed simp

lemma literal_body_self:
  "assertLiteralHttpBody d path v = Inr () \<Longrightarrow> evaluateExpression text c v = Inr (v, None)"
proof (induction v arbitrary: d rule: measure_induct_rule [where f = size])
  case (less v)
  show ?case
  proof (cases v)
    case (VArr xs)
    with less.prems have lits: "literal_items (d + 1) path xs = Inr ()" by (simp split: if_splits)
    have "evaluateExpression text c x = Inr (x, None)" if "x \<in> set xs" for x
      using less.IH items_literal [OF lits that] size_element [OF that] VArr by blast
    from items_self [OF this] show ?thesis by (simp add: VArr comp_def)
  next
    case (VObj kvs)
    with less.prems have lits: "literal_members (d + 1) path kvs = Inr ()" and "plain_object kvs"
      by (auto simp: plain_iff operator_object_def split: if_splits)
    have "evaluateExpression text c x = Inr (x, None)" if "(k, x) \<in> set kvs" for k x
      using less.IH members_literal [OF lits that] size_member [OF that] VObj by blast
    from members_self [OF this] \<open>plain_object kvs\<close> show ?thesis by (simp add: VObj eval_plain)
  qed simp_all
qed

section \<open>The known type of an output is its type\<close>

lemma members_get:
  "evaluate_members text c kvs = Inr ws \<Longrightarrow>
     (case map_of kvs k of
        None \<Rightarrow> map_of ws k = None
      | Some x \<Rightarrow> \<exists>w l. evaluateExpression text c x = Inr (w, l) \<and> map_of ws k = Some w)"
  by (induction kvs arbitrary: ws) (auto split: option.splits)

lemma operator_value:
  "\<not> operator_object v \<Longrightarrow> evaluateExpression text c v = Inr (w, l) \<Longrightarrow> typeOf w = typeOf v"
  by (cases v) (auto simp: typeOf_def eval_plain plain_iff)

lemma literal_output_type:
  "literalOutputAt v fs path = Inr (Known t) \<Longrightarrow> evaluateExpression text c v = Inr (w, l) \<Longrightarrow>
     typeOf (walk w fs) = t"
proof (induction v fs path arbitrary: w l rule: literalOutputAt.induct)
  case (1 v path)
  then show ?case by (auto simp: operator_value split: if_splits)
next
  case (2 v f fs path)
  then obtain kvs x where v: "v = VObj kvs" "plain_object kvs" "map_of kvs f = Some x"
      "literalOutputAt x fs path = Inr (Known t)"
    by (auto simp: plain_iff split: jsv.splits if_splits option.splits)
  with 2(3) obtain ws where ws: "evaluate_members text c kvs = Inr ws" "w = VObj ws"
    by (auto simp: eval_plain)
  from members_get [OF ws(1), of f] v(3) obtain y l' where
    "evaluateExpression text c x = Inr (y, l')" "map_of ws f = Some y" by auto
  with 2(1) [of kvs x] v ws show ?case by (auto simp: own_property_def plain_iff)
qed

section \<open>Finiteness\<close>

fun finite_value :: "jsv \<Rightarrow> bool" where
  "finite_value (VNum n) = (\<exists>q. n = Fin q)"
| "finite_value (VArr xs) = (\<forall>x \<in> set xs. finite_value x)"
| "finite_value (VObj kvs) = (\<forall>kv \<in> set kvs. finite_value (snd kv))"
| "finite_value _ = True"

lemma validated_items:
  "validate_items d xs = Inr () \<longleftrightarrow> (\<forall>x \<in> set xs. validateFiniteNumbers d x = Inr ())"
  by (induction xs) (auto simp: bindE_Inr_iff)

lemma validated_members:
  "validate_members d kvs = Inr () \<longleftrightarrow> (\<forall>kv \<in> set kvs. validateFiniteNumbers d (snd kv) = Inr ())"
  by (induction kvs) (auto simp: bindE_Inr_iff)

declare validateFiniteNumbers.simps [simp del]

lemma validated_finite: "validateFiniteNumbers d v = Inr () \<Longrightarrow> finite_value v"
proof (induction v arbitrary: d rule: measure_induct_rule [where f = size])
  case (less v)
  show ?case
  proof (cases v)
    case (VArr xs)
    with less.prems have "\<forall>x \<in> set xs. validateFiniteNumbers (d + 1) x = Inr ()"
      by (simp add: validateFiniteNumbers.simps [of d "VArr xs"] validated_items split: if_splits)
    with less.IH size_element VArr show ?thesis by auto
  next
    case (VObj kvs)
    with less.prems have "\<forall>kv \<in> set kvs. validateFiniteNumbers (d + 1) (snd kv) = Inr ()"
      by (simp add: validateFiniteNumbers.simps [of d "VObj kvs"] validated_members split: if_splits)
    moreover have "size (snd kv) < size v" if "kv \<in> set kvs" for kv
      using size_member [of "fst kv" "snd kv" kvs] that by (simp add: VObj)
    ultimately have "\<forall>kv \<in> set kvs. finite_value (snd kv)" using less.IH by blast
    then show ?thesis by (simp add: VObj)
  qed (use less.prems in \<open>auto simp: validateFiniteNumbers.simps split: if_splits jsnum.splits\<close>)
qed

section \<open>The canonical form forgets the member order, and nothing else\<close>

inductive reordered :: "jsv \<Rightarrow> jsv \<Rightarrow> bool" where
  same: "reordered v v"
| items: "list_all2 reordered xs ys \<Longrightarrow> reordered (VArr xs) (VArr ys)"
| members: "list_all2 (rel_prod (=) reordered) kvs kvs' \<Longrightarrow> mset kvs' = mset kvs'' \<Longrightarrow>
    reordered (VObj kvs) (VObj kvs'')"

fun distinct_members :: "jsv \<Rightarrow> bool" where
  "distinct_members (VArr xs) = (\<forall>x \<in> set xs. distinct_members x)"
| "distinct_members (VObj kvs) = (distinct (map fst kvs) \<and> (\<forall>kv \<in> set kvs. distinct_members (snd kv)))"
| "distinct_members _ = True"

definition canon_member :: "string \<times> jsv \<Rightarrow> string \<times> jsv" where
  "canon_member kv = (fst kv, canonical (snd kv))"

lemma sort_distinct_keys:
  assumes "mset xs = mset ys" "distinct (map fst xs)"
  shows "sort_key fst xs = sort_key fst (ys :: (string \<times> jsv) list)"
  using assms by (intro sort_key_inj_key_eq) (simp_all add: distinct_map)

lemma insort_map: "map canon_member (insort_key fst kv kvs) = insort_key fst (canon_member kv) (map canon_member kvs)"
  by (induction kvs) (simp_all add: canon_member_def)

lemma sort_map: "map canon_member (sort_key fst kvs) = sort_key fst (map canon_member kvs)"
  by (induction kvs) (simp_all add: insort_map)

lemma canonical_members: "canonical (VObj kvs) = VObj (property_order (sort_key fst (map canon_member kvs)))"
proof -
  have "(\<lambda>(k, x). (k, canonical x)) = canon_member" by (auto simp: canon_member_def)
  then show ?thesis by (simp only: canonical.simps sort_map)
qed

declare canonical.simps(2) [simp del]

lemma canon_keys: "map fst (map canon_member kvs) = map fst kvs"
  by (simp add: canon_member_def)

lemma mset_property_order [simp]: "mset (property_order kvs) = mset kvs"
proof -
  have "{#kv \<in># mset kvs. property_index (fst kv) \<noteq> None#} + {#kv \<in># mset kvs. \<not> property_index (fst kv) \<noteq> None#} = mset kvs"
    by (rule multiset_partition [symmetric])
  then show ?thesis by (simp add: property_order_def)
qed

lemma reordered_canonical:
  "reordered v w \<Longrightarrow> distinct_members v \<Longrightarrow> canonical v = canonical w"
proof (induction rule: reordered.induct)
  case (items xs ys)
  then have "map canonical xs = map canonical ys"
    by (auto simp: list_all2_conv_all_nth intro!: nth_equalityI)
  then show ?case by simp
next
  case (members kvs kvs' kvs'')
  have all: "length kvs = length kvs'"
    and same: "\<And>i. i < length kvs \<Longrightarrow> fst (kvs ! i) = fst (kvs' ! i) \<and> canonical (snd (kvs ! i)) = canonical (snd (kvs' ! i))"
    using members by (auto simp: list_all2_conv_all_nth rel_prod_sel)
  have canon: "map canon_member kvs = map canon_member kvs'"
    using all same by (auto simp: canon_member_def intro!: nth_equalityI)
  have "distinct (map fst (map canon_member kvs'))"
    using members.prems unfolding canon [symmetric] canon_keys by simp
  from sort_distinct_keys [OF _ this, of "map canon_member kvs''"] members.hyps(1) show ?case
    by (simp add: canonical_members canon)
qed simp

lemma map_mset_obtain:
  assumes "mset xs = mset (map f ys)"
  obtains zs where "mset zs = mset ys" "xs = map f zs"
  using assms
proof (induction xs arbitrary: ys thesis)
  case Nil
  then show ?case by simp
next
  case (Cons x xs)
  then have "x \<in> set (map f ys)" by (metis list.set_intros(1) set_mset_mset)
  then obtain y where y: "y \<in> set ys" "x = f y" by auto
  then obtain as bs where ys: "ys = as @ y # bs" by (meson split_list)
  with Cons.prems(2) y have "mset xs = mset (map f (as @ bs))" by simp
  from Cons.IH [OF _ this] obtain zs where "mset zs = mset (as @ bs)" "xs = map f zs" by blast
  with y ys Cons.prems(1) [of "y # zs"] show ?case by simp
qed

lemma canonical_reordered:
  "canonical v = canonical w \<Longrightarrow> reordered v w"
proof (induction v arbitrary: w rule: measure_induct_rule [where f = size])
  case (less v)
  show ?case
  proof (cases v)
    case (VArr xs)
    with less.prems obtain ys where w: "w = VArr ys" and eq: "map canonical xs = map canonical ys"
      by (cases w) (auto simp: canonical_members)
    have "list_all2 reordered xs ys"
    proof (rule list_all2_all_nthI)
      show "length xs = length ys" using eq by (metis length_map)
      fix i assume i: "i < length xs"
      have "canonical (xs ! i) = canonical (ys ! i)" using eq i by (metis length_map nth_map)
      then show "reordered (xs ! i) (ys ! i)"
        using less.IH size_element [OF nth_mem [OF i]] VArr by blast
    qed
    then show ?thesis by (simp add: VArr w reordered.items)
  next
    case (VObj kvs)
    with less.prems obtain ls where w: "w = VObj ls" by (cases w) (auto simp: canonical_members)
    have "mset (map canon_member kvs) = mset (map canon_member ls)"
      using less.prems unfolding VObj w canonical_members
      by (metis jsv.inject(5) mset_property_order mset_sort)
    then obtain zs where zs: "mset zs = mset ls" "map canon_member kvs = map canon_member zs"
      by (rule map_mset_obtain)
    have "list_all2 (rel_prod (=) reordered) kvs zs"
    proof (rule list_all2_all_nthI)
      show "length kvs = length zs" using zs(2) by (metis length_map)
      fix i assume i: "i < length kvs"
      have "canon_member (kvs ! i) = canon_member (zs ! i)" using zs(2) i by (metis length_map nth_map)
      then have "fst (kvs ! i) = fst (zs ! i)" "canonical (snd (kvs ! i)) = canonical (snd (zs ! i))"
        by (simp_all add: canon_member_def)
      moreover have "size (snd (kvs ! i)) < size v"
        using size_member [of "fst (kvs ! i)" "snd (kvs ! i)" kvs] i by (simp add: VObj)
      ultimately show "rel_prod (=) reordered (kvs ! i) (zs ! i)"
        using less.IH by (simp add: rel_prod_sel)
    qed
    from reordered.members [OF this zs(1)] show ?thesis by (simp add: VObj w)
  qed (use less.prems in \<open>cases w; auto simp: canonical_members intro: reordered.same\<close>)+
qed

section \<open>Properties\<close>

text \<open>An HTTP body that passes the literal check is fixed at publication: in every run and every
  context it evaluates to itself.
\<close>

theorem literal_body_fixed:
  assumes "assertLiteralHttpBody d path v = Inr ()"
  shows "evaluateExpression text c v = Inr (v, None)"
  using assms by (rule literal_body_self)

theorem literal_body_fixed_witness:
  "evaluateExpression (\<lambda>_. []) witness_context (VObj [(''a'', VArr [VNull, VObj [(''ref'', VNull), (''b'', VNull)]])]) =
     Inr (VObj [(''a'', VArr [VNull, VObj [(''ref'', VNull), (''b'', VNull)]])], None)"
  by (rule literal_body_fixed [of 0 "''/''"]) code_simp

text \<open>C33: What the compiler takes as the known type of a field of a literal output is the type of that
  field in the output that the step produces at run time.
\<close>

theorem literal_output_sound:
  assumes "literalOutputAt v fs path = Inr (Known t)" "evaluateExpression text c v = Inr (w, l)"
  shows "typeOf (walk w fs) = t"
  using assms by (rule literal_output_type)

theorem literal_output_sound_witness:
  "typeOf (walk (VObj [(''n'', VObj [(''x'', VBool True)]), (''m'', VStr ''fast'')]) [''n'', ''x'']) = ''boolean''"
  by (rule literal_output_sound [of "VObj [(''n'', VObj [(''x'', VBool True)]), (''m'', VObj [(''ref'', VStr ''inputs.mode'')])]"
    _ "''/''" _ "\<lambda>_. []" witness_context _ None]) code_simp+

text \<open>C34: The canonical form that digests are taken of forgets the order of object members and nothing
  else: two values with distinct member names have the same canonical form exactly when one is the other
  with members reordered, at any depth.
\<close>

theorem canonical_same_iff:
  assumes "distinct_members v"
  shows "canonical v = canonical w \<longleftrightarrow> reordered v w"
  using assms canonical_reordered reordered_canonical by blast

theorem canonical_same_iff_witness:
  "canonical (VObj [(''b'', VNull), (''10'', VNull), (''9'', VArr [])]) = canonical (VObj [(''9'', VArr []), (''b'', VNull), (''10'', VNull)]) \<longleftrightarrow>
   reordered (VObj [(''b'', VNull), (''10'', VNull), (''9'', VArr [])]) (VObj [(''9'', VArr []), (''b'', VNull), (''10'', VNull)])"
  by (rule canonical_same_iff) code_simp

end
