(* ===== verification/PlanGraph.thy ===== *)
theory PlanGraph
  imports PlanValues
begin

text \<open>
  Compiled steps and their order (\<open>plan.ts\<close>): the last phase of \<open>compilePlan\<close> sorts the steps in
  waves, each wave being the steps whose needs have all been sorted, ordered by identifier.
\<close>

record step =
  st_id :: string
  st_uses :: string
  st_needs :: "string list"
  st_allow_skipped :: bool  \<comment> \<open>\<open>needs_policy === 'allow_skipped'\<close>\<close>
  st_with :: jsv
  st_if :: jsv  \<comment> \<open>undefined when absent\<close>
  st_approval :: bool  \<comment> \<open>\<open>approval: {required: true}\<close>\<close>
  st_compensate :: bool  \<comment> \<open>\<open>compensate: {kind: 'github.session.cancel'}\<close>\<close>

datatype graph_error = CyclicDependencies | ExcessiveParallelism

definition maxParallel :: nat where "maxParallel = 8"

definition ids :: "step list \<Rightarrow> string set" where
  "ids ss = st_id ` set ss"

definition ready_steps :: "step list \<Rightarrow> step list \<Rightarrow> step list" where
  "ready_steps sorted_steps pending =
    sort_key st_id [s \<leftarrow> pending. list_all (\<lambda>n. list_ex (\<lambda>t. st_id t = n) sorted_steps) (st_needs s)]"

definition without_ids :: "step list \<Rightarrow> step list \<Rightarrow> step list" where
  "without_ids gone ss = [s \<leftarrow> ss. \<not> list_ex (\<lambda>t. st_id t = st_id s) gone]"

function plan_waves :: "step list \<Rightarrow> step list \<Rightarrow> graph_error + step list" where
  "plan_waves sorted_steps pending =
    (if pending = [] then Inr sorted_steps
     else let ready = ready_steps sorted_steps pending in
       if ready = [] then Inl CyclicDependencies
       else if length ready > maxParallel then Inl ExcessiveParallelism
       else plan_waves (sorted_steps @ ready) (without_ids ready pending))"
  by auto

lemma ready_subset: "set (ready_steps done ss) \<subseteq> set ss"
  by (auto simp: ready_steps_def)

lemma without_ids_shorter:
  assumes "r \<in> set gone" "r \<in> set ss"
  shows "length (without_ids gone ss) < length ss"
proof -
  have "filter (\<lambda>s. \<not> list_ex (\<lambda>t. st_id t = st_id s) gone) ss \<noteq> ss"
    using assms by (metis (mono_tags, lifting) filter_id_conv list_ex_iff)
  then show ?thesis
    unfolding without_ids_def by (metis (no_types, lifting) filter_True length_filter_less)
qed

termination plan_waves
proof (relation "measure (\<lambda>(_, ss). length ss)")
  fix sorted_steps pending :: "step list" and ready
  assume "ready = ready_steps sorted_steps pending" "ready \<noteq> []"
  then obtain r where "r \<in> set ready" "r \<in> set pending"
    using ready_subset by (metis last_in_set subset_eq)
  then show "((sorted_steps @ ready, without_ids ready pending), sorted_steps, pending) \<in> measure (\<lambda>(_, ss). length ss)"
    by (simp add: without_ids_shorter)
qed simp

declare plan_waves.simps [simp del]

definition sort_steps :: "step list \<Rightarrow> graph_error + step list" where
  "sort_steps ss = plan_waves [] ss"

section \<open>The order is a topological order of the same steps\<close>

lemma in_ready:
  "s \<in> set (ready_steps done ss) \<longleftrightarrow> s \<in> set ss \<and> set (st_needs s) \<subseteq> ids done"
  by (auto simp: ready_steps_def ids_def list_all_iff list_ex_iff)

lemma in_without: "s \<in> set (without_ids gone ss) \<longleftrightarrow> s \<in> set ss \<and> st_id s \<notin> ids gone"
  by (auto simp: without_ids_def ids_def list_ex_iff image_iff)

definition needs_before :: "step list \<Rightarrow> bool" where
  "needs_before ss \<longleftrightarrow> (\<forall>i < length ss. set (st_needs (ss ! i)) \<subseteq> ids (take i ss))"

lemma needs_before_append:
  assumes "needs_before ss" "\<And>r. r \<in> set rs \<Longrightarrow> set (st_needs r) \<subseteq> ids ss"
  shows "needs_before (ss @ rs)"
  unfolding needs_before_def
proof (intro allI impI)
  fix i assume i: "i < length (ss @ rs)"
  show "set (st_needs ((ss @ rs) ! i)) \<subseteq> ids (take i (ss @ rs))"
  proof (cases "i < length ss")
    case True
    with assms(1) show ?thesis by (simp add: needs_before_def nth_append)
  next
    case False
    with i have "(ss @ rs) ! i \<in> set rs" by (simp add: nth_append)
    from assms(2) [OF this] False show ?thesis by (auto simp: ids_def)
  qed
qed

lemma plan_waves_sound:
  "plan_waves done ss = Inr rs \<Longrightarrow> distinct (map st_id ss) \<Longrightarrow> needs_before done \<Longrightarrow>
     mset rs = mset done + mset ss \<and> needs_before rs"
proof (induction "done" ss rule: plan_waves.induct)
  case (1 "done" ss)
  show ?case
  proof (cases "ss = []")
    case True
    with 1 show ?thesis by (simp add: plan_waves.simps)
  next
    case False
    define ready where "ready = ready_steps done ss"
    from 1(2) False have rest: "plan_waves (done @ ready) (without_ids ready ss) = Inr rs"
      and ok: "ready \<noteq> []" "\<not> length ready > maxParallel"
      by (simp_all add: plan_waves.simps [of "done" ss] Let_def ready_def split: if_splits)
    have inj: "inj_on st_id (set ss)" using 1(3) by (simp add: distinct_map)
    have "mset (without_ids ready ss) = filter_mset (\<lambda>s. s \<notin> set ready) (mset ss)"
      unfolding without_ids_def mset_filter
    proof (rule filter_mset_cong [OF refl])
      fix s assume "s \<in># mset ss"
      then show "(\<not> list_ex (\<lambda>t. st_id t = st_id s) ready) = (s \<notin> set ready)"
        using inj ready_subset [of "done" ss] unfolding ready_def list_ex_iff
        by (metis inj_on_contraD set_mset_mset subset_eq)
    qed
    moreover have "mset ready = filter_mset (\<lambda>s. s \<in> set ready) (mset ss)"
    proof -
      have "mset ready = filter_mset (\<lambda>s. set (st_needs s) \<subseteq> ids done) (mset ss)"
        by (simp add: ready_def ready_steps_def ids_def list_all_iff list_ex_iff subset_iff image_iff)
          (metis (no_types, lifting))
      also have "\<dots> = filter_mset (\<lambda>s. s \<in> set ready) (mset ss)"
        by (rule filter_mset_cong) (auto simp: ready_def in_ready)
      finally show ?thesis .
    qed
    ultimately have split: "mset ready + mset (without_ids ready ss) = mset ss"
      by (metis multiset_partition)
    have "distinct (map st_id (without_ids ready ss))"
      using 1(3) by (simp add: without_ids_def distinct_map_filter)
    moreover have "needs_before (done @ ready)"
      using 1(4) by (rule needs_before_append) (simp add: ready_def in_ready)
    ultimately have "mset rs = mset (done @ ready) + mset (without_ids ready ss) \<and> needs_before rs"
      using 1(1) [OF False ready_def] ok rest by simp
    with split show ?thesis by (simp add: ac_simps)
  qed
qed

section \<open>The sort fails only on a cycle\<close>

definition blocked :: "step list \<Rightarrow> step set \<Rightarrow> bool" where
  \<comment> \<open>a non-empty set of the steps, each of which waits for another of the set\<close>
  "blocked ss C \<longleftrightarrow> C \<noteq> {} \<and> C \<subseteq> set ss \<and> (\<forall>s \<in> C. \<exists>t \<in> C. st_id t \<in> set (st_needs s))"

lemma distinct_without: "distinct (map st_id ss) \<Longrightarrow> distinct (map st_id (without_ids gone ss))"
  by (simp add: without_ids_def distinct_map_filter)

lemma plan_waves_blocked:
  "blocked ss C \<Longrightarrow> distinct (map st_id ss) \<Longrightarrow> st_id ` C \<inter> ids done = {} \<Longrightarrow> plan_waves done ss \<noteq> Inr rs"
proof (induction "done" ss rule: plan_waves.induct)
  case (1 "done" ss)
  define ready where "ready = ready_steps done ss"
  have "ss \<noteq> []" using 1(2) by (auto simp: blocked_def)
  have free: "c \<notin> set ready" if "c \<in> C" for c
    using 1(2,4) that by (fastforce simp: ready_def in_ready blocked_def)
  have "st_id c \<notin> ids ready" if "c \<in> C" for c
  proof
    assume "st_id c \<in> ids ready"
    then obtain r where r: "r \<in> set ready" "st_id r = st_id c" by (auto simp: ids_def)
    with that 1(2) ready_subset [of "done" ss] have "r \<in> set ss" "c \<in> set ss"
      by (auto simp: ready_def blocked_def)
    with 1(3) r(2) have "r = c" by (simp add: distinct_map inj_on_def)
    with free [OF that] r(1) show False by simp
  qed
  then have "blocked (without_ids ready ss) C" "st_id ` C \<inter> ids (done @ ready) = {}"
    using 1(2,4) by (auto simp: blocked_def in_without ids_def)
  with 1(1) [OF \<open>ss \<noteq> []\<close> ready_def] distinct_without [OF 1(3)] \<open>ss \<noteq> []\<close> show ?case
    by (auto simp: plan_waves.simps [of "done" ss] Let_def ready_def)
qed

lemma plan_waves_cyclic:
  "plan_waves done ss = Inl CyclicDependencies \<Longrightarrow> distinct (map st_id ss) \<Longrightarrow>
     (\<And>s. s \<in> set ss \<Longrightarrow> set (st_needs s) \<subseteq> ids done \<union> ids ss) \<Longrightarrow> \<exists>C. blocked ss C"
proof (induction "done" ss rule: plan_waves.induct)
  case (1 "done" ss)
  define ready where "ready = ready_steps done ss"
  have "ss \<noteq> []" using 1(2) by (auto simp: plan_waves.simps [of "done" ss])
  show ?case
  proof (cases "ready = []")
    case True
    have "\<exists>t \<in> set ss. st_id t \<in> set (st_needs s)" if s: "s \<in> set ss" for s
    proof -
      have "s \<notin> set ready" using True by simp
      with s have "\<not> set (st_needs s) \<subseteq> ids done" by (simp add: ready_def in_ready)
      with 1(4) [OF s] obtain n where "n \<in> set (st_needs s)" "n \<in> ids ss" by auto
      then show ?thesis by (auto simp: ids_def)
    qed
    with \<open>ss \<noteq> []\<close> have "blocked ss (set ss)" by (auto simp: blocked_def)
    then show ?thesis ..
  next
    case False
    with 1(2) \<open>ss \<noteq> []\<close> have "\<not> length ready > maxParallel"
      "plan_waves (done @ ready) (without_ids ready ss) = Inl CyclicDependencies"
      by (simp_all add: plan_waves.simps [of "done" ss] Let_def ready_def split: if_splits)
    moreover note distinct_without [OF 1(3), of ready]
    moreover have "set (st_needs s) \<subseteq> ids (done @ ready) \<union> ids (without_ids ready ss)"
      if "s \<in> set (without_ids ready ss)" for s
      using 1(4) [of s] that by (fastforce simp: in_without ids_def)
    ultimately obtain C where "blocked (without_ids ready ss) C"
      using 1(1) [OF \<open>ss \<noteq> []\<close> ready_def False] by blast
    then have "blocked ss C" by (auto simp: blocked_def in_without)
    then show ?thesis ..
  qed
qed

section \<open>Properties\<close>

definition witness_step :: "string \<Rightarrow> string list \<Rightarrow> step" where
  "witness_step i ns = \<lparr>st_id = i, st_uses = ''result.emit'', st_needs = ns, st_allow_skipped = False,
     st_with = VObj [], st_if = VUndef, st_approval = False, st_compensate = False\<rparr>"

text \<open>C35: The sort of a plan's steps always ends, and when it accepts, it returns the same steps, each
  after every step that it needs.
\<close>

theorem sort_steps_topological:
  assumes "distinct (map st_id ss)" "sort_steps ss = Inr rs"
  shows "mset rs = mset ss \<and> needs_before rs"
  using plan_waves_sound [of "[]" ss rs] assms by (simp add: sort_steps_def needs_before_def)

theorem sort_steps_topological_witness:
  "mset [witness_step ''a'' [], witness_step ''c'' [''a''], witness_step ''b'' [''c'', ''a'']] =
   mset [witness_step ''b'' [''c'', ''a''], witness_step ''a'' [], witness_step ''c'' [''a'']] \<and>
   needs_before [witness_step ''a'' [], witness_step ''c'' [''a''], witness_step ''b'' [''c'', ''a'']]"
  by (rule sort_steps_topological) code_simp+

text \<open>C36: A plan is rejected as cyclic only when some of its steps wait for each other, and such a plan
  is never accepted.
\<close>

theorem sort_steps_cyclic:
  assumes "distinct (map st_id ss)" "\<And>s. s \<in> set ss \<Longrightarrow> set (st_needs s) \<subseteq> ids ss"
  shows "(sort_steps ss = Inl CyclicDependencies \<longrightarrow> (\<exists>C. blocked ss C)) \<and>
    ((\<exists>C. blocked ss C) \<longrightarrow> \<not> (\<exists>rs. sort_steps ss = Inr rs))"
  using assms plan_waves_cyclic [of "[]" ss] plan_waves_blocked [of ss _ "[]"]
  by (auto simp: sort_steps_def ids_def)

theorem sort_steps_cyclic_witness:
  "sort_steps [witness_step ''a'' [''b''], witness_step ''b'' [''a'']] = Inl CyclicDependencies \<and>
   (\<exists>C. blocked [witness_step ''a'' [''b''], witness_step ''b'' [''a'']] C)"
proof -
  let ?ss = "[witness_step ''a'' [''b''], witness_step ''b'' [''a'']]"
  have "sort_steps ?ss = Inl CyclicDependencies" by code_simp
  moreover have "(sort_steps ?ss = Inl CyclicDependencies \<longrightarrow> (\<exists>C. blocked ?ss C)) \<and>
      ((\<exists>C. blocked ?ss C) \<longrightarrow> \<not> (\<exists>rs. sort_steps ?ss = Inr rs))"
    by (rule sort_steps_cyclic) (auto simp: witness_step_def ids_def)
  ultimately show ?thesis by blast
qed

end
