(* ===== verification/RunnerWorld.thy ===== *)
theory RunnerWorld
  imports Program PlanGraph
begin

text \<open>
  What the workflow runner (\<open>apps/workflow-mcp-worker/src/runner.ts\<close>) works on: the D1 tables that its
  statements read and write, the native checkpoints of the Cloudflare engine, the remote calls that it
  sends, and the requests and answers through which it does so.

  A statement is atomic. Any request may also throw, before or after its effect on the store, and the
  answer of a remote peer or of the engine is arbitrary. Handlers of other modules (GitHub tasks and
  sessions, Cloudflare actions, the admission of child runs) are requests whose answers are arbitrary.
  A JSON column is the value that it encodes.
\<close>

section \<open>Outcomes, plans and rows\<close>

datatype step_status = Succeeded | Failed | Skipped | Indeterminate

record step_outcome =
  oc_status :: step_status
  oc_output :: jsv  \<comment> \<open>undefined when absent\<close>
  oc_error :: "string option"

definition outcome_of :: "step_status \<Rightarrow> string \<Rightarrow> step_outcome" where
  \<comment> \<open>\<open>{status, error_code}\<close>\<close>
  "outcome_of s e = \<lparr>oc_status = s, oc_output = VUndef, oc_error = Some e\<rparr>"

definition succeeded_with :: "jsv \<Rightarrow> step_outcome" where
  "succeeded_with v = \<lparr>oc_status = Succeeded, oc_output = v, oc_error = None\<rparr>"

definition skipped :: step_outcome where
  "skipped = \<lparr>oc_status = Skipped, oc_output = VUndef, oc_error = None\<rparr>"

record plan =
  pl_steps :: "step list"
  pl_saga :: "string list option"  \<comment> \<open>\<open>saga.on\<close>\<close>
  pl_saga_approved :: bool
  pl_risks_accepted :: bool
  pl_write_approved :: bool
  pl_mcp_approvals :: "(jsv \<times> jsv \<times> jsv \<times> jsv) list"  \<comment> \<open>endpoint, tool, scope, schema digest\<close>
  pl_mcp_generation :: int  \<comment> \<open>\<open>mcp_connection_generation ?? 0\<close>\<close>
  pl_http_approvals :: "(string \<times> string) list"  \<comment> \<open>url, method\<close>
  pl_http_approved :: bool
  pl_http_generation :: "int option"  \<comment> \<open>absent or a safe integer\<close>
  pl_github_approved :: bool
  pl_child_approvals :: "(string \<times> string \<times> string) list"  \<comment> \<open>workflow, version, digest\<close>

datatype run_state = RQueued | RRunning | RSucceeded | RFailed | RCancelled | RIndeterminate

text \<open>A row of the table of runs without its bookkeeping columns \<open>updated_at\<close>, \<open>capacity_weight\<close>,
  \<open>created_at\<close> and \<open>native_complete_seen_at\<close>, which no statement of the runner reads. The column
  \<open>start_state\<close> belongs to the handlers that start and cancel instances (\<open>child-capacity.ts\<close>,
  \<open>child-cancel.ts\<close>, \<open>store.ts\<close>), which also write it in rows of runs that have ended.\<close>

record run_record =
  rr_version :: string
  rr_inputs :: jsv
  rr_state :: run_state
  rr_result :: "jsv option"
  rr_error :: "string option"
  rr_child :: bool  \<comment> \<open>\<open>parent_run_id IS NOT NULL\<close>\<close>
  rr_start_state :: string

text \<open>The status of a step row. Only the receipt of a compensation (\<open>saga.ts\<close>) is requested or uncleared.\<close>

datatype row_status = Waiting | Running | WaitingApproval | Requested | Uncleared | StepCancelled | Settled step_status

definition closed_row :: "row_status \<Rightarrow> bool" where
  \<comment> \<open>a step that has ended in some way\<close>
  "closed_row st \<longleftrightarrow> st \<notin> {Waiting, Running, WaitingApproval, Requested}"

record step_row =
  sw_status :: row_status
  sw_output :: jsv  \<comment> \<open>undefined for NULL\<close>
  sw_error :: "string option"

definition settled_row :: "step_outcome \<Rightarrow> step_row" where
  "settled_row oc = \<lparr>sw_status = Settled (oc_status oc), sw_output = oc_output oc, sw_error = oc_error oc\<rparr>"

record approval_row =
  ap_approved :: bool  \<comment> \<open>decision approved or denied\<close>
  ap_created :: int
  ap_consumed :: bool

datatype saved =  \<comment> \<open>the result of a native checkpoint\<close>
    SOutcome step_outcome
  | SBool bool
  | SValue jsv
  | SSelected "jsv option"  \<comment> \<open>\<open>{selected, args_json}\<close>\<close>
  | SItems "jsv list option"  \<comment> \<open>\<open>{valid, items}\<close>\<close>
  | SEntries "(string \<times> bool \<times> jsv) list option"
  | SInt int
  | SChild string  \<comment> \<open>a start state\<close>
  | SChildRow "(run_state \<times> jsv option) option"
  | SNothing

record store =
  db_runs :: "string \<Rightarrow> run_record option"
  db_plans :: "string \<Rightarrow> plan option"
  db_steps :: "string \<times> string \<Rightarrow> step_row option"
  db_fences :: "string \<times> string \<Rightarrow> int option"  \<comment> \<open>mcp_dispatch_fences: the generation\<close>
  db_portal :: "bool \<times> int"  \<comment> \<open>enabled, generation\<close>
  db_http :: "bool \<times> int"
  db_cancelled :: "string set"  \<comment> \<open>child_cancellations\<close>
  db_receipts :: "string \<times> string \<Rightarrow> (string \<times> string) option"  \<comment> \<open>event id, payload digest\<close>
  db_gates :: "string \<times> string \<Rightarrow> (string \<times> int) option"  \<comment> \<open>version, deadline\<close>
  db_approvals :: "string \<times> string \<times> string \<Rightarrow> approval_row option"
  db_checkpoints :: "string \<times> string \<Rightarrow> saved option"  \<comment> \<open>run, name\<close>
  sent_calls :: "(string \<times> string) list"  \<comment> \<open>run and step of each tools/call and fetch sent\<close>

section \<open>Requests and answers\<close>

datatype request =
    Turn  \<comment> \<open>which of two concurrent programs goes on\<close>
  | Now
  | DoStep string string  \<comment> \<open>\<open>step.do\<close>: run, name\<close>
  | SaveStep string string saved
  | SleepStep string string
  | WaitForEvent string string
  | ReadRun string
  | ReadPlan string
  | ReadState string
  | StartRun string
  | RejectStart string
  | FinishRun string run_state jsv "string option"
  | InterruptRun string
  | InsertStep string string bool step_row  \<comment> \<open>only while the run is running?\<close>
  | UpsertStep string string step_outcome bool  \<comment> \<open>also rows that wait for an approval?\<close>
  | ResumeStep string string
  | AskApproval string string
  | ReadStep string string
  | ReadReceipt string string
  | ReadCancellation string
  | OpenGate string string string int
  | ReadGate string string
  | ReadApproval string string string
  | ConsumeApproval string string string
  | ReservePortal string string int
  | ReserveHttp string string int
  | ReadFence string string
  | Connect string
  | ListTools string
  | CloseClient
  | CallTool string step jsv  \<comment> \<open>run, step, arguments\<close>
  | Fetch string step string string "jsv option"  \<comment> \<open>run, step, url, method, body\<close>
  | ReadBody
  | GithubTask string step
  | GithubSession string step
  | CloudflareAction string step
  | LitterboxReceipt string step
  | LitterboxFence string step
  | ReadPublished string string
  | AdmitChild bool string step string jsv  \<comment> \<open>detached, run, step, child run, inputs\<close>
  | StartChild bool string step string
  | ChildStatus string step string
  | RegisterRollback string step
  | WatchSessions string

record tool =
  tl_name :: string
  tl_readonly :: "bool option"
  tl_destructive :: "bool option"
  tl_input :: jsv
  tl_output :: jsv

datatype run_answer =
    Thrown string
  | Ok
  | Changes nat
  | First bool
  | Time int
  | Stored saved
  | Fresh
  | GotRun "(string \<times> jsv \<times> run_state) option"
  | GotPlan "plan option"
  | GotState "run_state option"
  | GotStep "step_row option"
  | GotReceipt "(string \<times> string) option"
  | GotGate "(string \<times> int) option"
  | GotApproval "approval_row option"
  | GotTools "tool list"
  | GotResult bool jsv  \<comment> \<open>isError, result\<close>
  | GotResponse nat bool  \<comment> \<open>status, has a body\<close>
  | GotChunks "string list"
  | GotEvent jsv
  | GotOutcome step_outcome
  | GotOptional "step_outcome option"
  | GotPublished "(string \<times> string \<times> string option) option"  \<comment> \<open>digest, state, active version\<close>
  | GotChild string
  | GotChildRow "(run_state \<times> jsv option) option"

section \<open>The statements\<close>

definition run_running :: "store \<Rightarrow> string \<Rightarrow> bool" where
  "run_running w r \<longleftrightarrow> (case db_runs w r of Some x \<Rightarrow> rr_state x = RRunning | None \<Rightarrow> False)"

definition set_run :: "string \<Rightarrow> (run_record \<Rightarrow> bool) \<Rightarrow> (run_record \<Rightarrow> run_record) \<Rightarrow> store \<Rightarrow> run_answer option \<times> store" where
  \<comment> \<open>\<open>UPDATE runs SET ... WHERE id=? AND ...\<close>\<close>
  "set_run r g f w =
    (case db_runs w r of
       Some x \<Rightarrow> if g x then (Some (Changes 1), w\<lparr>db_runs := (db_runs w)(r \<mapsto> f x)\<rparr>) else (Some (Changes 0), w)
     | None \<Rightarrow> (Some (Changes 0), w))"

definition put_step :: "string \<Rightarrow> string \<Rightarrow> step_row \<Rightarrow> store \<Rightarrow> run_answer option \<times> store" where
  "put_step r s row w = (Some (Changes 1), w\<lparr>db_steps := (db_steps w)((r, s) \<mapsto> row)\<rparr>)"

definition reserve :: "string \<Rightarrow> string \<Rightarrow> int \<Rightarrow> bool \<times> int \<Rightarrow> store \<Rightarrow> run_answer option \<times> store" where
  \<comment> \<open>\<open>INSERT INTO mcp_dispatch_fences ... WHERE EXISTS ... ON CONFLICT DO NOTHING\<close>\<close>
  "reserve r s g auth w =
    (if auth = (True, g) \<and> run_running w r \<and> db_fences w (r, s) = None
     then (Some (Changes 1), w\<lparr>db_fences := (db_fences w)((r, s) \<mapsto> g)\<rparr>)
     else (Some (Changes 0), w))"

definition send_call :: "string \<Rightarrow> string \<Rightarrow> store \<Rightarrow> store" where
  "send_call r s w = w\<lparr>sent_calls := sent_calls w @ [(r, s)]\<rparr>"

definition open_rows :: "bool \<Rightarrow> row_status set" where
  \<comment> \<open>\<open>WHERE run_steps.status IN (...)\<close>\<close>
  "open_rows gated = {Waiting, Running} \<union> (if gated then {WaitingApproval} else {})"

fun perform :: "request \<Rightarrow> store \<Rightarrow> run_answer option \<times> store" where
  \<comment> \<open>the answer, or none when any answer can come back\<close>
  "perform (DoStep r n) w = (case db_checkpoints w (r, n) of Some v \<Rightarrow> (Some (Stored v), w) | None \<Rightarrow> (Some Fresh, w))"
| "perform (SaveStep r n v) w = (Some Ok, w\<lparr>db_checkpoints := (db_checkpoints w)((r, n) \<mapsto> v)\<rparr>)"
| "perform (ReadRun r) w = (Some (GotRun (map_option (\<lambda>x. (rr_version x, rr_inputs x, rr_state x)) (db_runs w r))), w)"
| "perform (ReadPlan v) w = (Some (GotPlan (db_plans w v)), w)"
| "perform (ReadState r) w = (Some (GotState (map_option rr_state (db_runs w r))), w)"
| "perform (StartRun r) w = set_run r (\<lambda>x. rr_state x = RQueued \<and> r \<notin> db_cancelled w) (\<lambda>x. x\<lparr>rr_state := RRunning\<rparr>) w"
| "perform (RejectStart r) w =
    set_run r (\<lambda>x. rr_state x = RQueued \<and> rr_child x \<and> r \<in> db_cancelled w)
      (\<lambda>x. x\<lparr>rr_state := RFailed, rr_error := Some ''child_cancel_requested''\<rparr>) w"
| "perform (FinishRun r st res err) w =
    set_run r (\<lambda>x. rr_state x = RRunning) (\<lambda>x. x\<lparr>rr_state := st, rr_result := Some res, rr_error := err\<rparr>) w"
| "perform (InterruptRun r) w =
    set_run r (\<lambda>x. rr_state x = RRunning)
      (\<lambda>x. x\<lparr>rr_state := RIndeterminate, rr_error := Some ''execution_interrupted''\<rparr>) w"
| "perform (InsertStep r s guarded row) w =
    (if db_steps w (r, s) = None \<and> (guarded \<longrightarrow> run_running w r) then put_step r s row w else (Some (Changes 0), w))"
| "perform (UpsertStep r s oc gated) w =
    (case db_steps w (r, s) of
       None \<Rightarrow> put_step r s (settled_row oc) w
     | Some row \<Rightarrow> if sw_status row \<in> open_rows gated then put_step r s (settled_row oc) w else (Some (Changes 0), w))"
| "perform (ResumeStep r s) w =
    (case db_steps w (r, s) of
       Some row \<Rightarrow> if sw_status row = WaitingApproval then put_step r s (row\<lparr>sw_status := Running\<rparr>) w else (Some (Changes 0), w)
     | None \<Rightarrow> (Some (Changes 0), w))"
| "perform (AskApproval r s) w =
    (case db_steps w (r, s) of
       Some row \<Rightarrow>
         if sw_status row \<in> open_rows True then put_step r s (row\<lparr>sw_status := WaitingApproval\<rparr>) w
         else (Some (Changes 0), w)
     | None \<Rightarrow> put_step r s \<lparr>sw_status = WaitingApproval, sw_output = VUndef, sw_error = None\<rparr> w)"
| "perform (ReadStep r s) w = (Some (GotStep (db_steps w (r, s))), w)"
| "perform (ReadReceipt r s) w = (Some (GotReceipt (db_receipts w (r, s))), w)"
| "perform (ReadCancellation r) w = (Some (First (r \<in> db_cancelled w)), w)"
| "perform (OpenGate r s v d) w =
    (case db_gates w (r, s) of
       None \<Rightarrow> (Some (Changes 1), w\<lparr>db_gates := (db_gates w)((r, s) \<mapsto> (v, d))\<rparr>)
     | Some _ \<Rightarrow> (Some (Changes 0), w))"
| "perform (ReadGate r s) w = (Some (GotGate (db_gates w (r, s))), w)"
| "perform (ReadApproval r s v) w = (Some (GotApproval (db_approvals w (r, s, v))), w)"
| "perform (ConsumeApproval r s v) w =
    (case db_approvals w (r, s, v) of
       Some ap \<Rightarrow>
         if ap_approved ap \<and> \<not> ap_consumed ap
         then (Some (Changes 1), w\<lparr>db_approvals := (db_approvals w)((r, s, v) \<mapsto> ap\<lparr>ap_consumed := True\<rparr>)\<rparr>)
         else (Some (Changes 0), w)
     | None \<Rightarrow> (Some (Changes 0), w))"
| "perform (ReservePortal r s g) w = reserve r s g (db_portal w) w"
| "perform (ReserveHttp r s g) w = reserve r s g (db_http w) w"
| "perform (ReadFence r s) w = (Some (First (db_fences w (r, s) \<noteq> None)), w)"
| "perform (CallTool r s args) w = (None, send_call r (st_id s) w)"
| "perform (Fetch r s url method body) w = (None, send_call r (st_id s) w)"
| "perform _ w = (None, w)"

inductive answers :: "store \<Rightarrow> request \<Rightarrow> run_answer \<Rightarrow> store \<Rightarrow> bool" where
  answered: "perform q w = (Some a, w') \<Longrightarrow> answers w q a w'"
| external: "perform q w = (None, w') \<Longrightarrow> answers w q a w'"
| lost: "answers w q (Thrown m) w"
| ambiguous: "perform q w = (a, w') \<Longrightarrow> answers w q (Thrown m) w'"

section \<open>The other handlers of the service\<close>

definition changePortalAuthorization :: "bool \<Rightarrow> store \<Rightarrow> store" where
  \<comment> \<open>revoke or enable; only a revocation of an enabled connection advances the generation\<close>
  "changePortalAuthorization revoke w =
    (if revoke then (if fst (db_portal w) then w\<lparr>db_portal := (False, snd (db_portal w) + 1)\<rparr> else w)
     else (if fst (db_portal w) then w else w\<lparr>db_portal := (True, snd (db_portal w))\<rparr>))"

definition recordRuntimeApproval :: "string \<Rightarrow> string \<Rightarrow> string \<Rightarrow> bool \<Rightarrow> int \<Rightarrow> store \<Rightarrow> store" where
  "recordRuntimeApproval r s v approved now w =
    (if (case db_runs w r of Some x \<Rightarrow> rr_version x = v \<and> rr_state x = RRunning | None \<Rightarrow> False) \<and>
        (case db_steps w (r, s) of Some row \<Rightarrow> sw_status row = WaitingApproval | None \<Rightarrow> False) \<and>
        (case db_gates w (r, s) of Some (v', d) \<Rightarrow> v' = v \<and> d > now | None \<Rightarrow> False) \<and>
        db_approvals w (r, s, v) = None
     then w\<lparr>db_approvals := (db_approvals w)((r, s, v) \<mapsto> \<lparr>ap_approved = approved, ap_created = now, ap_consumed = False\<rparr>)\<rparr>
     else w)"

text \<open>
  What the other handlers may do to these tables between two statements of a run. A cancellation ends a
  queued or running run and gives it an error and a start state (\<open>store.ts\<close> 590, 637, 680, 704,
  \<open>child-cancel.ts\<close> 32, 70, 95; the observers of \<open>store.ts\<close> 1015 to 1037 and \<open>child-capacity.ts\<close> 195, 224,
  326, 337, 363 end a run the same way). The start state is written in any row, also in one that has ended
  (\<open>child-capacity.ts\<close> 204, \<open>store.ts\<close> 994). Step rows are inserted by \<open>litterbox-executor.ts\<close> 129 and
  \<open>saga.ts\<close> 36 and by the modules behind the requests with arbitrary answers, written while they wait or
  run, cancelled while they wait, run or wait for an approval (\<open>store.ts\<close> 600, 649, 716), and a requested
  compensation is confirmed (\<open>store.ts\<close> 1159).
\<close>

inductive others :: "store \<Rightarrow> store \<Rightarrow> bool" where
  portal: "others w (changePortalAuthorization revoke w)"
| decide: "others w (recordRuntimeApproval r s v approved now w)"
| admit: "db_runs w r = None \<Longrightarrow> rr_state x = RQueued \<Longrightarrow> others w (w\<lparr>db_runs := (db_runs w)(r \<mapsto> x)\<rparr>)"
| cancel: "db_runs w r = Some x \<Longrightarrow> rr_state x \<in> {RQueued, RRunning} \<Longrightarrow> st \<in> {RCancelled, RFailed, RIndeterminate} \<Longrightarrow>
    others w (w\<lparr>db_runs := (db_runs w)(r \<mapsto> x\<lparr>rr_state := st, rr_error := e, rr_start_state := start\<rparr>)\<rparr>)"
| start_state: "db_runs w r = Some x \<Longrightarrow> others w (w\<lparr>db_runs := (db_runs w)(r \<mapsto> x\<lparr>rr_start_state := start\<rparr>)\<rparr>)"
| cancel_child: "others w (w\<lparr>db_cancelled := insert r (db_cancelled w)\<rparr>)"
| publish: "db_plans w v = None \<Longrightarrow> others w (w\<lparr>db_plans := (db_plans w)(v \<mapsto> p)\<rparr>)"
| insert_step: "db_steps w k = None \<Longrightarrow> others w (w\<lparr>db_steps := (db_steps w)(k \<mapsto> row)\<rparr>)"
| settle: "db_steps w k = Some row \<Longrightarrow> sw_status row \<in> {Waiting, Running} \<Longrightarrow>
    others w (w\<lparr>db_steps := (db_steps w)(k \<mapsto> row')\<rparr>)"
| cancel_step: "db_steps w k = Some row \<Longrightarrow> sw_status row \<in> open_rows True \<Longrightarrow>
    others w (w\<lparr>db_steps := (db_steps w)(k \<mapsto> row\<lparr>sw_status := StepCancelled, sw_error := Some e\<rparr>)\<rparr>)"
| confirm: "db_steps w k = Some row \<Longrightarrow> sw_status row = Requested \<Longrightarrow>
    others w (w\<lparr>db_steps := (db_steps w)(k \<mapsto> row\<lparr>sw_status := Settled Succeeded\<rparr>)\<rparr>)"
| event: "db_receipts w k = None \<Longrightarrow> others w (w\<lparr>db_receipts := (db_receipts w)(k \<mapsto> e)\<rparr>)"
| http: "snd (db_http w) \<le> g \<Longrightarrow> others w (w\<lparr>db_http := (e, g)\<rparr>)"

end
