(* ===== verification/RunnerCalls.thy ===== *)
theory RunnerCalls
  imports RunnerWorld
begin

text \<open>
  The external calls of a run: the reviewed write contract (\<open>mcp-write-contract.ts\<close>), the one-shot
  reservation (\<open>portal-authorization.ts\<close>), \<open>callApprovedMcp\<close> (\<open>runner.ts\<close>) and \<open>callApprovedHttp\<close>
  (\<open>http-action.ts\<close>), as programs over the requests of \<open>RunnerWorld\<close>.
\<close>

type_synonym 'r run = "(request, run_answer, 'r) prog"

section \<open>The platform\<close>

record http_url =
  hu_protocol :: string
  hu_username :: string
  hu_password :: string
  hu_port :: string
  hu_search :: string
  hu_hash :: string
  hu_hostname :: string
  hu_pathname :: string
  hu_href :: string

record platform =
  pf_string :: "jsv \<Rightarrow> string"  \<comment> \<open>\<open>String(v)\<close> of a value that is not a string\<close>
  pf_object :: "string list \<Rightarrow> nat"  \<comment> \<open>which places of the context hold the same object\<close>
  pf_bytes :: "jsv \<Rightarrow> nat"  \<comment> \<open>length in bytes of the JSON text\<close>
  pf_sha :: "jsv \<Rightarrow> string"  \<comment> \<open>SHA-256 of the JSON text, in hex\<close>
  pf_portal :: "string option"  \<comment> \<open>\<open>WORKFLOW_MCP_PORTAL_ENDPOINT\<close>\<close>
  pf_credentials :: bool  \<comment> \<open>client id and secret are configured\<close>
  pf_url :: "string \<Rightarrow> http_url option"  \<comment> \<open>\<open>new URL\<close>\<close>
  pf_decode :: "string \<Rightarrow> string"  \<comment> \<open>\<open>TextDecoder.decode\<close>\<close>
  pf_child_id :: "string \<Rightarrow> string \<Rightarrow> string"  \<comment> \<open>\<open>awaitedChildRunId\<close>\<close>
  pf_number :: "jsv \<Rightarrow> jsnum"  \<comment> \<open>\<open>Number(v)\<close> of a value that is not a number\<close>
  pf_dynamic_task :: "step \<Rightarrow> bool"  \<comment> \<open>\<open>dynamicForeachTaskInputs\<close>\<close>
  pf_task_contract :: "plan \<Rightarrow> step \<Rightarrow> string option"  \<comment> \<open>what \<open>reviewedForeachTaskContract\<close> throws\<close>
  pf_task_inputs :: "plan \<Rightarrow> step \<Rightarrow> jsv \<Rightarrow> string + jsv"  \<comment> \<open>\<open>checkedFrozenTaskInputs\<close>\<close>
  pf_frozen_digest :: "jsv \<Rightarrow> string"  \<comment> \<open>\<open>frozenTaskInputDigest\<close>\<close>
  pf_retired :: "plan \<Rightarrow> bool"  \<comment> \<open>\<open>hasRetiredWeixinAction\<close>\<close>

definition rethrow :: "run_answer \<Rightarrow> 'r run" where
  "rethrow a = Fail (case a of Thrown m \<Rightarrow> m | _ \<Rightarrow> ''unexpected_answer'')"

definition ask_changes :: "request \<Rightarrow> nat run" where
  "ask_changes q = Ask q (\<lambda>a. case a of Changes n \<Rightarrow> Return n | _ \<Rightarrow> rethrow a)"

definition ask_first :: "request \<Rightarrow> bool run" where
  "ask_first q = Ask q (\<lambda>a. case a of First b \<Rightarrow> Return b | _ \<Rightarrow> rethrow a)"

definition ask_ok :: "request \<Rightarrow> unit run" where
  "ask_ok q = Ask q (\<lambda>a. case a of Thrown m \<Rightarrow> Fail m | _ \<Rightarrow> Return ())"

primrec finallyP :: "'r run \<Rightarrow> unit run \<Rightarrow> 'r run" where
  "finallyP (Return x) c = bindP c (\<lambda>_. Return x)"
| "finallyP (Fail m) c = bindP c (\<lambda>_. Fail m)"
| "finallyP (Ask q k) c = Ask q (\<lambda>a. finallyP (k a) c)"

definition MAX_RESULT :: nat where "MAX_RESULT = 48 * 1024"

definition limitResult :: "platform \<Rightarrow> jsv \<Rightarrow> jsv run" where
  "limitResult pf v = (if pf_bytes pf v > MAX_RESULT then Fail ''result_too_large'' else Return v)"

fun hasUnresolvedArgument :: "jsv \<Rightarrow> bool" where
  "hasUnresolvedArgument VUndef = True"
| "hasUnresolvedArgument (VArr xs) = list_ex hasUnresolvedArgument xs"
| "hasUnresolvedArgument (VObj kvs) = list_ex (\<lambda>kv. hasUnresolvedArgument (snd kv)) kvs"
| "hasUnresolvedArgument _ = False"

section \<open>Reviewed writes\<close>

definition REVIEWED_WRITE_TOOL :: string where "REVIEWED_WRITE_TOOL = ''ima_create_note''"

definition REVIEWED_APPEND_TOOL :: string where "REVIEWED_APPEND_TOOL = ''ima_append_note''"

definition MAX_NOTE_CONTENT_LENGTH :: nat where "MAX_NOTE_CONTENT_LENGTH = 2048"

definition NOTE_ID :: "string \<Rightarrow> bool" where
  "NOTE_ID s \<longleftrightarrow> list_all is_digit s \<and> 8 \<le> length s \<and> length s \<le> 24"

definition members_of :: "jsv \<Rightarrow> (string \<times> jsv) list" where
  "members_of v = (case v of VObj kvs \<Rightarrow> kvs | _ \<Rightarrow> [])"

definition sorted_keys :: "jsv \<Rightarrow> string list" where
  "sorted_keys v = sort (map fst (members_of v))"

definition reviewedWriteArguments :: "jsv \<Rightarrow> jsv \<Rightarrow> bool" where
  \<comment> \<open>an undefined tool takes the default of the parameter\<close>
  "reviewedWriteArguments v tname =
    (let t = (case tname of VUndef \<Rightarrow> Some REVIEWED_WRITE_TOOL | VStr s \<Rightarrow> Some s | _ \<Rightarrow> None) in
     is_object v \<and>
     (case member v ''content'' of
        VStr c \<Rightarrow> js_trim c \<noteq> [] \<and> length c \<le> MAX_NOTE_CONTENT_LENGTH \<and>
          (if t = Some REVIEWED_WRITE_TOOL then sorted_keys v = [''content'']
           else if t = Some REVIEWED_APPEND_TOOL
           then sorted_keys v = [''content'', ''note_id''] \<and>
             (case member v ''note_id'' of VStr n \<Rightarrow> NOTE_ID n | _ \<Rightarrow> False)
           else False)
      | _ \<Rightarrow> False))"

definition reviewedWriteTool :: "tool \<Rightarrow> bool" where
  "reviewedWriteTool c =
    (let props = member (tl_input c) ''properties''; req = member (tl_input c) ''required'' in
     tl_name c \<in> {REVIEWED_WRITE_TOOL, REVIEWED_APPEND_TOOL} \<and>
     tl_readonly c = Some False \<and> tl_destructive c = Some False \<and>
     member (tl_input c) ''type'' = VStr ''object'' \<and> is_object props \<and>
     member (member props ''content'') ''type'' = VStr ''string'' \<and>
     member (member props ''content'') ''minLength'' = VNum (Fin 1) \<and>
     (if tl_name c = REVIEWED_WRITE_TOOL
      then req = VArr [VStr ''content''] \<and>
        set (sorted_keys props) \<subseteq> {''content'', ''folder_id'', ''folder_name''} \<and>
        list_all (\<lambda>k. member props k = VUndef \<or> member (member props k) ''type'' = VStr ''string'')
          [''folder_id'', ''folder_name'']
      else req \<in> {VArr [VStr ''content'', VStr ''note_id''], VArr [VStr ''note_id'', VStr ''content'']} \<and>
        sorted_keys props = [''content'', ''note_id''] \<and>
        member (member props ''note_id'') ''type'' = VStr ''string''))"

definition toolSchemaDigest :: "platform \<Rightarrow> jsv \<Rightarrow> jsv \<Rightarrow> string + string" where
  "toolSchemaDigest pf inp out =
    (if \<not> is_object inp \<or> member inp ''type'' \<noteq> VStr ''object'' \<or>
        (out \<noteq> VUndef \<and> (\<not> is_object out \<or> member out ''type'' \<noteq> VStr ''object''))
     then Inl ''invalid_tool_schema''
     else case bindE (validateFiniteNumbers 0 inp) (\<lambda>_. if out = VUndef then Inr () else validateFiniteNumbers 0 out) of
       Inl e \<Rightarrow> Inl (fst e)
     | Inr _ \<Rightarrow>
         let serial = canonical (VObj [(''inputSchema'', inp), (''outputSchema'', if out = VUndef then VNull else out)]) in
         if pf_bytes pf serial > 8192 then Inl ''tool_schema_too_large'' else Inr (pf_sha pf serial))"

section \<open>The reservation\<close>

datatype reservation = Reserved | Revoked | AlreadyReserved

definition reservePortalCall :: "string \<Rightarrow> string \<Rightarrow> int \<Rightarrow> reservation run" where
  "reservePortalCall r s g =
    (if g < 0 \<or> g > MAX_SAFE_INTEGER then Fail ''portal_generation_invalid''
     else bindP (ask_changes (ReservePortal r s g)) (\<lambda>n.
       if n = 1 then Return Reserved
       else bindP (ask_first (ReadFence r s)) (\<lambda>present. Return (if present then AlreadyReserved else Revoked))))"

section \<open>tools/call\<close>

definition PRODUCTION_PORTAL_ENDPOINT :: string where
  "PRODUCTION_PORTAL_ENDPOINT = ''https://mcp.lirtual.dpdns.org/mcp''"

definition hex_digest :: "string \<Rightarrow> bool" where
  "hex_digest s \<longleftrightarrow> length s = 64 \<and> list_all (\<lambda>c. is_digit c \<or> CHR ''a'' \<le> c \<and> c \<le> CHR ''f'') s"

definition mcp_refusal :: "platform \<Rightarrow> plan \<Rightarrow> step \<Rightarrow> jsv \<Rightarrow> string option" where
  \<comment> \<open>the checks of \<open>callApprovedMcp\<close> before the first remote request\<close>
  "mcp_refusal pf p s args =
    (let endpoint = member (st_with s) ''endpoint''; tname = member (st_with s) ''tool'';
         digest = member (st_with s) ''schema_digest''; scope = member (st_with s) ''scope'';
         write = (scope = VStr ''write'')
     in if \<not> pl_risks_accepted p then Some ''target_risk_acknowledgment_required''
     else if scope \<noteq> VStr ''read'' \<and> \<not> write then Some ''external_approval_required''
     else if write \<and> (\<not> pl_write_approved p \<or>
         \<not> list_ex (\<lambda>x. st_id x = st_id s \<and> st_uses x = ''mcp.call'' \<and> member (st_with x) ''scope'' = VStr ''write'') (pl_steps p) \<or>
         \<not> reviewedWriteArguments args tname \<or> \<not> reviewedWriteArguments (member (st_with s) ''arguments'') tname)
       then Some ''mcp_write_approval_required''
     else if (endpoint, tname, scope, digest) \<notin> set (pl_mcp_approvals p) \<or>
         \<not> (case (endpoint, tname, digest) of (VStr _, VStr _, VStr d) \<Rightarrow> hex_digest d | _ \<Rightarrow> False)
       then Some ''external_approval_required''
     else case toolSchemaDigest pf (member (st_with s) ''input_schema'') (member (st_with s) ''output_schema'') of
         Inl e \<Rightarrow> Some e
       | Inr d \<Rightarrow>
           if VStr d \<noteq> digest then Some ''approved_schema_changed''
           else if pf_portal pf = None then Some ''portal_target_not_configured''
           else if pf_portal pf \<noteq> Some PRODUCTION_PORTAL_ENDPOINT \<or> endpoint \<noteq> VStr PRODUCTION_PORTAL_ENDPOINT
           then Some ''portal_target_not_authorized''
           else if \<not> pf_credentials pf then Some ''portal_auth_not_configured'' else None)"

definition tool_confirmed :: "bool \<Rightarrow> jsv \<Rightarrow> tool list \<Rightarrow> tool option" where
  "tool_confirmed write tname ts =
    (case [t \<leftarrow> ts. VStr (tl_name t) = tname] of
       [c] \<Rightarrow> if (if write then reviewedWriteTool c else tl_readonly c = Some True \<and> tl_destructive c \<noteq> Some True)
              then Some c else None
     | _ \<Rightarrow> None)"

definition call_tool :: "platform \<Rightarrow> string \<Rightarrow> step \<Rightarrow> jsv \<Rightarrow> jsv run" where
  \<comment> \<open>the request itself: whatever goes wrong after it is unknown\<close>
  "call_tool pf r s args =
    catchP (Ask (CallTool r s args) (\<lambda>a. case a of
        GotResult isError out \<Rightarrow> if isError then Fail ''remote_tool_failed'' else limitResult pf out
      | _ \<Rightarrow> rethrow a))
      (\<lambda>_. Fail ''external_outcome_unknown'')"

definition reserved_call :: "platform \<Rightarrow> plan \<Rightarrow> step \<Rightarrow> jsv \<Rightarrow> string \<Rightarrow> jsv run" where
  "reserved_call pf p s args r =
    bindP (reservePortalCall r (st_id s) (pl_mcp_generation p)) (\<lambda>v.
      if v = Reserved then call_tool pf r s args
      else if v = Revoked then Fail ''portal_connection_revoked''
      else Fail ''mcp_dispatch_already_reserved'')"

definition callApprovedMcp :: "platform \<Rightarrow> plan \<Rightarrow> step \<Rightarrow> jsv \<Rightarrow> string \<Rightarrow> jsv run" where
  "callApprovedMcp pf p s args r =
    (case mcp_refusal pf p s args of
       Some e \<Rightarrow> Fail e
     | None \<Rightarrow>
         let write = (member (st_with s) ''scope'' = VStr ''write'') in
         finallyP
           (bindP (ask_ok (Connect r)) (\<lambda>_.
            Ask (ListTools r) (\<lambda>a. case a of
              GotTools ts \<Rightarrow>
                (case tool_confirmed write (member (st_with s) ''tool'') ts of
                   None \<Rightarrow> Fail (if write then ''write_tool_unconfirmed'' else ''readonly_tool_unconfirmed'')
                 | Some c \<Rightarrow>
                     (case toolSchemaDigest pf (tl_input c) (tl_output c) of
                        Inl e \<Rightarrow> Fail e
                      | Inr d \<Rightarrow>
                          if VStr d \<noteq> member (st_with s) ''schema_digest'' then Fail ''tool_schema_drift''
                          else reserved_call pf p s args r))
            | _ \<Rightarrow> rethrow a)))
           (Ask CloseClient (\<lambda>_. Return ())))"

section \<open>HTTP requests\<close>

definition alnum_char :: "char \<Rightarrow> bool" where
  "alnum_char c \<longleftrightarrow> is_upper c \<or> is_lower c \<or> is_digit c"

definition label_ok :: "string \<Rightarrow> bool" where
  "label_ok l \<longleftrightarrow> l \<noteq> [] \<and> length l \<le> 63 \<and> alnum_char (hd l) \<and> alnum_char (last l) \<and> list_all (\<lambda>c. alnum_char c \<or> c = CHR ''-'') l"

definition hostname_ok :: "string \<Rightarrow> bool" where
  "hostname_ok h \<longleftrightarrow>
    (let ls = split_char (CHR ''.'') h in
     length ls \<ge> 2 \<and> list_all label_ok (butlast ls) \<and>
     2 \<le> length (last ls) \<and> length (last ls) \<le> 63 \<and> list_all (\<lambda>c. alnum_char c \<or> c = CHR ''-'') (last ls))"

definition forbiddenHost :: "string \<Rightarrow> bool" where
  "forbiddenHost h \<longleftrightarrow>
    map to_lower (last (split_char (CHR ''.'') h)) \<in>
      {''localhost'', ''localdomain'', ''local'', ''internal'', ''lan'', ''corp'', ''home'', ''test'', ''invalid'', ''onion''}"

definition all_numeric :: "string \<Rightarrow> bool" where
  "all_numeric h \<longleftrightarrow> list_all (\<lambda>l. l \<noteq> [] \<and> list_all is_digit l) (split_char (CHR ''.'') h)"

fun has_dots :: "string \<Rightarrow> bool" where
  "has_dots (a # b # cs) = (a = CHR ''.'' \<and> b = CHR ''.'' \<or> has_dots (b # cs))"
| "has_dots _ = False"

definition approvedHttpTarget :: "platform \<Rightarrow> jsv \<Rightarrow> http_url option" where
  "approvedHttpTarget pf raw =
    (case raw of
       VStr s \<Rightarrow>
         if length s > 1024 \<or> \<not> list_all (\<lambda>c. 33 \<le> code c \<and> code c \<le> 126) s then None
         else (case pf_url pf s of
             None \<Rightarrow> None
           | Some u \<Rightarrow>
               if hu_protocol u \<noteq> ''https:'' \<or> hu_username u \<noteq> [] \<or> hu_password u \<noteq> [] \<or> hu_port u \<noteq> [] \<or>
                  hu_search u \<noteq> [] \<or> hu_hash u \<noteq> [] \<or> \<not> hostname_ok (hu_hostname u) \<or> forbiddenHost (hu_hostname u) \<or>
                  all_numeric (hu_hostname u) \<or> (hu_hostname u \<noteq> [] \<and> last (hu_hostname u) = CHR ''.'') \<or>
                  has_dots (hu_hostname u) \<or> CHR ''%'' \<in> set (hu_hostname u) \<or> CHR ''%'' \<in> set (hu_pathname u) \<or>
                  hu_href u \<noteq> s
               then None else Some u)
     | _ \<Rightarrow> None)"

definition httpOperation :: "platform \<Rightarrow> jsv \<Rightarrow> (string \<times> string) option" where
  "httpOperation pf withData =
    (case approvedHttpTarget pf (member withData ''url'') of
       None \<Rightarrow> None
     | Some u \<Rightarrow>
         (case member withData ''method'' of
            VStr m \<Rightarrow> if m \<in> {''GET'', ''HEAD'', ''POST''} then Some (hu_href u, m) else None
          | _ \<Rightarrow> None))"

datatype http_failure = HttpDispatchError string bool  \<comment> \<open>code, uncertain\<close>

definition HTTP_MAX_RESPONSE :: nat where "HTTP_MAX_RESPONSE = 8192"

fun read_body :: "nat \<Rightarrow> string list \<Rightarrow> string \<times> bool" where
  "read_body size_so_far [] = ([], False)"
| "read_body size_so_far (c # cs) =
    (if size_so_far + length c > HTTP_MAX_RESPONSE then (take (HTTP_MAX_RESPONSE - size_so_far) c, True)
     else (let (rest, truncated) = read_body (size_so_far + length c) cs in (c @ rest, truncated)))"

definition response_value :: "nat \<Rightarrow> string \<Rightarrow> bool \<Rightarrow> jsv" where
  "response_value status body truncated =
    VObj [(''status'', VNum (Fin (of_nat status))), (''ok'', VBool (200 \<le> status \<and> status \<le> 299)),
      (''body'', VStr body), (''truncated'', VBool truncated)]"

definition send_http :: "platform \<Rightarrow> string \<Rightarrow> step \<Rightarrow> string \<Rightarrow> string \<Rightarrow> jsv option \<Rightarrow> (http_failure + jsv) run" where
  "send_http pf r s url method body =
    catchP (Ask (Fetch r s url method body) (\<lambda>a. case a of
        GotResponse status has_body \<Rightarrow>
          if 300 \<le> status \<and> status < 400 then Return (Inl (HttpDispatchError ''http_redirect_rejected'' (method = ''POST'')))
          else if \<not> has_body then Return (Inr (response_value status [] False))
          else Ask ReadBody (\<lambda>b. case b of
              GotChunks cs \<Rightarrow>
                let (bytes, truncated) = read_body 0 cs in
                Return (Inr (response_value status (if method = ''HEAD'' then [] else pf_decode pf bytes) truncated))
            | _ \<Rightarrow> rethrow b)
      | _ \<Rightarrow> rethrow a))
      (\<lambda>_. Return (Inl (HttpDispatchError ''http_outcome_unknown'' True)))"

definition reserved_fetch :: "platform \<Rightarrow> step \<Rightarrow> string \<Rightarrow> int \<Rightarrow> string \<Rightarrow> string \<Rightarrow> jsv option \<Rightarrow> (http_failure + jsv) run" where
  "reserved_fetch pf s r g url method body =
    bindP (ask_changes (ReserveHttp r (st_id s) g)) (\<lambda>n.
      if n \<noteq> 1
      then bindP (ask_first (ReadFence r (st_id s))) (\<lambda>prior.
        Return (Inl (HttpDispatchError
          (if prior then ''http_dispatch_unconfirmed'' else ''http_dispatch_not_authorized'') prior)))
      else send_http pf r s url method body)"

definition callApprovedHttp :: "platform \<Rightarrow> plan \<Rightarrow> step \<Rightarrow> string \<Rightarrow> jsv \<Rightarrow> (http_failure + jsv) run" where
  "callApprovedHttp pf p s r evaluatedBody =
    (case httpOperation pf (st_with s) of
       None \<Rightarrow> Return (Inl (HttpDispatchError ''http_invalid_target'' False))
     | Some (url, method) \<Rightarrow>
         let hasBody = (own_property ''body'' (st_with s) \<noteq> None) in
         if (url, method) \<notin> set (pl_http_approvals p) \<or> \<not> pl_http_approved p
         then Return (Inl (HttpDispatchError ''http_approval_missing'' False))
         else if method \<in> {''GET'', ''HEAD''} \<and> hasBody
         then Return (Inl (HttpDispatchError ''http_invalid_body'' False))
         else if hasBody \<and> (evaluatedBody = VUndef \<or> pf_bytes pf evaluatedBody > 4096)
         then Return (Inl (HttpDispatchError ''http_invalid_body'' False))
         else (case pl_http_generation p of
             None \<Rightarrow> Return (Inl (HttpDispatchError ''http_authorization_unavailable'' False))
           | Some g \<Rightarrow>
               if g < 0 then Return (Inl (HttpDispatchError ''http_authorization_unavailable'' False))
               else reserved_fetch pf s r g url method (if hasBody then Some evaluatedBody else None)))"

end
