(* ===== verification/RunnerSteps.thy ===== *)
theory RunnerSteps
  imports RunnerCalls
begin

text \<open>
  The kinds of step that the runner executes (\<open>runner.ts\<close>, \<open>runtime-approval.ts\<close>), each a program
  that ends with the outcome of the step: waits, event waits, child runs, bounded loops, foreach in its
  two forms, and the approval gate.
\<close>

section \<open>Common pieces\<close>

type_synonym completed = "(string \<times> step_outcome) list"

record run_ctx =
  rc_inputs :: jsv
  rc_done :: completed

definition dependenciesPermitRun :: "step \<Rightarrow> completed \<Rightarrow> bool" where
  "dependenciesPermitRun s done =
    (let states = map (\<lambda>n. map_option oc_status (map_of done n)) (st_needs s) in
     if \<not> st_allow_skipped s then list_all (\<lambda>x. x = Some Succeeded) states
     else list_ex (\<lambda>x. x = Some Succeeded) states \<and> list_all (\<lambda>x. x \<in> {Some Succeeded, Some Skipped}) states)"

definition status_text :: "step_status \<Rightarrow> string" where
  "status_text st = (case st of Succeeded \<Rightarrow> ''succeeded'' | Failed \<Rightarrow> ''failed'' | Skipped \<Rightarrow> ''skipped''
     | Indeterminate \<Rightarrow> ''indeterminate'')"

definition outcome_value :: "step_outcome \<Rightarrow> jsv" where
  "outcome_value oc = VObj ([(''status'', VStr (status_text (oc_status oc)))] @
     (if oc_output oc = VUndef then [] else [(''output'', oc_output oc)]) @
     (case oc_error oc of None \<Rightarrow> [] | Some e \<Rightarrow> [(''error_code'', VStr e)]))"

definition steps_value :: "completed \<Rightarrow> jsv" where
  "steps_value done = VObj (map (\<lambda>(n, oc). (n, outcome_value oc)) done)"

definition item_value :: "jsv \<Rightarrow> nat \<Rightarrow> jsv" where
  "item_value v i = VObj [(''value'', v), (''index'', VNum (Fin (of_nat i)))]"

definition context_of :: "platform \<Rightarrow> run_ctx \<Rightarrow> jsv \<Rightarrow> eval_ctx" where
  "context_of pf c item = \<lparr>cx_inputs = rc_inputs c, cx_steps = steps_value (rc_done c), cx_item = item, cx_object = pf_object pf\<rparr>"

definition error_text :: "eval_error \<Rightarrow> string" where
  "error_text e = (case e of TypeError \<Rightarrow> ''TypeError'' | NonBoolean \<Rightarrow> ''non_boolean_condition'')"

definition evaluateArguments :: "platform \<Rightarrow> run_ctx \<Rightarrow> jsv \<Rightarrow> jsv \<Rightarrow> jsv run" where
  "evaluateArguments pf c item v =
    (case evaluateExpression (pf_string pf) (context_of pf c item) v of
       Inl e \<Rightarrow> Fail (error_text e) | Inr w \<Rightarrow> Return (fst w))"

definition condition :: "platform \<Rightarrow> run_ctx \<Rightarrow> jsv \<Rightarrow> jsv \<Rightarrow> bool run" where
  \<comment> \<open>\<open>if === undefined || evaluateCondition(if, ctx)\<close>\<close>
  "condition pf c item v =
    (if v = VUndef then Return True
     else case evaluateCondition (pf_string pf) (context_of pf c item) v of
       Inl e \<Rightarrow> Fail (error_text e) | Inr b \<Rightarrow> Return b)"

definition step_do :: "string \<Rightarrow> string \<Rightarrow> ('r \<Rightarrow> saved) \<Rightarrow> (saved \<Rightarrow> 'r option) \<Rightarrow> 'r run \<Rightarrow> 'r run" where
  "step_do r name enc dec body =
    Ask (DoStep r name) (\<lambda>a. case a of
      Stored v \<Rightarrow> (case dec v of Some x \<Rightarrow> Return x | None \<Rightarrow> Fail ''unexpected_checkpoint'')
    | Fresh \<Rightarrow> bindP body (\<lambda>x. Ask (SaveStep r name (enc x)) (\<lambda>b. case b of Ok \<Rightarrow> Return x | _ \<Rightarrow> rethrow b))
    | _ \<Rightarrow> rethrow a)"

definition do_outcome :: "string \<Rightarrow> string \<Rightarrow> step_outcome run \<Rightarrow> step_outcome run" where
  "do_outcome r name body = step_do r name SOutcome (\<lambda>v. case v of SOutcome oc \<Rightarrow> Some oc | _ \<Rightarrow> None) body"

definition do_bool :: "string \<Rightarrow> string \<Rightarrow> bool run \<Rightarrow> bool run" where
  "do_bool r name body = step_do r name SBool (\<lambda>v. case v of SBool b \<Rightarrow> Some b | _ \<Rightarrow> None) body"

definition do_value :: "string \<Rightarrow> string \<Rightarrow> jsv run \<Rightarrow> jsv run" where
  "do_value r name body = step_do r name SValue (\<lambda>v. case v of SValue x \<Rightarrow> Some x | _ \<Rightarrow> None) body"

definition try_run :: "'x run \<Rightarrow> (string \<Rightarrow> 'r run) \<Rightarrow> ('x \<Rightarrow> 'r run) \<Rightarrow> 'r run" where
  \<comment> \<open>a statement inside \<open>try\<close>: on a throw the handler runs instead of the rest\<close>
  "try_run p h k =
    bindP (catchP (mapP Inr p) (\<lambda>m. Return (Inl m))) (\<lambda>x. case x of Inl m \<Rightarrow> h m | Inr y \<Rightarrow> k y)"

definition started_row :: "row_status \<Rightarrow> step_row" where
  "started_row st = \<lparr>sw_status = st, sw_output = VUndef, sw_error = None\<rparr>"

definition safe_nat :: "jsv \<Rightarrow> nat option" where
  \<comment> \<open>a positive safe integer\<close>
  "safe_nat v =
    (case v of
       VNum (Fin q) \<Rightarrow>
         (case quotient_of q of (n, d) \<Rightarrow> if d = 1 \<and> 1 \<le> n \<and> n \<le> MAX_SAFE_INTEGER then Some (nat n) else None)
     | _ \<Rightarrow> None)"

definition to_number :: "platform \<Rightarrow> jsv \<Rightarrow> jsv" where
  "to_number pf v = (case v of VNum n \<Rightarrow> v | _ \<Rightarrow> VNum (pf_number pf v))"

definition truthy :: "jsv \<Rightarrow> bool" where
  "truthy v = (case v of VUndef \<Rightarrow> False | VNull \<Rightarrow> False | VBool b \<Rightarrow> b | VNum n \<Rightarrow> n \<noteq> NaN \<and> n \<noteq> Fin 0 | VStr s \<Rightarrow> s \<noteq> [] | _ \<Rightarrow> True)"

fun json_copy :: "jsv \<Rightarrow> jsv" where
  \<comment> \<open>\<open>JSON.parse(JSON.stringify(v))\<close> of a value without undefined\<close>
  "json_copy (VNum n) = (case n of Fin q \<Rightarrow> VNum n | _ \<Rightarrow> VNull)"
| "json_copy (VArr xs) = VArr (map json_copy xs)"
| "json_copy (VObj kvs) = VObj (map (\<lambda>(k, x). (k, json_copy x)) kvs)"
| "json_copy v = v"

definition null_if_undefined :: "jsv \<Rightarrow> jsv" where
  "null_if_undefined v = (if v = VUndef then VNull else v)"

definition str :: "jsv \<Rightarrow> string" where
  "str v = (case v of VStr s \<Rightarrow> s | _ \<Rightarrow> [])"

definition child_step :: "string \<Rightarrow> string \<Rightarrow> step \<Rightarrow> jsv \<Rightarrow> step" where
  \<comment> \<open>\<open>{id, uses, needs: s.needs, with}\<close>\<close>
  "child_step i u s w = \<lparr>st_id = i, st_uses = u, st_needs = st_needs s, st_allow_skipped = False, st_with = w,
     st_if = VUndef, st_approval = False, st_compensate = False\<rparr>"

definition mcp_failure :: "string \<Rightarrow> step_outcome" where
  "mcp_failure m =
    (if m = ''portal_connection_revoked'' then outcome_of Failed ''portal_connection_revoked''
     else if m \<in> {''external_outcome_unknown'', ''mcp_dispatch_already_reserved''}
     then outcome_of Indeterminate ''external_outcome_unknown''
     else outcome_of Failed ''step_execution_failed'')"

definition fenced_call :: "platform \<Rightarrow> plan \<Rightarrow> string \<Rightarrow> step \<Rightarrow> jsv \<Rightarrow> string \<Rightarrow> step_outcome run" where
  \<comment> \<open>a call of a generated child: its row in run_steps is written before the call\<close>
  "fenced_call pf p r child args unconfirmed =
    bindP (ask_changes (InsertStep r (st_id child) True (started_row Running))) (\<lambda>n.
      if n \<noteq> 1 then Return (outcome_of Indeterminate unconfirmed)
      else catchP (bindP (callApprovedMcp pf p child args r) (\<lambda>out. Return (succeeded_with out)))
        (\<lambda>m. Return (mcp_failure m)))"

section \<open>Waits\<close>

definition runDurableWait :: "platform \<Rightarrow> step \<Rightarrow> string \<Rightarrow> completed \<Rightarrow> step_outcome run" where
  "runDurableWait pf s r done =
    (if \<not> dependenciesPermitRun s done then Return skipped
     else case safe_nat (to_number pf (member (st_with s) ''duration_seconds'')) of
       None \<Rightarrow> Return (outcome_of Failed ''invalid_wait_duration'')
     | Some d \<Rightarrow>
         if d > 300 then Return (outcome_of Failed ''invalid_wait_duration'')
         else catchP
           (bindP (ask_changes (InsertStep r (st_id s) True (started_row Waiting))) (\<lambda>_.
            Ask (ReadStep r (st_id s)) (\<lambda>a. case a of
              GotStep row \<Rightarrow>
                if map_option sw_status row = Some (Settled Succeeded) then Return (succeeded_with VNull)
                else if map_option sw_status row \<noteq> Some Waiting
                then Return (outcome_of Indeterminate ''wait_admission_unconfirmed'')
                else bindP (ask_ok (SleepStep r (''workflow-'' @ st_id s @ ''-wait''))) (\<lambda>_.
                  Ask (ReadState r) (\<lambda>b. case b of
                    GotState st \<Rightarrow>
                      if st \<noteq> Some RRunning then Return (outcome_of Indeterminate ''wait_owner_not_active'')
                      else Return (succeeded_with VNull)
                  | _ \<Rightarrow> rethrow b))
            | _ \<Rightarrow> rethrow a)))
           (\<lambda>_. Return (outcome_of Indeterminate ''wait_resume_unconfirmed'')))"

fun text_in :: "string \<Rightarrow> string \<Rightarrow> bool" where
  "text_in t [] = (t = [])"
| "text_in t (c # cs) = (take (length t) (c # cs) = t \<or> text_in t cs)"

fun timed_out_at :: "string \<Rightarrow> bool" where
  \<comment> \<open>\<open>timed?\s*out\<close> at the start of the text\<close>
  "timed_out_at cs =
    (take 4 cs = ''time'' \<and>
      (let rest = drop 4 cs in
       take 3 (dropWhile is_ws rest) = ''out'' \<or> (hd_is (CHR ''d'') rest \<and> take 3 (dropWhile is_ws (tl rest)) = ''out'')))"

fun somewhere :: "(string \<Rightarrow> bool) \<Rightarrow> string \<Rightarrow> bool" where
  "somewhere f [] = f []"
| "somewhere f (c # cs) = (f (c # cs) \<or> somewhere f cs)"

definition timeout_message :: "string \<Rightarrow> bool" where
  "timeout_message m \<longleftrightarrow> (let l = map to_lower m in somewhere timed_out_at l \<or> text_in ''timeout'' l)"

definition payloadDigest :: "platform \<Rightarrow> jsv \<Rightarrow> string" where
  "payloadDigest pf v = pf_sha pf (canonical v)"

definition runWaitForEvent :: "platform \<Rightarrow> step \<Rightarrow> string \<Rightarrow> completed \<Rightarrow> step_outcome run" where
  "runWaitForEvent pf s r done =
    (if \<not> dependenciesPermitRun s done then Return skipped
     else case safe_nat (to_number pf (member (st_with s) ''timeout_seconds'')) of
       None \<Rightarrow> Return (outcome_of Failed ''invalid_event_wait_timeout'')
     | Some d \<Rightarrow>
         if d > 3600 then Return (outcome_of Failed ''invalid_event_wait_timeout'')
         else catchP
           (bindP (ask_changes (InsertStep r (st_id s) True (started_row Waiting))) (\<lambda>_.
            Ask (ReadStep r (st_id s)) (\<lambda>a. case a of
              GotStep row \<Rightarrow>
                if map_option sw_status row = Some (Settled Succeeded)
                then Return (succeeded_with (null_if_undefined (sw_output (the row))))
                else if map_option sw_status row \<noteq> Some Waiting
                then Return (outcome_of Indeterminate ''event_wait_admission_unconfirmed'')
                else if \<not> SAFE_ID (st_id s) then Fail ''invalid_event_step''
                else Ask (WaitForEvent r (''workflow-'' @ st_id s @ ''-event'')) (\<lambda>b. case b of
                  GotEvent payload \<Rightarrow>
                    Ask (ReadReceipt r (st_id s)) (\<lambda>c. case c of
                      GotReceipt receipt \<Rightarrow>
                        Ask (ReadState r) (\<lambda>d. case d of
                          GotState st \<Rightarrow>
                            if st \<noteq> Some RRunning then Return (outcome_of Indeterminate ''event_wait_owner_not_active'')
                            else (case receipt of
                                Some (event_id, digest) \<Rightarrow>
                                  if member payload ''event_id'' = VStr event_id \<and> is_object (member payload ''data'') \<and>
                                    payloadDigest pf (member payload ''data'') = digest
                                  then bindP (limitResult pf (member payload ''data'')) (\<lambda>v. Return (succeeded_with v))
                                  else Return (outcome_of Indeterminate ''event_wait_receipt_mismatch'')
                              | None \<Rightarrow> Return (outcome_of Indeterminate ''event_wait_receipt_mismatch''))
                        | _ \<Rightarrow> rethrow d)
                    | _ \<Rightarrow> rethrow c)
                | _ \<Rightarrow> rethrow b)
            | _ \<Rightarrow> rethrow a)))
           (\<lambda>m. Return (if timeout_message m then outcome_of Failed ''event_wait_timeout''
             else outcome_of Indeterminate ''event_wait_unconfirmed'')))"

definition awaitLitterboxFileReceipt :: "step \<Rightarrow> string \<Rightarrow> step_outcome run" where
  "awaitLitterboxFileReceipt s r =
    catchP
      (bindP (ask_changes (InsertStep r (st_id s) True (started_row Waiting))) (\<lambda>_.
       Ask (LitterboxReceipt r s) (\<lambda>a. case a of
         GotOptional (Some oc) \<Rightarrow> Return oc
       | GotOptional None \<Rightarrow>
           Ask (WaitForEvent r (''workflow-'' @ st_id s @ ''-litterbox'')) (\<lambda>_.
           Ask (LitterboxReceipt r s) (\<lambda>b. case b of
             GotOptional (Some oc) \<Rightarrow> Return oc
           | GotOptional None \<Rightarrow>
               bindP (ask_first (LitterboxFence r s)) (\<lambda>fenced.
                 Return (if fenced then outcome_of Indeterminate ''litterbox_receipt_unconfirmed''
                   else outcome_of Failed ''litterbox_file_not_submitted''))
           | _ \<Rightarrow> rethrow b))
       | _ \<Rightarrow> rethrow a)))
      (\<lambda>_. Return (outcome_of Indeterminate ''litterbox_wait_unknown''))"

end
