(* ===== verification/RunnerFlows.thy ===== *)
theory RunnerFlows
  imports RunnerSteps
begin

text \<open>
  The steps that expand while a run executes (\<open>runner.ts\<close>): bounded loops, foreach with one template
  and with several, awaited and detached child runs; and the approval gate (\<open>runtime-approval.ts\<close>).
\<close>

section \<open>The approval gate\<close>

definition APPROVAL_WAKE_LIMIT :: nat where "APPROVAL_WAKE_LIMIT = 20"

definition APPROVAL_WAIT_MS :: int where "APPROVAL_WAIT_MS = 20 * 30000"

definition inTime :: "approval_row option \<Rightarrow> int \<Rightarrow> bool" where
  "inTime row deadline = (case row of Some ap \<Rightarrow> ap_created ap < deadline | None \<Rightarrow> False)"

definition run_cancelled :: "string \<Rightarrow> bool run" where
  "run_cancelled r = Ask (ReadState r) (\<lambda>a. case a of GotState st \<Rightarrow> Return (st \<noteq> Some RRunning) | _ \<Rightarrow> rethrow a)"

definition readRuntimeApproval :: "string \<Rightarrow> string \<Rightarrow> string \<Rightarrow> approval_row option run" where
  "readRuntimeApproval r s v = Ask (ReadApproval r s v) (\<lambda>a. case a of GotApproval row \<Rightarrow> Return row | _ \<Rightarrow> rethrow a)"

definition ask_time :: "int run" where
  "ask_time = Ask Now (\<lambda>a. case a of Time t \<Rightarrow> Return t | _ \<Rightarrow> rethrow a)"

definition openGate :: "string \<Rightarrow> string \<Rightarrow> string \<Rightarrow> int \<Rightarrow> int run" where
  "openGate r s v now =
    bindP (ask_changes (OpenGate r s v (now + APPROVAL_WAIT_MS))) (\<lambda>_.
    Ask (ReadGate r s) (\<lambda>a. case a of
      GotGate (Some (v', d)) \<Rightarrow> if v' = v then Return d else Fail ''approval_binding_mismatch''
    | GotGate None \<Rightarrow> Fail ''approval_binding_mismatch''
    | _ \<Rightarrow> rethrow a))"

fun approval_wakes :: "string \<Rightarrow> string \<Rightarrow> string \<Rightarrow> int \<Rightarrow> nat \<Rightarrow> nat \<Rightarrow> approval_row option \<Rightarrow> (bool \<times> approval_row option) run" where
  \<comment> \<open>wakes left, index, decision so far; stopped because the run is not active?\<close>
  "approval_wakes r s v deadline 0 i decision = Return (False, decision)"
| "approval_wakes r s v deadline (Suc k) i decision =
    (if inTime decision deadline then Return (False, decision)
     else bindP ask_time (\<lambda>t.
       if t \<ge> deadline then Return (False, decision)
       else bindP (run_cancelled r) (\<lambda>c.
         if c then Return (True, decision)
         else Ask (WaitForEvent r (''approval-'' @ s @ ''-'' @ nat_str i)) (\<lambda>_.
           bindP (readRuntimeApproval r s v) (\<lambda>row. approval_wakes r s v deadline k (Suc i) row)))))"

definition approval_verdict :: "string \<Rightarrow> string \<Rightarrow> string \<Rightarrow> int \<Rightarrow> approval_row option \<Rightarrow> string option run" where
  "approval_verdict r s v deadline decision =
    bindP (run_cancelled r) (\<lambda>c.
      if c then Return (Some ''approval_run_not_active'')
      else if inTime decision deadline \<and> \<not> ap_approved (the decision) then Return (Some ''approval_denied'')
      else if \<not> inTime decision deadline then Return (Some ''approval_timeout'')
      else bindP (run_cancelled r) (\<lambda>c.
        if c then Return (Some ''approval_run_not_active'')
        else bindP (ask_changes (ConsumeApproval r s v)) (\<lambda>_. Return None)))"

definition waitForRuntimeApproval :: "string \<Rightarrow> string \<Rightarrow> string \<Rightarrow> string option run" where
  \<comment> \<open>none when approved, or the error code\<close>
  "waitForRuntimeApproval r s v =
    bindP (step_do r (''approval-open-'' @ s) SInt (\<lambda>x. case x of SInt d \<Rightarrow> Some d | _ \<Rightarrow> None)
      (bindP (ask_changes (AskApproval r s)) (\<lambda>_. bindP ask_time (\<lambda>t. openGate r s v t)))) (\<lambda>deadline.
    bindP (readRuntimeApproval r s v) (\<lambda>first.
    bindP (approval_wakes r s v deadline APPROVAL_WAKE_LIMIT 0 first) (\<lambda>(stopped, decision).
      if stopped then Return (Some ''approval_run_not_active'') else approval_verdict r s v deadline decision)))"

section \<open>Bounded loops\<close>

definition loop_child :: "step \<Rightarrow> nat \<Rightarrow> step" where
  "loop_child s i = child_step (st_id s @ '':loop:read:'' @ nat_str i) ''mcp.call'' s
     (member (member (st_with s) ''template'') ''with'')"

definition loop_check :: "platform \<Rightarrow> step \<Rightarrow> string \<Rightarrow> run_ctx \<Rightarrow> nat \<Rightarrow> jsv \<Rightarrow> bool run" where
  "loop_check pf s r c i cur =
    do_bool r (''workflow-'' @ st_id s @ '':loop:condition:'' @ nat_str i)
      (case evaluateCondition (pf_string pf) (context_of pf c (item_value cur i)) (member (st_with s) ''condition'') of
         Inl e \<Rightarrow> Fail (error_text e) | Inr b \<Rightarrow> Return b)"

definition loop_arguments :: "platform \<Rightarrow> step \<Rightarrow> string \<Rightarrow> run_ctx \<Rightarrow> nat \<Rightarrow> jsv \<Rightarrow> jsv run" where
  "loop_arguments pf s r c i cur =
    do_value r (''workflow-'' @ st_id s @ '':loop:args:'' @ nat_str i)
      (bindP (evaluateArguments pf c (item_value cur i) (member (member (member (st_with s) ''template'') ''with'') ''arguments'')) (\<lambda>v.
        if \<not> is_object v \<or> hasUnresolvedArgument v then Fail ''invalid_loop_arguments''
        else bindP (limitResult pf v) (\<lambda>v. Return (json_copy v))))"

definition loop_call :: "platform \<Rightarrow> plan \<Rightarrow> step \<Rightarrow> string \<Rightarrow> nat \<Rightarrow> jsv \<Rightarrow> step_outcome run" where
  "loop_call pf p s r i args =
    bindP (do_outcome r (''workflow-'' @ st_id s @ '':loop:iteration:'' @ nat_str i)
      (fenced_call pf p r (loop_child s i) args ''loop_dispatch_unconfirmed'')) (\<lambda>oc.
    bindP (ask_changes (UpsertStep r (st_id (loop_child s i)) oc False)) (\<lambda>_. Return oc))"

definition loop_failure :: "step_outcome \<Rightarrow> step_outcome" where
  "loop_failure oc = outcome_of (oc_status oc)
    (if oc_status oc = Indeterminate then ''loop_child_indeterminate''
     else case oc_error oc of Some e \<Rightarrow> e | None \<Rightarrow> ''loop_child_failed'')"

definition loop_round :: "platform \<Rightarrow> plan \<Rightarrow> step \<Rightarrow> string \<Rightarrow> run_ctx \<Rightarrow> bool \<Rightarrow> nat \<Rightarrow> jsv \<Rightarrow> (step_outcome + jsv) run" where
  \<comment> \<open>one iteration: the value it produced, or the outcome that ends the loop\<close>
  "loop_round pf p s r c external i cur =
    (if external then
       bindP (loop_arguments pf s r c i cur) (\<lambda>args.
         if \<not> is_object args \<or> hasUnresolvedArgument args then Return (Inl (outcome_of Failed ''invalid_loop_arguments''))
         else try_run (loop_call pf p s r i args)
           (\<lambda>_. Return (Inl (outcome_of Indeterminate ''loop_execution_unconfirmed'')))
           (\<lambda>oc. Return (if oc_status oc \<noteq> Succeeded then Inl (loop_failure oc) else Inr (oc_output oc))))
     else mapP Inr (do_value r (''workflow-'' @ st_id s @ '':loop:iteration:'' @ nat_str i)
       (bindP (evaluateArguments pf c (item_value cur i) (member (member (member (st_with s) ''template'') ''with'') ''data'')) (\<lambda>v.
         if hasUnresolvedArgument v then Fail ''invalid_loop_output'' else limitResult pf v))))"

definition loop_complete :: "platform \<Rightarrow> nat \<Rightarrow> jsv \<Rightarrow> step_outcome run" where
  "loop_complete pf n v =
    bindP (limitResult pf (VObj [(''iterations'', VNum (Fin (of_nat n))), (''value'', v)])) (\<lambda>o1. Return (succeeded_with o1))"

fun loop_from :: "platform \<Rightarrow> plan \<Rightarrow> step \<Rightarrow> string \<Rightarrow> run_ctx \<Rightarrow> bool \<Rightarrow> bool \<Rightarrow> nat \<Rightarrow> nat \<Rightarrow> jsv \<Rightarrow> step_outcome run" where
  \<comment> \<open>while mode, external, iterations left, index (which is also the count), value\<close>
  "loop_from pf p s r c while external 0 i cur =
    (if while then bindP (loop_check pf s r c i cur) (\<lambda>b.
       if \<not> b then loop_complete pf i cur else Return (outcome_of Failed ''loop_budget_exceeded''))
     else Return (outcome_of Failed ''loop_budget_exceeded''))"
| "loop_from pf p s r c while external (Suc k) i cur =
    (let body = bindP (loop_round pf p s r c external i cur) (\<lambda>x. case x of
           Inl oc \<Rightarrow> Return oc
         | Inr v \<Rightarrow>
             if while then loop_from pf p s r c while external k (Suc i) v
             else bindP (loop_check pf s r c i v) (\<lambda>b.
               if b then loop_complete pf (Suc i) v else loop_from pf p s r c while external k (Suc i) v))
     in if while then bindP (loop_check pf s r c i cur) (\<lambda>b. if \<not> b then loop_complete pf i cur else body) else body)"

definition runBoundedLoop :: "platform \<Rightarrow> plan \<Rightarrow> step \<Rightarrow> string \<Rightarrow> run_ctx \<Rightarrow> step_outcome run" where
  "runBoundedLoop pf p s r c =
    (if \<not> dependenciesPermitRun s (rc_done c) then Return skipped
     else
       let mode = member (st_with s) ''mode''; template = member (st_with s) ''template'';
           external = (member template ''uses'' = VStr ''mcp.call''); body = member template ''with'' in
       case safe_nat (member (st_with s) ''max_iterations'') of
         None \<Rightarrow> Return (outcome_of Failed ''invalid_loop_plan'')
       | Some limit \<Rightarrow>
           if mode \<notin> {VStr ''while'', VStr ''until''} \<or> limit > 8 \<or>
              (member template ''uses'' \<noteq> VStr ''result.emit'' \<and> \<not> external) \<or> \<not> truthy body \<or>
              (if external then member body ''scope'' \<noteq> VStr ''read'' \<or> \<not> truthy (member body ''arguments'')
               else own_property ''data'' body = None)
           then Return (outcome_of Failed ''invalid_loop_plan'')
           else catchP (loop_from pf p s r c (mode = VStr ''while'') external limit 0 VNull)
             (\<lambda>_. Return (outcome_of Failed ''loop_evaluation_failed'')))"

section \<open>Foreach with one template\<close>

definition foreach_id :: "step \<Rightarrow> nat \<Rightarrow> jsv \<Rightarrow> string" where
  "foreach_id s i template = st_id s @ ''_'' @ nat_str i @ ''_'' @ str (member template ''id'')"

definition foreach_limit :: "step \<Rightarrow> nat option" where
  "foreach_limit s = (case safe_nat (member (st_with s) ''max_items'') of Some n \<Rightarrow> if n \<le> 8 then Some n else None | None \<Rightarrow> None)"

definition template_payload :: "jsv \<Rightarrow> jsv" where
  "template_payload template =
    (let u = member template ''uses''; w = member template ''with'' in
     if u = VStr ''mcp.call'' then member w ''arguments''
     else if u = VStr ''github.run'' then member (member w ''action'') ''inputs'' else member w ''data'')"

definition foreach_entry :: "platform \<Rightarrow> plan \<Rightarrow> step \<Rightarrow> run_ctx \<Rightarrow> jsv \<Rightarrow> bool \<Rightarrow> nat \<Rightarrow> jsv \<Rightarrow> (string \<times> bool \<times> jsv) run" where
  "foreach_entry pf p s c template typed i v =
    bindP (condition pf c (item_value v i) (member template ''if'')) (\<lambda>selected.
    bindP (if selected then evaluateArguments pf c (item_value v i) (template_payload template) else Return VNull) (\<lambda>candidate.
    bindP (if selected \<and> typed then (case pf_task_inputs pf p s candidate of Inl e \<Rightarrow> Fail e | Inr x \<Rightarrow> Return x)
        else Return candidate) (\<lambda>x.
      if selected \<and> member template ''uses'' = VStr ''mcp.call'' \<and> (\<not> is_object x \<or> hasUnresolvedArgument x)
      then Fail ''invalid_foreach_arguments''
      else Return (foreach_id s i template, selected, null_if_undefined x))))"

fun foreach_entries :: "platform \<Rightarrow> plan \<Rightarrow> step \<Rightarrow> run_ctx \<Rightarrow> jsv \<Rightarrow> bool \<Rightarrow> nat \<Rightarrow> jsv list \<Rightarrow> (string \<times> bool \<times> jsv) list run" where
  "foreach_entries pf p s c template typed i [] = Return []"
| "foreach_entries pf p s c template typed i (v # vs) =
    bindP (foreach_entry pf p s c template typed i v) (\<lambda>e.
    bindP (foreach_entries pf p s c template typed (Suc i) vs) (\<lambda>es. Return (e # es)))"

definition entry_value :: "string \<times> bool \<times> jsv \<Rightarrow> jsv" where
  "entry_value e = VObj [(''id'', VStr (fst e)), (''selected'', VBool (fst (snd e))), (''output'', snd (snd e))]"

definition foreach_snapshot :: "platform \<Rightarrow> plan \<Rightarrow> step \<Rightarrow> string \<Rightarrow> run_ctx \<Rightarrow> jsv \<Rightarrow> bool \<Rightarrow> nat \<Rightarrow> (string \<times> bool \<times> jsv) list option run" where
  "foreach_snapshot pf p s r c template typed limit =
    catchP (step_do r (''workflow-'' @ st_id s @ ''-snapshot'') SEntries (\<lambda>v. case v of SEntries x \<Rightarrow> Some x | _ \<Rightarrow> None)
      (bindP (evaluateArguments pf c VUndef (member (st_with s) ''items'')) (\<lambda>v. case v of
         VArr xs \<Rightarrow>
           if length xs > limit then Return None
           else bindP (foreach_entries pf p s c template typed 0 xs) (\<lambda>es.
             bindP (limitResult pf (VArr (map entry_value es))) (\<lambda>_. Return (Some es)))
       | _ \<Rightarrow> Return None)))
      (\<lambda>_. Return None)"

definition with_inputs :: "jsv \<Rightarrow> jsv \<Rightarrow> jsv" where
  \<comment> \<open>\<open>{...with, action: {...with.action, inputs}}\<close>\<close>
  "with_inputs w inputs =
    (let put = (\<lambda>k x kvs. if k \<in> set (map fst kvs) then map (\<lambda>(k', y). if k' = k then (k', x) else (k', y)) kvs else kvs @ [(k, x)])
     in VObj (put ''action'' (VObj (put ''inputs'' inputs (members_of (member w ''action'')))) (members_of w)))"

definition ask_outcome :: "request \<Rightarrow> step_outcome run" where
  "ask_outcome q = Ask q (\<lambda>a. case a of GotOutcome oc \<Rightarrow> Return oc | _ \<Rightarrow> rethrow a)"

definition foreach_task :: "platform \<Rightarrow> step \<Rightarrow> string \<Rightarrow> jsv \<Rightarrow> bool \<Rightarrow> string \<times> bool \<times> jsv \<Rightarrow> step_outcome run" where
  \<comment> \<open>a selected item of a GitHub task template\<close>
  "foreach_task pf s r template dynamic e =
    (let w = member template ''with''; inputs = snd (snd e);
         marker = VObj [(''input_sha256'', VStr (pf_frozen_digest pf inputs))];
         task = child_step (fst e) ''github.run'' s (if dynamic then with_inputs w inputs else w) in
     catchP
       (if dynamic then
          bindP (ask_changes (InsertStep r (fst e) True ((started_row Running)\<lparr>sw_output := marker\<rparr>))) (\<lambda>_.
          Ask (ReadStep r (fst e)) (\<lambda>a. case a of
            GotStep row \<Rightarrow>
              if map_option sw_status row \<noteq> Some Running \<or> map_option sw_output row \<noteq> Some marker
              then Return (outcome_of Indeterminate ''github_input_snapshot_unconfirmed'')
              else ask_outcome (GithubTask r task)
          | _ \<Rightarrow> rethrow a))
        else bindP (ask_changes (InsertStep r (fst e) False (started_row Running))) (\<lambda>_. ask_outcome (GithubTask r task)))
       (\<lambda>_. Return (outcome_of Indeterminate ''github_dispatch_unknown'')))"

definition foreach_item :: "platform \<Rightarrow> plan \<Rightarrow> step \<Rightarrow> string \<Rightarrow> jsv \<Rightarrow> bool \<Rightarrow> string \<times> bool \<times> jsv \<Rightarrow> step_outcome run" where
  "foreach_item pf p s r template dynamic e =
    (let u = member template ''uses''; selected = fst (snd e) in
     if u = VStr ''github.run'' \<and> selected then foreach_task pf s r template dynamic e
     else do_outcome r (''workflow-'' @ fst e)
       (if \<not> selected then
          bindP (ask_changes (InsertStep r (fst e) False (started_row Running))) (\<lambda>_. Return skipped)
        else if u = VStr ''result.emit'' then
          bindP (ask_changes (InsertStep r (fst e) False (started_row Running))) (\<lambda>_.
          bindP (limitResult pf (snd (snd e))) (\<lambda>v. Return (succeeded_with v)))
        else fenced_call pf p r (child_step (fst e) ''mcp.call'' s (member template ''with'')) (snd (snd e))
          ''foreach_dispatch_unconfirmed''))"

fun foreach_items :: "platform \<Rightarrow> plan \<Rightarrow> step \<Rightarrow> string \<Rightarrow> jsv \<Rightarrow> bool \<Rightarrow> nat \<Rightarrow> (string \<times> bool \<times> jsv) list \<Rightarrow> jsv list \<Rightarrow> nat \<Rightarrow> step_outcome run" where
  "foreach_items pf p s r template dynamic i [] collected good =
    (if good > 0 then bindP (limitResult pf (VArr collected)) (\<lambda>v. Return (succeeded_with v)) else Return skipped)"
| "foreach_items pf p s r template dynamic i (e # es) collected good =
    (if fst e \<noteq> foreach_id s i template then Return (outcome_of Failed ''invalid_foreach_snapshot'')
     else bindP (foreach_item pf p s r template dynamic e) (\<lambda>oc.
       bindP (ask_changes (UpsertStep r (fst e) oc True)) (\<lambda>_.
         if oc_status oc = Indeterminate then Return (outcome_of Indeterminate ''foreach_child_indeterminate'')
         else if oc_status oc = Failed then Return (outcome_of Failed ''foreach_child_failed'')
         else foreach_items pf p s r template dynamic (Suc i) es
           (collected @ [if oc_status oc = Succeeded then oc_output oc else VNull])
           (if oc_status oc = Succeeded then Suc good else good))))"

definition templateIsExternal :: "step \<Rightarrow> bool" where
  "templateIsExternal s \<longleftrightarrow> member (member (st_with s) ''template'') ''uses'' \<in> {VStr ''mcp.call'', VStr ''github.run''}"

section \<open>Foreach with several templates\<close>

definition legacyTaskShape :: "jsv list \<Rightarrow> bool" where
  "legacyTaskShape cs \<longleftrightarrow> map (\<lambda>c. member c ''uses'') cs = [VStr ''result.emit'', VStr ''github.run'', VStr ''result.emit'']"

definition task_stages :: "jsv list \<Rightarrow> jsv list" where
  "task_stages cs = [c \<leftarrow> cs. member c ''uses'' = VStr ''github.run'']"

definition child_succeeded :: "completed \<Rightarrow> jsv \<Rightarrow> bool" where
  "child_succeeded local c \<longleftrightarrow> map_option oc_status (map_of local (str (member c ''id''))) = Some Succeeded"

definition multi_failed :: "bool \<Rightarrow> step_outcome" where
  \<comment> \<open>the handler of the surrounding \<open>catch\<close>\<close>
  "multi_failed external =
    (if external then outcome_of Indeterminate ''foreach_execution_unconfirmed'' else outcome_of Failed ''foreach_execution_failed'')"

definition multi_emit :: "platform \<Rightarrow> step \<Rightarrow> string \<Rightarrow> jsv list \<Rightarrow> run_ctx \<Rightarrow> jsv \<Rightarrow> jsv \<Rightarrow> string \<Rightarrow> step_outcome run" where
  "multi_emit pf s r cs c item child i =
    do_outcome r (''workflow-'' @ i)
      (if legacyTaskShape cs \<and> member child ''id'' = member (cs ! 2) ''id'' \<and> \<not> child_succeeded (rc_done c) (cs ! 1)
       then Return skipped
       else bindP (condition pf c item (member child ''if'')) (\<lambda>b.
         if \<not> b then Return skipped
         else bindP (evaluateArguments pf c item (member (member child ''with'') ''data'')) (\<lambda>v.
           bindP (limitResult pf v) (\<lambda>v. Return (succeeded_with v)))))"

definition multi_selection :: "platform \<Rightarrow> step \<Rightarrow> string \<Rightarrow> jsv list \<Rightarrow> run_ctx \<Rightarrow> jsv \<Rightarrow> jsv \<Rightarrow> bool \<Rightarrow> string \<Rightarrow> bool run" where
  "multi_selection pf s r cs c item child earlier i =
    do_bool r (''workflow-'' @ i @ ''-selection'')
      (if (if legacyTaskShape cs then child_succeeded (rc_done c) (cs ! 0) else earlier)
       then condition pf c item (member child ''if'') else Return False)"

definition multi_arguments :: "platform \<Rightarrow> string \<Rightarrow> run_ctx \<Rightarrow> jsv \<Rightarrow> jsv \<Rightarrow> string \<Rightarrow> jsv option run" where
  "multi_arguments pf r c item child i =
    step_do r (''workflow-'' @ i @ ''-args'') SSelected (\<lambda>v. case v of SSelected x \<Rightarrow> Some x | _ \<Rightarrow> None)
      (bindP (condition pf c item (member child ''if'')) (\<lambda>b.
         if \<not> b then Return None
         else bindP (evaluateArguments pf c item (member (member child ''with'') ''arguments'')) (\<lambda>v.
           if \<not> is_object v \<or> hasUnresolvedArgument v then Fail ''invalid_foreach_arguments''
           else bindP (limitResult pf v) (\<lambda>v. Return (Some (json_copy v))))))"

definition multi_stage :: "platform \<Rightarrow> plan \<Rightarrow> step \<Rightarrow> string \<Rightarrow> jsv list \<Rightarrow> run_ctx \<Rightarrow> nat \<Rightarrow> jsv \<Rightarrow> nat \<Rightarrow> jsv \<Rightarrow> bool \<Rightarrow>
    (step_outcome + step_outcome \<times> bool) run" where
  \<comment> \<open>one stage of one item: the outcome that ends the step, or the outcome of the stage and whether an
     external effect may have started\<close>
  "multi_stage pf p s r cs c index v stage child external =
    (let i = foreach_id s index child; item = item_value v index;
         earlier = list_all (child_succeeded (rc_done c)) (take stage cs);
         stop = (\<lambda>flag m. Return (Inl (multi_failed flag)));
         go = (\<lambda>flag oc. Return (Inr (oc, flag))) in
     if task_stages cs \<noteq> [] \<and> \<not> legacyTaskShape cs \<and> \<not> earlier
     then try_run (do_outcome r (''workflow-'' @ i @ ''-blocked'') (Return skipped)) (stop external) (go external)
     else if member child ''uses'' = VStr ''result.emit''
     then try_run (multi_emit pf s r cs c item child i) (stop external) (go external)
     else if member child ''uses'' = VStr ''github.run''
     then try_run (multi_selection pf s r cs c item child earlier i) (stop external) (\<lambda>selected.
       if \<not> selected then go external skipped
       else try_run (ask_changes (InsertStep r i True (started_row Running))) (stop external) (\<lambda>_.
         try_run (ask_outcome (GithubTask r (child_step i ''github.run'' s (member child ''with'')))) (stop True) (go True)))
     else try_run (multi_arguments pf r c item child i)
       (\<lambda>_. try_run (ask_changes (InsertStep r i False (settled_row (outcome_of Failed ''invalid_foreach_arguments'')))) (stop external)
         (\<lambda>_. Return (Inl (outcome_of Failed ''foreach_child_failed''))))
       (\<lambda>args. case args of
           None \<Rightarrow> try_run (do_outcome r (''workflow-'' @ i) (Return skipped)) (stop external) (go external)
         | Some args \<Rightarrow>
             if \<not> is_object args \<or> hasUnresolvedArgument args
             then Return (Inl (outcome_of Failed ''invalid_foreach_snapshot''))
             else try_run (do_outcome r (''workflow-'' @ i)
               (fenced_call pf p r (child_step i ''mcp.call'' s (member child ''with'')) args ''foreach_dispatch_unconfirmed''))
               (stop True) (go True)))"

fun multi_children :: "platform \<Rightarrow> plan \<Rightarrow> step \<Rightarrow> string \<Rightarrow> jsv list \<Rightarrow> run_ctx \<Rightarrow> nat \<Rightarrow> jsv \<Rightarrow> nat \<Rightarrow> jsv list \<Rightarrow>
    step_outcome \<Rightarrow> nat \<Rightarrow> bool \<Rightarrow> (step_outcome + step_outcome \<times> nat \<times> bool) run" where
  "multi_children pf p s r cs c index v stage [] final good external = Return (Inr (final, good, external))"
| "multi_children pf p s r cs c index v stage (child # rest) final good external =
    bindP (multi_stage pf p s r cs c index v stage child external) (\<lambda>x. case x of
      Inl oc \<Rightarrow> Return (Inl oc)
    | Inr (oc, flag) \<Rightarrow>
        try_run (ask_changes (UpsertStep r (foreach_id s index child) oc False)) (\<lambda>_. Return (Inl (multi_failed flag))) (\<lambda>_.
          if oc_status oc = Indeterminate then Return (Inl (outcome_of Indeterminate ''foreach_child_indeterminate''))
          else if oc_status oc = Failed then Return (Inl (outcome_of Failed ''foreach_child_failed''))
          else multi_children pf p s r cs (c\<lparr>rc_done := (str (member child ''id''), oc) # rc_done c\<rparr>) index v (Suc stage) rest oc
            (if oc_status oc = Succeeded then Suc good else good) flag))"

fun multi_items :: "platform \<Rightarrow> plan \<Rightarrow> step \<Rightarrow> string \<Rightarrow> jsv list \<Rightarrow> run_ctx \<Rightarrow> nat \<Rightarrow> jsv list \<Rightarrow> jsv list \<Rightarrow> nat \<Rightarrow> bool \<Rightarrow> step_outcome run" where
  "multi_items pf p s r cs c index [] collected good external =
    (if good > 0 then try_run (limitResult pf (VArr collected)) (\<lambda>_. Return (multi_failed external)) (\<lambda>v. Return (succeeded_with v))
     else Return skipped)"
| "multi_items pf p s r cs c index (v # vs) collected good external =
    bindP (multi_children pf p s r cs c index v 0 cs skipped good external) (\<lambda>x. case x of
      Inl oc \<Rightarrow> Return oc
    | Inr (final, n, flag) \<Rightarrow>
        multi_items pf p s r cs c (Suc index) vs
          (collected @ [if oc_status final = Succeeded then oc_output final else VNull]) n flag)"

definition multi_snapshot :: "platform \<Rightarrow> step \<Rightarrow> string \<Rightarrow> run_ctx \<Rightarrow> nat \<Rightarrow> jsv list option run" where
  "multi_snapshot pf s r c limit =
    step_do r (''workflow-'' @ st_id s @ ''-snapshot'') SItems (\<lambda>v. case v of SItems x \<Rightarrow> Some x | _ \<Rightarrow> None)
      (bindP (evaluateArguments pf c VUndef (member (st_with s) ''items'')) (\<lambda>v. case v of
         VArr xs \<Rightarrow>
           if length xs > limit then Return None
           else bindP (limitResult pf (VArr xs)) (\<lambda>_. Return (Some xs))
       | _ \<Rightarrow> Return None))"

definition runMultiForeach :: "platform \<Rightarrow> plan \<Rightarrow> step \<Rightarrow> string \<Rightarrow> run_ctx \<Rightarrow> step_outcome run" where
  "runMultiForeach pf p s r c =
    (let cs = (case member (st_with s) ''templates'' of VArr xs \<Rightarrow> xs | _ \<Rightarrow> []) in
     case foreach_limit s of
       None \<Rightarrow> Return (outcome_of Failed ''invalid_foreach_plan'')
     | Some limit \<Rightarrow>
         if length cs < 2 \<or> length cs > 4 \<or>
            list_ex (\<lambda>x. member x ''uses'' \<notin> {VStr ''result.emit'', VStr ''mcp.call'', VStr ''github.run''} \<or>
              typeOf (member x ''id'') \<noteq> ''string'') cs \<or>
            length (task_stages cs) > 1 \<or> limit * length cs + 1 > 32
         then Return (outcome_of Failed ''invalid_foreach_plan'')
         else try_run (multi_snapshot pf s r c limit) (\<lambda>_. Return (multi_failed False)) (\<lambda>snapshot. case snapshot of
             None \<Rightarrow> Return (outcome_of Failed ''invalid_foreach_items'')
           | Some xs \<Rightarrow>
               if length xs > limit then Return (outcome_of Failed ''invalid_foreach_items'')
               else multi_items pf p s r cs c 0 xs [] 0 False))"

definition runForeachStep :: "platform \<Rightarrow> plan \<Rightarrow> step \<Rightarrow> string \<Rightarrow> run_ctx \<Rightarrow> step_outcome run" where
  "runForeachStep pf p s r c =
    catchP
      (bindP (ask_changes (InsertStep r (st_id s) False (started_row Running))) (\<lambda>_.
        if \<not> dependenciesPermitRun s (rc_done c) then Return skipped
        else if typeOf (member (st_with s) ''templates'') = ''array'' then runMultiForeach pf p s r c
        else
          let template = member (st_with s) ''template''; dynamic = pf_dynamic_task pf s in
          case (if dynamic then pf_task_contract pf p s else None) of
            Some e \<Rightarrow> Fail e
          | None \<Rightarrow>
              (case foreach_limit s of
                 None \<Rightarrow> Return (outcome_of Failed ''invalid_foreach_plan'')
               | Some limit \<Rightarrow>
                   if member template ''uses'' \<notin> {VStr ''result.emit'', VStr ''mcp.call'', VStr ''github.run''}
                   then Return (outcome_of Failed ''invalid_foreach_plan'')
                   else bindP (foreach_snapshot pf p s r c template dynamic limit) (\<lambda>snapshot. case snapshot of
                       None \<Rightarrow> Return (outcome_of Failed ''invalid_foreach_items'')
                     | Some es \<Rightarrow>
                         if length es > limit then Return (outcome_of Failed ''invalid_foreach_snapshot'')
                         else foreach_items pf p s r template dynamic 0 es [] 0))))
      (\<lambda>_. Return (if templateIsExternal s then outcome_of Indeterminate ''foreach_execution_unconfirmed''
        else outcome_of Failed ''foreach_execution_failed''))"

end
