(* ===== verification/Runner.thy ===== *)
theory Runner
  imports RunnerFlows
begin

text \<open>
  \<open>WorkflowOrchestrator.run\<close> (\<open>runner.ts\<close>): child runs, the execution of one step, the waves of steps,
  and the transitions of the run itself.
\<close>

section \<open>Child runs\<close>

definition child_inputs :: "platform \<Rightarrow> step \<Rightarrow> string \<Rightarrow> run_ctx \<Rightarrow> jsv run" where
  "child_inputs pf s r c =
    do_value r (''workflow-'' @ st_id s @ ''-child-inputs'')
      (bindP (evaluateArguments pf c VUndef (member (st_with s) ''inputs'')) (\<lambda>v.
        if \<not> is_object v \<or> hasUnresolvedArgument v then Fail ''invalid_child_inputs''
        else bindP (limitResult pf v) (\<lambda>v. Return (canonical v))))"

definition do_child :: "string \<Rightarrow> string \<Rightarrow> request \<Rightarrow> string run" where
  "do_child r name q =
    step_do r name SChild (\<lambda>v. case v of SChild x \<Rightarrow> Some x | _ \<Rightarrow> None)
      (Ask q (\<lambda>a. case a of GotChild x \<Rightarrow> Return x | _ \<Rightarrow> rethrow a))"

definition do_child_row :: "string \<Rightarrow> string \<Rightarrow> request \<Rightarrow> (run_state \<times> jsv option) option run" where
  "do_child_row r name q =
    step_do r name SChildRow (\<lambda>v. case v of SChildRow x \<Rightarrow> Some x | _ \<Rightarrow> None)
      (Ask q (\<lambda>a. case a of GotChildRow x \<Rightarrow> Return x | _ \<Rightarrow> rethrow a))"

definition child_reference :: "string \<Rightarrow> string \<Rightarrow> jsv" where
  "child_reference child version = VObj [(''run_id'', VStr child), (''published_version_id'', VStr version)]"

definition detached_unconfirmed :: "string \<Rightarrow> string \<Rightarrow> step_outcome" where
  "detached_unconfirmed child version =
    \<lparr>oc_status = Indeterminate, oc_output = child_reference child version, oc_error = Some ''detached_child_start_unconfirmed''\<rparr>"

fun detached_starts :: "step \<Rightarrow> string \<Rightarrow> string \<Rightarrow> string \<Rightarrow> nat list \<Rightarrow> step_outcome run" where
  "detached_starts s r child version [] = Return (detached_unconfirmed child version)"
| "detached_starts s r child version (i # is) =
    (let again = (if is = [] then Return (detached_unconfirmed child version)
       else bindP (ask_ok (SleepStep r (''workflow-'' @ st_id s @ ''-detached-child-reconcile-'' @ nat_str i)))
         (\<lambda>_. detached_starts s r child version is))
     in try_run (do_child r (''workflow-'' @ st_id s @ ''-detached-child-start-'' @ nat_str i) (StartChild True r s child))
       (\<lambda>_. again)
       (\<lambda>x. if x = ''started'' then Return (succeeded_with (child_reference child version))
          else if x = ''rejected'' then Return (outcome_of Failed ''detached_parent_not_active'')
          else if x = ''indeterminate'' then Return (detached_unconfirmed child version)
          else again))"

definition child_observed :: "platform \<Rightarrow> step \<Rightarrow> string \<Rightarrow> string \<Rightarrow> nat \<Rightarrow> step_outcome option run" where
  \<comment> \<open>one observation of an awaited child; none when it is still running\<close>
  "child_observed pf s r child i =
    bindP (do_child r (''workflow-'' @ st_id s @ ''-child-start-'' @ nat_str i) (StartChild False r s child)) (\<lambda>x.
      if x = ''indeterminate'' then Return (Some (outcome_of Indeterminate ''child_start_unconfirmed''))
      else bindP (do_child_row r (''workflow-'' @ st_id s @ ''-child-status-'' @ nat_str i) (ChildStatus r s child)) (\<lambda>row.
        case row of
          None \<Rightarrow> Return (Some (outcome_of Indeterminate ''child_lineage_missing''))
        | Some (st, res) \<Rightarrow>
            if st = RSucceeded then
              bindP (ask_first (ReadCancellation child)) (\<lambda>cancelled.
                if cancelled then Return (Some (outcome_of Failed ''child_cancel_requested''))
                else catchP (bindP (limitResult pf (case res of None \<Rightarrow> VNull | Some v \<Rightarrow> v)) (\<lambda>v. Return (Some (succeeded_with v))))
                  (\<lambda>_. Return (Some (outcome_of Indeterminate ''child_result_unreadable''))))
            else if st \<in> {RFailed, RCancelled} then Return (Some (outcome_of Failed ''child_failed''))
            else if st = RIndeterminate then Return (Some (outcome_of Indeterminate ''child_outcome_unknown''))
            else Return None))"

fun awaited_child :: "platform \<Rightarrow> step \<Rightarrow> string \<Rightarrow> string \<Rightarrow> nat list \<Rightarrow> step_outcome run" where
  "awaited_child pf s r child [] = Return (outcome_of Indeterminate ''child_wait_expired'')"
| "awaited_child pf s r child (i # is) =
    try_run (child_observed pf s r child i)
      (\<lambda>_. Return (outcome_of Indeterminate ''child_observation_unconfirmed''))
      (\<lambda>x. case x of
         Some oc \<Rightarrow> Return oc
       | None \<Rightarrow>
           if is = [] then Return (outcome_of Indeterminate ''child_wait_expired'')
           else bindP (ask_ok (SleepStep r (''workflow-'' @ st_id s @ ''-child-sleep-'' @ nat_str i)))
             (\<lambda>_. awaited_child pf s r child is))"

definition child_approval :: "plan \<Rightarrow> step \<Rightarrow> (string \<times> string \<times> string) option" where
  "child_approval p s =
    find (\<lambda>(w, v, d). VStr w = member (st_with s) ''workflow_id'' \<and> VStr v = member (st_with s) ''version_id'')
      (pl_child_approvals p)"

definition admit_child :: "step \<Rightarrow> string \<Rightarrow> bool \<Rightarrow> string \<Rightarrow> string \<Rightarrow> string \<Rightarrow> string \<Rightarrow> jsv \<Rightarrow> step_outcome option run" where
  \<comment> \<open>the outcome that refuses the child, or none when it is admitted\<close>
  "admit_child s r detached target version digest child inputs =
    catchP
      (Ask (ReadPublished version target) (\<lambda>a. case a of
         GotPublished row \<Rightarrow>
           if map_option fst row \<noteq> Some digest then Return (Some (outcome_of Failed ''child_approved_version_changed''))
           else if map_option snd row \<noteq> Some (''active'', Some version)
           then Return (Some (outcome_of Failed ''child_target_unavailable''))
           else bindP (ask_ok (AdmitChild detached r s child inputs)) (\<lambda>_. Return None)
       | _ \<Rightarrow> rethrow a))
      (\<lambda>m. Return (Some
        (if detached \<and> m = ''detached_child_admission_rejected'' then outcome_of Failed ''detached_child_admission_rejected''
         else outcome_of Indeterminate ''child_admission_unconfirmed'')))"

definition runAwaitedChild :: "platform \<Rightarrow> plan \<Rightarrow> step \<Rightarrow> string \<Rightarrow> run_ctx \<Rightarrow> step_outcome run" where
  "runAwaitedChild pf p s r c =
    (if \<not> dependenciesPermitRun s (rc_done c) then Return skipped
     else
       let detached = (member (st_with s) ''mode'' = VStr ''detached'') in
       case child_approval p s of
         None \<Rightarrow> Return (outcome_of Failed ''child_approval_required'')
       | Some (target, version, digest) \<Rightarrow>
           let child = pf_child_id pf r (st_id s) in
           try_run (child_inputs pf s r c) (\<lambda>_. Return (outcome_of Failed ''invalid_child_inputs'')) (\<lambda>inputs.
           bindP (admit_child s r detached target version digest child inputs) (\<lambda>refused. case refused of
             Some oc \<Rightarrow> Return oc
           | None \<Rightarrow>
               if detached then detached_starts s r child version [0..<21]
               else awaited_child pf s r child [0..<120])))"

section \<open>One step\<close>

definition runGithubStep :: "plan \<Rightarrow> step \<Rightarrow> string \<Rightarrow> step_outcome run" where
  "runGithubStep p s r =
    (if \<not> pl_github_approved p then Return (outcome_of Failed ''github_execution_approval_required'')
     else if member (st_with s) ''capability'' \<noteq> VStr ''github.action''
     then Return (outcome_of Failed ''github_capability_not_registered'')
     else if member (member (st_with s) ''action'') ''type'' = VStr ''session'' then ask_outcome (GithubSession r s)
     else ask_outcome (GithubTask r s))"

definition github_step :: "platform \<Rightarrow> plan \<Rightarrow> string \<Rightarrow> step \<Rightarrow> string \<Rightarrow> run_ctx \<Rightarrow> step_outcome run" where
  "github_step pf p version s r c =
    catchP
      (bindP (ask_changes (InsertStep r (st_id s) False (started_row Running))) (\<lambda>_.
        if \<not> dependenciesPermitRun s (rc_done c) then Return skipped
        else bindP (condition pf c VUndef (st_if s)) (\<lambda>b.
          if \<not> b then Return skipped
          else if st_approval s then
            bindP (waitForRuntimeApproval r (st_id s) version) (\<lambda>e. case e of
              Some err \<Rightarrow> Return (outcome_of Failed err)
            | None \<Rightarrow> bindP (ask_changes (ResumeStep r (st_id s))) (\<lambda>_. runGithubStep p s r))
          else runGithubStep p s r)))
      (\<lambda>_. Return (outcome_of Indeterminate ''github_dispatch_unknown''))"

definition action_step :: "platform \<Rightarrow> step \<Rightarrow> string \<Rightarrow> run_ctx \<Rightarrow> step_outcome run" where
  "action_step pf s r c =
    do_outcome r (''workflow-'' @ st_id s)
      (catchP
        (bindP (ask_changes (InsertStep r (st_id s) False (started_row Running))) (\<lambda>_.
          if \<not> dependenciesPermitRun s (rc_done c) then Return skipped
          else bindP (condition pf c VUndef (st_if s)) (\<lambda>b.
            if \<not> b then Return skipped else ask_outcome (CloudflareAction r s))))
        (\<lambda>_. Return (outcome_of Indeterminate ''cloudflare_dispatch_unconfirmed'')))"

definition http_outcome :: "jsv \<Rightarrow> http_failure + jsv \<Rightarrow> step_outcome" where
  "http_outcome withData x =
    (case x of
       Inl (HttpDispatchError e uncertain) \<Rightarrow> outcome_of (if uncertain then Indeterminate else Failed) e
     | Inr v \<Rightarrow>
         if member v ''ok'' = VBool True then succeeded_with v
         else if member withData ''method'' = VStr ''POST''
         then \<lparr>oc_status = Indeterminate, oc_output = v, oc_error = Some ''http_outcome_unknown''\<rparr>
         else \<lparr>oc_status = Failed, oc_output = v, oc_error = Some ''http_response_error''\<rparr>)"

definition http_step :: "platform \<Rightarrow> plan \<Rightarrow> step \<Rightarrow> string \<Rightarrow> run_ctx \<Rightarrow> step_outcome run" where
  "http_step pf p s r c =
    catchP
      (bindP (if own_property ''body'' (st_with s) \<noteq> None then evaluateArguments pf c VUndef (member (st_with s) ''body'')
          else Return VUndef) (\<lambda>body.
       bindP (callApprovedHttp pf p s r body) (\<lambda>x.
       bindP (case x of Inl e \<Rightarrow> Return () | Inr v \<Rightarrow> bindP (limitResult pf v) (\<lambda>_. Return ())) (\<lambda>_.
         Return (http_outcome (st_with s) x)))))
      (\<lambda>_. Return (outcome_of Indeterminate ''http_outcome_unknown''))"

definition mcp_step :: "platform \<Rightarrow> plan \<Rightarrow> step \<Rightarrow> string \<Rightarrow> run_ctx \<Rightarrow> step_outcome run" where
  "mcp_step pf p s r c =
    bindP (evaluateArguments pf c VUndef (member (st_with s) ''arguments'')) (\<lambda>args.
      if \<not> is_object args \<or> hasUnresolvedArgument args then Fail ''invalid_arguments''
      else catchP (bindP (callApprovedMcp pf p s args r) (\<lambda>out. Return (succeeded_with out)))
        (\<lambda>m. if mcp_failure m = outcome_of Failed ''step_execution_failed'' then Fail m else Return (mcp_failure m)))"

definition plain_step :: "platform \<Rightarrow> plan \<Rightarrow> step \<Rightarrow> string \<Rightarrow> run_ctx \<Rightarrow> step_outcome run" where
  "plain_step pf p s r c =
    do_outcome r (''workflow-'' @ st_id s)
      (catchP
        (bindP (ask_changes (InsertStep r (st_id s) False (started_row Running))) (\<lambda>_.
          if \<not> dependenciesPermitRun s (rc_done c) then Return skipped
          else bindP (condition pf c VUndef (st_if s)) (\<lambda>b.
            if \<not> b then Return skipped
            else if st_uses s = ''result.emit'' then
              bindP (evaluateArguments pf c VUndef (member (st_with s) ''data'')) (\<lambda>v.
              bindP (limitResult pf v) (\<lambda>v. Return (succeeded_with v)))
            else if st_uses s = ''http.request'' then http_step pf p s r c
            else if st_uses s = ''mcp.call'' then mcp_step pf p s r c
            else Fail ''unsupported_capability'')))
        (\<lambda>_. Return (outcome_of Failed ''step_execution_failed'')))"

definition dispatch_step :: "platform \<Rightarrow> plan \<Rightarrow> string \<Rightarrow> step \<Rightarrow> string \<Rightarrow> run_ctx \<Rightarrow> step_outcome run" where
  "dispatch_step pf p version s r c =
    (if st_uses s = ''flow.wait'' then runDurableWait pf s r (rc_done c)
     else if st_uses s = ''flow.wait_event'' then runWaitForEvent pf s r (rc_done c)
     else if st_uses s = ''flow.child'' then runAwaitedChild pf p s r c
     else if st_uses s = ''flow.loop'' then runBoundedLoop pf p s r c
     else if st_uses s = ''flow.foreach'' then runForeachStep pf p s r c
     else if st_uses s = ''action.run'' then
       (if member (st_with s) ''provider'' = VStr ''litterbox'' then awaitLitterboxFileReceipt s r else action_step pf s r c)
     else if st_uses s = ''github.run'' then github_step pf p version s r c
     else plain_step pf p s r c)"

definition register_compensation :: "plan \<Rightarrow> step \<Rightarrow> string \<Rightarrow> step_outcome \<Rightarrow> step_outcome run" where
  "register_compensation p s r oc =
    (if oc_status oc = Succeeded \<and> pl_saga p \<noteq> None \<and> st_compensate s then
       (if \<not> pl_saga_approved p then Return (outcome_of Indeterminate ''saga_approval_missing'')
        else try_run (step_do r (''workflow-'' @ st_id s @ ''-saga-registration'') (\<lambda>_. SNothing) (\<lambda>_. Some ())
            (ask_ok (RegisterRollback r s)))
          (\<lambda>_. Return (outcome_of Indeterminate ''saga_registration_unconfirmed'')) (\<lambda>_. Return oc))
     else Return oc)"

definition run_one :: "platform \<Rightarrow> plan \<Rightarrow> string \<Rightarrow> string \<Rightarrow> run_ctx \<Rightarrow> step \<Rightarrow> step_outcome run" where
  "run_one pf p version r c s =
    bindP (dispatch_step pf p version s r c) (\<lambda>oc.
    bindP (register_compensation p s r oc) (\<lambda>oc.
    bindP (ask_changes (UpsertStep r (st_id s) oc True)) (\<lambda>_. Return oc)))"

section \<open>The waves\<close>

record wave_state =
  ws_done :: completed
  ws_emitted :: "jsv option"
  ws_failed :: bool
  ws_uncertain :: bool
  ws_code :: "string option"

datatype wave_end =
    Stopped wave_state  \<comment> \<open>\<open>return\<close> without finishing the run\<close>
  | Ended wave_state
  | Threw wave_state

definition record_outcome :: "step \<times> step_outcome \<Rightarrow> wave_state \<Rightarrow> wave_state" where
  "record_outcome so st =
    (let (s, oc) = so in
     \<lparr>ws_done = (st_id s, oc) # ws_done st,
      ws_emitted = (if st_uses s = ''result.emit'' \<and> oc_status oc = Succeeded then Some (oc_output oc) else ws_emitted st),
      ws_failed = (ws_failed st \<or> oc_status oc = Failed),
      ws_uncertain = (ws_uncertain st \<or> oc_status oc = Indeterminate),
      ws_code = (if oc_status oc = Indeterminate \<and> ws_code st = None
        then Some (case oc_error oc of Some e \<Rightarrow> e | None \<Rightarrow> ''external_outcome_unknown'') else ws_code st)\<rparr>)"

definition ready_now :: "plan \<Rightarrow> completed \<Rightarrow> step list \<Rightarrow> step list" where
  "ready_now p done pending =
    take (if pl_saga p \<noteq> None then 1 else 8) [s \<leftarrow> pending. list_all (\<lambda>n. map_of done n \<noteq> None) (st_needs s)]"

definition has_event_wait :: "plan \<Rightarrow> bool" where
  "has_event_wait p \<longleftrightarrow> list_ex (\<lambda>s. st_uses s = ''flow.wait_event'' \<or> st_uses s = ''action.run'' \<or> st_approval s) (pl_steps p)"

fun skip_pending :: "string \<Rightarrow> step list \<Rightarrow> unit run" where
  "skip_pending r [] = Return ()"
| "skip_pending r (s # ss) = bindP (ask_changes (UpsertStep r (st_id s) skipped False)) (\<lambda>_. skip_pending r ss)"

fun skip_saga :: "string \<Rightarrow> step list \<Rightarrow> unit run" where
  "skip_saga r [] = Return ()"
| "skip_saga r (s # ss) = bindP (ask_changes (InsertStep r (st_id s) False (settled_row skipped))) (\<lambda>_. skip_saga r ss)"

definition still_owned :: "plan \<Rightarrow> string \<Rightarrow> step list \<Rightarrow> bool run" where
  \<comment> \<open>may the next wave begin?\<close>
  "still_owned p r pending =
    (if \<not> has_event_wait p then Return True
     else Ask (ReadState r) (\<lambda>a. case a of
         GotState st \<Rightarrow>
           if st = Some RCancelled then bindP (skip_pending r pending) (\<lambda>_. Return False)
           else Return (st = Some RRunning)
       | _ \<Rightarrow> rethrow a))"

definition left_turn :: "run_answer \<Rightarrow> bool" where
  "left_turn a \<longleftrightarrow> a = First True"

definition put_pending :: "step \<Rightarrow> step list \<Rightarrow> step list" where
  "put_pending s ss =
    (if st_id s \<in> set (map st_id ss) then map (\<lambda>x. if st_id x = st_id s then s else x) ss else ss @ [s])"

definition pending_map :: "step list \<Rightarrow> step list" where
  \<comment> \<open>\<open>new Map(plan.steps.map(s => [s.id, s]))\<close>, in insertion order\<close>
  "pending_map ss = fold put_pending ss []"

function run_waves :: "platform \<Rightarrow> plan \<Rightarrow> string \<Rightarrow> string \<Rightarrow> jsv \<Rightarrow> step list \<Rightarrow> wave_state \<Rightarrow> wave_end run" where
  "run_waves pf p version r inputs pending st =
    (if pending = [] then Return (Ended st)
     else try_run (still_owned p r pending) (\<lambda>_. Return (Threw st)) (\<lambda>own.
       if \<not> own then Return (Stopped st)
       else if pl_saga p \<noteq> None \<and> (ws_failed st \<or> ws_uncertain st)
       then try_run (skip_saga r pending) (\<lambda>_. Return (Threw st)) (\<lambda>_. Return (Ended st))
       else
         let ready = ready_now p (ws_done st) pending in
         if ready = [] then Return (Threw st)
         else try_run
           (all_of Turn left_turn (map (run_one pf p version r \<lparr>rc_inputs = inputs, rc_done = ws_done st\<rparr>) ready))
           (\<lambda>_. Return (Threw st))
           (\<lambda>ocs. run_waves pf p version r inputs (without_ids ready pending) (fold record_outcome (zip ready ocs) st))))"
  by auto

lemma ready_now_subset: "set (ready_now p done pending) \<subseteq> set pending"
  by (auto simp: ready_now_def dest: in_set_takeD)

termination run_waves
proof (relation "measure (\<lambda>(_, _, _, _, _, pending, _). length pending)")
  fix p st pending ready
  assume "ready = ready_now p (ws_done st) pending" "ready \<noteq> []"
  then obtain s where "s \<in> set ready" "s \<in> set pending"
    using ready_now_subset by (metis last_in_set subset_eq)
  then have shorter: "length (without_ids ready pending) < length pending" by (rule without_ids_shorter)
  show "\<And>pf version r inputs st'. ((pf, p, version, r, inputs, without_ids ready pending, st'), pf, p, version, r, inputs, pending, st)
    \<in> measure (\<lambda>(_, _, _, _, _, pending, _). length pending)"
    using shorter by simp
qed simp

declare run_waves.simps [simp del]

section \<open>The run\<close>

definition run_outcome :: "wave_state \<Rightarrow> run_state" where
  "run_outcome st = (if ws_uncertain st then RIndeterminate else if ws_failed st then RFailed else RSucceeded)"

definition run_result :: "plan \<Rightarrow> wave_state \<Rightarrow> jsv option" where
  \<comment> \<open>none when the plan has no step\<close>
  "run_result p st =
    (case ws_emitted st of
       Some v \<Rightarrow> Some v
     | None \<Rightarrow>
         if pl_steps p = [] then None
         else Some (case map_of (ws_done st) (st_id (last (pl_steps p))) of Some oc \<Rightarrow> null_if_undefined (oc_output oc) | None \<Rightarrow> VNull))"

definition finish_run :: "platform \<Rightarrow> plan \<Rightarrow> string \<Rightarrow> wave_state \<Rightarrow> unit run" where
  "finish_run pf p r st =
    bindP (case run_result p st of None \<Rightarrow> Fail ''TypeError'' | Some v \<Rightarrow> limitResult pf v) (\<lambda>out.
    bindP (ask_changes (FinishRun r (run_outcome st) out (if ws_uncertain st then ws_code st else None))) (\<lambda>_.
      if (case pl_saga p of Some ons \<Rightarrow> ''failure'' \<in> set ons | None \<Rightarrow> False) \<and> (ws_failed st \<or> ws_uncertain st)
      then Fail ''saga_compensation_trigger'' else Return ()))"

definition watches :: "plan \<Rightarrow> wave_state \<Rightarrow> bool" where
  "watches p st \<longleftrightarrow> \<not> (pl_saga p \<noteq> None \<and> (ws_failed st \<or> ws_uncertain st)) \<and>
    list_ex (\<lambda>s. st_uses s = ''github.run'' \<and> member (st_with s) ''capability'' = VStr ''github.action'' \<and>
      member (member (st_with s) ''action'') ''type'' = VStr ''session'') (pl_steps p)"

definition settle_run :: "platform \<Rightarrow> plan \<Rightarrow> string \<Rightarrow> wave_end \<Rightarrow> unit run" where
  \<comment> \<open>the end of the \<open>try\<close> block, its \<open>catch\<close> and its \<open>finally\<close>\<close>
  "settle_run pf p r e =
    (let interrupt = bindP (ask_changes (InterruptRun r)) (\<lambda>_. Fail ''execution_interrupted'');
         st = (case e of Stopped st \<Rightarrow> st | Ended st \<Rightarrow> st | Threw st \<Rightarrow> st) in
     finallyP
       (case e of
          Stopped st \<Rightarrow> Return ()
        | Threw st \<Rightarrow> interrupt
        | Ended st \<Rightarrow> catchP (finish_run pf p r st) (\<lambda>_. interrupt))
       (if watches p st then Ask (WatchSessions r) (\<lambda>_. Return ()) else Return ()))"

definition first_state :: wave_state where
  "first_state = \<lparr>ws_done = [], ws_emitted = None, ws_failed = False, ws_uncertain = False, ws_code = None\<rparr>"

definition run_plan :: "platform \<Rightarrow> plan \<Rightarrow> string \<Rightarrow> string \<Rightarrow> jsv \<Rightarrow> unit run" where
  "run_plan pf p version r inputs =
    bindP (run_waves pf p version r inputs (pending_map (pl_steps p)) first_state) (settle_run pf p r)"

definition orchestrate :: "platform \<Rightarrow> string \<Rightarrow> unit run" where
  \<comment> \<open>\<open>WorkflowOrchestrator.run\<close>\<close>
  "orchestrate pf r =
    Ask (ReadRun r) (\<lambda>a. case a of
      GotRun None \<Rightarrow> Fail ''run_missing''
    | GotRun (Some (version, inputs, st)) \<Rightarrow>
        if st \<noteq> RQueued \<and> st \<noteq> RRunning then Return ()
        else Ask (ReadPlan version) (\<lambda>b. case b of
            GotPlan None \<Rightarrow> Fail ''version_missing''
          | GotPlan (Some p) \<Rightarrow>
              if pf_retired pf p then Fail ''weixin_action_retired''
              else if st = RQueued then
                bindP (ask_changes (StartRun r)) (\<lambda>n.
                  if n = 0 then bindP (ask_changes (RejectStart r)) (\<lambda>_. Return ())
                  else run_plan pf p version r inputs)
              else run_plan pf p version r inputs
          | _ \<Rightarrow> rethrow b)
    | _ \<Rightarrow> rethrow a)"

end
