(* ===== verification/RunnerRules.thy ===== *)
theory RunnerRules
  imports Runner
begin

text \<open>
  The discipline that the runner follows: a step takes effect only after all its needs have been
  recorded, an approval has been read before a gated GitHub dispatch, a run is finished as succeeded
  only after every step of its plan was recorded as succeeded or skipped, and each \<open>tools/call\<close> and
  \<open>fetch\<close> is paid for with a reservation of its own.
\<close>

section \<open>The rules\<close>

datatype fact =
    Recorded string string bool  \<comment> \<open>run, step; succeeded, or succeeded or skipped?\<close>
  | Approved string string

definition effect_of :: "request \<Rightarrow> (string \<times> step) option" where
  \<comment> \<open>the run and the step for which the request reaches out of the run\<close>
  "effect_of q =
    (case q of
       CallTool r s _ \<Rightarrow> Some (r, s) | Fetch r s _ _ _ \<Rightarrow> Some (r, s)
     | GithubTask r s \<Rightarrow> Some (r, s) | GithubSession r s \<Rightarrow> Some (r, s) | CloudflareAction r s \<Rightarrow> Some (r, s)
     | AdmitChild _ r s _ _ \<Rightarrow> Some (r, s) | StartChild _ r s _ \<Rightarrow> Some (r, s)
     | _ \<Rightarrow> None)"

definition needs_recorded :: "bool \<Rightarrow> string \<Rightarrow> string list \<Rightarrow> fact set" where
  "needs_recorded strict r ns = (\<lambda>n. Recorded r n strict) ` set ns"

definition facts_needed :: "bool \<Rightarrow> string list \<Rightarrow> request \<Rightarrow> fact set" where
  "facts_needed strict names q =
    (case effect_of q of Some (r, s) \<Rightarrow> needs_recorded strict r (st_needs s) | None \<Rightarrow> {}) \<union>
    (case q of
       GithubTask r s \<Rightarrow> if st_approval s then {Approved r (st_id s)} else {}
     | GithubSession r s \<Rightarrow> if st_approval s then {Approved r (st_id s)} else {}
     | FinishRun r st _ _ \<Rightarrow> if st = RSucceeded then needs_recorded False r names else {}
     | _ \<Rightarrow> {})"

definition record_facts :: "string \<Rightarrow> string \<Rightarrow> step_status \<Rightarrow> fact set" where
  "record_facts r n st =
    (if st = Succeeded then {Recorded r n True, Recorded r n False} else if st = Skipped then {Recorded r n False} else {})"

definition facts_learnt :: "request \<Rightarrow> run_answer \<Rightarrow> fact set" where
  "facts_learnt q a =
    (case (q, a) of
       (UpsertStep r n oc _, Changes _) \<Rightarrow> record_facts r n (oc_status oc)
     | (ReadApproval r s _, GotApproval (Some ap)) \<Rightarrow> if ap_approved ap then {Approved r s} else {}
     | _ \<Rightarrow> {})"

definition calls_sent :: "request \<Rightarrow> (string \<times> string) multiset" where
  "calls_sent q =
    (case q of CallTool r s _ \<Rightarrow> {#(r, st_id s)#} | Fetch r s _ _ _ \<Rightarrow> {#(r, st_id s)#} | _ \<Rightarrow> {#})"

definition calls_reserved :: "request \<Rightarrow> run_answer \<Rightarrow> (string \<times> string) multiset" where
  "calls_reserved q a =
    (case (q, a) of
       (ReservePortal r s _, Changes n) \<Rightarrow> if n = 1 then {#(r, s)#} else {#}
     | (ReserveHttp r s _, Changes n) \<Rightarrow> if n = 1 then {#(r, s)#} else {#}
     | _ \<Rightarrow> {#})"

definition rules :: "bool \<Rightarrow> string list \<Rightarrow> (request, run_answer, fact, string \<times> string) discipline" where
  "rules strict names = \<lparr>needs = facts_needed strict names, learns = facts_learnt, uses = calls_sent, grants = calls_reserved\<rparr>"

lemma rules_sel [simp]:
  "needs (rules strict names) = facts_needed strict names" "learns (rules strict names) = facts_learnt"
  "uses (rules strict names) = calls_sent" "grants (rules strict names) = calls_reserved"
  by (simp_all add: rules_def)

lemma idle_turn: "idle (rules strict names) Turn"
  by (simp add: idle_def facts_needed_def effect_of_def facts_learnt_def calls_sent_def calls_reserved_def)

section \<open>Steps that send nothing of their own\<close>

lemma keeps_thrown [keeps_intro]: "keeps D F (rethrow a)"
  by (simp add: rethrow_def keeps_Fail)

definition plain_request :: "bool \<Rightarrow> string list \<Rightarrow> fact set \<Rightarrow> request \<Rightarrow> bool" where
  "plain_request strict names F q \<longleftrightarrow> facts_needed strict names q \<subseteq> F \<and> calls_sent q = {#}"

lemmas request_facts = plain_request_def facts_needed_def effect_of_def calls_sent_def

lemma keeps_ask [keeps_intro]:
  "plain_request strict names F q \<Longrightarrow> (\<And>a. keeps (rules strict names) F (k a)) \<Longrightarrow> keeps (rules strict names) F (Ask q k)"
  by (rule keeps_Ask) (simp_all add: plain_request_def)

lemma keeps_answer [keeps_intro]:
  \<comment> \<open>the answers that the runner reads\<close>
  "(\<And>n. keeps D F (f n)) \<Longrightarrow> keeps D F (case a of Changes n \<Rightarrow> f n | _ \<Rightarrow> rethrow a)"
  "(\<And>b. keeps D F (g b)) \<Longrightarrow> keeps D F (case a of First b \<Rightarrow> g b | _ \<Rightarrow> rethrow a)"
  by (auto split: run_answer.split intro: keeps_intro)

lemma keeps_ask_changes [keeps_intro]: "plain_request strict names F q \<Longrightarrow> keeps (rules strict names) F (ask_changes q)"
  unfolding ask_changes_def by (intro keeps_intro)

lemma keeps_ask_first [keeps_intro]: "plain_request strict names F q \<Longrightarrow> keeps (rules strict names) F (ask_first q)"
  unfolding ask_first_def by (intro keeps_intro)

lemma keeps_ask_ok [keeps_intro]: "plain_request strict names F q \<Longrightarrow> keeps (rules strict names) F (ask_ok q)"
  unfolding ask_ok_def by (intro keeps_ask) (auto split: run_answer.split intro: keeps_intro)

lemma keeps_ask_outcome [keeps_intro]: "plain_request strict names F q \<Longrightarrow> keeps (rules strict names) F (ask_outcome q)"
  unfolding ask_outcome_def by (intro keeps_ask) (auto split: run_answer.split intro: keeps_intro)

lemma finally_as_bind: "finallyP p c = bindP (catchP (mapP Inr p) (\<lambda>m. Return (Inl m)))
    (\<lambda>x. bindP c (\<lambda>_. case x of Inl m \<Rightarrow> Fail m | Inr y \<Rightarrow> Return y))"
  by (induction p) auto

lemma keeps_finally [keeps_intro]: "keeps D F p \<Longrightarrow> keeps D F c \<Longrightarrow> keeps D F (finallyP p c)"
  unfolding finally_as_bind by (intro keeps_intro) (auto split: sum.split intro: keeps_intro)

lemma keeps_attempt [keeps_intro]:
  "keeps D F p \<Longrightarrow> (\<And>m. keeps D F (h m)) \<Longrightarrow> (\<And>y. keeps D F (k y)) \<Longrightarrow> keeps D F (try_run p h k)"
  unfolding try_run_def by (intro keeps_intro) (auto split: sum.split)

lemma keeps_limit [keeps_intro]: "keeps D F (limitResult pf v)"
  unfolding limitResult_def by (intro keeps_intro)

lemma keeps_arguments [keeps_intro]: "keeps D F (evaluateArguments pf c item v)"
  unfolding evaluateArguments_def by (auto split: sum.split intro: keeps_intro)

lemma keeps_condition [keeps_intro]: "keeps D F (condition pf c item v)"
  unfolding condition_def by (auto split: sum.split intro: keeps_intro)

lemma plain_requests [simp]:
  "plain_request strict names F (DoStep r n)" "plain_request strict names F (SaveStep r n v)"
  "plain_request strict names F (SleepStep r n)" "plain_request strict names F (WaitForEvent r n)"
  "plain_request strict names F (ReadRun r)" "plain_request strict names F (ReadPlan n)" "plain_request strict names F (ReadState r)"
  "plain_request strict names F (StartRun r)" "plain_request strict names F (RejectStart r)" "plain_request strict names F (InterruptRun r)"
  "plain_request strict names F (InsertStep r n b row)" "plain_request strict names F (UpsertStep r n oc b)"
  "plain_request strict names F (ResumeStep r n)" "plain_request strict names F (AskApproval r n)"
  "plain_request strict names F (ReadStep r n)" "plain_request strict names F (ReadReceipt r n)"
  "plain_request strict names F (ReadCancellation r)" "plain_request strict names F (OpenGate r n vv d)"
  "plain_request strict names F (ReadGate r n)" "plain_request strict names F (ReadApproval r n vv)"
  "plain_request strict names F (ConsumeApproval r n vv)" "plain_request strict names F (ReservePortal r n g)"
  "plain_request strict names F (ReserveHttp r n g)" "plain_request strict names F (ReadFence r n)"
  "plain_request strict names F (Connect r)" "plain_request strict names F (ListTools r)" "plain_request strict names F CloseClient"
  "plain_request strict names F ReadBody" "plain_request strict names F Now" "plain_request strict names F Turn"
  "plain_request strict names F (LitterboxReceipt r s)" "plain_request strict names F (LitterboxFence r s)"
  "plain_request strict names F (ReadPublished n n')" "plain_request strict names F (ChildStatus r s n)"
  "plain_request strict names F (RegisterRollback r s)" "plain_request strict names F (WatchSessions r)"
  by (simp_all add: request_facts)

lemma keeps_step_do [keeps_intro]:
  "keeps (rules strict names) F body \<Longrightarrow> keeps (rules strict names) F (step_do r name enc dec body)"
  unfolding step_do_def
  by (intro keeps_ask plain_requests)
    (auto split: run_answer.split option.split intro!: keeps_intro)

lemma keeps_do [keeps_intro]:
  "keeps (rules strict names) F p \<Longrightarrow> keeps (rules strict names) F (do_outcome r name p)"
  "keeps (rules strict names) F q \<Longrightarrow> keeps (rules strict names) F (do_bool r name q)"
  "keeps (rules strict names) F v \<Longrightarrow> keeps (rules strict names) F (do_value r name v)"
  unfolding do_outcome_def do_bool_def do_value_def by (intro keeps_step_do; assumption)+

section \<open>The calls\<close>

definition cleared :: "bool \<Rightarrow> string \<Rightarrow> step \<Rightarrow> fact set \<Rightarrow> bool" where
  "cleared strict r s F \<longleftrightarrow> needs_recorded strict r (st_needs s) \<subseteq> F"

lemma cleared_child [simp]: "cleared strict r (child_step i u s w) F = cleared strict r s F"
  by (simp add: cleared_def child_step_def)

lemma reserve_then:
  \<comment> \<open>a reservation that was granted pays for one call\<close>
  assumes q: "plain_request strict names F q" "calls_reserved q = (\<lambda>a. case a of Changes n \<Rightarrow> if n = 1 then {#k#} else {#} | _ \<Rightarrow> {#})"
    and f: "\<And>n. n \<noteq> 1 \<Longrightarrow> keeps (rules strict names) F (f n)"
    and g: "follows (rules strict names) F {#k#} (f 1) anything anything"
  shows "keeps (rules strict names) F (bindP (ask_changes q) f)"
proof -
  have "follows (rules strict names) (F \<union> facts_learnt q (Changes n)) (if n = 1 then {#k#} else {#}) (f n) anything anything" for n
  proof (cases "n = 1")
    case True
    then show ?thesis using follows_learnt [OF g] by simp
  next
    case False
    then show ?thesis using keeps_follows [OF f] by simp
  qed
  then show ?thesis
    using q by (auto simp: keeps_def ask_changes_def plain_request_def follows_bind rethrow_def split: run_answer.split)
qed

lemma paid_call:
  \<comment> \<open>the call that a reservation pays for\<close>
  assumes "facts_needed strict names q \<subseteq> F" "calls_sent q = {#k#}" "\<And>a. keeps (rules strict names) F (f a)"
  shows "follows (rules strict names) F {#k#} (Ask q f) anything anything"
  using assms(1,2) keeps_follows [OF assms(3)] by auto

lemma catch_keeps:
  "follows D F H p anything anything \<Longrightarrow> (\<And>m. keeps D F (h m)) \<Longrightarrow> follows D F H (catchP p h) anything anything"
  unfolding follows_catch by (erule follows_weaken) (auto intro: keeps_follows)

lemma call_needs: "cleared strict r s F \<Longrightarrow> facts_needed strict names (CallTool r s args) \<subseteq> F"
  "cleared strict r s F \<Longrightarrow> facts_needed strict names (Fetch r s url m b) \<subseteq> F"
  by (simp_all add: facts_needed_def effect_of_def cleared_def)

lemma call_tool_paid:
  assumes "cleared strict r s F"
  shows "follows (rules strict names) F {#(r, st_id s)#} (call_tool pf r s args) anything anything"
  unfolding call_tool_def
proof (intro catch_keeps paid_call)
  show "facts_needed strict names (CallTool r s args) \<subseteq> F" using assms by (rule call_needs)
qed (auto simp: calls_sent_def split: run_answer.split intro!: keeps_intro)

lemma send_http_paid:
  assumes "cleared strict r s F"
  shows "follows (rules strict names) F {#(r, st_id s)#} (send_http pf r s url method body) anything anything"
  unfolding send_http_def
proof (intro catch_keeps paid_call)
  show "facts_needed strict names (Fetch r s url method body) \<subseteq> F" using assms by (rule call_needs)
qed (auto simp: calls_sent_def Let_def split: run_answer.split prod.split intro!: keeps_intro)

lemma reservePortal_then:
  assumes "follows (rules strict names) F {#(r, n)#} (f Reserved) anything anything"
    and "keeps (rules strict names) F (f Revoked)" "keeps (rules strict names) F (f AlreadyReserved)"
  shows "keeps (rules strict names) F (bindP (reservePortalCall r n g) f)"
proof (cases "g < 0 \<or> g > MAX_SAFE_INTEGER")
  case False
  have bind_assoc: "bindP (bindP p h) f = bindP p (\<lambda>x. bindP (h x) f)" for p :: "nat run" and h
    by (induction p) auto
  have assoc': "bindP (bindP p h) f = bindP p (\<lambda>x. bindP (h x) f)" for p :: "bool run" and h
    by (induction p) auto
  show ?thesis
    unfolding reservePortalCall_def if_not_P [OF False] bind_assoc
  proof (rule reserve_then [where k = "(r, n)"])
    show "keeps (rules strict names) F (bindP (if m = 1 then Return Reserved
        else bindP (ask_first (ReadFence r n)) (\<lambda>present. Return (if present then AlreadyReserved else Revoked))) f)"
      if "m \<noteq> 1" for m
      using that assms(2,3) by (auto simp: assoc' intro!: keeps_intro)
  qed (use assms(1) in \<open>auto simp: calls_reserved_def fun_eq_iff split: run_answer.split\<close>)
qed (auto simp: reservePortalCall_def intro: keeps_intro)

lemma keeps_reserved_call [keeps_intro]:
  "cleared strict r s F \<Longrightarrow> keeps (rules strict names) F (reserved_call pf p s args r)"
  unfolding reserved_call_def by (rule reservePortal_then) (auto intro: call_tool_paid keeps_Fail)

lemma keeps_mcp [keeps_intro]:
  "cleared strict r s F \<Longrightarrow> keeps (rules strict names) F (callApprovedMcp pf p s args r)"
  unfolding callApprovedMcp_def Let_def
  by (auto split: option.split run_answer.split sum.split intro!: keeps_intro)

lemma keeps_reserved_fetch [keeps_intro]:
  "cleared strict r s F \<Longrightarrow> keeps (rules strict names) F (reserved_fetch pf s r g url method body)"
  unfolding reserved_fetch_def
  by (rule reserve_then [where k = "(r, st_id s)"])
    (auto simp: calls_reserved_def fun_eq_iff split: run_answer.split intro!: keeps_intro send_http_paid)

lemma keeps_http [keeps_intro]:
  "cleared strict r s F \<Longrightarrow> keeps (rules strict names) F (callApprovedHttp pf p s r body)"
  unfolding callApprovedHttp_def Let_def
  by (auto split: option.split prod.split intro!: keeps_intro)

lemma keeps_fenced [keeps_intro]:
  "cleared strict r s F \<Longrightarrow> keeps (rules strict names) F (fenced_call pf p r s args e)"
  unfolding fenced_call_def by (intro keeps_intro) auto

end
