(* ===== verification/RunnerOrder.thy ===== *)
theory RunnerOrder
  imports RunnerRules
begin

text \<open>
  Every kind of step keeps to the rules of \<open>RunnerRules\<close>, and so does the run that executes them: the
  waves record each step before the steps that need it begin.
\<close>

section \<open>What a run knows of its steps\<close>

definition knows :: "string \<Rightarrow> completed \<Rightarrow> fact set \<Rightarrow> bool" where
  "knows r done F \<longleftrightarrow> (\<forall>n oc. map_of done n = Some oc \<longrightarrow> record_facts r n (oc_status oc) \<subseteq> F)"

lemma knows_mono: "knows r done F \<Longrightarrow> F \<subseteq> G \<Longrightarrow> knows r done G"
  by (fastforce simp: knows_def)

lemma permitted_cleared:
  assumes "knows r done F" "dependenciesPermitRun s done" "strict \<longrightarrow> \<not> st_allow_skipped s"
  shows "cleared strict r s F"
proof -
  have "Recorded r n strict \<in> F" if "n \<in> set (st_needs s)" for n
  proof -
    from that assms(2,3) obtain oc where oc: "map_of done n = Some oc"
      "oc_status oc = Succeeded \<or> \<not> strict \<and> oc_status oc = Skipped"
      by (fastforce simp: dependenciesPermitRun_def Let_def list_all_iff split: if_splits)
    with assms(1) have "record_facts r n (oc_status oc) \<subseteq> F" by (simp add: knows_def)
    with oc(2) show ?thesis by (cases strict) (auto simp: record_facts_def)
  qed
  then show ?thesis by (auto simp: cleared_def needs_recorded_def)
qed

section \<open>Waits\<close>

lemma keeps_wait [keeps_intro]: "keeps (rules strict names) F (runDurableWait pf s r done)"
  unfolding runDurableWait_def
  by (auto split: option.split run_answer.split intro!: keeps_intro)

lemma keeps_event [keeps_intro]: "keeps (rules strict names) F (runWaitForEvent pf s r done)"
  unfolding runWaitForEvent_def
  by (auto split: option.split run_answer.split prod.split intro!: keeps_intro)

lemma keeps_litterbox [keeps_intro]: "keeps (rules strict names) F (awaitLitterboxFileReceipt s r)"
  unfolding awaitLitterboxFileReceipt_def
  by (auto split: option.split run_answer.split intro!: keeps_intro)

section \<open>Loops\<close>

lemma loop_child_cleared [simp]: "cleared strict r (loop_child s i) F = cleared strict r s F"
  by (simp add: loop_child_def)

lemma keeps_loop_parts [keeps_intro]:
  "keeps (rules strict names) F (loop_check pf s r c i cur)"
  "keeps (rules strict names) F (loop_arguments pf s r c i cur)"
  "keeps (rules strict names) F (loop_complete pf i cur)"
  "cleared strict r s F \<Longrightarrow> keeps (rules strict names) F (loop_call pf p s r i args)"
  unfolding loop_check_def loop_arguments_def loop_complete_def loop_call_def
  by (auto split: sum.split intro!: keeps_intro)

lemma keeps_loop_round [keeps_intro]:
  "cleared strict r s F \<Longrightarrow> keeps (rules strict names) F (loop_round pf p s r c external i cur)"
  unfolding loop_round_def by (auto intro!: keeps_intro)

lemma keeps_loop_from [keeps_intro]:
  "cleared strict r s F \<Longrightarrow> keeps (rules strict names) F (loop_from pf p s r c while external k i cur)"
  by (induction k arbitrary: i cur) (auto simp: Let_def split: sum.split intro!: keeps_intro)

lemma keeps_loop [keeps_intro]:
  assumes "knows r (rc_done c) F" "strict \<longrightarrow> \<not> st_allow_skipped s"
  shows "keeps (rules strict names) F (runBoundedLoop pf p s r c)"
  unfolding runBoundedLoop_def Let_def
  using permitted_cleared [OF assms(1) _ assms(2)]
  by (auto split: option.split intro!: keeps_intro)

section \<open>Foreach\<close>

lemma keeps_task [keeps_intro]:
  "cleared strict r s F \<Longrightarrow> keeps (rules strict names) F (ask_outcome (GithubTask r (child_step i u s w)))"
  by (rule keeps_ask_outcome) (simp add: request_facts cleared_def child_step_def)

lemma keeps_foreach_entry [keeps_intro]: "keeps (rules strict names) F (foreach_entry pf p s c template typed i v)"
  unfolding foreach_entry_def by (auto split: sum.split intro!: keeps_intro)

lemma keeps_foreach_entries [keeps_intro]:
  "keeps (rules strict names) F (foreach_entries pf p s c template typed i vs)"
  by (induction vs arbitrary: i) (auto intro!: keeps_intro)

lemma keeps_foreach_snapshot [keeps_intro]:
  "keeps (rules strict names) F (foreach_snapshot pf p s r c template typed limit)"
  unfolding foreach_snapshot_def by (auto split: jsv.split intro!: keeps_intro)

lemma keeps_foreach_task [keeps_intro]:
  "cleared strict r s F \<Longrightarrow> keeps (rules strict names) F (foreach_task pf s r template dynamic e)"
  unfolding foreach_task_def Let_def by (auto split: run_answer.split intro!: keeps_intro)

lemma keeps_foreach_item [keeps_intro]:
  "cleared strict r s F \<Longrightarrow> keeps (rules strict names) F (foreach_item pf p s r template dynamic e)"
  unfolding foreach_item_def Let_def by (auto intro!: keeps_intro)

lemma keeps_foreach_items [keeps_intro]:
  "cleared strict r s F \<Longrightarrow> keeps (rules strict names) F (foreach_items pf p s r template dynamic i es collected good)"
  by (induction es arbitrary: i collected good) (auto intro!: keeps_intro)

lemma keeps_multi_parts [keeps_intro]:
  "keeps (rules strict names) F (multi_emit pf s r cs c item child i)"
  "keeps (rules strict names) F (multi_selection pf s r cs c item child earlier i)"
  "keeps (rules strict names) F (multi_arguments pf r c item child i)"
  "keeps (rules strict names) F (multi_snapshot pf s r c limit)"
  unfolding multi_emit_def multi_selection_def multi_arguments_def multi_snapshot_def
  by (auto split: jsv.split intro!: keeps_intro)

lemma keeps_multi_stage [keeps_intro]:
  "cleared strict r s F \<Longrightarrow> keeps (rules strict names) F (multi_stage pf p s r cs c index v stage child external)"
  unfolding multi_stage_def Let_def by (auto split: option.split intro!: keeps_intro)

lemma keeps_multi_children [keeps_intro]:
  "cleared strict r s F \<Longrightarrow>
    keeps (rules strict names) F (multi_children pf p s r cs c index v stage rest final good external)"
  by (induction rest arbitrary: c stage final good external)
    (auto split: sum.split prod.split intro!: keeps_intro)

lemma keeps_multi_items [keeps_intro]:
  "cleared strict r s F \<Longrightarrow> keeps (rules strict names) F (multi_items pf p s r cs c index vs collected good external)"
  by (induction vs arbitrary: index collected good external)
    (auto split: sum.split prod.split intro!: keeps_intro)

lemma keeps_multi [keeps_intro]:
  "cleared strict r s F \<Longrightarrow> keeps (rules strict names) F (runMultiForeach pf p s r c)"
  unfolding runMultiForeach_def Let_def by (auto split: option.split intro!: keeps_intro)

lemma keeps_foreach [keeps_intro]:
  assumes "knows r (rc_done c) F" "strict \<longrightarrow> \<not> st_allow_skipped s"
  shows "keeps (rules strict names) F (runForeachStep pf p s r c)"
  unfolding runForeachStep_def Let_def
  using permitted_cleared [OF assms(1) _ assms(2)]
  by (auto split: option.split intro!: keeps_intro)

section \<open>Child runs\<close>

lemma keeps_child_parts [keeps_intro]:
  "keeps (rules strict names) F (child_inputs pf s r c)"
  "keeps (rules strict names) F (do_child_row r name (ChildStatus r s child))"
  "cleared strict r s F \<Longrightarrow> keeps (rules strict names) F (do_child r name (StartChild b r s child))"
  "cleared strict r s F \<Longrightarrow> keeps (rules strict names) F (ask_ok (AdmitChild b r s child inputs))"
  unfolding child_inputs_def do_child_row_def do_child_def
  by (auto simp: request_facts cleared_def split: run_answer.split intro!: keeps_intro)

lemma keeps_child_observed [keeps_intro]:
  "cleared strict r s F \<Longrightarrow> keeps (rules strict names) F (child_observed pf s r child i)"
  unfolding child_observed_def by (auto split: option.split prod.split intro!: keeps_intro)

lemma keeps_detached [keeps_intro]:
  "cleared strict r s F \<Longrightarrow> keeps (rules strict names) F (detached_starts s r child version is)"
  by (induction "is") (auto simp: Let_def intro!: keeps_intro)

lemma keeps_awaited [keeps_intro]:
  "cleared strict r s F \<Longrightarrow> keeps (rules strict names) F (awaited_child pf s r child is)"
  by (induction "is") (auto split: option.split intro!: keeps_intro)

lemma keeps_admit [keeps_intro]:
  "cleared strict r s F \<Longrightarrow> keeps (rules strict names) F (admit_child s r b target version digest child inputs)"
  unfolding admit_child_def by (auto split: run_answer.split intro!: keeps_intro)

lemma keeps_child [keeps_intro]:
  assumes "knows r (rc_done c) F" "strict \<longrightarrow> \<not> st_allow_skipped s"
  shows "keeps (rules strict names) F (runAwaitedChild pf p s r c)"
  unfolding runAwaitedChild_def Let_def
  using permitted_cleared [OF assms(1) _ assms(2)]
  by (auto split: option.split prod.split intro!: keeps_intro)

section \<open>The approval gate\<close>

definition decided :: "string \<Rightarrow> string \<Rightarrow> approval_row option \<Rightarrow> fact set \<Rightarrow> bool" where
  "decided r s row F \<longleftrightarrow> (\<forall>ap. row = Some ap \<and> ap_approved ap \<longrightarrow> Approved r s \<in> F)"

lemma decided_mono: "decided r s row F \<Longrightarrow> F \<subseteq> G \<Longrightarrow> decided r s row G"
  by (auto simp: decided_def)

lemma read_approval:
  "follows (rules strict names) F {#} (readRuntimeApproval r s v) (\<lambda>G H row. decided r s row G) anything"
  by (auto simp: readRuntimeApproval_def facts_needed_def effect_of_def calls_sent_def calls_reserved_def
      facts_learnt_def decided_def rethrow_def split: run_answer.split option.split)

lemma keeps_gate_parts [keeps_intro]:
  "keeps (rules strict names) F (run_cancelled r)" "keeps (rules strict names) F ask_time"
  "keeps (rules strict names) F (openGate r s v now)"
  unfolding run_cancelled_def ask_time_def openGate_def
  by (auto split: run_answer.split option.split prod.split intro!: keeps_intro)

definition gains :: "bool \<Rightarrow> string list \<Rightarrow> fact set \<Rightarrow> 'r run \<Rightarrow> ('r \<Rightarrow> fact set \<Rightarrow> bool) \<Rightarrow> bool" where
  \<comment> \<open>a program that keeps to the rules and whose result tells of the facts learnt\<close>
  "gains strict names F p Q \<longleftrightarrow> follows (rules strict names) F {#} p (\<lambda>G H x. F \<subseteq> G \<and> Q x G) anything"

definition growing :: "('r \<Rightarrow> fact set \<Rightarrow> bool) \<Rightarrow> bool" where
  "growing Q \<longleftrightarrow> (\<forall>x F G. Q x F \<longrightarrow> F \<subseteq> G \<longrightarrow> Q x G)"

lemma growingD: "growing Q \<Longrightarrow> Q x F \<Longrightarrow> F \<subseteq> G \<Longrightarrow> Q x G"
  by (auto simp: growing_def)

lemma gains_more: "gains strict names F p Q \<Longrightarrow> growing Q \<Longrightarrow> F \<subseteq> G \<Longrightarrow>
    follows (rules strict names) G H p (\<lambda>G' K x. F \<subseteq> G' \<and> Q x G') anything"
  unfolding gains_def
  by (drule follows_more [of _ F "{#}" _ _ _ G H]) (auto simp: lasting_def Un_absorb1 intro: growingD)

lemma gains_of_follows:
  assumes "follows (rules strict names) F {#} p (\<lambda>G H x. Q x G) anything"
  shows "gains strict names F p Q"
  unfolding gains_def by (rule follows_weaken [OF assms]) auto

lemma gains_mono:
  assumes "gains strict names F p Q" "growing Q" "F \<subseteq> G"
  shows "gains strict names G p Q"
  by (rule gains_of_follows, rule follows_weaken [OF gains_more [OF assms]]) simp_all

lemma gains_Return: "gains strict names F (Return x) Q \<longleftrightarrow> Q x F"
  by (simp add: gains_def)

lemma gains_keeps: "keeps (rules strict names) F p \<Longrightarrow> (\<And>x. Q x F) \<Longrightarrow> growing Q \<Longrightarrow> gains strict names F p Q"
  unfolding keeps_def by (rule gains_of_follows, erule follows_weaken) (auto intro: growingD)

lemma gains_bind:
  assumes "gains strict names F p P" "growing Q" "\<And>x G. F \<subseteq> G \<Longrightarrow> P x G \<Longrightarrow> gains strict names G (f x) Q"
  shows "gains strict names F (bindP p f) Q"
  unfolding gains_def follows_bind
proof (rule follows_weaken [OF assms(1) [unfolded gains_def]])
  fix G H x
  assume "F \<subseteq> G \<and> P x G"
  then have FG: "F \<subseteq> G" and f: "gains strict names G (f x) Q" using assms(3) by auto
  show "follows (rules strict names) G H (f x) (\<lambda>G H x. F \<subseteq> G \<and> Q x G) anything"
    by (rule follows_weaken [OF gains_more [OF f assms(2) subset_refl]]) (use FG in auto)
qed auto

lemma gains_bind_keeps:
  assumes "keeps (rules strict names) F p" "growing Q" "\<And>x. gains strict names F (f x) Q"
  shows "gains strict names F (bindP p f) Q"
proof (rule gains_bind [where P = "\<lambda>_ G. F \<subseteq> G"])
  show "gains strict names F p (\<lambda>_ G. F \<subseteq> G)"
    by (rule gains_keeps [OF assms(1)]) (auto simp: growing_def)
  fix x G
  assume "F \<subseteq> G"
  with assms(2,3) show "gains strict names G (f x) Q" by (blast intro: gains_mono)
qed fact

lemma keeps_gain:
  assumes "gains strict names F p P" "\<And>x G. F \<subseteq> G \<Longrightarrow> P x G \<Longrightarrow> keeps (rules strict names) G (f x)"
  shows "keeps (rules strict names) F (bindP p f)"
  unfolding keeps_def
  by (rule keeps_after [OF assms(1) [unfolded gains_def]]) (use assms(2) in auto)

lemma gains_ask:
  assumes "plain_request strict names F q" "growing Q" "\<And>a. gains strict names F (k a) Q"
  shows "gains strict names F (Ask q k) Q"
  using assms(1) gains_more [OF assms(3) assms(2)]
  by (auto simp: gains_def plain_request_def intro!: follows_weaken [OF gains_more [OF assms(3) assms(2)]])

lemma growing_decided: "growing (\<lambda>x G. decided r s (snd x) G)"
  by (auto simp: growing_def intro: decided_mono)

lemma growing_approved: "growing (\<lambda>e G. e = None \<longrightarrow> Approved r s \<in> G)"
  by (auto simp: growing_def)

lemma gains_read: "gains strict names F (readRuntimeApproval r s v) (\<lambda>row G. decided r s row G)"
  by (rule gains_of_follows) (rule read_approval)

lemma gains_wakes:
  "decided r s decision F \<Longrightarrow>
    gains strict names F (approval_wakes r s v deadline k i decision) (\<lambda>x G. decided r s (snd x) G)"
proof (induction k arbitrary: i decision F)
  case 0
  then show ?case by (simp add: gains_Return)
next
  case (Suc k)
  have wake: "gains strict names F (Ask (WaitForEvent r e) (\<lambda>_. bindP (readRuntimeApproval r s v)
      (\<lambda>row. approval_wakes r s v deadline k (Suc i) row))) (\<lambda>x G. decided r s (snd x) G)" for e
    by (rule gains_ask [OF _ growing_decided], simp, rule gains_bind [OF gains_read growing_decided], rule Suc.IH)
  from Suc.prems have stop: "gains strict names F (Return (b, decision)) (\<lambda>x G. decided r s (snd x) G)" for b
    by (simp add: gains_Return)
  show ?case
    using wake stop by (auto intro!: gains_bind_keeps [OF _ growing_decided] keeps_gate_parts)
qed

lemma gains_verdict:
  "decided r s decision F \<Longrightarrow>
    gains strict names F (approval_verdict r s v deadline decision) (\<lambda>e G. e = None \<longrightarrow> Approved r s \<in> G)"
  unfolding approval_verdict_def
  by (intro gains_bind_keeps [OF _ growing_approved] keeps_gate_parts)
    (auto simp: gains_Return inTime_def decided_def split: option.splits
      intro!: gains_bind_keeps [OF _ growing_approved] keeps_gate_parts keeps_ask_changes)

lemma gains_gate:
  "gains strict names F (waitForRuntimeApproval r s v) (\<lambda>e G. e = None \<longrightarrow> Approved r s \<in> G)"
proof -
  have open_gate: "keeps (rules strict names) F (step_do r n SInt dec
      (bindP (ask_changes (AskApproval r s)) (\<lambda>_. bindP ask_time (\<lambda>t. openGate r s v t))))" for n dec
    by (intro keeps_intro plain_requests)
  show ?thesis
    unfolding waitForRuntimeApproval_def
    by (rule gains_bind_keeps [OF open_gate growing_approved], rule gains_bind [OF gains_read growing_approved],
        rule gains_bind [OF gains_wakes growing_approved])
      (auto simp: gains_Return split: prod.split intro: gains_verdict)
qed

section \<open>One step\<close>

lemma keeps_github_run:
  "cleared strict r s F \<Longrightarrow> (st_approval s \<longrightarrow> Approved r (st_id s) \<in> F) \<Longrightarrow>
    keeps (rules strict names) F (runGithubStep p s r)"
  unfolding runGithubStep_def by (auto simp: request_facts cleared_def intro!: keeps_intro)

lemma keeps_github [keeps_intro]:
  assumes "knows r (rc_done c) F" "strict \<longrightarrow> \<not> st_allow_skipped s"
  shows "keeps (rules strict names) F (github_step pf p version s r c)"
proof -
  have gate: "keeps (rules strict names) F (bindP (waitForRuntimeApproval r (st_id s) version) (\<lambda>e. case e of
      Some err \<Rightarrow> Return (outcome_of Failed err)
    | None \<Rightarrow> bindP (ask_changes (ResumeStep r (st_id s))) (\<lambda>_. runGithubStep p s r)))"
    if "cleared strict r s F"
  proof (rule keeps_gain [OF gains_gate])
    fix e :: "string option" and G
    assume "F \<subseteq> G" "e = None \<longrightarrow> Approved r (st_id s) \<in> G"
    with that show "keeps (rules strict names) G (case e of Some err \<Rightarrow> Return (outcome_of Failed err)
        | None \<Rightarrow> bindP (ask_changes (ResumeStep r (st_id s))) (\<lambda>_. runGithubStep p s r))"
      by (auto simp: cleared_def split: option.split intro!: keeps_intro keeps_github_run)
  qed
  show ?thesis
    unfolding github_step_def
    using permitted_cleared [OF assms(1) _ assms(2)]
    by (auto intro!: keeps_catch keeps_if keeps_Return keeps_bind [OF keeps_ask_changes] keeps_bind [OF keeps_condition]
        gate keeps_github_run)
qed

lemma keeps_action [keeps_intro]:
  assumes "knows r (rc_done c) F" "strict \<longrightarrow> \<not> st_allow_skipped s"
  shows "keeps (rules strict names) F (action_step pf s r c)"
proof -
  have "plain_request strict names F (CloudflareAction r s)" if "dependenciesPermitRun s (rc_done c)"
    using permitted_cleared [OF assms(1) that assms(2)] by (simp add: request_facts cleared_def)
  then show ?thesis unfolding action_step_def by (auto intro!: keeps_intro)
qed

lemma keeps_plain [keeps_intro]:
  assumes "knows r (rc_done c) F" "strict \<longrightarrow> \<not> st_allow_skipped s"
  shows "keeps (rules strict names) F (plain_step pf p s r c)"
proof -
  have http: "keeps (rules strict names) F (http_step pf p s r c)" if "cleared strict r s F"
    using that unfolding http_step_def by (auto split: sum.split intro!: keeps_intro)
  have mcp: "keeps (rules strict names) F (mcp_step pf p s r c)" if "cleared strict r s F"
    using that unfolding mcp_step_def by (auto intro!: keeps_intro)
  show ?thesis
    unfolding plain_step_def
    using permitted_cleared [OF assms(1) _ assms(2)]
    by (auto intro!: http mcp keeps_intro)
qed

lemma keeps_dispatch [keeps_intro]:
  "knows r (rc_done c) F \<Longrightarrow> strict \<longrightarrow> \<not> st_allow_skipped s \<Longrightarrow>
    keeps (rules strict names) F (dispatch_step pf p version s r c)"
  unfolding dispatch_step_def by (auto intro!: keeps_intro)

lemma keeps_compensation [keeps_intro]: "keeps (rules strict names) F (register_compensation p s r oc)"
  unfolding register_compensation_def by (auto intro!: keeps_intro)

definition recorded :: "string \<Rightarrow> step \<Rightarrow> fact set \<Rightarrow> step_outcome \<Rightarrow> bool" where
  "recorded r s F oc \<longleftrightarrow> record_facts r (st_id s) (oc_status oc) \<subseteq> F"

lemma recorded_growing: "growing (\<lambda>oc G. recorded r s G oc)"
  by (auto simp: growing_def recorded_def)

lemma gains_upsert:
  "gains strict names F (bindP (ask_changes (UpsertStep r (st_id s) oc g)) (\<lambda>_. Return oc)) (\<lambda>oc G. recorded r s G oc)"
  by (rule gains_of_follows)
    (auto simp: ask_changes_def facts_needed_def effect_of_def calls_sent_def calls_reserved_def
      facts_learnt_def recorded_def rethrow_def split: run_answer.split)

lemma gains_run_one:
  assumes "knows r (rc_done c) F" "strict \<longrightarrow> \<not> st_allow_skipped s"
  shows "gains strict names F (run_one pf p version r c s) (\<lambda>oc G. recorded r s G oc)"
  unfolding run_one_def
  by (intro gains_bind_keeps [OF _ recorded_growing] keeps_dispatch keeps_compensation gains_upsert) (use assms in auto)

section \<open>The waves\<close>

lemma gains_attempt:
  assumes "gains strict names F p P" "growing Q" "\<And>m. gains strict names F (h m) Q"
    and "\<And>y G. F \<subseteq> G \<Longrightarrow> P y G \<Longrightarrow> gains strict names G (k y) Q"
  shows "gains strict names F (try_run p h k) Q"
proof -
  have "gains strict names F (catchP (mapP Inr p) (\<lambda>m. Return (Inl m))) (\<lambda>x G. case x of Inl m \<Rightarrow> True | Inr y \<Rightarrow> P y G)"
    using assms(1) unfolding gains_def follows_catch mapP_def follows_bind
    by (rule follows_weaken) auto
  then show ?thesis
    unfolding try_run_def
    by (rule gains_bind [OF _ assms(2)]) (auto split: sum.splits intro: assms(4) gains_mono [OF assms(3,2)])
qed

lemma gains_attempt_keeps:
  assumes "keeps (rules strict names) F p" "growing Q" "\<And>m. gains strict names F (h m) Q" "\<And>y. gains strict names F (k y) Q"
  shows "gains strict names F (try_run p h k) Q"
proof (rule gains_attempt [OF _ assms(2,3)])
  show "gains strict names F p (\<lambda>_ _. True)"
    by (rule gains_keeps [OF assms(1)]) (simp_all add: growing_def)
qed (rule gains_mono [OF assms(4,2)])

lemma gains_wave:
  assumes "knows r (rc_done c) F" "\<forall>s \<in> set ready. strict \<longrightarrow> \<not> st_allow_skipped s"
  shows "gains strict names F (all_of Turn left_turn (map (run_one pf p version r c) ready))
    (\<lambda>ocs G. list_all2 (\<lambda>s. recorded r s G) ready ocs)"
proof (rule gains_of_follows)
  have "follows (rules strict names) F {#} (run_one pf p version r c s) (\<lambda>F H x. recorded r s F x) anything"
    if "s \<in> set ready" for s
    by (rule follows_weaken [OF gains_run_one [OF assms(1), unfolded gains_def]]) (use assms(2) that in auto)
  then have "follows (rules strict names) F {#} (all_of Turn left_turn (map (run_one pf p version r c) ready))
      (each (\<lambda>s F x. recorded r s F x) ready) anything"
    by (intro follows_all [OF idle_turn lasting_anything]) (auto simp: recorded_def)
  then show "follows (rules strict names) F {#} (all_of Turn left_turn (map (run_one pf p version r c) ready))
      (\<lambda>G H x. list_all2 (\<lambda>s. recorded r s G) ready x) anything"
    by (rule follows_weaken) (simp_all add: each_def)
qed

lemma knows_recorded:
  assumes "list_all2 (\<lambda>s. recorded r s G) ready ocs" "knows r (ws_done st) G"
  shows "knows r (ws_done (fold record_outcome (zip ready ocs) st)) G"
  using assms
proof (induction ready ocs arbitrary: st rule: list_all2_induct)
  case (Cons s ss oc ocs)
  have "knows r (ws_done (record_outcome (s, oc) st)) G"
    using Cons.prems Cons.hyps(1) by (auto simp: knows_def record_outcome_def recorded_def)
  then show ?case using Cons.IH by simp
qed simp

lemma good_wave:
  assumes "\<not> ws_failed (fold record_outcome (zip ready ocs) st)" "\<not> ws_uncertain (fold record_outcome (zip ready ocs) st)"
    "length ready = length ocs"
  shows "\<not> ws_failed st \<and> \<not> ws_uncertain st \<and> (\<forall>oc \<in> set ocs. oc_status oc = Succeeded \<or> oc_status oc = Skipped)"
  using assms(3,1,2)
proof (induction ready ocs arbitrary: st rule: list_induct2)
  case (Cons s ss oc ocs)
  then have "\<not> ws_failed (record_outcome (s, oc) st) \<and> \<not> ws_uncertain (record_outcome (s, oc) st) \<and>
      (\<forall>oc \<in> set ocs. oc_status oc = Succeeded \<or> oc_status oc = Skipped)" by simp
  then show ?case by (cases "oc_status oc") (auto simp: record_outcome_def)
qed simp

definition all_accounted :: "string list \<Rightarrow> string \<Rightarrow> step list \<Rightarrow> wave_state \<Rightarrow> fact set \<Rightarrow> bool" where
  \<comment> \<open>while nothing has failed, every step was recorded or is pending\<close>
  "all_accounted names r pending st F \<longleftrightarrow>
    (\<not> ws_failed st \<and> \<not> ws_uncertain st \<longrightarrow> (\<forall>n \<in> set names. Recorded r n False \<in> F \<or> n \<in> ids pending))"

definition end_accounted :: "string list \<Rightarrow> string \<Rightarrow> wave_end \<Rightarrow> fact set \<Rightarrow> bool" where
  "end_accounted names r e F \<longleftrightarrow> (\<forall>st. e = Ended st \<longrightarrow> all_accounted names r [] st F)"

lemma growing_accounted: "growing (end_accounted names r)"
  by (auto simp: growing_def end_accounted_def all_accounted_def)

lemma accounted_wave:
  assumes "all_accounted names r pending st F" "F \<subseteq> G" "list_all2 (\<lambda>s. recorded r s G) ready ocs"
  shows "all_accounted names r (without_ids ready pending) (fold record_outcome (zip ready ocs) st) G"
  unfolding all_accounted_def
proof (intro impI ballI)
  fix n
  let ?st = "fold record_outcome (zip ready ocs) st"
  assume good: "\<not> ws_failed ?st \<and> \<not> ws_uncertain ?st" and n: "n \<in> set names"
  have fine: "\<not> ws_failed st \<and> \<not> ws_uncertain st \<and> (\<forall>oc \<in> set ocs. oc_status oc = Succeeded \<or> oc_status oc = Skipped)"
    by (rule good_wave) (use good list_all2_lengthD [OF assms(3)] in auto)
  show "Recorded r n False \<in> G \<or> n \<in> ids (without_ids ready pending)"
  proof (cases "n \<in> ids ready")
    case True
    then obtain i where i: "i < length ready" "n = st_id (ready ! i)" by (auto simp: ids_def in_set_conv_nth)
    with assms(3) have "recorded r (ready ! i) G (ocs ! i)" "ocs ! i \<in> set ocs"
      by (auto simp: list_all2_conv_all_nth)
    with fine i(2) show ?thesis by (auto simp: recorded_def record_facts_def split: if_splits)
  next
    case False
    then show ?thesis using assms(1,2) fine n by (auto simp: all_accounted_def ids_def in_without)
  qed
qed

lemma keeps_skip [keeps_intro]:
  "keeps (rules strict names) F (skip_pending r ss)" "keeps (rules strict names) F (skip_saga r ss)"
  by (induction ss) (auto intro!: keeps_intro)

lemma keeps_owned [keeps_intro]: "keeps (rules strict names) F (still_owned p r pending)"
  unfolding still_owned_def by (auto split: run_answer.split intro!: keeps_intro)

lemma gains_waves:
  "knows r (ws_done st) F \<Longrightarrow> all_accounted names r pending st F \<Longrightarrow> \<forall>s \<in> set pending. strict \<longrightarrow> \<not> st_allow_skipped s \<Longrightarrow>
    gains strict names F (run_waves pf p version r inputs pending st) (end_accounted names r)"
proof (induction pf p version r inputs pending st arbitrary: F rule: run_waves.induct)
  case (1 pf p version r inputs pending st)
  let ?ready = "ready_now p (ws_done st) pending"
  let ?c = "\<lparr>rc_inputs = inputs, rc_done = ws_done st\<rparr>"
  have threw: "gains strict names F (Return (Threw st)) (end_accounted names r)"
    and stopped: "gains strict names F (Return (Stopped st)) (end_accounted names r)"
    by (simp_all add: gains_Return end_accounted_def)
  have wave: "gains strict names F (try_run (all_of Turn left_turn (map (run_one pf p version r ?c) ?ready))
      (\<lambda>_. Return (Threw st))
      (\<lambda>ocs. run_waves pf p version r inputs (without_ids ?ready pending) (fold record_outcome (zip ?ready ocs) st)))
      (end_accounted names r)"
    if "pending \<noteq> []" "\<not> (pl_saga p \<noteq> None \<and> (ws_failed st \<or> ws_uncertain st))" "?ready \<noteq> []"
  proof (rule gains_attempt [OF gains_wave growing_accounted threw])
    fix ocs and G :: "fact set"
    assume FG: "F \<subseteq> G" and ocs: "list_all2 (\<lambda>s. recorded r s G) ?ready ocs"
    show "gains strict names G (run_waves pf p version r inputs (without_ids ?ready pending)
        (fold record_outcome (zip ?ready ocs) st)) (end_accounted names r)"
    proof (rule "1.IH" [OF that(1) _ that(2) refl that(3)])
      show "knows r (ws_done (fold record_outcome (zip ?ready ocs) st)) G"
        by (rule knows_recorded [OF ocs knows_mono]) (use "1.prems" FG in auto)
    qed (use accounted_wave [OF "1.prems"(2) FG ocs] "1.prems"(3) in \<open>auto simp: in_without\<close>)
  qed (use "1.prems" ready_now_subset [of p "ws_done st" pending] in auto)
  have saga: "gains strict names F (try_run (skip_saga r pending) (\<lambda>_. Return (Threw st)) (\<lambda>_. Return (Ended st)))
      (end_accounted names r)" if "ws_failed st \<or> ws_uncertain st"
    using that
    by (intro gains_attempt_keeps keeps_skip growing_accounted threw) (auto simp: gains_Return end_accounted_def all_accounted_def)
  have "gains strict names F (Return (Ended st)) (end_accounted names r)" if "pending = []"
    using that "1.prems"(2) by (simp add: gains_Return end_accounted_def)
  then show ?case
    unfolding run_waves.simps [of pf p version r inputs pending st] Let_def
    using wave saga stopped threw
    by (auto intro!: gains_attempt_keeps keeps_owned growing_accounted)
qed

section \<open>The run\<close>

lemma keeps_settle [keeps_intro]:
  assumes "end_accounted names r e F"
  shows "keeps (rules strict names) F (settle_run pf p r e)"
proof -
  have "plain_request strict names F (FinishRun r (run_outcome st) out err)" if "e = Ended st" for st out err
    using assms that
    by (auto simp: request_facts run_outcome_def end_accounted_def all_accounted_def needs_recorded_def ids_def split: if_splits)
  then show ?thesis
    unfolding settle_run_def finish_run_def Let_def
    by (auto split: wave_end.split option.split intro!: keeps_intro)
qed

lemma put_pending_ids: "ids (put_pending s ss) = insert (st_id s) (ids ss)"
  by (auto simp: put_pending_def ids_def image_iff)

lemma pending_map_ids: "ids (pending_map ss) = ids ss"
proof -
  have "ids (fold put_pending ss acc) = ids ss \<union> ids acc" for acc
    by (induction ss arbitrary: acc) (simp_all add: put_pending_ids, simp_all add: ids_def)
  then show ?thesis by (simp add: pending_map_def) (simp add: ids_def)
qed

lemma pending_map_subset: "set (pending_map ss) \<subseteq> set ss"
proof -
  have "set (put_pending s acc) \<subseteq> insert s (set acc)" for s acc
    by (auto simp: put_pending_def)
  then have "set (fold put_pending ss acc) \<subseteq> set ss \<union> set acc" for acc
    by (induction ss arbitrary: acc) (fastforce+)
  from this [of "[]"] show ?thesis by (simp add: pending_map_def)
qed

lemma keeps_run_plan:
  assumes "strict \<longrightarrow> (\<forall>s \<in> set (pl_steps p). \<not> st_allow_skipped s)" "set names \<subseteq> ids (pl_steps p)"
  shows "keeps (rules strict names) F (run_plan pf p version r inputs)"
  unfolding run_plan_def
proof (rule keeps_gain [OF gains_waves keeps_settle])
  show "knows r (ws_done first_state) F" by (simp add: knows_def first_state_def)
  show "all_accounted names r (pending_map (pl_steps p)) first_state F"
    using assms(2) by (auto simp: all_accounted_def pending_map_ids)
  show "\<forall>s \<in> set (pending_map (pl_steps p)). strict \<longrightarrow> \<not> st_allow_skipped s"
    using assms(1) pending_map_subset by blast
qed

lemma keeps_orchestrate: "keeps (rules False []) F (orchestrate pf r)"
  unfolding orchestrate_def
  by (auto split: run_answer.split option.split prod.split intro!: keeps_intro keeps_run_plan)

end
