(* ===== verification/RunnerSafety.thy ===== *)
theory RunnerSafety
  imports RunnerOrder
begin

text \<open>
  What the discipline gives for runs of the workflow: the order of effects, gated dispatches and
  reported success on every trace of one run; and, for any number of runs that interleave, crash and
  are started again, at most one call per step, final outcomes and revocation.
\<close>

section \<open>Traces of one run\<close>

definition recorded_by :: "(request \<times> run_answer) list \<Rightarrow> string \<Rightarrow> string \<Rightarrow> step_status \<Rightarrow> bool" where
  \<comment> \<open>the outcome of the step was written to its row before\<close>
  "recorded_by tr r n st \<longleftrightarrow> (\<exists>oc g k. (UpsertStep r n oc g, Changes k) \<in> set tr \<and> oc_status oc = st)"

definition approved_by :: "(request \<times> run_answer) list \<Rightarrow> string \<Rightarrow> string \<Rightarrow> bool" where
  "approved_by tr r n \<longleftrightarrow> (\<exists>v ap. (ReadApproval r n v, GotApproval (Some ap)) \<in> set tr \<and> ap_approved ap)"

lemma learnt_recorded:
  "Recorded r n strict \<in> learnt (rules b names) tr \<Longrightarrow>
    recorded_by tr r n Succeeded \<or> \<not> strict \<and> recorded_by tr r n Skipped"
  unfolding learnt_def recorded_by_def
  by (auto simp: facts_learnt_def record_facts_def split: request.splits run_answer.splits option.splits if_splits) blast+

lemma learnt_approved: "Approved r n \<in> learnt (rules b names) tr \<Longrightarrow> approved_by tr r n"
  unfolding learnt_def approved_by_def
  by (auto simp: facts_learnt_def record_facts_def split: request.splits run_answer.splits option.splits if_splits) blast

lemma trace_facts:
  assumes "keeps (rules strict names) {} p" "trace p (tr @ [(q, a)])" "f \<in> facts_needed strict names q"
  shows "f \<in> learnt (rules strict names) tr"
  using trace_needs [OF assms(1) [unfolded keeps_def] assms(2)] assms(3) by auto

lemma effect_needed: "effect_of q = Some (r, s) \<Longrightarrow> n \<in> set (st_needs s) \<Longrightarrow> Recorded r n strict \<in> facts_needed strict names q"
  by (simp add: facts_needed_def needs_recorded_def)

section \<open>Any number of runs\<close>

definition reservations :: "store \<Rightarrow> (string \<times> string) multiset" where
  "reservations w = mset_set (dom (db_fences w))"

definition bounded_fences :: "store \<Rightarrow> bool" where
  "bounded_fences w \<longleftrightarrow> finite (dom (db_fences w))"

lemma within_set:
  assumes "mset xs \<subseteq># mset_set A"
  shows "distinct xs \<and> set xs \<subseteq> A"
proof
  have "count (mset xs) x \<le> 1" for x
  proof -
    have "count (mset xs) x \<le> count (mset_set A) x" by (rule mset_subset_eq_count [OF assms])
    also have "\<dots> \<le> 1" by (simp add: count_mset_set')
    finally show ?thesis .
  qed
  then have "count (mset xs) x = (if x \<in> set xs then 1 else 0)" for x
    by (metis One_nat_def count_eq_zero_iff le_0_eq le_Suc_eq set_mset_mset)
  then show "distinct xs" by (simp add: distinct_count_atmost_1)
  show "set xs \<subseteq> A"
    using set_mset_mono [OF assms] by (cases "finite A") auto
qed

definition ended :: "run_state \<Rightarrow> bool" where
  "ended st \<longleftrightarrow> st \<notin> {RQueued, RRunning}"

lemma perform_runs:
  assumes "perform q w = (a, w')" "db_runs w r = Some x" "ended (rr_state x)"
  shows "db_runs w' r = Some x"
  using assms
  by (cases q)
    (auto simp: ended_def set_run_def put_step_def reserve_def send_call_def split: option.splits if_splits)

lemma perform_rows:
  assumes "perform q w = (a, w')" "db_steps w k = Some row" "closed_row (sw_status row)"
  shows "db_steps w' k = Some row"
  using assms
  by (cases q)
    (auto simp: closed_row_def set_run_def put_step_def reserve_def send_call_def open_rows_def
      split: option.splits if_splits)

lemma perform_portal: "perform q w = (a, w') \<Longrightarrow> db_portal w' = db_portal w"
  by (cases q) (auto simp: set_run_def put_step_def reserve_def send_call_def split: option.splits if_splits)

lemma perform_fences:
  assumes "perform q w = (a, w')"
  shows "db_fences w' = db_fences w \<or>
    (\<exists>r s g. db_fences w (r, s) = None \<and> db_fences w' = (db_fences w)((r, s) \<mapsto> g) \<and> a = Some (Changes 1) \<and>
      calls_reserved q (Changes 1) = {#(r, s)#})"
  using assms
  by (cases q)
    (auto simp: set_run_def put_step_def reserve_def send_call_def calls_reserved_def split: option.splits if_splits)

lemma perform_sent:
  assumes "perform q w = (a, w')"
  shows "mset (sent_calls w') = mset (sent_calls w) + calls_sent q"
  using assms
  by (cases q)
    (auto simp: set_run_def put_step_def reserve_def send_call_def calls_sent_def split: option.splits if_splits)

lemma answers_cases:
  assumes "answers w q a w'"
  obtains "w' = w" "\<exists>m. a = Thrown m" | b where "perform q w = (b, w')" "b = Some a \<or> b = None \<or> (\<exists>m. a = Thrown m)"
  using assms by (cases rule: answers.cases) auto

inductive_cases othersE: "others w w'"

lemma others_runs:
  "others w w' \<Longrightarrow> db_runs w r = Some x \<Longrightarrow> ended (rr_state x) \<Longrightarrow>
     \<exists>start. db_runs w' r = Some (x\<lparr>rr_start_state := start\<rparr>)"
  by (erule othersE)
    (auto simp: ended_def changePortalAuthorization_def recordRuntimeApproval_def intro: exI [of _ "rr_start_state x"])

lemma others_rows: "others w w' \<Longrightarrow> db_steps w k = Some row \<Longrightarrow> closed_row (sw_status row) \<Longrightarrow> db_steps w' k = Some row"
  by (erule othersE)
    (auto simp: closed_row_def open_rows_def changePortalAuthorization_def recordRuntimeApproval_def)

lemma others_portal: "others w w' \<Longrightarrow> snd (db_portal w) \<le> snd (db_portal w')"
  by (erule othersE) (auto simp: changePortalAuthorization_def recordRuntimeApproval_def)

lemma others_fences: "others w w' \<Longrightarrow> db_fences w' = db_fences w \<and> sent_calls w' = sent_calls w"
  by (erule othersE) (auto simp: changePortalAuthorization_def recordRuntimeApproval_def)

lemma reserved_Changes: "calls_reserved q a \<noteq> {#} \<Longrightarrow> a = Changes 1 \<and> (\<exists>r s g. q = ReservePortal r s g \<or> q = ReserveHttp r s g)"
  by (auto simp: calls_reserved_def split: request.splits run_answer.splits if_splits)

lemma answers_issue:
  assumes "bounded_fences w" "answers w q a w'"
  shows "bounded_fences w' \<and> reservations w + calls_reserved q a \<subseteq># reservations w'"
  using assms(2)
proof (cases rule: answers_cases)
  case 1
  then have "calls_reserved q a = {#}" using reserved_Changes by fastforce
  with 1 assms(1) show ?thesis by simp
next
  case (2 b)
  show ?thesis
  proof (cases "calls_reserved q a = {#}")
    case True
    with perform_fences [OF 2(1)] assms(1) show ?thesis
      by (auto simp: bounded_fences_def reservations_def)
  next
    case False
    from reserved_Changes [OF False] obtain r s g where a: "a = Changes 1"
      and q: "q = ReservePortal r s g \<or> q = ReserveHttp r s g" by auto
    with 2 have "db_fences w (r, s) = None \<and> db_fences w' = (db_fences w)((r, s) \<mapsto> g)"
      by (auto simp: reserve_def split: if_splits)
    with q a assms(1) show ?thesis
      by (auto simp: bounded_fences_def reservations_def calls_reserved_def domIff)
  qed
qed

lemma answers_spend:
  assumes "answers w q a w'"
  shows "mset (sent_calls w') \<subseteq># mset (sent_calls w) + calls_sent q"
  using assms by (cases rule: answers_cases) (auto simp: perform_sent)

interpretation calls: stock answers others "rules False []" bounded_fences reservations "\<lambda>w. mset (sent_calls w)"
proof unfold_locales
  fix w w' q a
  show "bounded_fences w \<Longrightarrow> answers w q a w' \<Longrightarrow> bounded_fences w'"
    and "bounded_fences w \<Longrightarrow> answers w q a w' \<Longrightarrow> reservations w + grants (rules False []) q a \<subseteq># reservations w'"
    using answers_issue by simp_all
qed (use others_fences answers_spend in \<open>auto simp: bounded_fences_def reservations_def\<close>)

lemma moves_runs:
  assumes "pool_moves answers others main c c'" "db_runs (fst c) r = Some x" "ended (rr_state x)"
  shows "\<exists>start. db_runs (fst c') r = Some (x\<lparr>rr_start_state := start\<rparr>)"
  using assms(1,2)
proof (induction rule: pool_moves.induct)
  case (stay c)
  then show ?case by (auto intro: exI [of _ "rr_start_state x"])
next
  case (progress c w ps i q k a w')
  from progress.IH [OF progress.prems] obtain start where x: "db_runs w r = Some (x\<lparr>rr_start_state := start\<rparr>)" by auto
  from progress.hyps(4) have "db_runs w' r = Some (x\<lparr>rr_start_state := start\<rparr>)"
    by (cases rule: answers_cases) (use x perform_runs [OF _ x] assms(3) in auto)
  then show ?case by auto
next
  case (outside c w ps w')
  from outside.IH [OF outside.prems] obtain start where x: "db_runs w r = Some (x\<lparr>rr_start_state := start\<rparr>)" by auto
  from others_runs [OF outside.hyps(2) x] assms(3) show ?case by simp
qed auto

lemma moves_rows:
  assumes "pool_moves answers others main c c'" "db_steps (fst c) k = Some row" "closed_row (sw_status row)"
  shows "db_steps (fst c') k = Some row"
  using assms(1,2)
proof (induction rule: pool_moves.induct)
  case (progress c w ps i q k' a w')
  from progress.hyps(4) progress.IH [OF progress.prems] show ?case
    by (cases rule: answers_cases) (auto intro: perform_rows [OF _ _ assms(3)])
qed (use assms(3) others_rows in auto)

lemma moves_portal:
  assumes "pool_moves answers others main c c'"
  shows "snd (db_portal (fst c)) \<le> snd (db_portal (fst c'))"
  using assms
proof (induction rule: pool_moves.induct)
  case (progress c w ps i q k a w')
  from progress.hyps(4) have "db_portal w' = db_portal w"
    by (cases rule: answers_cases) (auto dest: perform_portal)
  with progress.IH show ?case by simp
next
  case (outside c w ps w')
  then show ?case using others_portal by fastforce
qed auto

inductive wave_reaches :: "plan \<Rightarrow> step list \<Rightarrow> wave_state \<Rightarrow> bool" for p where
  \<comment> \<open>the steps that are pending and the state after some waves, with any outcomes\<close>
  first: "wave_reaches p (pending_map (pl_steps p)) first_state"
| wave: "wave_reaches p pending st \<Longrightarrow> ready = ready_now p (ws_done st) pending \<Longrightarrow> length ocs = length ready \<Longrightarrow>
    wave_reaches p (without_ids ready pending) (fold record_outcome (zip ready ocs) st)"

definition compiled_from :: "step list \<Rightarrow> plan \<Rightarrow> bool" where
  \<comment> \<open>the steps of the plan are the sorted steps of a source\<close>
  "compiled_from ss p \<longleftrightarrow> distinct (map st_id ss) \<and> sort_steps ss = Inr (pl_steps p)"

lemma first_pending_ready:
  assumes "needs_before ss" "distinct (map st_id ss)" "set pending \<subseteq> set ss" "pending \<noteq> []"
    and "ids ss \<subseteq> ids pending \<union> {n. map_of done n \<noteq> None}"
  shows "\<exists>s \<in> set pending. \<forall>n \<in> set (st_needs s). map_of done n \<noteq> None"
proof -
  define open_at where "open_at i \<longleftrightarrow> i < length ss \<and> ss ! i \<in> set pending" for i
  from assms(3,4) obtain s where "s \<in> set pending" "s \<in> set ss" by (metis last_in_set subsetD)
  then have ex: "\<exists>i. open_at i" unfolding open_at_def by (metis in_set_conv_nth)
  define i where "i = (LEAST i. open_at i)"
  have i: "open_at i" unfolding i_def by (rule LeastI_ex [OF ex])
  have "map_of done n \<noteq> None" if n: "n \<in> set (st_needs (ss ! i))" for n
  proof
    assume not_done: "map_of done n = None"
    from assms(1) i n have "n \<in> ids (take i ss)" by (auto simp: needs_before_def open_at_def)
    then obtain t where "t \<in> set (take i ss)" "st_id t = n" by (auto simp: ids_def)
    then obtain j where j: "j < i" "j < length ss" "st_id (ss ! j) = n" by (auto simp: in_set_conv_nth)
    then have "n \<in> ids ss" by (auto simp: ids_def)
    with assms(5) not_done have "n \<in> ids pending" by auto
    then obtain t where t: "t \<in> set pending" "st_id t = n" by (auto simp: ids_def)
    with assms(2,3) j have "t = ss ! j" by (auto simp: distinct_map inj_on_def)
    with t(1) j have "open_at j" by (simp add: open_at_def)
    with not_less_Least [of j open_at] j(1) show False by (simp add: i_def)
  qed
  with i show ?thesis by (auto simp: open_at_def)
qed

lemma done_after_wave:
  assumes "length ready = length ocs"
  shows "{n. map_of (ws_done (fold record_outcome (zip ready ocs) st)) n \<noteq> None} =
    ids ready \<union> {n. map_of (ws_done st) n \<noteq> None}"
  using assms
  by (induction ready ocs arbitrary: st rule: list_induct2) (auto simp: record_outcome_def ids_def split: if_splits)

lemma waves_cover:
  "wave_reaches p pending st \<Longrightarrow>
    set pending \<subseteq> set (pl_steps p) \<and> ids (pl_steps p) \<subseteq> ids pending \<union> {n. map_of (ws_done st) n \<noteq> None}"
proof (induction rule: wave_reaches.induct)
  case first
  show ?case using pending_map_subset by (simp add: pending_map_ids)
next
  case (wave pending st ready ocs)
  have "ids pending \<subseteq> ids (without_ids ready pending) \<union> ids ready"
    by (auto simp: ids_def in_without)
  with wave.IH show ?case
    unfolding done_after_wave [OF wave.hyps(3) [symmetric]] by (auto simp: in_without)
qed

section \<open>Concrete runs\<close>

fun replay :: "('q, 'a, 'r) prog \<Rightarrow> 'a list \<Rightarrow> ('q \<times> 'a) list" where
  \<comment> \<open>the trace of a program for given answers\<close>
  "replay (Ask q k) (a # as) = (q, a) # replay (k a) as"
| "replay _ _ = []"

lemma trace_replay: "trace p (replay p as)"
  by (induction p as rule: replay.induct) (auto intro: trace.intros)

fun drive :: "store \<Rightarrow> 'r run \<Rightarrow> run_answer option list \<Rightarrow> store \<times> 'r run" where
  \<comment> \<open>some requests of a program: answered by the store, or by a peer with the given answer\<close>
  "drive w (Ask q k) (s # ss) =
    (case (perform q w, s) of
       ((Some a, w'), None) \<Rightarrow> drive w' (k a) ss
     | ((None, w'), Some a) \<Rightarrow> drive w' (k a) ss
     | _ \<Rightarrow> (w, Ask q k))"
| "drive w p ss = (w, p)"

lemma drive_moves:
  "pool_moves answers others main c (w, p # ps) \<Longrightarrow>
    pool_moves answers others main c (fst (drive w p ss), snd (drive w p ss) # ps)"
proof (induction ss arbitrary: w p)
  case (Cons s ss)
  show ?case
  proof (cases p)
    case (Ask q k)
    have go: "pool_moves answers others main c (w', k a # ps)" if "answers w q a w'" for a w'
      using pool_moves.progress [OF Cons.prems _ _ that, of 0] Ask by simp
    show ?thesis
      using Cons.prems
      by (auto simp: Ask split: prod.split option.split intro!: Cons.IH go intro: answered external)
  qed (use Cons.prems in simp_all)
qed simp

definition witness_platform :: platform where
  "witness_platform = \<lparr>pf_string = (\<lambda>_. []), pf_object = (\<lambda>_. 0), pf_bytes = (\<lambda>_. 2), pf_sha = (\<lambda>_. []), pf_portal = None,
     pf_credentials = False,
     pf_url = (\<lambda>s. Some \<lparr>hu_protocol = ''https:'', hu_username = [], hu_password = [], hu_port = [], hu_search = [],
       hu_hash = [], hu_hostname = ''api.example.com'', hu_pathname = ''/'', hu_href = s\<rparr>),
     pf_decode = id, pf_child_id = (\<lambda>_ _. []), pf_number = (\<lambda>_. NaN), pf_dynamic_task = (\<lambda>_. False),
     pf_task_contract = (\<lambda>_ _. None), pf_task_inputs = (\<lambda>_ _ v. Inr v), pf_frozen_digest = (\<lambda>_. []),
     pf_retired = (\<lambda>_. False)\<rparr>"

definition witness_fetch :: step where
  "witness_fetch = \<lparr>st_id = ''b'', st_uses = ''http.request'', st_needs = [''a''], st_allow_skipped = False,
     st_with = VObj [(''url'', VStr ''https://api.example.com/''), (''method'', VStr ''GET'')], st_if = VUndef,
     st_approval = False, st_compensate = False\<rparr>"

definition witness_plan :: "step list \<Rightarrow> plan" where
  "witness_plan ss = \<lparr>pl_steps = ss, pl_saga = None, pl_saga_approved = False, pl_risks_accepted = False,
     pl_write_approved = False, pl_mcp_approvals = [], pl_mcp_generation = 0,
     pl_http_approvals = [(''https://api.example.com/'', ''GET'')], pl_http_approved = True, pl_http_generation = Some 1,
     pl_github_approved = True, pl_child_approvals = []\<rparr>"

definition fetch_plan :: plan where
  "fetch_plan = witness_plan [witness_step ''a'' [], witness_fetch]"

definition witness_store :: store where
  "witness_store = \<lparr>db_runs = [''r'' \<mapsto> \<lparr>rr_version = ''v'', rr_inputs = VObj [], rr_state = RQueued, rr_result = None,
       rr_error = None, rr_child = False, rr_start_state = ''started''\<rparr>],
     db_plans = [''v'' \<mapsto> fetch_plan], db_steps = Map.empty, db_fences = Map.empty, db_portal = (True, 3), db_http = (True, 1),
     db_cancelled = {}, db_receipts = Map.empty, db_gates = Map.empty, db_approvals = Map.empty,
     db_checkpoints = Map.empty, sent_calls = []\<rparr>"

definition fetch_answers :: "run_answer list" where
  "fetch_answers = [Stored (SOutcome (succeeded_with VNull)), Changes 1, Fresh, Changes 1, Changes 1, GotResponse 200 False]"

definition fetch_trace :: "(request \<times> run_answer) list" where
  "fetch_trace = replay (run_plan witness_platform fetch_plan ''v'' ''r'' (VObj [])) fetch_answers"

definition emit_trace :: "(request \<times> run_answer) list" where
  "emit_trace = replay (run_plan witness_platform (witness_plan [witness_step ''a'' []]) ''v'' ''r'' (VObj []))
    [Stored (SOutcome (succeeded_with VNull)), Changes 1, Changes 1]"

definition gated_step :: step where
  "gated_step = \<lparr>st_id = ''b'', st_uses = ''github.run'', st_needs = [], st_allow_skipped = False,
     st_with = VObj [(''capability'', VStr ''github.action''), (''action'', VObj [(''type'', VStr ''session'')])],
     st_if = VUndef, st_approval = True, st_compensate = False\<rparr>"

definition gated_trace :: "(request \<times> run_answer) list" where
  "gated_trace = replay (orchestrate witness_platform ''r'')
    [GotRun (Some (''v'', VObj [], RRunning)), GotPlan (Some (witness_plan [gated_step])), GotState (Some RRunning), Changes 1,
     Stored (SInt 100), GotApproval (Some \<lparr>ap_approved = True, ap_created = 5, ap_consumed = False\<rparr>),
     GotState (Some RRunning), GotState (Some RRunning), Changes 1, Changes 1, GotOutcome (succeeded_with VNull)]"

definition crashed_store :: store where
  \<comment> \<open>the run died after its fetch was sent\<close>
  "crashed_store = fst (drive witness_store (orchestrate witness_platform ''r'')
    (replicate 10 None @ [Some (GotResponse 200 False)]))"

definition resumed_store :: store where
  "resumed_store = fst (drive crashed_store (orchestrate witness_platform ''r'') (replicate 11 None))"

definition workflow_runs :: "unit run \<Rightarrow> bool" where
  "workflow_runs p \<longleftrightarrow> (\<exists>pf r. p = orchestrate pf r)"

lemma crashed_moves: "\<exists>ps. pool_moves answers others workflow_runs (witness_store, []) (crashed_store, ps)"
proof -
  have "pool_moves answers others workflow_runs (witness_store, []) (witness_store, [orchestrate witness_platform ''r''])"
    by (rule pool_moves.launch [OF pool_moves.stay]) (auto simp: workflow_runs_def)
  from drive_moves [OF this] show ?thesis unfolding crashed_store_def by blast
qed

lemma resumed_moves: "\<exists>ps. pool_moves answers others workflow_runs (witness_store, []) (resumed_store, ps)"
proof -
  obtain ps where "pool_moves answers others workflow_runs (witness_store, []) (crashed_store, ps)"
    using crashed_moves by blast
  then have "pool_moves answers others workflow_runs (witness_store, []) (crashed_store, orchestrate witness_platform ''r'' # ps)"
    by (rule pool_moves.launch) (auto simp: workflow_runs_def)
  from drive_moves [OF this] show ?thesis unfolding resumed_store_def by blast
qed

section \<open>Properties\<close>

text \<open>C4: A step of a run takes effect outside it (a tool call, a fetch, a GitHub or Cloudflare dispatch,
  the start of a child run) only after each step that it needs was recorded as succeeded, or as
  skipped in a plan with a join that allows skipped steps.
\<close>

theorem effects_after_needs:
  assumes "trace (run_plan pf p version r inputs) (tr @ [(q, a)])"
    and "effect_of q = Some (r', s)" "n \<in> set (st_needs s)"
  shows "recorded_by tr r' n Succeeded \<or>
    recorded_by tr r' n Skipped \<and> (\<exists>x \<in> set (pl_steps p). st_allow_skipped x)"
proof -
  let ?strict = "\<forall>x \<in> set (pl_steps p). \<not> st_allow_skipped x"
  have "keeps (rules ?strict []) {} (run_plan pf p version r inputs)" by (rule keeps_run_plan) auto
  from learnt_recorded [OF trace_facts [OF this assms(1) effect_needed [OF assms(2,3)]]]
  show ?thesis by blast
qed

theorem effects_after_needs_witness:
  "recorded_by (butlast fetch_trace) ''r'' ''a'' Succeeded \<or>
   recorded_by (butlast fetch_trace) ''r'' ''a'' Skipped \<and> (\<exists>x \<in> set (pl_steps fetch_plan). st_allow_skipped x)"
proof (rule effects_after_needs)
  have "fetch_trace \<noteq> []" by code_simp
  then show "trace (run_plan witness_platform fetch_plan ''v'' ''r'' (VObj []))
      (butlast fetch_trace @ [(fst (last fetch_trace), snd (last fetch_trace))])"
    using trace_replay unfolding fetch_trace_def by fastforce
  show "effect_of (fst (last fetch_trace)) = Some (''r'', witness_fetch)" by code_simp
  show "''a'' \<in> set (st_needs witness_fetch)" by code_simp
qed

text \<open>C6: A run is reported as succeeded only after every step of its plan was recorded as succeeded or
  skipped.
\<close>

theorem success_accounts_for_steps:
  assumes "trace (run_plan pf p version r inputs) (tr @ [(FinishRun r' RSucceeded out err, a)])"
    and "s \<in> set (pl_steps p)"
  shows "recorded_by tr r' (st_id s) Succeeded \<or> recorded_by tr r' (st_id s) Skipped"
proof -
  have "keeps (rules False (map st_id (pl_steps p))) {} (run_plan pf p version r inputs)"
    by (rule keeps_run_plan) (auto simp: ids_def)
  moreover have "Recorded r' (st_id s) False \<in> facts_needed False (map st_id (pl_steps p)) (FinishRun r' RSucceeded out err)"
    using assms(2) by (simp add: facts_needed_def needs_recorded_def)
  ultimately show ?thesis using learnt_recorded [OF trace_facts [OF _ assms(1)]] by blast
qed

theorem success_accounts_for_steps_witness:
  "recorded_by (butlast emit_trace) ''r'' ''a'' Succeeded \<or> recorded_by (butlast emit_trace) ''r'' ''a'' Skipped"
proof -
  have "emit_trace \<noteq> []" by code_simp
  moreover have "last emit_trace = (FinishRun ''r'' RSucceeded VNull None, Changes 1)" by code_simp
  ultimately have "emit_trace = butlast emit_trace @ [(FinishRun ''r'' RSucceeded VNull None, Changes 1)]"
    by (metis append_butlast_last_id)
  then have "trace (run_plan witness_platform (witness_plan [witness_step ''a'' []]) ''v'' ''r'' (VObj []))
      (butlast emit_trace @ [(FinishRun ''r'' RSucceeded VNull None, Changes 1)])"
    using trace_replay unfolding emit_trace_def by metis
  from success_accounts_for_steps [OF this, of "witness_step ''a'' []"] show ?thesis
    by (simp add: witness_plan_def witness_step_def)
qed

text \<open>C37: A GitHub step that requires an approval is dispatched only after a decision that approves it
  has been read.
\<close>

theorem gated_dispatch_approved:
  assumes "trace (orchestrate pf r) (tr @ [(q, a)])"
    and "q = (if session then GithubSession r' s else GithubTask r' s)" "st_approval s"
  shows "approved_by tr r' (st_id s)"
  using learnt_approved [OF trace_facts [OF keeps_orchestrate assms(1)]] assms(2,3)
  by (auto simp: facts_needed_def split: if_splits)

theorem gated_dispatch_approved_witness: "approved_by (butlast gated_trace) ''r'' ''b''"
proof -
  have "gated_trace \<noteq> []" by code_simp
  then have "trace (orchestrate witness_platform ''r'')
      (butlast gated_trace @ [(fst (last gated_trace), snd (last gated_trace))])"
    using trace_replay unfolding gated_trace_def by fastforce
  moreover have "fst (last gated_trace) = (if True then GithubSession ''r'' gated_step else GithubTask ''r'' gated_step)"
    by code_simp
  moreover have "st_approval gated_step" by code_simp
  ultimately have "approved_by (butlast gated_trace) ''r'' (st_id gated_step)" by (rule gated_dispatch_approved)
  then show ?thesis by (simp add: gated_step_def)
qed

text \<open>C3: However many times runs are started, interleave, lose answers or die, and whatever the other
  handlers do meanwhile, no step of a run sends its tool call or fetch twice, and none is sent without
  its reservation.
\<close>

theorem one_call_per_step:
  assumes "pool_moves answers others workflow_runs (w, []) (w', ps)"
    and "finite (dom (db_fences w))" "sent_calls w = []"
  shows "distinct (sent_calls w') \<and> set (sent_calls w') \<subseteq> dom (db_fences w')"
proof -
  have "mset (sent_calls w') \<subseteq># reservations w'"
    by (rule calls.moves_within_stock [OF assms(1)])
      (use assms keeps_orchestrate in \<open>auto simp: bounded_fences_def workflow_runs_def keeps_def\<close>)
  from within_set [OF this [unfolded reservations_def]] show ?thesis .
qed

theorem one_call_per_step_witness:
  "sent_calls crashed_store = [(''r'', ''b'')] \<and>
   distinct (sent_calls resumed_store) \<and> set (sent_calls resumed_store) \<subseteq> dom (db_fences resumed_store)"
proof -
  obtain ps where "pool_moves answers others workflow_runs (witness_store, []) (resumed_store, ps)" using resumed_moves by blast
  moreover have "finite (dom (db_fences witness_store))" "sent_calls witness_store = []" by (simp_all add: witness_store_def)
  ultimately have "distinct (sent_calls resumed_store) \<and> set (sent_calls resumed_store) \<subseteq> dom (db_fences resumed_store)"
    by (rule one_call_per_step)
  moreover have "sent_calls crashed_store = [(''r'', ''b'')]" by code_simp
  ultimately show ?thesis by simp
qed

text \<open>C7: Whatever runs and whatever else happens, a run that has ended keeps its outcome, result and error,
  with its version and inputs: nothing of its row but the start state (and bookkeeping columns that are not
  modelled) is ever written again. The row of a step that has ended (succeeded, failed, skipped,
  indeterminate or cancelled, or an uncleared compensation) never changes again.
\<close>

theorem settled_for_good:
  assumes "pool_moves answers others main (w, ps) (w', ps')"
  shows "(\<forall>r x. db_runs w r = Some x \<and> rr_state x \<notin> {RQueued, RRunning} \<longrightarrow>
      (\<exists>start. db_runs w' r = Some (x\<lparr>rr_start_state := start\<rparr>))) \<and>
    (\<forall>k row. db_steps w k = Some row \<and> sw_status row \<notin> {Waiting, Running, WaitingApproval, Requested} \<longrightarrow>
      db_steps w' k = Some row)"
  using moves_runs [OF assms] moves_rows [OF assms] by (simp add: ended_def closed_row_def)

theorem settled_for_good_witness:
  "map_option sw_status (db_steps crashed_store (''r'', ''a'')) = Some (Settled Succeeded) \<and>
   db_steps resumed_store (''r'', ''a'') = db_steps crashed_store (''r'', ''a'')"
proof -
  have "pool_moves answers others workflow_runs (crashed_store, []) (crashed_store, [orchestrate witness_platform ''r''])"
    by (rule pool_moves.launch [OF pool_moves.stay]) (auto simp: workflow_runs_def)
  from drive_moves [OF this, of "replicate 11 None"]
  obtain ps where "pool_moves answers others workflow_runs (crashed_store, []) (resumed_store, ps)"
    unfolding resumed_store_def by blast
  note final = settled_for_good [OF this]
  have a: "map_option sw_status (db_steps crashed_store (''r'', ''a'')) = Some (Settled Succeeded)" by code_simp
  then obtain row where "db_steps crashed_store (''r'', ''a'') = Some row" "sw_status row = Settled Succeeded" by auto
  with final a show ?thesis by auto
qed

text \<open>C38: Once the portal connection has been revoked, no plan that was published under the revoked
  generation or an earlier one obtains a reservation for a tool call, whatever happens later, a new
  connection included.
\<close>

theorem revoked_plans_reserve_nothing:
  assumes "pool_moves answers others main (changePortalAuthorization True w, ps) (w', ps')"
    and "fst (db_portal w)" "pl_mcp_generation p \<le> snd (db_portal w)"
  shows "\<not> answers w' (ReservePortal r s (pl_mcp_generation p)) (Changes 1) w''"
proof
  assume "answers w' (ReservePortal r s (pl_mcp_generation p)) (Changes 1) w''"
  then have "db_portal w' = (True, pl_mcp_generation p)"
    by (cases rule: answers_cases) (auto simp: reserve_def split: if_splits)
  with moves_portal [OF assms(1)] assms(2,3) show False by (simp add: changePortalAuthorization_def)
qed

theorem revoked_plans_reserve_nothing_witness:
  "\<not> (\<exists>w''. answers (changePortalAuthorization False (changePortalAuthorization True witness_store))
     (ReservePortal ''r'' ''b'' (pl_mcp_generation fetch_plan)) (Changes 1) w'')"
proof -
  have "pool_moves answers others workflow_runs (changePortalAuthorization True witness_store, [])
      (changePortalAuthorization False (changePortalAuthorization True witness_store), [])"
    by (rule pool_moves.outside [OF pool_moves.stay]) (rule others.portal)
  moreover have "fst (db_portal witness_store)" "pl_mcp_generation fetch_plan \<le> snd (db_portal witness_store)"
    by (simp_all add: witness_store_def fetch_plan_def witness_plan_def)
  ultimately show ?thesis using revoked_plans_reserve_nothing by blast
qed

text \<open>C39: While a plan whose steps were sorted by the compiler still has steps pending, the next wave has a
  step that is ready, whatever the outcomes of the earlier waves: such a run never fails for want of one.
\<close>

theorem compiled_plan_progress:
  assumes "compiled_from ss p" "wave_reaches p pending st" "pending \<noteq> []"
  shows "ready_now p (ws_done st) pending \<noteq> []"
proof -
  from assms(1) have "mset (pl_steps p) = mset ss" "needs_before (pl_steps p)"
    using plan_waves_sound [of "[]" ss "pl_steps p"]
    by (simp_all add: compiled_from_def sort_steps_def needs_before_def)
  moreover from this(1) assms(1) have "distinct (map st_id (pl_steps p))"
    by (metis compiled_from_def mset_eq_imp_distinct_iff mset_map)
  ultimately have "\<exists>s \<in> set pending. \<forall>n \<in> set (st_needs s). map_of (ws_done st) n \<noteq> None"
    using waves_cover [OF assms(2)] assms(3) by (intro first_pending_ready) auto
  then show ?thesis by (auto simp: ready_now_def list_all_iff filter_empty_conv)
qed

theorem compiled_plan_progress_witness:
  "ready_now fetch_plan (ws_done first_state) (pending_map (pl_steps fetch_plan)) \<noteq> []"
proof (rule compiled_plan_progress)
  show "compiled_from [witness_fetch, witness_step ''a'' []] fetch_plan" by code_simp
  show "wave_reaches fetch_plan (pending_map (pl_steps fetch_plan)) first_state" by (rule wave_reaches.first)
  show "pending_map (pl_steps fetch_plan) \<noteq> []" by code_simp
qed

end
