(* ===== verification/RemoteArguments.thy ===== *)
theory RemoteArguments
  imports WebTypes
begin

text \<open>
  The argument checks of \<open>apps/remote-control-mcp-worker/src/local-read.ts\<close>: what the Worker accepts
  as the arguments of a tool before it sends the call to a device, and the device paths among them.
  An argument is \<open>None\<close> where the code sees \<open>undefined\<close>; each interface of the file is a constructor
  of \<open>local_call\<close>.
\<close>

section \<open>Numbers, schemes and paths\<close>

datatype search_type = Filename | Content
datatype write_mode = Rewrite | Append

datatype local_call =
    LocalRead string "int option" "int option"
  | LocalReadMultiple "string list"
  | LocalListDirectory string int
  | LocalFileInfo string
  | LocalSearch string string search_type
  | SearchSessionId string
  | LocalListSessions
  | LocalWriteFile string string string write_mode
  | LocalCreateDirectory string string
  | LocalEditBlock string string string string int
  | LocalMoveFile string string string
  | OperationId string
  | LocalStartProcess string string int
  | LocalProcessOutput string int int
  | LocalProcessInteraction string string string
  | LocalProcessTermination string string

definition MAX_PATH_LENGTH :: nat where "MAX_PATH_LENGTH = 4096"
definition MAX_WRITE_CONTENT_BYTES :: nat where "MAX_WRITE_CONTENT_BYTES = 49152"

definition integer_in :: "json option \<Rightarrow> int \<Rightarrow> int \<Rightarrow> int option" where
  \<comment> \<open>\<open>isIntegerInRange\<close>: the number, if it is an integer between the bounds\<close>
  "integer_in v lo hi = (case safe_int v of Some i \<Rightarrow> if lo \<le> i \<and> i \<le> hi then Some i else None | None \<Rightarrow> None)"

definition integer_or :: "int \<Rightarrow> json option \<Rightarrow> int \<Rightarrow> int \<Rightarrow> int option" where
  \<comment> \<open>the same for an argument with a default\<close>
  "integer_or d v lo hi = (case v of None \<Rightarrow> Some d | Some _ \<Rightarrow> integer_in v lo hi)"

definition optional_integer :: "json option \<Rightarrow> int \<Rightarrow> int \<Rightarrow> int option option" where
  "optional_integer v lo hi = (case v of None \<Rightarrow> Some None | Some _ \<Rightarrow> map_option Some (integer_in v lo hi))"

definition letter :: "char \<Rightarrow> bool" where
  "letter c \<longleftrightarrow> is_upper c \<or> is_lower c"

definition scheme_char :: "char \<Rightarrow> bool" where
  "scheme_char c \<longleftrightarrow> letter c \<or> is_digit c \<or> c \<in> set ''+.-''"

definition hasUriScheme :: "string \<Rightarrow> bool" where
  "hasUriScheme path \<longleftrightarrow>
     (case path of [] \<Rightarrow> False | c # rest \<Rightarrow> letter c \<and> hd_is (CHR '':'') (dropWhile scheme_char rest))"

definition NUL :: char where "NUL = CHR 0x00"
definition backslash :: char where "backslash = CHR 0x5C"

definition parsePath :: "json option \<Rightarrow> string option" where
  "parsePath value =
    (case as_str value of
       None \<Rightarrow> None
     | Some s \<Rightarrow>
         if s = [] \<or> length s > MAX_PATH_LENGTH then None
         else if NUL \<in> set s \<or> prefix ''//'' s \<or> hasUriScheme s then None
         else Some s)"

definition slash_like :: "char \<Rightarrow> bool" where
  "slash_like c \<longleftrightarrow> c = backslash \<or> c = CHR ''/''"

definition drive_absolute :: "string \<Rightarrow> bool" where
  "drive_absolute s \<longleftrightarrow> (case s of a # b # c # rest \<Rightarrow> letter a \<and> b = CHR '':'' \<and> slash_like c | _ \<Rightarrow> False)"

definition drive_double :: "string \<Rightarrow> bool" where
  "drive_double s \<longleftrightarrow> drive_absolute s \<and> (case drop 3 s of d # rest \<Rightarrow> slash_like d | [] \<Rightarrow> False)"

definition win32_special :: "char \<Rightarrow> bool" where
  "win32_special c \<longleftrightarrow> c \<in> set [CHR ''<'', CHR ''>'', CHR '':'', CHR 0x22, CHR ''|'', CHR ''?'', CHR ''*''] \<or> code c < 32"

definition parseDevicePath :: "json option \<Rightarrow> string option" where
  "parseDevicePath value =
    (case as_str value of
       None \<Rightarrow> None
     | Some s \<Rightarrow>
         if s = [] \<or> length s > MAX_PATH_LENGTH then None
         else if drive_absolute s
         then (if drive_double s \<or> list_ex win32_special (drop 2 s) \<or> prefix [backslash, backslash] s then None else Some s)
         else if prefix [backslash, backslash] s then None
         else parsePath value)"

section \<open>The parsers\<close>

definition as_record :: "json option \<Rightarrow> string list \<Rightarrow> (string \<times> json) list option" where
  \<comment> \<open>an object with no other keys than these\<close>
  "as_record input keys =
    (case input of
       Some (JObj kvs) \<Rightarrow> if set (obj_keys kvs) \<subseteq> set keys then Some kvs else None
     | _ \<Rightarrow> None)"

definition operation_id_char :: "char \<Rightarrow> bool" where
  "operation_id_char c \<longleftrightarrow> letter c \<or> is_digit c \<or> c \<in> set ''._:-''"

definition operation_id_ok :: "string \<Rightarrow> bool" where
  \<comment> \<open>the regular expression \<open>OPERATION_ID\<close>\<close>
  "operation_id_ok s \<longleftrightarrow> s \<noteq> ''.'' \<and> s \<noteq> ''..'' \<and> 1 \<le> length s \<and> length s \<le> 128 \<and> list_all operation_id_char s"

definition operation_id :: "(string \<times> json) list \<Rightarrow> string option" where
  "operation_id r =
    (case as_str (obj_get r ''operation_id'') of Some s \<Rightarrow> if operation_id_ok s then Some s else None | None \<Rightarrow> None)"

definition session_pattern :: "(char \<Rightarrow> bool) list" where
  \<comment> \<open>\<open>PROCESS_SESSION_ID\<close> and \<open>SEARCH_SESSION_ID\<close>: a version 4 UUID\<close>
  "session_pattern = hexes 8 @ lit ''-'' @ hexes 4 @ lit ''-4'' @ hexes 3 @ lit ''-'' @
     [\<lambda>c. c \<in> set ''89ab''] @ hexes 3 @ lit ''-'' @ hexes 12"

definition session_id :: "(string \<times> json) list \<Rightarrow> string option" where
  "session_id r =
    (case as_str (obj_get r ''session_id'') of Some s \<Rightarrow> if matches session_pattern s then Some s else None | None \<Rightarrow> None)"

definition nul_free_text :: "json option \<Rightarrow> (string \<Rightarrow> bool) \<Rightarrow> string option" where
  \<comment> \<open>a string without NUL that satisfies the condition\<close>
  "nul_free_text v p = (case as_str v of Some s \<Rightarrow> if p s \<and> NUL \<notin> set s then Some s else None | None \<Rightarrow> None)"

definition writable :: "string \<Rightarrow> bool" where
  "writable s \<longleftrightarrow> utf8_length s \<le> MAX_WRITE_CONTENT_BYTES"

definition parseLocalRead :: "json option \<Rightarrow> local_call option" where
  "parseLocalRead input =
    (case as_record input [''path'', ''offset'', ''length'', ''isUrl''] of
       None \<Rightarrow> None
     | Some r \<Rightarrow>
         if obj_get r ''isUrl'' \<noteq> None \<and> obj_get r ''isUrl'' \<noteq> Some (JBool False) then None
         else (case parseDevicePath (obj_get r ''path'') of
            None \<Rightarrow> None
          | Some path \<Rightarrow>
              (case (optional_integer (obj_get r ''offset'') (- 100000) 1000000,
                     optional_integer (obj_get r ''length'') 1 1000) of
                 (Some off, Some len) \<Rightarrow> Some (LocalRead path off len)
               | _ \<Rightarrow> None)))"

fun device_paths :: "json list \<Rightarrow> string list option" where
  "device_paths [] = Some []"
| "device_paths (v # vs) =
    (case parseDevicePath (Some v) of None \<Rightarrow> None | Some p \<Rightarrow> map_option ((#) p) (device_paths vs))"

definition parseReadMultiple :: "json option \<Rightarrow> local_call option" where
  "parseReadMultiple input =
    (case as_record input [''paths''] of
       None \<Rightarrow> None
     | Some r \<Rightarrow>
         (case obj_get r ''paths'' of
            Some (JArr vs) \<Rightarrow>
              if vs = [] \<or> length vs > 8 then None else map_option LocalReadMultiple (device_paths vs)
          | _ \<Rightarrow> None))"

definition parseListDirectory :: "json option \<Rightarrow> local_call option" where
  "parseListDirectory input =
    (case as_record input [''path'', ''depth''] of
       None \<Rightarrow> None
     | Some r \<Rightarrow>
         (case parseDevicePath (obj_get r ''path'') of
            None \<Rightarrow> None
          | Some path \<Rightarrow> map_option (LocalListDirectory path) (integer_or 1 (obj_get r ''depth'') 1 3)))"

definition parseFileInfo :: "json option \<Rightarrow> local_call option" where
  "parseFileInfo input =
    (case as_record input [''path''] of
       None \<Rightarrow> None
     | Some r \<Rightarrow> map_option LocalFileInfo (parseDevicePath (obj_get r ''path'')))"

definition parseSearchStart :: "json option \<Rightarrow> local_call option" where
  "parseSearchStart input =
    (case as_record input [''path'', ''pattern'', ''search_type''] of
       None \<Rightarrow> None
     | Some r \<Rightarrow>
         (case (parseDevicePath (obj_get r ''path''),
                nul_free_text (obj_get r ''pattern'') (\<lambda>s. s \<noteq> [] \<and> length s \<le> 256)) of
            (Some path, Some pattern) \<Rightarrow>
              if obj_get r ''search_type'' = Some (JStr ''filename'') then Some (LocalSearch path pattern Filename)
              else if obj_get r ''search_type'' = Some (JStr ''content'') then Some (LocalSearch path pattern Content)
              else None
          | _ \<Rightarrow> None))"

definition only_key :: "json option \<Rightarrow> string \<Rightarrow> (string \<times> json) list option" where
  "only_key input k =
    (case input of Some (JObj kvs) \<Rightarrow> if obj_keys kvs = [k] then Some kvs else None | _ \<Rightarrow> None)"

definition parseSearchSessionId :: "json option \<Rightarrow> local_call option" where
  "parseSearchSessionId input =
    (case only_key input ''session_id'' of None \<Rightarrow> None | Some r \<Rightarrow> map_option SearchSessionId (session_id r))"

definition parseListSessions :: "json option \<Rightarrow> local_call option" where
  "parseListSessions input = (if input = Some (JObj []) then Some LocalListSessions else None)"

definition parseLocalWriteFile :: "json option \<Rightarrow> local_call option" where
  "parseLocalWriteFile input =
    (case as_record input [''operation_id'', ''path'', ''content'', ''mode''] of
       None \<Rightarrow> None
     | Some r \<Rightarrow>
         (case (operation_id r, parseDevicePath (obj_get r ''path''), nul_free_text (obj_get r ''content'') writable) of
            (Some op, Some path, Some content) \<Rightarrow>
              if obj_get r ''mode'' = Some (JStr ''rewrite'') then Some (LocalWriteFile op path content Rewrite)
              else if obj_get r ''mode'' = Some (JStr ''append'') then Some (LocalWriteFile op path content Append)
              else None
          | _ \<Rightarrow> None))"

definition parseLocalCreateDirectory :: "json option \<Rightarrow> local_call option" where
  "parseLocalCreateDirectory input =
    (case as_record input [''operation_id'', ''path''] of
       None \<Rightarrow> None
     | Some r \<Rightarrow>
         (case (operation_id r, parseDevicePath (obj_get r ''path'')) of
            (Some op, Some path) \<Rightarrow> Some (LocalCreateDirectory op path)
          | _ \<Rightarrow> None))"

definition parseLocalDeleteFile :: "json option \<Rightarrow> local_call option" where
  "parseLocalDeleteFile input = parseLocalCreateDirectory input"

definition parseLocalEditBlock :: "json option \<Rightarrow> local_call option" where
  "parseLocalEditBlock input =
    (case as_record input [''operation_id'', ''file_path'', ''old_string'', ''new_string'', ''expected_replacements''] of
       None \<Rightarrow> None
     | Some r \<Rightarrow>
         (case (operation_id r, parseDevicePath (obj_get r ''file_path''),
                nul_free_text (obj_get r ''old_string'') (\<lambda>s. s \<noteq> [] \<and> writable s),
                nul_free_text (obj_get r ''new_string'') writable) of
            (Some op, Some path, Some old, Some new) \<Rightarrow>
              map_option (LocalEditBlock op path old new) (integer_or 1 (obj_get r ''expected_replacements'') 1 1000)
          | _ \<Rightarrow> None))"

definition parseLocalMoveFile :: "json option \<Rightarrow> local_call option" where
  "parseLocalMoveFile input =
    (case as_record input [''operation_id'', ''source'', ''destination''] of
       None \<Rightarrow> None
     | Some r \<Rightarrow>
         (case (operation_id r, parseDevicePath (obj_get r ''source''), parseDevicePath (obj_get r ''destination'')) of
            (Some op, Some a, Some b) \<Rightarrow> if a = b then None else Some (LocalMoveFile op a b)
          | _ \<Rightarrow> None))"

definition parseOperationId :: "json option \<Rightarrow> local_call option" where
  "parseOperationId input =
    (case only_key input ''operation_id'' of None \<Rightarrow> None | Some r \<Rightarrow> map_option OperationId (operation_id r))"

definition parseStartProcess :: "json option \<Rightarrow> local_call option" where
  "parseStartProcess input =
    (case as_record input [''operation_id'', ''command'', ''timeout_ms''] of
       None \<Rightarrow> None
     | Some r \<Rightarrow>
         (case (operation_id r, nul_free_text (obj_get r ''command'') (\<lambda>s. s \<noteq> [] \<and> length s \<le> 8192)) of
            (Some op, Some command) \<Rightarrow>
              map_option (LocalStartProcess op command) (integer_or 1000 (obj_get r ''timeout_ms'') 0 30000)
          | _ \<Rightarrow> None))"

definition parseLocalProcessOutput :: "json option \<Rightarrow> local_call option" where
  "parseLocalProcessOutput input =
    (case as_record input [''session_id'', ''offset'', ''length''] of
       None \<Rightarrow> None
     | Some r \<Rightarrow>
         (case (session_id r, integer_or 0 (obj_get r ''offset'') 0 262144,
                integer_or 16384 (obj_get r ''length'') 1 65536) of
            (Some i, Some off, Some len) \<Rightarrow> Some (LocalProcessOutput i off len)
          | _ \<Rightarrow> None))"

definition parseLocalProcessInteraction :: "json option \<Rightarrow> local_call option" where
  "parseLocalProcessInteraction input =
    (case as_record input [''operation_id'', ''session_id'', ''input''] of
       None \<Rightarrow> None
     | Some r \<Rightarrow>
         (case (operation_id r, session_id r,
                nul_free_text (obj_get r ''input'') (\<lambda>s. s \<noteq> [] \<and> utf8_length s \<le> 8192)) of
            (Some op, Some i, Some text) \<Rightarrow> Some (LocalProcessInteraction op i text)
          | _ \<Rightarrow> None))"

definition parseLocalProcessTermination :: "json option \<Rightarrow> local_call option" where
  "parseLocalProcessTermination input =
    (case as_record input [''operation_id'', ''session_id''] of
       None \<Rightarrow> None
     | Some r \<Rightarrow>
         (case (operation_id r, session_id r) of
            (Some op, Some i) \<Rightarrow> Some (LocalProcessTermination op i)
          | _ \<Rightarrow> None))"

section \<open>Admission of a call\<close>

text \<open>The tables of parsers and the checks at the head of \<open>readFile\<close> of \<open>v2-pairing.ts\<close>.\<close>

definition parsers :: "(string \<times> (json option \<Rightarrow> local_call option)) list" where
  "parsers =
    [(''read_file'', parseLocalRead), (''read_multiple_files'', parseReadMultiple),
     (''list_directory'', parseListDirectory), (''get_file_info'', parseFileInfo),
     (''start_search'', parseSearchStart), (''get_more_search_results'', parseSearchSessionId),
     (''stop_search'', parseSearchSessionId),
     (''list_sessions'', parseListSessions), (''read_process_output'', parseLocalProcessOutput)]"

definition mutationParsers :: "(string \<times> (json option \<Rightarrow> local_call option)) list" where
  "mutationParsers =
    [(''write_file'', parseLocalWriteFile), (''create_directory'', parseLocalCreateDirectory),
     (''edit_block'', parseLocalEditBlock), (''move_file'', parseLocalMoveFile),
     (''delete_file'', parseLocalDeleteFile), (''start_process'', parseStartProcess),
     (''interact_with_process'', parseLocalProcessInteraction), (''force_terminate'', parseLocalProcessTermination)]"

definition spread :: "json option \<Rightarrow> (string \<times> json) list" where
  \<comment> \<open>the properties that \<open>{ ...v }\<close> copies\<close>
  "spread v =
    (case v of
       Some (JObj kvs) \<Rightarrow> kvs
     | Some (JArr vs) \<Rightarrow> zip (map nat_str [0..<length vs]) vs
     | Some (JStr s) \<Rightarrow> zip (map nat_str [0..<length s]) (map (\<lambda>c. JStr [c]) s)
     | _ \<Rightarrow> [])"

definition with_property :: "string \<Rightarrow> json \<Rightarrow> (string \<times> json) list \<Rightarrow> (string \<times> json) list" where
  "with_property k v kvs =
    (if k \<in> set (obj_keys kvs) then map (\<lambda>(l, w). if l = k then (l, v) else (l, w)) kvs else kvs @ [(k, v)])"

definition valid_operation :: "json option \<Rightarrow> json option \<Rightarrow> json option \<Rightarrow> local_call option" where
  \<comment> \<open>\<open>validOperation\<close>, with what the parser made of the arguments\<close>
  "valid_operation operationId tool arguments =
    (case as_str operationId of
       None \<Rightarrow> None
     | Some op \<Rightarrow>
         if parseOperationId (Some (JObj [(''operation_id'', JStr op)])) = None then None
         else if tool = Some (JStr ''get_operation_status'')
         then (case parseOperationId arguments of
                 Some (OperationId i) \<Rightarrow> if i = op then Some (OperationId i) else None
               | _ \<Rightarrow> None)
         else (case as_str tool of
                 None \<Rightarrow> None
               | Some t \<Rightarrow>
                   (case map_of mutationParsers t of
                      None \<Rightarrow> None
                    | Some parse \<Rightarrow> parse (Some (JObj (with_property ''operation_id'' (JStr op) (spread arguments)))))))"

definition valid_read :: "json option \<Rightarrow> json option \<Rightarrow> local_call option" where
  "valid_read tool arguments =
    (case as_str tool of
       None \<Rightarrow> None
     | Some t \<Rightarrow> (case map_of parsers t of None \<Rightarrow> None | Some parse \<Rightarrow> parse arguments))"

definition admitted_call :: "bool \<Rightarrow> json option \<Rightarrow> (string \<times> local_call) option" where
  \<comment> \<open>the device and the call, or a 400 answer; the body is None when it could not be read\<close>
  "admitted_call isOperation body =
    (case body of
       Some (JObj arg) \<Rightarrow>
         if length (obj_keys arg) \<noteq> (if isOperation then 4 else 3) then None
         else
           (case (if isOperation then valid_operation (obj_get arg ''operation_id'') (obj_get arg ''tool'') (obj_get arg ''arguments'')
                  else valid_read (obj_get arg ''tool'') (obj_get arg ''arguments'')) of
              None \<Rightarrow> None
            | Some call \<Rightarrow>
                (case as_str (obj_get arg ''device_id'') of
                   Some d \<Rightarrow> if is_uuid d then Some (d, call) else None
                 | None \<Rightarrow> None))
     | _ \<Rightarrow> None)"

section \<open>What an admitted call is\<close>

text \<open>The paths and the operation id of a call.\<close>

fun call_paths :: "local_call \<Rightarrow> string list" where
  "call_paths (LocalRead p off len) = [p]"
| "call_paths (LocalReadMultiple ps) = ps"
| "call_paths (LocalListDirectory p d) = [p]"
| "call_paths (LocalFileInfo p) = [p]"
| "call_paths (LocalSearch p pattern t) = [p]"
| "call_paths (LocalWriteFile op p content m) = [p]"
| "call_paths (LocalCreateDirectory op p) = [p]"
| "call_paths (LocalEditBlock op p old new n) = [p]"
| "call_paths (LocalMoveFile op a b) = [a, b]"
| "call_paths _ = []"

fun call_operation :: "local_call \<Rightarrow> string option" where
  "call_operation (LocalWriteFile op p content m) = Some op"
| "call_operation (LocalCreateDirectory op p) = Some op"
| "call_operation (LocalEditBlock op p old new n) = Some op"
| "call_operation (LocalMoveFile op a b) = Some op"
| "call_operation (OperationId op) = Some op"
| "call_operation (LocalStartProcess op command t) = Some op"
| "call_operation (LocalProcessInteraction op i text) = Some op"
| "call_operation (LocalProcessTermination op i) = Some op"
| "call_operation _ = None"

text \<open>A path that is passed on is the caller's own text. It starts with neither two slashes nor two
  backslashes, and it is neither a URL nor a path relative to a drive. The test of the prefix is the
  code's own: Windows also reads a slash followed by a backslash as the start of a UNC path, and that
  pair passes (\<open>mixed_unc_accepted\<close> below), although the comment above \<open>parseDevicePath\<close> says that UNC
  paths are rejected.\<close>

definition drive_relative :: "string \<Rightarrow> bool" where
  "drive_relative s \<longleftrightarrow>
     (case s of
        a # b # rest \<Rightarrow> letter a \<and> b = CHR '':'' \<and> \<not> hd_is backslash rest \<and> \<not> hd_is (CHR ''/'') rest
      | _ \<Rightarrow> False)"

definition doubled_start :: "string \<Rightarrow> bool" where
  "doubled_start s \<longleftrightarrow> prefix [backslash, backslash] s \<or> prefix ''//'' s"

definition plain_path :: "string \<Rightarrow> bool" where
  "plain_path p \<longleftrightarrow> p \<noteq> [] \<and> length p \<le> MAX_PATH_LENGTH \<and> NUL \<notin> set p \<and> \<not> doubled_start p \<and> \<not> drive_relative p \<and>
     (hasUriScheme p \<longleftrightarrow> drive_absolute p)"

lemma drive_relative_scheme: "drive_relative s \<Longrightarrow> hasUriScheme s \<and> \<not> drive_absolute s"
  by (auto simp: drive_relative_def hasUriScheme_def drive_absolute_def slash_like_def hd_is_def scheme_char_def
      letter_def char_class_defs split: list.splits)

lemma drive_absolute_scheme: "drive_absolute s \<Longrightarrow> hasUriScheme s"
  by (auto simp: drive_absolute_def hasUriScheme_def hd_is_def scheme_char_def letter_def char_class_defs
      split: list.splits)

lemma letter_plain: "letter a \<Longrightarrow> a \<noteq> CHR ''/'' \<and> a \<noteq> NUL"
  by (auto simp: letter_def char_class_defs NUL_def)

lemma drive_absolute_clean:
  assumes "drive_absolute s" "\<not> list_ex win32_special (drop 2 s)"
  shows "NUL \<notin> set s" "\<not> prefix ''//'' s"
proof -
  obtain a c r where s: "s = a # CHR '':'' # c # r" and a: "letter a"
    using assms(1) by (auto simp: drive_absolute_def split: list.splits)
  have "win32_special NUL" by (simp add: win32_special_def NUL_def code_def)
  with s a assms(2) show "NUL \<notin> set s" "\<not> prefix ''//'' s"
    using letter_plain [OF a] by (auto simp: list_ex_iff NUL_def)
qed

lemma parsePath_plain: "parsePath v = Some p \<Longrightarrow> \<not> prefix [backslash, backslash] p \<Longrightarrow> plain_path p"
  using drive_relative_scheme [of p] drive_absolute_scheme [of p]
  by (auto simp: parsePath_def plain_path_def doubled_start_def split: option.splits if_splits)

lemma parseDevicePath_plain:
  assumes "parseDevicePath v = Some p"
  shows "v = Some (JStr p)" "plain_path p"
proof -
  have v: "as_str v = Some p"
    using assms by (auto simp: parseDevicePath_def parsePath_def split: option.splits if_splits)
  then show "v = Some (JStr p)"
    by (auto simp: as_str_def split: option.splits json.splits)
  show "plain_path p"
  proof (cases "drive_absolute p")
    case True
    with assms v show ?thesis
      using drive_relative_scheme [of p] drive_absolute_scheme [of p] drive_absolute_clean [of p]
      by (auto simp: parseDevicePath_def plain_path_def doubled_start_def split: if_splits)
  next
    case False
    with assms v show ?thesis
      by (auto simp: parseDevicePath_def intro: parsePath_plain split: if_splits)
  qed
qed

text \<open>The array of \<open>read_multiple_files\<close>: the checked paths are its items, none left out.\<close>

lemma device_paths_plain: "device_paths vs = Some ps \<Longrightarrow> list_all plain_path ps \<and> vs = map JStr ps"
  by (induction vs arbitrary: ps) (auto dest: parseDevicePath_plain split: option.splits)

lemma mixed_unc_accepted:
  "parseDevicePath (Some (JStr (CHR ''/'' # backslash # ''server/share''))) =
     Some (CHR ''/'' # backslash # ''server/share'')"
  by code_simp

lemma operation_id_Some:
  "operation_id r = Some op \<longleftrightarrow> obj_get r ''operation_id'' = Some (JStr op) \<and> operation_id_ok op"
  by (auto simp: operation_id_def as_str_def split: option.splits json.splits)

lemma map_option_Some: "map_option f x = Some y \<longleftrightarrow> (\<exists>z. x = Some z \<and> y = f z)"
  by (cases x) auto

text \<open>What every parser guarantees of the arguments it accepts: the paths of the call are plain, and
  are all that the arguments have under the keys where a device looks for a path, the items of the
  array \<open>paths\<close> of \<open>read_multiple_files\<close> among them (\<open>v2-pairing.ts\<close> sends the arguments of a read as
  they came, not what the parser made of them).\<close>

definition path_keys :: "string list" where
  "path_keys = [''path'', ''file_path'', ''source'', ''destination'']"

fun values_under :: "string list \<Rightarrow> (string \<times> json) list \<Rightarrow> json set" where
  "values_under [] kvs = {}"
| "values_under (k # ks) kvs = set_option (obj_get kvs k) \<union> values_under ks kvs"

lemma values_under_iff: "w \<in> values_under ks kvs \<longleftrightarrow> (\<exists>k \<in> set ks. obj_get kvs k = Some w)"
  by (induction ks) (auto simp: elem_set)

lemma values_under_allowed:
  assumes "set (obj_keys kvs) \<subseteq> K"
  shows "values_under ks kvs = values_under (filter (\<lambda>k. k \<in> K) ks) kvs"
proof (induction ks)
  case (Cons k ks)
  have "k \<notin> K \<Longrightarrow> obj_get kvs k = None" using assms by (auto simp: obj_get_None)
  with Cons show ?case by auto
qed simp

fun items :: "json option \<Rightarrow> json set" where
  "items None = {}"
| "items (Some (JArr vs)) = set vs"
| "items (Some v) = {v}"

definition carried :: "(string \<times> json) list \<Rightarrow> json set" where
  \<comment> \<open>all that a device takes for a path: the items of \<open>paths\<close>, and the values of the other keys\<close>
  "carried kvs = items (obj_get kvs ''paths'') \<union> values_under path_keys kvs"

lemma no_paths: "set (obj_keys kvs) \<subseteq> K \<Longrightarrow> ''paths'' \<notin> K \<Longrightarrow> items (obj_get kvs ''paths'') = {}"
  by (metis items.simps(1) obj_get_None subsetD)

lemma as_record_Some:
  "as_record v keys = Some kvs \<longleftrightarrow> v = Some (JObj kvs) \<and> set (obj_keys kvs) \<subseteq> set keys \<and>
     carried kvs = (if ''paths'' \<in> set keys then items (obj_get kvs ''paths'') else {}) \<union>
       values_under (filter (\<lambda>k. k \<in> set keys) path_keys) kvs"
  using values_under_allowed [of kvs "set keys" path_keys] no_paths [of kvs "set keys"]
  by (auto simp: as_record_def carried_def split: option.splits json.splits)

lemma only_key_Some:
  "only_key v k = Some kvs \<longleftrightarrow> v = Some (JObj kvs) \<and> obj_keys kvs = [k] \<and>
     carried kvs = (if k = ''paths'' then items (obj_get kvs ''paths'') else {}) \<union>
       values_under (filter (\<lambda>l. l = k) path_keys) kvs"
  using values_under_allowed [of kvs "{k}" path_keys] no_paths [of kvs "{k}"]
  by (auto simp: only_key_def carried_def split: option.splits json.splits)

definition checked :: "json option \<Rightarrow> local_call \<Rightarrow> bool" where
  "checked v c \<longleftrightarrow> list_all plain_path (call_paths c) \<and> length (call_paths c) \<le> 8 \<and>
     (\<exists>kvs. v = Some (JObj kvs) \<and> carried kvs \<subseteq> JStr ` set (call_paths c) \<and>
        (call_operation c = None \<or> call_operation c = operation_id kvs))"

lemmas parser_simps = as_record_Some only_key_Some map_option_Some checked_def
lemmas parser_dests = parseDevicePath_plain device_paths_plain

lemma parse_multiple_checked: "parseReadMultiple v = Some c \<Longrightarrow> checked v c"
  by (auto simp: parseReadMultiple_def parser_simps path_keys_def dest: device_paths_plain
      split: option.splits json.splits if_splits)

lemma parse_list_checked: "parseListSessions v = Some c \<Longrightarrow> checked v c"
  by (auto simp: parseListSessions_def checked_def carried_def path_keys_def obj_get_def split: if_splits)

lemma parse_read_checked:
  "parseLocalRead v = Some c \<Longrightarrow> checked v c"
  "parseListDirectory v = Some c \<Longrightarrow> checked v c"
  "parseFileInfo v = Some c \<Longrightarrow> checked v c"
  "parseSearchStart v = Some c \<Longrightarrow> checked v c"
  "parseSearchSessionId v = Some c \<Longrightarrow> checked v c"
  "parseLocalProcessOutput v = Some c \<Longrightarrow> checked v c"
  by (auto simp: parseLocalRead_def parseListDirectory_def parseFileInfo_def parseSearchStart_def
      parseSearchSessionId_def parseLocalProcessOutput_def parser_simps path_keys_def
      dest: parser_dests split: option.splits if_splits)

lemma parse_mutation_checked:
  "parseLocalWriteFile v = Some c \<Longrightarrow> checked v c \<and> call_operation c \<noteq> None"
  "parseLocalCreateDirectory v = Some c \<Longrightarrow> checked v c \<and> call_operation c \<noteq> None"
  "parseLocalDeleteFile v = Some c \<Longrightarrow> checked v c \<and> call_operation c \<noteq> None"
  "parseLocalEditBlock v = Some c \<Longrightarrow> checked v c \<and> call_operation c \<noteq> None"
  "parseLocalMoveFile v = Some c \<Longrightarrow> checked v c \<and> call_operation c \<noteq> None"
  "parseStartProcess v = Some c \<Longrightarrow> checked v c \<and> call_operation c \<noteq> None"
  "parseLocalProcessInteraction v = Some c \<Longrightarrow> checked v c \<and> call_operation c \<noteq> None"
  "parseLocalProcessTermination v = Some c \<Longrightarrow> checked v c \<and> call_operation c \<noteq> None"
  by (auto simp: parseLocalWriteFile_def parseLocalCreateDirectory_def parseLocalDeleteFile_def parseLocalEditBlock_def
      parseLocalMoveFile_def parseStartProcess_def parseLocalProcessInteraction_def parseLocalProcessTermination_def
      parser_simps path_keys_def dest: parser_dests split: option.splits if_splits)

lemma parsers_checked: "map_of parsers t = Some parse \<Longrightarrow> parse v = Some c \<Longrightarrow> checked v c"
  by (auto simp: parsers_def intro: parse_read_checked parse_multiple_checked parse_list_checked split: if_splits)

lemma mutationParsers_checked:
  "map_of mutationParsers t = Some parse \<Longrightarrow> parse v = Some c \<Longrightarrow> checked v c \<and> call_operation c \<noteq> None"
  by (auto simp: mutationParsers_def dest: parse_mutation_checked split: if_splits)

text \<open>No parser of the first table makes an operation.\<close>

lemma parsers_read_only: "map_of parsers t = Some parse \<Longrightarrow> parse v = Some c \<Longrightarrow> call_operation c = None"
  by (auto simp: parsers_def parseLocalRead_def parseReadMultiple_def parseListDirectory_def parseFileInfo_def
      parseSearchStart_def parseSearchSessionId_def parseListSessions_def parseLocalProcessOutput_def
      split: option.splits json.splits if_splits)

lemma get_with_property: "obj_get (with_property k v kvs) l = (if l = k then Some v else obj_get kvs l)"
proof -
  have "map_of (map (\<lambda>(l, w). if l = k then (l, v) else (l, w)) kvs) l =
      (if l = k then (if k \<in> set (obj_keys kvs) then Some v else None) else map_of kvs l)"
    by (induction kvs) (force simp: obj_keys_def)+
  moreover have "map_of kvs k = None" if "k \<notin> set (obj_keys kvs)"
    using that by (simp add: obj_keys_def map_of_eq_None_iff)
  ultimately show ?thesis
    by (auto simp: with_property_def obj_get_def map_add_def split: option.splits)
qed

lemma operation_carried: "carried (with_property ''operation_id'' v kvs) = carried kvs"
  by (simp add: carried_def path_keys_def get_with_property)

lemma operation_id_merged:
  "operation_id (with_property ''operation_id'' (JStr op) kvs) = (if operation_id_ok op then Some op else None)"
  by (simp add: operation_id_def get_with_property as_str_def)

lemma parseOperationId_Some:
  "parseOperationId v = Some c \<longleftrightarrow> (\<exists>kvs op. v = Some (JObj kvs) \<and> obj_keys kvs = [''operation_id''] \<and>
     operation_id kvs = Some op \<and> c = OperationId op)"
  by (auto simp: parseOperationId_def only_key_def split: option.splits json.splits if_splits)

lemma operation_only_carried: "obj_keys kvs = [''operation_id''] \<Longrightarrow> carried kvs = {}"
  using values_under_allowed [of kvs "{''operation_id''}" path_keys] no_paths [of kvs "{''operation_id''}"]
  by (simp add: carried_def path_keys_def)

lemma valid_operation_checked:
  assumes "valid_operation i tool (Some (JObj kvs)) = Some c"
  shows "checked (Some (JObj (with_property ''operation_id'' (the i) kvs))) c \<and>
    call_operation c = as_str i \<and> as_str i \<noteq> None"
proof -
  obtain op where i: "as_str i = Some op" "i = Some (JStr op)" and ok: "operation_id_ok op"
    using assms by (auto simp: valid_operation_def as_str_def parseOperationId_def only_key_def obj_keys_def
        operation_id_def obj_get_def split: option.splits json.splits if_splits)
  show ?thesis
  proof (cases "tool = Some (JStr ''get_operation_status'')")
    case True
    with assms i have "parseOperationId (Some (JObj kvs)) = Some (OperationId op)" "c = OperationId op"
      by (auto simp: valid_operation_def split: option.splits if_splits local_call.splits)
    with i ok show ?thesis
      by (auto simp: checked_def parseOperationId_Some operation_carried operation_only_carried operation_id_merged)
  next
    case False
    with assms i obtain t parse where "map_of mutationParsers t = Some parse"
        "parse (Some (JObj (with_property ''operation_id'' (JStr op) kvs))) = Some c"
      by (auto simp: valid_operation_def spread_def split: option.splits if_splits)
    then have *: "checked (Some (JObj (with_property ''operation_id'' (JStr op) kvs))) c" "call_operation c \<noteq> None"
      using mutationParsers_checked by blast+
    then have "call_operation c = Some op"
      by (auto simp: checked_def operation_id_merged split: if_splits)
    with * i show ?thesis by simp
  qed
qed

lemma valid_read_checked: "valid_read tool v = Some c \<Longrightarrow> checked v c \<and> call_operation c = None"
  by (auto simp: valid_read_def dest: parsers_checked parsers_read_only split: option.splits)

text \<open>C40: A call that the Worker admits for a device names it by a UUID, and whatever the arguments that
  will be sent hold where the device looks for a path (the items of the array paths included) is a plain
  path: not empty, at most 4096 characters, without NUL, starting with neither two slashes nor two
  backslashes, and neither a URL nor relative to a drive. A mutation carries the operation id of the
  request even when the arguments have one of their own.
\<close>

theorem admitted_call_plain:
  assumes "admitted_call isOperation (Some (JObj arg)) = Some (d, c)"
    and "obj_get arg ''arguments'' = Some (JObj kvs)"
  shows "is_uuid d \<and> carried kvs \<subseteq> JStr ` set (call_paths c) \<and> list_all plain_path (call_paths c) \<and>
    length (call_paths c) \<le> 8 \<and>
    call_operation c = (if isOperation then as_str (obj_get arg ''operation_id'') else None)"
proof (cases isOperation)
  case True
  with assms have "valid_operation (obj_get arg ''operation_id'') (obj_get arg ''tool'') (Some (JObj kvs)) = Some c" "is_uuid d"
    by (auto simp: admitted_call_def split: option.splits if_splits)
  with True valid_operation_checked show ?thesis
    by (auto simp: checked_def operation_carried)
next
  case False
  with assms have "valid_read (obj_get arg ''tool'') (Some (JObj kvs)) = Some c" "is_uuid d"
    by (auto simp: admitted_call_def split: option.splits if_splits)
  with valid_read_checked have "checked (Some (JObj kvs)) c" "call_operation c = None" by blast+
  with False \<open>is_uuid d\<close> show ?thesis
    by (simp add: checked_def)
qed

definition sample_arguments :: "(string \<times> json) list" where
  "sample_arguments = [(''source'', JStr ''C:/work/a.txt''), (''destination'', JStr ''/tmp/b''), (''operation_id'', JStr ''old'')]"

definition sample_body :: "(string \<times> json) list" where
  "sample_body = [(''device_id'', JStr ''00000000-0000-4000-8000-000000000001''), (''tool'', JStr ''move_file''),
     (''operation_id'', JStr ''op-1''), (''arguments'', JObj sample_arguments)]"

definition sample_paths :: "(string \<times> json) list" where
  "sample_paths = [(''paths'', JArr [JStr ''C:/work/a.txt'', JStr ''notes/b''])]"

definition sample_read :: "(string \<times> json) list" where
  "sample_read = [(''device_id'', JStr ''00000000-0000-4000-8000-000000000001''), (''tool'', JStr ''read_multiple_files''),
     (''arguments'', JObj sample_paths)]"

theorem admitted_call_plain_witness:
  "list_all plain_path [''C:/work/a.txt'', ''/tmp/b''] \<and>
   carried sample_arguments \<subseteq> {JStr ''C:/work/a.txt'', JStr ''/tmp/b''} \<and>
   as_str (obj_get sample_body ''operation_id'') = Some ''op-1'' \<and>
   carried sample_paths \<subseteq> {JStr ''C:/work/a.txt'', JStr ''notes/b''}"
proof -
  have "admitted_call True (Some (JObj sample_body)) =
      Some (''00000000-0000-4000-8000-000000000001'', LocalMoveFile ''op-1'' ''C:/work/a.txt'' ''/tmp/b'')"
    by code_simp
  note moved = admitted_call_plain [OF this, of sample_arguments]
  have "admitted_call False (Some (JObj sample_read)) =
      Some (''00000000-0000-4000-8000-000000000001'', LocalReadMultiple [''C:/work/a.txt'', ''notes/b''])"
    by code_simp
  from admitted_call_plain [OF this, of sample_paths] moved show ?thesis
    by (simp add: sample_body_def sample_read_def obj_get_def)
qed

end
