(* ===== verification/Spec2Isabelle.thy ===== *)
theory Spec2Isabelle
  imports SqlGuard SqlWrite SqlAdmin QueryResult PublicEndpoint CronAdmission ChildStart
    BrowserGrants SshSegments RunnerSafety RemoteArguments
begin

text \<open>
  A model of the Cloudflare Workers of this repository that hold state or guard a boundary:
  \<open>database-mcp-worker\<close>, \<open>workflow-mcp-worker\<close>, \<open>browser-mcp-worker\<close>, \<open>ssh-mcp-worker\<close> and, for the calls it
  admits, \<open>remote-control-mcp-worker\<close> under \<open>src/apps\<close>. This theory imports the others; each of them names the source file it translates and
  keeps the names of its functions. The Workers share no state with each other; the components of one
  Worker share its database or its durable object.

  CONVENTIONS. A JavaScript string is a char list of its code units, a number a rational with the
  special values where they can occur, a row a record, a table a map or the list of its rows, a throw
  the left side of a sum, a rejected promise a failed program. Names that HOL takes have a suffix. What
  is not source of this repository (URL parser, digests, ciphers, clocks, SSH and SFTP peers, the
  Workflows engine, remote HTTP and MCP peers) is an argument of the definitions that use it, or an
  arbitrary answer; hypotheses on such an argument are stated in the theorem that needs them.

  SHARED. \<open>Prelude\<close> has the string and list vocabulary, the error monad and the locales \<open>machine\<close>,
  \<open>walking_machine\<close> and \<open>evolving_machine\<close> (invariants, single steps and histories of step functions). \<open>Json\<close>, \<open>WebTypes\<close>, \<open>Utf8\<close> and
  \<open>Base64\<close> hold JSON values, request values, UTF-8 and strict base64.

  DATABASE. \<open>SqlLex\<close> and \<open>SqlGuard\<close> are \<open>sql/guard.ts\<close>: the scanner that blanks literals and comments (an
  instance of the locale \<open>skipper\<close> per kind of token), \<open>guardReadQuery\<close>, the timeout injection and the
  preview; proved is that an accepted statement, as it is handed on, is one statement without forbidden
  words and functions. \<open>SqlWrite\<close> and \<open>SqlAdmin\<close> are the statement builders of \<open>sql/write.ts\<close> and \<open>sql/admin.ts\<close>,
  with identifier quoting and bound values; \<open>QueryResult\<close> is \<open>result.ts\<close> (row, byte and depth limits);
  \<open>PublicEndpoint\<close> the admission of a direct endpoint (\<open>public-endpoint.ts\<close>, \<open>config.ts\<close>); \<open>DbTypes\<close> their errors.

  WORKFLOW, RUNS AND CHILDREN. \<open>Cron\<close> and \<open>CronAdmission\<close> are \<open>cron.ts\<close> and \<open>scheduled.ts\<close>: parser, matcher, the
  paging and accounting of one tick. \<open>RunStore\<close> has the run tables and every statement of the child
  capacity code on them, with the run life cycle and the capacity bound as invariants of any sequence of
  statements; \<open>ChildStart\<close> the handlers of \<open>child-capacity.ts\<close>, \<open>child-cancel.ts\<close> and \<open>instance-observation.ts\<close>
  as programs of \<open>Program\<close> (see below), one request per statement or native call, with the interpretation
  \<open>children\<close> of \<open>stock\<close>: in any pool of interleaved handlers the native instance of a detached child is asked
  for at most once.

  WORKFLOW, PLANS. \<open>PlanExpr\<close> is the expression language of \<open>plan.ts\<close>, its static check and its evaluator:
  type soundness, and that a checked expression reads nothing but what its step declares. \<open>PlanValues\<close> has
  the canonical form, the literal bodies and the static output types; \<open>PlanGraph\<close> the sort of the steps.
  The rest of \<open>compilePlan\<close> (shapes of triggers, flows and provider actions) is not modelled.

  WORKFLOW, RUNNER. \<open>Program\<close> models asynchronous code: a \<open>prog\<close> is a tree of requests and answers, \<open>bindP\<close>,
  \<open>catchP\<close> and \<open>all_of\<close> are sequencing, \<open>try\<close> and \<open>Promise.all\<close>; a \<open>discipline\<close> says which facts a request needs
  and which tokens it uses up, \<open>follows\<close> and \<open>keeps\<close> that a program observes it, and the locale \<open>stock\<close> that a pool
  of such programs never spends more than was issued, however they interleave, die or are started again.
  \<open>RunnerWorld\<close> has the tables, the requests and their effect (\<open>perform\<close>), the answers with all faults (an
  error before or after the effect) and what other handlers do meanwhile (\<open>others\<close>: authorization, approvals,
  cancellations, the bookkeeping of starts, the step rows of other handlers). \<open>RunnerCalls\<close> has the
  external calls (\<open>callApprovedMcp\<close>, \<open>http-action.ts\<close>, \<open>portal-authorization.ts\<close>, \<open>mcp-write-contract.ts\<close>);
  \<open>RunnerSteps\<close> and \<open>RunnerFlows\<close> the kinds of step and the approval gate (\<open>runtime-approval.ts\<close>); \<open>Runner\<close> child runs,
  one step, the waves and \<open>WorkflowOrchestrator.run\<close>. \<open>RunnerRules\<close> states the discipline of the runner,
  \<open>RunnerOrder\<close> proves that every kind of step and the whole run observe it, \<open>RunnerSafety\<close> draws the
  conclusions. The interpretation \<open>calls\<close> discharges the laws of \<open>stock\<close> for the model's tables.

  BROWSER. \<open>BrowserIntents\<close> is the intent ledger of \<open>interactions.ts\<close> and \<open>intents.ts\<close>, \<open>BrowserLedger\<close> its runs, with
  the life cycle as an abstract specification. \<open>BrowserOwner\<close> and \<open>BrowserHandlers\<close> are \<open>coordinator.ts\<close>: the tables
  of the durable object and its handlers, split at their pauses, with arbitrary code run at a pause;
  \<open>BrowserGrants\<close> proves how a grant may evolve through all of them.

  SSH. \<open>SshTarget\<close> is \<open>validation.ts\<close>, \<open>target-security.ts\<close> and \<open>public-target.ts\<close>; \<open>SshHosts\<close> is \<open>hosts.ts\<close> and
  \<open>result-budget.ts\<close>. The durable object of \<open>operations.ts\<close> is spread over \<open>OutputRing\<close> and \<open>SessionOutput\<close> (the
  output buffer, refined to an append-only log through the locale \<open>byte_log\<close>), \<open>SshRemote\<close> (commands and SFTP with
  deadlines and an arbitrary remote host), \<open>SshStore\<close> (tables, storage faults, capacity, retention),
  \<open>SshOperations\<close> and \<open>SshSessions\<close> (the handlers). \<open>SshEvolves\<close> proves what each handler keeps while others run.
  Two theories draw conclusions: \<open>SshHistory\<close> over histories of completed handlers, each with other handlers
  run inside its pauses, and restarts between them; \<open>SshSegments\<close> over the log of segments between pauses that
  the model keeps, in every interleaving of the segments of any handlers, those that a restart cuts off included.

  REMOTE CONTROL. \<open>RemoteArguments\<close> is \<open>local-read.ts\<close> and the head of \<open>readFile\<close> in \<open>v2-pairing.ts\<close>: what the Worker
  admits as a call for a device, and that a device sees plain paths and the operation id of the request.

  BOUNDS AND FUEL. Loops follow the bounds of the code (eight rounds of a loop, 21 and 120 looks at a
  child, 20 wakes of a gate, 8192 bytes of a response); recursion is structural or has a measure
  (\<open>run_waves\<close> and \<open>plan_waves\<close>: the pending steps). A \<open>prog\<close> has no infinite branch, so that a run always
  comes to its end if each of its requests is answered. Where fuel occurs it is the length of the input and a
  theorem says that it is enough.

  SIMPLIFICATIONS. The table that a cron tick pages through does not change during the tick. A D1 statement and the code of a handler between two pauses are atomic, as on the
  platform. After one branch of a \<open>Promise.all\<close> has thrown, the others go on only until the throw reaches
  the surrounding code. A timeout of the engine is an answer that throws. The code between two uses of a
  checkpoint is the same on a replay; its clock readings are answers. A JSON column holds the value
  that it encodes, and the byte length and digest of JSON text are parameters.

  NOT MODELLED. The MCP surfaces and routing, draft and publish statements of \<open>store.ts\<close>, the GitHub and
  provider actions of the workflow Worker (arbitrary answers for the runner), the database drivers, the
  browser extension and the Workers that only forward to an API (raindrop, ima, github-actions): they
  keep no state that the properties above could be about, or rest on signatures and protocols of others.
  Pairing, sessions and installers of the remote-control Worker and the release scripts are left out as well.
\<close>

end
